(* ===== verification/Prelude.thy ===== *)
theory Prelude
  imports
    Main
    "HOL-Library.Char_ord"
    "HOL-Library.List_Lexorder"
    "HOL-Library.Product_Lexorder"
begin

text \<open>
  What every component of the model shares.  A database table is the list of its rows in physical
  order, a query is a filter followed by a stable sort and a limit, and an update rewrites the rows
  its condition selects.  A nullable column is an option, and a comparison with a NULL is never
  true.
  Timestamps are integers counting milliseconds, the unit of the JavaScript dates of the source.
\<close>

named_theorems table_simps \<open>equations of the table operations\<close>
named_theorems frame_simps \<open>what an operation leaves unchanged\<close>

type_synonym time = int
type_synonym id = string
type_synonym env = "string \<Rightarrow> string option"

section \<open>Nullable columns\<close>

text \<open>A condition on a nullable column: NULL makes it unknown, and a row is kept on true only.\<close>

definition on_some :: "('a \<Rightarrow> bool) \<Rightarrow> 'a option \<Rightarrow> bool" where
  "on_some P x = (case x of None \<Rightarrow> False | Some a \<Rightarrow> P a)"

lemma on_some_simps [simp]:
  "on_some P None = False"
  "on_some P (Some a) = P a"
  by (simp_all add: on_some_def)

lemma on_some_iff: "on_some P x \<longleftrightarrow> (\<exists>a. x = Some a \<and> P a)"
  by (cases x) auto

text \<open>\<open>GREATEST\<close> of two nullable values ignores the NULLs.\<close>

fun greatest :: "'a::linorder option \<Rightarrow> 'a option \<Rightarrow> 'a option" where
  "greatest None y = y"
| "greatest x None = x"
| "greatest (Some a) (Some b) = Some (max a b)"

lemma greatest_None [simp]: "greatest x None = x"
  by (cases x) auto

lemma greatest_less: "on_some (\<lambda>t. t < c) (greatest x y) \<longleftrightarrow>
    (x \<noteq> None \<or> y \<noteq> None) \<and> (\<forall>a. x = Some a \<longrightarrow> a < c) \<and> (\<forall>b. y = Some b \<longrightarrow> b < c)"
  by (cases x; cases y) auto

text \<open>The value of a nullable expression with a default, the source's \<open>??\<close>.\<close>

definition coalesce :: "'a option \<Rightarrow> 'a \<Rightarrow> 'a" where
  "coalesce x d = (case x of None \<Rightarrow> d | Some a \<Rightarrow> a)"

lemma coalesce_simps [simp]:
  "coalesce None d = d"
  "coalesce (Some a) d = a"
  by (simp_all add: coalesce_def)

text \<open>JavaScript's \<open>||\<close> on a nullable number: zero counts as missing too.\<close>

definition number_or :: "int option \<Rightarrow> int \<Rightarrow> int" where
  "number_or x d = (case x of None \<Rightarrow> d | Some a \<Rightarrow> if a = 0 then d else a)"

lemma number_or_simps [simp]:
  "number_or None d = d"
  "number_or (Some 0) d = d"
  "a \<noteq> 0 \<Longrightarrow> number_or (Some a) d = a"
  by (simp_all add: number_or_def)

section \<open>Tables\<close>

definition update_where :: "('r \<Rightarrow> bool) \<Rightarrow> ('r \<Rightarrow> 'r) \<Rightarrow> 'r list \<Rightarrow> 'r list" where
  "update_where P f t = map (\<lambda>r. if P r then f r else r) t"

definition delete_where :: "('r \<Rightarrow> bool) \<Rightarrow> 'r list \<Rightarrow> 'r list" where
  "delete_where P t = filter (\<lambda>r. \<not> P r) t"

definition first_row :: "'r list \<Rightarrow> 'r option" where
  "first_row t = (case t of [] \<Rightarrow> None | r # _ \<Rightarrow> Some r)"

definition order_asc :: "('r \<Rightarrow> 'k::linorder) \<Rightarrow> 'r list \<Rightarrow> 'r list" where
  "order_asc k t = sort_key k t"

definition order_desc :: "('r \<Rightarrow> int) \<Rightarrow> 'r list \<Rightarrow> 'r list" where
  "order_desc k t = sort_key (\<lambda>r. - k r) t"

definition inner_join :: "('a \<Rightarrow> 'b \<Rightarrow> bool) \<Rightarrow> 'a list \<Rightarrow> 'b list \<Rightarrow> ('a \<times> 'b) list" where
  "inner_join P t u = concat (map (\<lambda>a. map (Pair a) (filter (P a) u)) t)"

lemma set_inner_join [simp]:
  "set (inner_join P t u) = {(a, b). a \<in> set t \<and> b \<in> set u \<and> P a b}"
  by (auto simp: inner_join_def)

lemma inner_join_simps [simp]:
  "inner_join P [] u = []"
  "inner_join P (a # t) u = map (Pair a) (filter (P a) u) @ inner_join P t u"
  by (simp_all add: inner_join_def)

lemma first_row_simps [simp]:
  "first_row [] = None"
  "first_row (r # t) = Some r"
  by (simp_all add: first_row_def)

lemma first_row_None_iff [simp]: "first_row t = None \<longleftrightarrow> t = []"
  by (cases t) auto

lemma first_row_filter_None: "first_row (filter P t) = None \<longleftrightarrow> (\<forall>r\<in>set t. \<not> P r)"
  by (simp add: filter_empty_conv)

lemma first_row_in: "first_row t = Some r \<Longrightarrow> r \<in> set t"
  by (cases t) auto

lemma first_row_filter_in: "first_row (filter P t) = Some r \<Longrightarrow> r \<in> set t \<and> P r"
  by (metis filter_is_subset first_row_in mem_Collect_eq set_filter subsetD)

lemma update_where_simps [simp]:
  "update_where P f [] = []"
  "update_where P f (r # t) = (if P r then f r else r) # update_where P f t"
  by (simp_all add: update_where_def)

lemma update_where_append [simp]:
  "update_where P f (t @ u) = update_where P f t @ update_where P f u"
  by (simp add: update_where_def)

lemma length_update_where [simp]: "length (update_where P f t) = length t"
  by (simp add: update_where_def)

lemma set_update_where:
  "set (update_where P f t) = (\<lambda>r. if P r then f r else r) ` set t"
  by (simp add: update_where_def)

lemma in_update_where_iff:
  "r \<in> set (update_where P f t) \<longleftrightarrow>
    (\<exists>q\<in>set t. if P q then r = f q else r = q)"
  by (auto simp: set_update_where image_iff split: if_splits)

lemma update_where_none: "(\<And>r. r \<in> set t \<Longrightarrow> \<not> P r) \<Longrightarrow> update_where P f t = t"
  by (induction t) auto

lemma update_where_cong_filter:
  assumes "\<And>r. r \<in> set t \<Longrightarrow> P r \<Longrightarrow> Q (f r) = Q r"
    and "\<And>r. r \<in> set t \<Longrightarrow> P r \<Longrightarrow> Q r \<Longrightarrow> False"
  shows "filter Q (update_where P f t) = filter Q t"
  using assms by (induction t) auto

lemma map_update_where:
  "(\<And>r. r \<in> set t \<Longrightarrow> P r \<Longrightarrow> k (f r) = k r) \<Longrightarrow> map k (update_where P f t) = map k t"
  by (induction t) auto

lemma updated_in: "r \<in> set t \<Longrightarrow> P r \<Longrightarrow> f r \<in> set (update_where P f t)"
  by (auto simp: in_update_where_iff)

lemma filter_narrower: "(\<And>r. r \<in> set t \<Longrightarrow> A r \<Longrightarrow> B r) \<Longrightarrow> filter A t = filter A (filter B t)"
  by (induction t) auto

lemma filter_agree:
  assumes "filter B t = filter B t'" "\<And>r. r \<in> set t \<union> set t' \<Longrightarrow> A r \<Longrightarrow> B r"
  shows "filter A t = filter A t'"
  using filter_narrower [of t A B] filter_narrower [of t' A B] assms by auto

lemma filter_update_where:
  "(\<And>r. r \<in> set t \<Longrightarrow> P r \<Longrightarrow> \<not> A r \<and> \<not> A (f r)) \<Longrightarrow> filter A (update_where P f t) = filter A t"
  by (induction t) auto

lemma filter_the_row: "r \<in> set t \<Longrightarrow> distinct (map key t) \<Longrightarrow> filter (\<lambda>q. key q = key r) t = [r]"
proof (induction t)
  case (Cons q t)
  then show ?case by (cases "q = r") (auto simp: filter_empty_conv image_iff)
qed simp

lemma set_delete_where [simp]: "set (delete_where P t) = {r \<in> set t. \<not> P r}"
  by (auto simp: delete_where_def)

lemma delete_where_simps [simp]:
  "delete_where P [] = []"
  "delete_where P (r # t) = (if P r then delete_where P t else r # delete_where P t)"
  by (simp_all add: delete_where_def)

lemma delete_where_append [simp]:
  "delete_where P (t @ u) = delete_where P t @ delete_where P u"
  by (simp add: delete_where_def)

lemma filter_delete_where: "(\<And>r. A r \<Longrightarrow> \<not> B r) \<Longrightarrow> filter A (delete_where B t) = filter A t"
  by (induction t) auto

lemma order_Nil [simp]: "order_asc k [] = []" "order_desc k [] = []"
  by (simp_all add: order_asc_def order_desc_def)

lemma set_order_asc [simp]: "set (order_asc k t) = set t"
  by (simp add: order_asc_def)

lemma set_order_desc [simp]: "set (order_desc k t) = set t"
  by (simp add: order_desc_def)

lemma length_order_asc [simp]: "length (order_asc k t) = length t"
  by (simp add: order_asc_def)

lemma length_order_desc [simp]: "length (order_desc k t) = length t"
  by (simp add: order_desc_def)

lemma sorted_order_asc: "sorted (map k (order_asc k t))"
  by (simp add: order_asc_def)

lemma order_asc_Nil_iff [simp]: "order_asc k t = [] \<longleftrightarrow> t = []"
  by (metis length_0_conv length_order_asc)

lemma order_desc_Nil_iff [simp]: "order_desc k t = [] \<longleftrightarrow> t = []"
  by (metis length_0_conv length_order_desc)

lemma distinct_order_asc [simp]: "distinct (order_asc k t) = distinct t"
  by (simp add: order_asc_def)

text \<open>The newest row of a table: no row of the table is newer.\<close>

lemma first_order_desc:
  assumes "first_row (order_desc k t) = Some r"
  shows "r \<in> set t" "\<And>q. q \<in> set t \<Longrightarrow> k q \<le> k r"
proof -
  show "r \<in> set t" using assms first_row_in by fastforce
  fix q assume "q \<in> set t"
  moreover have "sorted (map (\<lambda>r. - k r) (order_desc k t))"
    by (simp add: order_desc_def)
  moreover obtain rest where "order_desc k t = r # rest"
    using assms by (cases "order_desc k t") auto
  moreover have "q \<in> set (order_desc k t)" using \<open>q \<in> set t\<close> by simp
  ultimately show "k q \<le> k r" by auto
qed

text \<open>A row that is newer than the whole table becomes the newest one.\<close>

lemma insort_front: "(\<And>q. q \<in> set t \<Longrightarrow> k r \<le> k q) \<Longrightarrow> insort_key k r t = r # t"
  by (cases t) auto

lemma order_desc_append_newest:
  assumes "\<And>q. q \<in> set t \<Longrightarrow> k q < k r"
  shows "order_desc k (t @ [r]) = r # order_desc k t"
proof -
  have "sort_key (\<lambda>r. - k r) (t @ [r]) = insort_key (\<lambda>r. - k r) r (sort_key (\<lambda>r. - k r) t)"
    using assms
  proof (induction t)
    case (Cons a t)
    then have "insort_key (\<lambda>r. - k r) a (insort_key (\<lambda>r. - k r) r (sort_key (\<lambda>r. - k r) t))
      = insort_key (\<lambda>r. - k r) r (insort_key (\<lambda>r. - k r) a (sort_key (\<lambda>r. - k r) t))"
      by (intro insort_key_left_comm) (metis list.set_intros(1) neg_equal_iff_equal less_irrefl)
    with Cons show ?case by simp
  qed simp
  also have "\<dots> = r # sort_key (\<lambda>r. - k r) t"
    using assms by (intro insort_front) (auto simp: less_imp_le)
  finally show ?thesis by (simp add: order_desc_def)
qed

lemma first_order_desc_append_newest [simp]:
  "(\<And>q. q \<in> set t \<Longrightarrow> k q < k r) \<Longrightarrow> first_row (order_desc k (t @ [r])) = Some r"
  by (simp add: order_desc_append_newest)

section \<open>Inserts that meet a row of their key\<close>

text \<open>
  An insert with \<open>ON CONFLICT\<close>: with a row of the new row's key in the table it does nothing, or
  rewrites that row if the clause has an update.
\<close>

definition insert_new :: "('r \<Rightarrow> 'k) \<Rightarrow> 'r \<Rightarrow> 'r list \<Rightarrow> 'r list" where
  "insert_new key r t = (if key r \<in> key ` set t then t else t @ [r])"

definition upsert :: "('r \<Rightarrow> 'k) \<Rightarrow> ('r \<Rightarrow> 'r) \<Rightarrow> 'r \<Rightarrow> 'r list \<Rightarrow> 'r list" where
  "upsert key f r t = (if key r \<in> key ` set t then update_where (\<lambda>q. key q = key r) f t else t @ [r])"

lemma insert_new_old [table_simps]: "r \<in> set t \<Longrightarrow> insert_new key r t = t"
  by (simp add: insert_new_def)

lemma insert_new_known [table_simps]: "key r \<in> key ` set t \<Longrightarrow> insert_new key r t = t"
  by (simp add: insert_new_def)

lemma insert_new_fresh [table_simps]: "key r \<notin> key ` set t \<Longrightarrow> insert_new key r t = t @ [r]"
  by (simp add: insert_new_def)

lemma set_insert_new: "set t \<subseteq> set (insert_new key r t)" "set (insert_new key r t) \<subseteq> insert r (set t)"
  by (auto simp: insert_new_def)

lemma insert_new_keys: "key ` set (insert_new key r t) = insert (key r) (key ` set t)"
  by (auto simp: insert_new_def)

lemma distinct_insert_new [intro]: "distinct (map key t) \<Longrightarrow> distinct (map key (insert_new key r t))"
  by (auto simp: insert_new_def)

section \<open>Sets built from arrays\<close>

text \<open>\<open>[...new Set(xs)]\<close>: the elements in the order they first occur.\<close>

definition unique :: "'a list \<Rightarrow> 'a list" where
  "unique xs = rev (remdups (rev xs))"

lemma set_unique [simp]: "set (unique xs) = set xs"
  by (simp add: unique_def)

lemma distinct_unique [simp]: "distinct (unique xs)"
  by (simp add: unique_def)

lemma unique_Nil_iff [simp]: "unique xs = [] \<longleftrightarrow> xs = []"
  by (simp add: unique_def)

section \<open>White space\<close>

definition is_space :: "char \<Rightarrow> bool" where
  "is_space c \<longleftrightarrow> of_char c \<in> {9, 10, 11, 12, 13, 32, 160 :: nat}"

definition trim :: "string \<Rightarrow> string" where
  "trim s = rev (dropWhile is_space (rev (dropWhile is_space s)))"

section \<open>Text\<close>

text \<open>
  \<open>toLowerCase()\<close> and the database's \<open>lower\<close> on the letters the two agree on, and the join of an
  array with a separator.
\<close>

definition lower_char :: "char \<Rightarrow> char" where
  "lower_char c = (if 65 \<le> (of_char c :: nat) \<and> of_char c \<le> (90 :: nat) then char_of (of_char c + 32 :: nat) else c)"

definition lower :: "string \<Rightarrow> string" where
  "lower s = map lower_char s"

lemma lower_char_idem: "lower_char (lower_char c) = lower_char c"
  by (simp add: lower_char_def)

lemma lower_idem [simp]: "lower (lower s) = lower s"
  by (simp add: lower_def lower_char_idem)

fun join :: "string \<Rightarrow> string list \<Rightarrow> string" where
  "join sep [] = []"
| "join sep [x] = x"
| "join sep (x # y # xs) = x @ sep @ join sep (y # xs)"

text \<open>A text with each run of characters that are not white space rewritten; the run so far comes in.\<close>

fun rewrite_words :: "(string \<Rightarrow> string) \<Rightarrow> string \<Rightarrow> string \<Rightarrow> string" where
  "rewrite_words f w [] = f w"
| "rewrite_words f w (c # s) =
    (if is_space c then f w @ c # rewrite_words f [] s else rewrite_words f (w @ [c]) s)"

section \<open>Grouping\<close>

text \<open>
  \<open>Map.groupBy\<close> and the fold that builds a Map of lists: the keys in the order they first occur,
  each with its elements in their order.
\<close>

fun group_insert :: "'k \<Rightarrow> 'a \<Rightarrow> ('k \<times> 'a list) list \<Rightarrow> ('k \<times> 'a list) list" where
  "group_insert k x [] = [(k, [x])]"
| "group_insert k x ((j, ys) # gs) = (if j = k then (j, ys @ [x]) # gs else (j, ys) # group_insert k x gs)"

definition group_by :: "('a \<Rightarrow> 'k) \<Rightarrow> 'a list \<Rightarrow> ('k \<times> 'a list) list" where
  "group_by f xs = fold (\<lambda>x. group_insert (f x) x) xs []"

lemma map_of_group_insert:
  "map_of (group_insert k x gs) = (map_of gs)(k \<mapsto> coalesce (map_of gs k) [] @ [x])"
  by (induction k x gs rule: group_insert.induct) (auto simp: fun_eq_iff)

lemma keys_group_insert:
  "map fst (group_insert k x gs) = (if k \<in> set (map fst gs) then map fst gs else map fst gs @ [k])"
  by (induction k x gs rule: group_insert.induct) auto

lemma distinct_group_insert:
  "distinct (map fst gs) \<Longrightarrow> distinct (map fst (group_insert k x gs))"
  by (simp add: keys_group_insert)

lemma group_by_append:
  "group_by f (xs @ [x]) = group_insert (f x) x (group_by f xs)"
  by (simp add: group_by_def)

lemma distinct_group_by: "distinct (map fst (group_by f xs))"
  by (induction xs rule: rev_induct) (simp_all add: group_by_append distinct_group_insert, simp add: group_by_def)

lemma keys_group_by: "fst ` set (group_by f xs) = f ` set xs"
proof (induction xs rule: rev_induct)
  case (snoc x xs)
  have "set (map fst (group_by f (xs @ [x]))) = insert (f x) (set (map fst (group_by f xs)))"
    by (auto simp: group_by_append keys_group_insert)
  with snoc show ?case by simp
qed (simp add: group_by_def)

lemma map_of_group_by:
  "map_of (group_by f xs) k = (if k \<in> f ` set xs then Some (filter (\<lambda>x. f x = k) xs) else None)"
proof (induction xs rule: rev_induct)
  case Nil
  then show ?case by (simp add: group_by_def)
next
  case (snoc x xs)
  have "k \<notin> f ` set xs \<Longrightarrow> filter (\<lambda>x. f x = k) xs = []"
    by (auto simp: filter_empty_conv)
  with snoc show ?case
    by (auto simp: group_by_append map_of_group_insert coalesce_def)
qed

lemma in_group_by_iff:
  "(k, ys) \<in> set (group_by f xs) \<longleftrightarrow> k \<in> f ` set xs \<and> ys = filter (\<lambda>x. f x = k) xs"
proof -
  have "(k, ys) \<in> set (group_by f xs) \<longleftrightarrow> map_of (group_by f xs) k = Some ys"
    using distinct_group_by by (metis map_of_eq_Some_iff)
  then show ?thesis by (auto simp: map_of_group_by)
qed

section \<open>Life cycles\<close>

text \<open>
  The contract of a status column: the moves the operations may make, and the statuses no
  operation leaves.  A row whose status is final keeps it through any number of operations.
\<close>

locale lifecycle =
  fixes moves :: "'s \<Rightarrow> 's \<Rightarrow> bool"
    and final :: "'s \<Rightarrow> bool"
  assumes stays [simp]: "moves s s"
    and final_kept: "final s \<Longrightarrow> moves s t \<Longrightarrow> t = s"
begin

lemma final_forever: "moves\<^sup>*\<^sup>* s t \<Longrightarrow> final s \<Longrightarrow> t = s"
  by (induction rule: rtranclp_induct) (auto dest: final_kept)

lemma all_moves_refl: "list_all2 (\<lambda>r q. moves (st r) (st q)) t t"
  by (simp add: list_all2_same)

lemma all_moves_update:
  "(\<And>r. r \<in> set t \<Longrightarrow> P r \<Longrightarrow> moves (st r) (st (f r))) \<Longrightarrow>
   list_all2 (\<lambda>r q. moves (st r) (st q)) t (update_where P f t)"
  by (induction t) auto

lemma final_row_forever:
  assumes "list_all2 (\<lambda>r q. key r = key q \<and> moves (st r) (st q)) t u"
    and "r \<in> set t" "final (st r)"
  shows "\<exists>q\<in>set u. key q = key r \<and> st q = st r"
proof -
  from assms(2) obtain i where i: "i < length t" "t ! i = r" by (auto simp: in_set_conv_nth)
  from assms(1) have len: "length u = length t" by (simp add: list_all2_lengthD)
  have "key r = key (u ! i) \<and> moves (st r) (st (u ! i))"
    using list_all2_nthD [OF assms(1) i(1)] i(2) by simp
  then have "key (u ! i) = key r" "st (u ! i) = st r"
    using final_kept [OF assms(3)] by simp_all
  with i(1) len show ?thesis by (intro bexI [of _ "u ! i"]) simp_all
qed

end

section \<open>Folding a step over rows\<close>

text \<open>What every step keeps, a loop over the rows keeps.\<close>

lemma fold_invariant:
  "I s \<Longrightarrow> (\<And>r s. r \<in> set rs \<Longrightarrow> I s \<Longrightarrow> I (f r s)) \<Longrightarrow> I (fold f rs s)"
  by (induction rs arbitrary: s) auto

lemma fold_frame:
  "(\<And>r s. r \<in> set rs \<Longrightarrow> g (f r s) = g s) \<Longrightarrow> g (fold f rs s) = g s"
  by (induction rs arbitrary: s) auto

section \<open>Updates that keep a table's key\<close>

text \<open>
  Every table of the schema has a primary key and no update rewrites one.  The contract of such an
  update: the key column stays, so the rows of the other keys, the list of keys and its uniqueness
  stay as they were.
\<close>

locale keyed_update =
  fixes key :: "'r \<Rightarrow> 'k"
    and f :: "'r \<Rightarrow> 'r"
  assumes key_kept [simp]: "key (f r) = key r"
begin

lemma keys_kept [simp]: "map key (update_where P f t) = map key t"
  by (induction t) auto

lemma other_rows_kept:
  "(\<And>r. P r \<Longrightarrow> key r = k) \<Longrightarrow> k' \<noteq> k \<Longrightarrow>
   filter (\<lambda>r. key r = k') (update_where P f t) = filter (\<lambda>r. key r = k') t"
  by (induction t) auto

lemma the_row_updated:
  "filter (\<lambda>r. key r = k) (update_where (\<lambda>r. key r = k) f t) =
   map f (filter (\<lambda>r. key r = k) t)"
  by (induction t) auto

end

end
