(* ===== verification/Schema.thy ===== *)
theory Schema
  imports Complex_Main Prelude
begin

text \<open>
  The tables of \<open>lib/server/db/schema.ts\<close> and of \<open>lib/server/db/auth-schema.ts\<close> the model
  reads: one record per table, one field per column, a nullable column as an option, the text
  columns that hold one of a few words as datatypes.  The JSON payload of a notification event is
  the union of the shapes \<open>lib/server/notifications/events.ts\<close> writes, with the
  \<open>retry\<close> and \<open>mailServerDown\<close> keys the notifier merges into it as fields of their own.
\<close>

section \<open>The words of the text columns\<close>

(* src/src/lib/constants/status.ts:1-3 MONITOR_STATUSES *)
datatype status = Up | Down | Degraded | Unknown

text \<open>The type column is free text: the probe has a branch for a type it does not know.\<close>

datatype monitor_type = HttpMonitor | TcpMonitor | PushMonitor | OtherMonitor string

(* src/src/lib/constants/status.ts:5-13 INCIDENT_STATUSES *)
datatype incident_status = Investigating | Identified | Monitoring | Resolved | Postmortem

(* src/src/lib/constants/status.ts:30-32 INCIDENT_IMPACTS *)
datatype incident_impact = NoImpact | Minor | Major | Critical

(* src/src/lib/server/notifications/types.ts:5-15 NotificationType *)
datatype notificationType =
    Monitor_down
  | Monitor_up
  | Monitor_degraded
  | Monitor_checks_stopped
  | Monitor_checks_resumed
  | Monitor_flapping
  | Incident_created
  | Incident_updated
  | Incident_resolved
  | Ssl_expiry_warning

text \<open>An event row is a notification, or the confirmation email of a channel.\<close>

(* src/src/lib/server/notifications/events.ts:46-46 CHANNEL_CONFIRMATION_EVENT *)
datatype event_type = Notice notificationType | ChannelConfirmation

(* src/src/lib/server/notifications/events.ts:48-54 RETRY_QUEUED *)
datatype event_status =
    EvPending
  | EvProcessing
  | EvProcessed
  | EvSuppressed
  | EvFailed
  | EvPartial
  | EvSent
  | RetryQueued
  | RetrySending
  | ConfirmationQueued
  | ConfirmationSending

datatype log_status = LogSent | LogFailed

datatype mail_fault = Bounce | Complaint

(* src/src/lib/types/plans.ts:1-4 NotificationChannelType *)
datatype channel_type = EmailChannel | SlackChannel | DiscordChannel | WebhookChannel

datatype window_status = WScheduled | WInProgress | WCompleted | WCancelled

(* src/src/lib/types/plans.ts:19-22 SubscriptionStatus *)
datatype subscription_status = SubActive | SubCanceled | SubPastDue | SubTrialing

(* src/src/lib/types/plans.ts:24-25 BillingInterval *)
datatype billing_interval = BillDay | BillWeek | BillMonth | BillYear

(* src/src/lib/types/plans.ts:27-31 CapacityNoticeKind *)
datatype capacity_notice = NoticeOver | NoticeWeek | NoticeDay | NoticePaused

section \<open>Event payloads\<close>

(* src/src/lib/server/notifications/events.ts:11-65 MonitorStatusEventPayload *)
datatype event_payload =
    StatusPayload (pl_previousStatus: "status option") (pl_newStatus: status)
      (pl_consecutiveFailures: int) (pl_errorMessage: "string option") (pl_checkId: id)
  | SslPayload (pl_daysRemaining: int) (pl_sslExpiresAt: time) (pl_sslIssuer: "string option")
  | CheckStatePayload
  | FlapPayload (pl_settleSeconds: int) (pl_reminderSeconds: int)
  | IncidentPayload (pl_updateId: "id option") (pl_updateMessage: "string option")
  | ConfirmationPayload (pl_channelId: id) (pl_sendId: id) (pl_email: string)
      (pl_requestedBy: string) (pl_prevConfirmationSentAt: "time option")
      (pl_prevUnsubscribedAt: "time option") (pl_reasked: bool)

(* src/src/lib/server/notifications/events.ts:56-66 DeliveryProgress *)
record delivery_progress =
  dp_owed :: "id list"
  dp_reached :: bool
  dp_rejected :: "string list"
  dp_mailServerDown :: bool

(* src/src/lib/server/notifications/events.ts:68-76 QueuedRetry *)
record queued_retry = delivery_progress +
  qr_attempt :: int
  qr_nextAt :: time

(* src/src/lib/server/db/schema.ts:435-450 config *)
record channel_config =
  cfg_email :: "string option"
  cfg_webhookUrl :: "string option"
  cfg_channel :: "string option"
  cfg_discordWebhookUrl :: "string option"
  cfg_url :: "string option"
  cfg_method :: "string option"
  cfg_headers :: "(string \<times> string) list option"
  cfg_bodyTemplate :: "string option"


section \<open>Monitors\<close>

(* src/src/lib/server/db/schema.ts:26-98 monitor *)
record monitor_row =
  m_id :: id
  m_organizationId :: id
  m_name :: string
  m_description :: "string option"
  m_type :: monitor_type
  m_active :: bool
  m_url :: "string option"
  m_method :: "string option"
  m_headers :: "(string \<times> string) list option"
  m_body :: "string option"
  m_expectedStatusCodes :: "int list option"
  m_expectedBodyContains :: "string option"
  m_followRedirects :: bool
  m_acceptSelfSigned :: bool
  m_hostname :: "string option"
  m_port :: "int option"
  m_pushToken :: "string option"
  m_pushGracePeriodSeconds :: "int option"
  m_intervalSeconds :: int
  m_timeoutSeconds :: int
  m_retries :: int
  m_sslCheckEnabled :: bool
  m_sslExpiryThresholdDays :: "int option"
  m_alertAfterFailures :: int
  m_createdAt :: time
  m_updatedAt :: time
  m_nextCheckAt :: "time option"
  m_checkRetryCount :: "int option"
  m_checkLastError :: "string option"
  m_checkBackoffUntil :: "time option"
  m_deadLetteredAt :: "time option"
  m_capacityPausedAt :: "time option"

(* src/src/lib/server/db/schema.ts:100-139 monitorCheck *)
record monitorCheck_row =
  c_id :: id
  c_monitorId :: id
  c_status :: status
  c_statusCode :: "int option"
  c_responseTimeMs :: "int option"
  c_errorMessage :: "string option"
  c_dnsMs :: "int option"
  c_connectMs :: "int option"
  c_tlsMs :: "int option"
  c_firstByteMs :: "int option"
  c_redirectCount :: "int option"
  c_sslExpiresAt :: "time option"
  c_sslIssuer :: "string option"
  c_checkedAt :: time
  c_region :: "string option"
  c_processedAt :: "time option"

(* src/src/lib/server/db/schema.ts:141-156 monitorStatus *)
record monitorStatus_row =
  s_monitorId :: id
  s_status :: status
  s_lastCheckAt :: "time option"
  s_lastStatusChange :: "time option"
  s_consecutiveFailures :: int
  s_uptimePercent24h :: "rat option"
  s_avgResponseTimeMs24h :: "int option"
  s_updatedAt :: time

(* src/src/lib/server/db/schema.ts:158-181 monitorDailyStats *)
record monitorDailyStats_row =
  d_id :: id
  d_monitorId :: id
  d_date :: time
  d_totalChecks :: int
  d_successfulChecks :: int
  d_failedChecks :: int
  d_degradedChecks :: int
  d_avgResponseTimeMs :: "int option"
  d_minResponseTimeMs :: "int option"
  d_maxResponseTimeMs :: "int option"
  d_p95ResponseTimeMs :: "int option"
  d_uptimePercent :: "rat option"
  d_incidentCount :: int

section \<open>Incidents\<close>

(* src/src/lib/server/db/schema.ts:187-209 incident *)
record incident_row =
  i_id :: id
  i_organizationId :: id
  i_title :: string
  i_status :: incident_status
  i_impact :: incident_impact
  i_startedAt :: time
  i_resolvedAt :: "time option"
  i_createdBy :: "id option"
  i_isAutoCreated :: bool
  i_createdAt :: time
  i_updatedAt :: time

(* src/src/lib/server/db/schema.ts:211-230 incidentMonitor *)
record incidentMonitor_row =
  im_incidentId :: id
  im_monitorId :: id

(* src/src/lib/server/db/schema.ts:232-245 incidentUpdate *)
record incidentUpdate_row =
  iu_id :: id
  iu_incidentId :: id
  iu_status :: incident_status
  iu_message :: string
  iu_createdBy :: "id option"
  iu_createdAt :: time

section \<open>Status pages\<close>

(* src/src/lib/server/db/schema.ts:251-282 statusPage *)
record statusPage_row =
  p_id :: id
  p_organizationId :: id
  p_name :: string
  p_slug :: string
  p_description :: "string option"
  p_isPublic :: bool
  p_logoUrl :: "string option"
  p_faviconUrl :: "string option"
  p_primaryColor :: "string option"
  p_customCss :: "string option"
  p_customDomain :: "string option"
  p_createdAt :: time
  p_updatedAt :: time

(* src/src/lib/server/db/schema.ts:289-313 statusPageDomainClaim *)
record statusPageDomainClaim_row =
  dc_statusPageId :: id
  dc_domain :: string
  dc_token :: string
  dc_verifiedTarget :: "string option"
  dc_failedChecks :: int
  dc_lapsedAt :: "time option"
  dc_checkedAt :: "time option"
  dc_createdAt :: time

(* src/src/lib/server/db/schema.ts:315-328 statusPageGroup *)
record statusPageGroup_row =
  pg_id :: id
  pg_statusPageId :: id
  pg_name :: string
  pg_description :: "string option"
  pg_order :: int
  pg_isCollapsed :: bool

(* src/src/lib/server/db/schema.ts:330-348 statusPageMonitor *)
record statusPageMonitor_row =
  pm_id :: id
  pm_statusPageId :: id
  pm_monitorId :: id
  pm_groupId :: "id option"
  pm_displayName :: "string option"
  pm_order :: int

(* src/src/lib/server/db/schema.ts:350-367 statusPageSubscriber *)
record statusPageSubscriber_row =
  ps_id :: id
  ps_statusPageId :: id
  ps_email :: string
  ps_token :: string
  ps_confirmationSentAt :: "time option"
  ps_verifiedAt :: "time option"
  ps_createdAt :: time

section \<open>Mail reputation\<close>

(* src/src/lib/server/db/schema.ts:369-376 emailSuppression *)
record emailSuppression_row =
  es_email :: string
  es_reason :: mail_fault
  es_suppressedAt :: time

(* src/src/lib/server/db/schema.ts:378-388 mailEvent *)
record mailEvent_row =
  me_id :: id
  me_kind :: mail_fault
  me_organizationId :: "id option"
  me_receivedAt :: time

(* src/src/lib/server/db/schema.ts:390-411 unsolicitedMailSend *)
record unsolicitedMailSend_row =
  um_id :: id
  um_organizationId :: "id option"
  um_email :: string
  um_sentAt :: time

(* src/src/lib/server/db/schema.ts:413-420 organizationMailBlock *)
record organizationMailBlock_row =
  mb_organizationId :: id
  mb_reason :: mail_fault
  mb_blockedAt :: time

section \<open>Notifications\<close>

(* src/src/lib/server/db/schema.ts:426-464 notificationChannel *)
record notificationChannel_row =
  ch_id :: id
  ch_organizationId :: id
  ch_name :: string
  ch_type :: channel_type
  ch_config :: channel_config
  ch_enabled :: bool
  ch_token :: "string option"
  ch_confirmationSentAt :: "time option"
  ch_verifiedAt :: "time option"
  ch_unsubscribedAt :: "time option"
  ch_reaskedAt :: "time option"
  ch_createdAt :: time
  ch_updatedAt :: time

(* src/src/lib/server/db/schema.ts:466-481 emailOptOut *)
record emailOptOut_row =
  oo_organizationId :: id
  oo_email :: string
  oo_unsubscribedAt :: "time option"
  oo_reaskedAt :: "time option"

(* src/src/lib/server/db/schema.ts:483-502 channelConfirmationSend *)
record channelConfirmationSend_row =
  cs_id :: id
  cs_organizationId :: id
  cs_email :: string
  cs_sentAt :: time
  cs_confirmedAt :: "time option"

(* src/src/lib/server/db/schema.ts:504-527 monitorNotificationChannel *)
record monitorNotificationChannel_row =
  mc_monitorId :: id
  mc_channelId :: id
  mc_notifyOnDown :: bool
  mc_notifyOnUp :: bool
  mc_notifyOnDegraded :: bool
  mc_notifyOnSslExpiry :: bool

(* src/src/lib/server/db/schema.ts:529-547 notificationLog *)
record notificationLog_row =
  nl_id :: id
  nl_channelId :: id
  nl_monitorId :: "id option"
  nl_incidentId :: "id option"
  nl_type :: notificationType
  nl_status :: log_status
  nl_errorMessage :: "string option"
  nl_sentAt :: time

(* src/src/lib/server/db/schema.ts:549-577 notificationEvent *)
record notificationEvent_row =
  e_id :: id
  e_organizationId :: id
  e_monitorId :: "id option"
  e_incidentId :: "id option"
  e_type :: event_type
  e_payload :: event_payload
  e_retry :: "queued_retry option"
  e_mailServerDown :: "bool option"
  e_status :: event_status
  e_claimedAt :: "time option"
  e_processedAt :: "time option"
  e_errorMessage :: "string option"
  e_createdAt :: time

(* src/src/lib/server/db/schema.ts:752-764 statusPageSubscriberDelivery *)
record statusPageSubscriberDelivery_row =
  sd_eventId :: id
  sd_subscriberId :: id

section \<open>Jobs and operator alerts\<close>

(* src/src/lib/server/db/schema.ts:770-778 maintenanceJob *)
record maintenanceJob_row =
  j_id :: id
  j_name :: string
  j_cronExpression :: string
  j_nextRunAt :: time
  j_lastRunAt :: "time option"
  j_lastError :: "string option"
  j_enabled :: "bool option"

(* src/src/lib/server/db/schema.ts:780-784 opsAlertCooldown *)
record opsAlertCooldown_row =
  oa_key :: string
  oa_sentAt :: time

text \<open>
  An alert handed to \<open>raiseOpsAlert\<close>.  The callers do not wait for it, so the model keeps the alerts
  raised in a list of their own and the operator alert component sends them.
\<close>

(* src/src/lib/server/ops-alert.ts:24-31 OpsAlertType *)
datatype ops_alert_type =
    Monitor_dead_lettered
  | Monitor_checks_overdue
  | Alert_undelivered
  | Unsolicited_mail_ceiling
  | Organization_mail_blocked
  | Maintenance_job_failed
  | Billing_blocks_duplicated

(* src/src/lib/server/ops-alert.ts:33-41 OpsAlert *)
record ops_alert =
  al_type :: ops_alert_type
  al_subject :: string
  al_title :: string
  al_body :: string

section \<open>Maintenance windows\<close>

(* src/src/lib/server/db/schema.ts:790-812 maintenanceWindow *)
record maintenanceWindow_row =
  w_id :: id
  w_organizationId :: id
  w_name :: string
  w_description :: "string option"
  w_status :: window_status
  w_startsAt :: time
  w_endsAt :: time
  w_createdBy :: "id option"
  w_createdAt :: time
  w_updatedAt :: time

(* src/src/lib/server/db/schema.ts:814-834 maintenanceWindowMonitor *)
record maintenanceWindowMonitor_row =
  wm_windowId :: id
  wm_monitorId :: id

section \<open>Subscriptions\<close>

(* src/src/lib/server/db/schema.ts:863-941 subscription *)
record subscription_row =
  sub_id :: id
  sub_organizationId :: id
  sub_planId :: string
  sub_status :: subscription_status
  sub_blocks :: int
  sub_scheduledBlocks :: "int option"
  sub_overCapacitySince :: "time option"
  sub_capacityNotice :: "capacity_notice option"
  sub_capacityNoticedAt :: "time option"
  sub_billingInterval :: "billing_interval option"
  sub_currentPeriodStart :: "time option"
  sub_currentPeriodEnd :: "time option"
  sub_polarCustomerId :: "id option"
  sub_polarSubscriptionId :: "id option"
  sub_createdAt :: time
  sub_updatedAt :: time

section \<open>Accounts\<close>

(* src/src/lib/server/db/auth-schema.ts:4-18 user *)
record user_row =
  u_id :: id
  u_name :: string
  u_email :: string
  u_emailVerified :: bool
  u_image :: "string option"
  u_createdAt :: time
  u_updatedAt :: time
  u_role :: "string option"
  u_banned :: "bool option"
  u_banReason :: "string option"
  u_banExpires :: "time option"

(* src/src/lib/server/db/auth-schema.ts:80-89 organization *)
record organization_row =
  org_id :: id
  org_name :: string
  org_slug :: string
  org_logo :: "string option"
  org_createdAt :: time
  org_metadata :: "string option"
  org_subscriberEmailEnabled :: bool

(* src/src/lib/server/db/auth-schema.ts:91-108 member *)
record member_row =
  mem_id :: id
  mem_organizationId :: id
  mem_userId :: id
  mem_role :: string
  mem_createdAt :: time

(* src/src/lib/server/db/auth-schema.ts:110-130 invitation *)
record invitation_row =
  inv_id :: id
  inv_organizationId :: id
  inv_email :: string
  inv_role :: "string option"
  inv_status :: string
  inv_expiresAt :: time
  inv_createdAt :: time
  inv_inviterId :: id

section \<open>The audit log\<close>

text \<open>
  A JSON value, whose numbers are integers here.  The keys of a stored object come back in the
  order the list has them.
\<close>

datatype json =
    JNull
  | JBool bool
  | JNum int
  | JStr string
  | JArr "json list"
  | JObj "(string \<times> json) list"

(* src/src/lib/server/db/schema.ts:954-978 auditLog *)
record auditLog_row =
  au_id :: id
  au_actorId :: "id option"
  au_actorEmail :: string
  au_action :: string
  au_targetType :: "string option"
  au_targetId :: "string option"
  au_targetLabel :: "string option"
  au_metadata :: "json option"
  au_ipAddress :: "string option"
  au_userAgent :: "string option"
  au_createdAt :: time

section \<open>The database\<close>

text \<open>
  The tables together, the operator alerts raised, and how many fresh ids have been drawn so far.
\<close>

record db =
  monitors :: "monitor_row list"
  monitorChecks :: "monitorCheck_row list"
  monitorStatuses :: "monitorStatus_row list"
  monitorDailyStats :: "monitorDailyStats_row list"
  incidents :: "incident_row list"
  incidentMonitors :: "incidentMonitor_row list"
  incidentUpdates :: "incidentUpdate_row list"
  statusPages :: "statusPage_row list"
  statusPageDomainClaims :: "statusPageDomainClaim_row list"
  statusPageGroups :: "statusPageGroup_row list"
  statusPageMonitors :: "statusPageMonitor_row list"
  statusPageSubscribers :: "statusPageSubscriber_row list"
  emailSuppressions :: "emailSuppression_row list"
  mailEvents :: "mailEvent_row list"
  unsolicitedMailSends :: "unsolicitedMailSend_row list"
  organizationMailBlocks :: "organizationMailBlock_row list"
  notificationChannels :: "notificationChannel_row list"
  emailOptOuts :: "emailOptOut_row list"
  channelConfirmationSends :: "channelConfirmationSend_row list"
  monitorNotificationChannels :: "monitorNotificationChannel_row list"
  notificationLogs :: "notificationLog_row list"
  notificationEvents :: "notificationEvent_row list"
  statusPageSubscriberDeliveries :: "statusPageSubscriberDelivery_row list"
  maintenanceJobs :: "maintenanceJob_row list"
  opsAlertCooldowns :: "opsAlertCooldown_row list"
  maintenanceWindows :: "maintenanceWindow_row list"
  maintenanceWindowMonitors :: "maintenanceWindowMonitor_row list"
  subscriptions :: "subscription_row list"
  users :: "user_row list"
  organizations :: "organization_row list"
  members :: "member_row list"
  invitations :: "invitation_row list"
  auditLogs :: "auditLog_row list"
  opsAlertsRaised :: "ops_alert list"
  drawn :: nat

text \<open>A database with no rows, the start of the concrete examples.\<close>

definition empty_db :: db where
  "empty_db = \<lparr>
     monitors = [], monitorChecks = [], monitorStatuses = [], monitorDailyStats = [],
     incidents = [], incidentMonitors = [], incidentUpdates = [], statusPages = [],
     statusPageDomainClaims = [], statusPageGroups = [], statusPageMonitors = [],
     statusPageSubscribers = [], emailSuppressions = [], mailEvents = [],
     unsolicitedMailSends = [], organizationMailBlocks = [], notificationChannels = [],
     emailOptOuts = [], channelConfirmationSends = [], monitorNotificationChannels = [],
     notificationLogs = [], notificationEvents = [], statusPageSubscriberDeliveries = [],
     maintenanceJobs = [], opsAlertCooldowns = [], maintenanceWindows = [],
     maintenanceWindowMonitors = [], subscriptions = [], users = [], organizations = [],
     members = [], invitations = [], auditLogs = [], opsAlertsRaised = [], drawn = 0\<rparr>"

section \<open>The context of an operation\<close>

text \<open>
  What an operation reads from outside the database: the environment, the clock, and the ids
  \<open>nanoid()\<close> gives.  The clock is read as a constant during one transaction, which is what
  \<open>NOW()\<close> is; \<open>clock_timestamp()\<close> advances within it, and its reading at the draw of each
  fresh id is \<open>cx_clock_timestamp\<close>.
\<close>

record ctx =
  cx_env :: env
  cx_now :: time
  cx_nanoid :: "nat \<Rightarrow> id"
  cx_clock_timestamp :: "nat \<Rightarrow> time"

definition draw :: "db \<Rightarrow> db" where
  "draw d = d\<lparr>drawn := Suc (drawn d)\<rparr>"

lemma draw_simps [simp]:
  "drawn (draw d) = Suc (drawn d)"
  by (simp add: draw_def)

text \<open>A context of the concrete examples: nothing set in the environment, ids counted in unary.\<close>

definition example_ctx :: "time \<Rightarrow> ctx" where
  "example_ctx t = \<lparr>cx_env = (\<lambda>_. None), cx_now = t, cx_nanoid = (\<lambda>n. replicate (Suc n) CHR ''n''),
     cx_clock_timestamp = (\<lambda>n. t + int n)\<rparr>"

lemma example_ctx_simps [simp]:
  "cx_env (example_ctx t) = (\<lambda>_. None)"
  "cx_now (example_ctx t) = t"
  "cx_nanoid (example_ctx t) n = replicate (Suc n) CHR ''n''"
  "cx_clock_timestamp (example_ctx t) n = t + int n"
  by (simp_all add: example_ctx_def)

text \<open>An HTTP monitor with the defaults.\<close>

definition example_monitor :: "id \<Rightarrow> monitor_row" where
  "example_monitor i = \<lparr>m_id = i, m_organizationId = ''o'', m_name = ''api'', m_description = None,
     m_type = HttpMonitor, m_active = True, m_url = Some ''https://example.com'',
     m_method = Some ''GET'', m_headers = None, m_body = None, m_expectedStatusCodes = Some [200],
     m_expectedBodyContains = None, m_followRedirects = True, m_acceptSelfSigned = False,
     m_hostname = None, m_port = None, m_pushToken = None, m_pushGracePeriodSeconds = Some 60,
     m_intervalSeconds = 60, m_timeoutSeconds = 30, m_retries = 0, m_sslCheckEnabled = True,
     m_sslExpiryThresholdDays = Some 14, m_alertAfterFailures = 1, m_createdAt = 0, m_updatedAt = 0,
     m_nextCheckAt = Some 0, m_checkRetryCount = Some 0, m_checkLastError = None,
     m_checkBackoffUntil = None, m_deadLetteredAt = None, m_capacityPausedAt = None\<rparr>"

end
