(* ===== verification/Config.thy ===== *)
theory Config
  imports Prelude
begin

text \<open>
  The settings an operator makes through environment variables: the readers of
  \<open>lib/utils.ts\<close> and the constants of \<open>lib/constants/\<close> built on them.  The environment is a
  parameter, a map from variable names to values, so each constant is a function of it; the value
  it has on an instance with nothing set is its value at \<open>\<lambda>_. None\<close>.
\<close>

section \<open>Reading variables\<close>

text \<open>
  \<open>parseInt(s, 10)\<close>: leading white space, an optional sign, and the longest run of digits after
  it.  With no digit the result is NaN, here None.  Trailing text is ignored, as it is there.
\<close>

definition is_digit :: "char \<Rightarrow> bool" where
  "is_digit c \<longleftrightarrow> 48 \<le> (of_char c :: nat) \<and> of_char c \<le> (57 :: nat)"

definition digit_value :: "char \<Rightarrow> int" where
  "digit_value c = int (of_char c) - 48"

fun read_digits :: "int \<Rightarrow> string \<Rightarrow> int" where
  "read_digits n [] = n"
| "read_digits n (c # s) = (if is_digit c then read_digits (10 * n + digit_value c) s else n)"

definition parseDigits :: "string \<Rightarrow> int option" where
  "parseDigits s = (case s of [] \<Rightarrow> None | c # _ \<Rightarrow> if is_digit c then Some (read_digits 0 s) else None)"

definition parseInt :: "string \<Rightarrow> int option" where
  "parseInt s = (case dropWhile is_space s of
      [] \<Rightarrow> None
    | c # r \<Rightarrow>
        if c = CHR ''-'' then map_option uminus (parseDigits r)
        else if c = CHR ''+'' then parseDigits r
        else parseDigits (c # r))"

text \<open>A number in a template string.\<close>

fun show_nat :: "nat \<Rightarrow> string" where
  "show_nat n = (if n < 10 then [char_of (48 + n)] else show_nat (n div 10) @ [char_of (48 + n mod 10)])"

declare show_nat.simps [simp del]

definition show_int :: "int \<Rightarrow> string" where
  "show_int i = (if i < 0 then CHR ''-'' # show_nat (nat (- i)) else show_nat (nat i))"

(* src/src/lib/utils.ts:5-11 envInt *)
definition envInt :: "env \<Rightarrow> string \<Rightarrow> int \<Rightarrow> int" where
  "envInt env key defaultValue = (case env key of
      None \<Rightarrow> defaultValue
    | Some value \<Rightarrow> if value = [] then defaultValue else coalesce (parseInt value) defaultValue)"

(* src/src/lib/utils.ts:13-17 envIntBetween *)
definition envIntBetween :: "env \<Rightarrow> string \<Rightarrow> int \<Rightarrow> int \<Rightarrow> int \<Rightarrow> int" where
  "envIntBetween env key defaultValue mn mx = (let parsed = envInt env key defaultValue in
     if parsed \<ge> mn \<and> parsed \<le> mx then parsed else defaultValue)"

(* src/src/lib/utils.ts:19-22 envString *)
definition envString :: "env \<Rightarrow> string \<Rightarrow> string \<Rightarrow> string" where
  "envString env key defaultValue = (case env key of
      None \<Rightarrow> defaultValue
    | Some value \<Rightarrow> if value = [] then defaultValue else value)"

(* src/src/lib/constants/plans.ts:193-202 isSelfHosted *)
definition isSelfHosted :: "env \<Rightarrow> bool" where
  "isSelfHosted env \<longleftrightarrow> env ''SELF_HOSTED'' = Some ''true''"

lemma envIntBetween_range:
  "mn \<le> d \<Longrightarrow> d \<le> mx \<Longrightarrow> mn \<le> envIntBetween env key d mn mx \<and> envIntBetween env key d mn mx \<le> mx"
  by (simp add: envIntBetween_def Let_def)

lemma envInt_unset [simp]: "env key = None \<Longrightarrow> envInt env key d = d"
  by (simp add: envInt_def)

section \<open>Defaults\<close>

(* src/src/lib/constants/defaults.ts:6-11 MONITOR_INTERVAL *)
definition MIN_INTERVAL_SECONDS :: "env \<Rightarrow> int" where
  "MIN_INTERVAL_SECONDS env = envInt env ''UPPITY_MIN_INTERVAL_SECONDS'' 30"

(* src/src/lib/constants/defaults.ts:8-8 MONITOR_INTERVAL.MAX_SECONDS *)
definition MAX_INTERVAL_SECONDS :: "env \<Rightarrow> int" where
  "MAX_INTERVAL_SECONDS env = envInt env ''UPPITY_MAX_INTERVAL_SECONDS'' 86400"

(* src/src/lib/constants/defaults.ts:12-13 DEFAULT_TIMEOUT_SECONDS *)
definition DEFAULT_TIMEOUT_SECONDS :: "env \<Rightarrow> int" where
  "DEFAULT_TIMEOUT_SECONDS env = envInt env ''UPPITY_DEFAULT_TIMEOUT_SECONDS'' 30"

(* src/src/lib/constants/defaults.ts:15-16 DEFAULT_INTERVAL_SECONDS *)
definition DEFAULT_INTERVAL_SECONDS :: "env \<Rightarrow> int" where
  "DEFAULT_INTERVAL_SECONDS env = envInt env ''UPPITY_DEFAULT_INTERVAL_SECONDS'' 60"

(* src/src/lib/constants/defaults.ts:18-19 DEFAULT_RETRIES *)
definition DEFAULT_RETRIES :: "env \<Rightarrow> int" where
  "DEFAULT_RETRIES env = envInt env ''UPPITY_DEFAULT_RETRIES'' 0"

(* src/src/lib/constants/defaults.ts:21-22 DEFAULT_ALERT_AFTER_FAILURES *)
definition DEFAULT_ALERT_AFTER_FAILURES :: "env \<Rightarrow> int" where
  "DEFAULT_ALERT_AFTER_FAILURES env = envInt env ''UPPITY_DEFAULT_ALERT_AFTER_FAILURES'' 1"

(* src/src/lib/constants/defaults.ts:24-28 DEFAULT_PUSH_GRACE_PERIOD_SECONDS *)
definition DEFAULT_PUSH_GRACE_PERIOD_SECONDS :: "env \<Rightarrow> int" where
  "DEFAULT_PUSH_GRACE_PERIOD_SECONDS env =
     envInt env ''UPPITY_DEFAULT_PUSH_GRACE_PERIOD_SECONDS'' 60"

(* src/src/lib/constants/defaults.ts:33-37 DEFAULT_SSL_EXPIRY_THRESHOLD_DAYS *)
definition DEFAULT_SSL_EXPIRY_THRESHOLD_DAYS :: "env \<Rightarrow> int" where
  "DEFAULT_SSL_EXPIRY_THRESHOLD_DAYS env =
     envInt env ''UPPITY_DEFAULT_SSL_EXPIRY_THRESHOLD_DAYS'' 14"

(* src/src/lib/constants/defaults.ts:39-44 SSL_WARNING_COOLDOWN_HOURS *)
definition SSL_WARNING_COOLDOWN_HOURS :: "env \<Rightarrow> int" where
  "SSL_WARNING_COOLDOWN_HOURS env = envInt env ''UPPITY_SSL_WARNING_COOLDOWN_HOURS'' 24"

(* src/src/lib/constants/defaults.ts:46-50 FLAP_THRESHOLD *)
definition FLAP_THRESHOLD :: "env \<Rightarrow> int" where
  "FLAP_THRESHOLD env = envIntBetween env ''UPPITY_FLAP_THRESHOLD'' 5 0 1000"

(* src/src/lib/constants/defaults.ts:52-53 FLAP_WINDOW_SECONDS *)
definition FLAP_WINDOW_SECONDS :: "env \<Rightarrow> int" where
  "FLAP_WINDOW_SECONDS env = envIntBetween env ''UPPITY_FLAP_WINDOW_SECONDS'' 3600 60 2592000"

(* src/src/lib/constants/defaults.ts:55-56 FLAP_SETTLE_SECONDS *)
definition FLAP_SETTLE_SECONDS :: "env \<Rightarrow> int" where
  "FLAP_SETTLE_SECONDS env = envIntBetween env ''UPPITY_FLAP_SETTLE_SECONDS'' 300 1 86400"

(* src/src/lib/constants/defaults.ts:58-59 OPS_ALERT_COOLDOWN_HOURS *)
definition OPS_ALERT_COOLDOWN_HOURS :: "env \<Rightarrow> int" where
  "OPS_ALERT_COOLDOWN_HOURS env = envInt env ''UPPITY_OPS_ALERT_COOLDOWN_HOURS'' 6"

(* src/src/lib/constants/defaults.ts:67-68 DEGRADED_RESPONSE_TIME_MS *)
definition DEGRADED_RESPONSE_TIME_MS :: "env \<Rightarrow> int" where
  "DEGRADED_RESPONSE_TIME_MS env = envInt env ''UPPITY_DEGRADED_RESPONSE_TIME_MS'' 5000"

(* src/src/lib/constants/defaults.ts:70-71 RETRY_DELAY_MS *)
definition RETRY_DELAY_MS :: "env \<Rightarrow> int" where
  "RETRY_DELAY_MS env = envInt env ''UPPITY_RETRY_DELAY_MS'' 1000"

(* src/src/lib/constants/defaults.ts:85-86 STATUS_PAGE_HISTORY_DAYS *)
definition STATUS_PAGE_HISTORY_DAYS :: "env \<Rightarrow> int" where
  "STATUS_PAGE_HISTORY_DAYS env = envInt env ''UPPITY_STATUS_PAGE_HISTORY_DAYS'' 90"

text \<open>The confirmation cap of a status page, as the record its object literal is.\<close>

(* src/src/lib/constants/defaults.ts:88-99 SUBSCRIBER_CONFIRMATION_CAP *)
record confirmation_cap =
  cap_base :: int
  cap_percentOfConfirmed :: int
  cap_max :: int

(* src/src/lib/constants/defaults.ts:88-99 SUBSCRIBER_CONFIRMATION_CAP *)
definition SUBSCRIBER_CONFIRMATION_CAP :: "env \<Rightarrow> confirmation_cap" where
  "SUBSCRIBER_CONFIRMATION_CAP env = \<lparr>
     cap_base = envInt env ''UPPITY_SUBSCRIBER_CONFIRMATIONS_BASE'' 50,
     cap_percentOfConfirmed = envInt env ''UPPITY_SUBSCRIBER_CONFIRMATIONS_PERCENT'' 25,
     cap_max = envInt env ''UPPITY_SUBSCRIBER_CONFIRMATIONS_MAX'' 300\<rparr>"

(* src/src/lib/constants/defaults.ts:101-105 SUPPRESSED_SUBSCRIBER_RETENTION_DAYS *)
definition SUPPRESSED_SUBSCRIBER_RETENTION_DAYS :: "env \<Rightarrow> int" where
  "SUPPRESSED_SUBSCRIBER_RETENTION_DAYS env =
     envInt env ''UPPITY_SUPPRESSED_SUBSCRIBER_RETENTION_DAYS'' 90"

(* src/src/lib/constants/defaults.ts:107-113 CHANNEL_PENDING_CONFIRMATIONS *)
definition CHANNEL_PENDING_CONFIRMATIONS :: "env \<Rightarrow> int" where
  "CHANNEL_PENDING_CONFIRMATIONS env = envInt env ''UPPITY_CHANNEL_PENDING_CONFIRMATIONS'' 5"

(* src/src/lib/constants/defaults.ts:115-123 UNSOLICITED_MAIL_DAILY_CEILING *)
definition UNSOLICITED_MAIL_DAILY_CEILING :: "env \<Rightarrow> int" where
  "UNSOLICITED_MAIL_DAILY_CEILING env =
     envInt env ''UPPITY_UNSOLICITED_MAIL_DAILY_CEILING'' (if isSelfHosted env then 0 else 1000)"

(* src/src/lib/constants/defaults.ts:125-137 MAIL_REPUTATION *)
record mail_reputation =
  rep_windowDays :: int
  rep_bounceMin :: int
  rep_bouncePercent :: int
  rep_complaintMin :: int
  rep_complaintPerMille :: int

(* src/src/lib/constants/defaults.ts:125-137 MAIL_REPUTATION *)
definition MAIL_REPUTATION :: "env \<Rightarrow> mail_reputation" where
  "MAIL_REPUTATION env = \<lparr>
     rep_windowDays = envInt env ''UPPITY_MAIL_REPUTATION_WINDOW_DAYS'' 30,
     rep_bounceMin = envInt env ''UPPITY_MAIL_BOUNCE_MIN'' 10,
     rep_bouncePercent = envInt env ''UPPITY_MAIL_BOUNCE_PERCENT'' 7,
     rep_complaintMin = envInt env ''UPPITY_MAIL_COMPLAINT_MIN'' 3,
     rep_complaintPerMille = envInt env ''UPPITY_MAIL_COMPLAINT_PER_MILLE'' 3\<rparr>"

section \<open>The workers' settings\<close>

(* src/src/lib/constants/worker.ts:3-4 WORKER_POLL_BATCH_SIZE *)
definition WORKER_POLL_BATCH_SIZE :: "env \<Rightarrow> int" where
  "WORKER_POLL_BATCH_SIZE env = envInt env ''UPPITY_WORKER_BATCH_SIZE'' 10"

(* src/src/lib/constants/worker.ts:6-11 WORKER_BACKOFF *)
definition WORKER_BACKOFF_INITIAL_MS :: "env \<Rightarrow> int" where
  "WORKER_BACKOFF_INITIAL_MS env = envInt env ''UPPITY_WORKER_BACKOFF_INITIAL_MS'' 100"

(* src/src/lib/constants/worker.ts:9-9 WORKER_BACKOFF.MAX_MS *)
definition WORKER_BACKOFF_MAX_MS :: "env \<Rightarrow> int" where
  "WORKER_BACKOFF_MAX_MS env = envInt env ''UPPITY_WORKER_BACKOFF_MAX_MS'' 5000"

(* src/src/lib/constants/worker.ts:10-10 WORKER_BACKOFF.MULTIPLIER *)
definition WORKER_BACKOFF_MULTIPLIER :: int where
  "WORKER_BACKOFF_MULTIPLIER = 2"

(* src/src/lib/constants/worker.ts:13-19 CHECK_RETRY *)
definition CHECK_MAX_ATTEMPTS :: "env \<Rightarrow> int" where
  "CHECK_MAX_ATTEMPTS env = envInt env ''UPPITY_CHECK_MAX_RETRIES'' 3"

(* src/src/lib/constants/worker.ts:16-16 CHECK_RETRY.INITIAL_BACKOFF_MS *)
definition CHECK_INITIAL_BACKOFF_MS :: "env \<Rightarrow> int" where
  "CHECK_INITIAL_BACKOFF_MS env = envInt env ''UPPITY_CHECK_BACKOFF_INITIAL_MS'' 5000"

(* src/src/lib/constants/worker.ts:17-17 CHECK_RETRY.MAX_BACKOFF_MS *)
definition CHECK_MAX_BACKOFF_MS :: "env \<Rightarrow> int" where
  "CHECK_MAX_BACKOFF_MS env = envInt env ''UPPITY_CHECK_BACKOFF_MAX_MS'' 300000"

(* src/src/lib/constants/worker.ts:18-18 CHECK_RETRY.MULTIPLIER *)
definition CHECK_BACKOFF_MULTIPLIER :: int where
  "CHECK_BACKOFF_MULTIPLIER = 2"

(* src/src/lib/constants/scheduler.ts:24-25 CHECK_RETENTION_DAYS *)
definition CHECK_RETENTION_DAYS :: "env \<Rightarrow> int" where
  "CHECK_RETENTION_DAYS env = envInt env ''UPPITY_CHECK_RETENTION_DAYS'' 30"

(* src/src/lib/constants/monitor.ts:18-23 MAX_TIMEOUT_SECONDS *)
definition MAX_TIMEOUT_SECONDS :: int where
  "MAX_TIMEOUT_SECONDS = 60"

(* src/src/lib/constants/monitor.ts:24-24 MAX_RETRIES *)
definition MAX_RETRIES :: int where
  "MAX_RETRIES = 10"

lemma FLAP_THRESHOLD_range: "0 \<le> FLAP_THRESHOLD env" "FLAP_THRESHOLD env \<le> 1000"
  using envIntBetween_range [of 0 5 1000 env "''UPPITY_FLAP_THRESHOLD''"]
  by (auto simp: FLAP_THRESHOLD_def)

lemma FLAP_SETTLE_SECONDS_range: "1 \<le> FLAP_SETTLE_SECONDS env" "FLAP_SETTLE_SECONDS env \<le> 86400"
  using envIntBetween_range [of 1 300 86400 env "''UPPITY_FLAP_SETTLE_SECONDS''"]
  by (auto simp: FLAP_SETTLE_SECONDS_def)

lemma FLAP_WINDOW_SECONDS_range: "60 \<le> FLAP_WINDOW_SECONDS env" "FLAP_WINDOW_SECONDS env \<le> 2592000"
  using envIntBetween_range [of 60 3600 2592000 env "''UPPITY_FLAP_WINDOW_SECONDS''"]
  by (auto simp: FLAP_WINDOW_SECONDS_def)

text \<open>What the environment of an instance with nothing set makes of them.\<close>

lemma unset_defaults:
  "FLAP_THRESHOLD (\<lambda>_. None) = 5"
  "FLAP_WINDOW_SECONDS (\<lambda>_. None) = 3600"
  "FLAP_SETTLE_SECONDS (\<lambda>_. None) = 300"
  "SSL_WARNING_COOLDOWN_HOURS (\<lambda>_. None) = 24"
  "DEFAULT_SSL_EXPIRY_THRESHOLD_DAYS (\<lambda>_. None) = 14"
  "CHECK_MAX_ATTEMPTS (\<lambda>_. None) = 3"
  "CHECK_INITIAL_BACKOFF_MS (\<lambda>_. None) = 5000"
  "CHECK_MAX_BACKOFF_MS (\<lambda>_. None) = 300000"
  "RETRY_DELAY_MS (\<lambda>_. None) = 1000"
  "CHECK_RETENTION_DAYS (\<lambda>_. None) = 30"
  by (simp_all add: FLAP_THRESHOLD_def FLAP_WINDOW_SECONDS_def FLAP_SETTLE_SECONDS_def
      SSL_WARNING_COOLDOWN_HOURS_def DEFAULT_SSL_EXPIRY_THRESHOLD_DAYS_def CHECK_MAX_ATTEMPTS_def
      CHECK_INITIAL_BACKOFF_MS_def CHECK_MAX_BACKOFF_MS_def RETRY_DELAY_MS_def
      CHECK_RETENTION_DAYS_def envIntBetween_def)

end
