(* ===== verification/MaintenanceWindows.thy ===== *)
theory MaintenanceWindows
  imports Schema Config
begin

text \<open>
  Maintenance windows: \<open>lib/server/services/maintenance-window.service.ts\<close> and the ownership
  check it shares with the other services, \<open>lib/server/services/monitor-ownership.ts\<close>.  A thrown
  \<open>MaintenanceWindowError\<close> is the left summand of an operation's result.  A transaction that throws
  leaves the database as it was, so an operation returns a new database only in the right summand.
\<close>

section \<open>Ownership of monitors\<close>

(* src/src/lib/server/services/monitor-ownership.ts:7-23 monitorsBelongToOrg *)
definition monitorsBelongToOrg :: "db \<Rightarrow> id \<Rightarrow> id list \<Rightarrow> bool" where
  "monitorsBelongToOrg d organizationId monitorIds = (let uniq = unique monitorIds in
     if uniq = [] then True
     else length (filter (\<lambda>m. m_organizationId m = organizationId \<and> m_id m \<in> set uniq) (monitors d))
       = length uniq)"

section \<open>The window that covers a check\<close>

(* src/src/lib/server/services/maintenance-window.service.ts:12-35 findActiveWindow *)
definition findActiveWindow :: "db \<Rightarrow> id \<Rightarrow> time \<Rightarrow> maintenanceWindow_row option" where
  "findActiveWindow d monitorId t = map_option fst (first_row (filter
     (\<lambda>(w, wm). wm_monitorId wm = monitorId \<and> w_status w = WInProgress \<and>
                w_startsAt w \<le> t \<and> w_endsAt w \<ge> t)
     (inner_join (\<lambda>w wm. wm_windowId wm = w_id w) (maintenanceWindows d) (maintenanceWindowMonitors d))))"

section \<open>Operations\<close>

(* src/src/lib/server/services/maintenance-window.service.ts:39-65 MaintenanceWindowErrorCode *)
datatype window_error =
    WNotFound
  | NameRequired
  | EndBeforeStart
  | EndInPast
  | NoMonitors
  | WMonitorNotFound
  | CannotCancelCompleted
  | NotDeletable

(* src/src/lib/server/services/maintenance-window.service.ts:67-75 CreateMaintenanceWindowInput *)
record window_create =
  wc_organizationId :: id
  wc_name :: string
  wc_description :: "string option"
  wc_startsAt :: time
  wc_endsAt :: time
  wc_monitorIds :: "id list"
  wc_createdBy :: "id option"

(* src/src/lib/server/services/maintenance-window.service.ts:77-83 UpdateMaintenanceWindowInput *)
record window_update =
  wu_name :: "string option"
  wu_description :: "string option"
  wu_startsAt :: "time option"
  wu_endsAt :: "time option"
  wu_monitorIds :: "id list option"

definition link_monitors :: "id \<Rightarrow> id list \<Rightarrow> maintenanceWindowMonitor_row list" where
  "link_monitors windowId ids = map (\<lambda>m. \<lparr>wm_windowId = windowId, wm_monitorId = m\<rparr>) ids"

(* src/src/lib/server/services/maintenance-window.service.ts:100-139 create *)
definition create_window ::
  "ctx \<Rightarrow> window_create \<Rightarrow> db \<Rightarrow> window_error + maintenanceWindow_row \<times> db" where
  "create_window cx i d =
    (if trim (wc_name i) = [] then Inl NameRequired
     else if wc_endsAt i \<le> wc_startsAt i then Inl EndBeforeStart
     else if wc_endsAt i \<le> cx_now cx then Inl EndInPast
     else if wc_monitorIds i = [] then Inl NoMonitors
     else let uniqueMonitorIds = unique (wc_monitorIds i) in
       if \<not> monitorsBelongToOrg d (wc_organizationId i) uniqueMonitorIds then Inl WMonitorNotFound
       else let created = \<lparr>w_id = cx_nanoid cx (drawn d), w_organizationId = wc_organizationId i,
              w_name = trim (wc_name i), w_description = wc_description i, w_status = WScheduled,
              w_startsAt = wc_startsAt i, w_endsAt = wc_endsAt i, w_createdBy = wc_createdBy i,
              w_createdAt = cx_now cx, w_updatedAt = cx_now cx\<rparr> in
         Inr (created, (draw d)\<lparr>
           maintenanceWindows := maintenanceWindows d @ [created],
           maintenanceWindowMonitors :=
             maintenanceWindowMonitors d @ link_monitors (w_id created) uniqueMonitorIds\<rparr>))"

definition window_of :: "db \<Rightarrow> id \<Rightarrow> id \<Rightarrow> maintenanceWindow_row option" where
  "window_of d i orgId =
     first_row (filter (\<lambda>w. w_id w = i \<and> w_organizationId w = orgId) (maintenanceWindows d))"

definition rewrite_window ::
  "id \<Rightarrow> id \<Rightarrow> (maintenanceWindow_row \<Rightarrow> maintenanceWindow_row) \<Rightarrow> db \<Rightarrow> db" where
  "rewrite_window i orgId f d = d\<lparr>maintenanceWindows :=
     update_where (\<lambda>w. w_id w = i \<and> w_organizationId w = orgId) f (maintenanceWindows d)\<rparr>"

definition window_set :: "ctx \<Rightarrow> window_update \<Rightarrow> maintenanceWindow_row \<Rightarrow> maintenanceWindow_row" where
  "window_set cx u w = w\<lparr>
     w_updatedAt := cx_now cx,
     w_name := (case wu_name u of None \<Rightarrow> w_name w | Some n \<Rightarrow> trim n),
     w_description := (case wu_description u of None \<Rightarrow> w_description w | Some s \<Rightarrow> Some s),
     w_startsAt := coalesce (wu_startsAt u) (w_startsAt w),
     w_endsAt := coalesce (wu_endsAt u) (w_endsAt w)\<rparr>"

(* src/src/lib/server/services/maintenance-window.service.ts:141-200 update *)
definition update_window ::
  "ctx \<Rightarrow> id \<Rightarrow> id \<Rightarrow> window_update \<Rightarrow> db \<Rightarrow> window_error + db" where
  "update_window cx i orgId u d = (case window_of d i orgId of
      None \<Rightarrow> Inl WNotFound
    | Some existing \<Rightarrow>
        if coalesce (wu_endsAt u) (w_endsAt existing) \<le> coalesce (wu_startsAt u) (w_startsAt existing)
        then Inl EndBeforeStart
        else if on_some (\<lambda>n. trim n = []) (wu_name u) then Inl NameRequired
        else if wu_monitorIds u = Some [] then Inl NoMonitors
        else if on_some (\<lambda>ids. \<not> monitorsBelongToOrg d orgId (unique ids)) (wu_monitorIds u)
        then Inl WMonitorNotFound
        else let d' = rewrite_window i orgId (window_set cx u) d in
          Inr (case wu_monitorIds u of
              None \<Rightarrow> d'
            | Some ids \<Rightarrow> d'\<lparr>maintenanceWindowMonitors :=
                delete_where (\<lambda>wm. wm_windowId wm = i) (maintenanceWindowMonitors d')
                @ link_monitors i (unique ids)\<rparr>))"

(* src/src/lib/server/services/maintenance-window.service.ts:202-227 cancel *)
definition cancel_window :: "ctx \<Rightarrow> id \<Rightarrow> id \<Rightarrow> db \<Rightarrow> window_error + db" where
  "cancel_window cx i orgId d = (case window_of d i orgId of
      None \<Rightarrow> Inl WNotFound
    | Some existing \<Rightarrow>
        if w_status existing = WCompleted then Inl CannotCancelCompleted
        else if w_status existing = WCancelled then Inr d
        else Inr (rewrite_window i orgId
               (\<lambda>w. w\<lparr>w_status := WCancelled, w_updatedAt := cx_now cx\<rparr>) d))"

text \<open>Deleting the window cascades to its links.\<close>

(* src/src/lib/server/services/maintenance-window.service.ts:229-253 delete *)
definition delete_window :: "id \<Rightarrow> id \<Rightarrow> db \<Rightarrow> window_error + db" where
  "delete_window i orgId d = (case window_of d i orgId of
      None \<Rightarrow> Inl WNotFound
    | Some existing \<Rightarrow>
        if w_status existing \<noteq> WScheduled then Inl NotDeletable
        else Inr (d\<lparr>
          maintenanceWindows :=
            delete_where (\<lambda>w. w_id w = i \<and> w_organizationId w = orgId) (maintenanceWindows d),
          maintenanceWindowMonitors :=
            delete_where (\<lambda>wm. wm_windowId wm = i) (maintenanceWindowMonitors d)\<rparr>))"

(* src/src/lib/server/services/maintenance-window.service.ts:255-269 findById *)
definition findById_window :: "db \<Rightarrow> id \<Rightarrow> id \<Rightarrow> (maintenanceWindow_row \<times> id list) option" where
  "findById_window d i orgId = map_option (\<lambda>w.
     (w, map wm_monitorId (filter (\<lambda>wm. wm_windowId wm = i) (maintenanceWindowMonitors d))))
     (window_of d i orgId)"

(* src/src/lib/server/services/maintenance-window.service.ts:271-287 listByOrg *)
definition listByOrg_windows :: "db \<Rightarrow> id \<Rightarrow> (maintenanceWindow_row \<times> nat) list" where
  "listByOrg_windows d orgId = order_desc (w_startsAt \<circ> fst)
     (map (\<lambda>w. (w, length (filter (\<lambda>wm. wm_windowId wm = w_id w) (maintenanceWindowMonitors d))))
       (filter (\<lambda>w. w_organizationId w = orgId) (maintenanceWindows d)))"

definition starting :: "time \<Rightarrow> maintenanceWindow_row \<Rightarrow> bool" where
  "starting t w \<longleftrightarrow> w_status w = WScheduled \<and> w_startsAt w \<le> t"

definition ending :: "time \<Rightarrow> maintenanceWindow_row \<Rightarrow> bool" where
  "ending t w \<longleftrightarrow> w_status w = WInProgress \<and> w_endsAt w \<le> t"

definition started_window :: "ctx \<Rightarrow> maintenanceWindow_row \<Rightarrow> maintenanceWindow_row" where
  "started_window cx w = w\<lparr>w_status := WInProgress, w_updatedAt := cx_now cx\<rparr>"

definition completed_window :: "ctx \<Rightarrow> maintenanceWindow_row \<Rightarrow> maintenanceWindow_row" where
  "completed_window cx w = w\<lparr>w_status := WCompleted, w_updatedAt := cx_now cx\<rparr>"

(* src/src/lib/server/services/maintenance-window.service.ts:289-304 runStatusTransitions *)
definition runStatusTransitions :: "ctx \<Rightarrow> time option \<Rightarrow> db \<Rightarrow> (nat \<times> nat) \<times> db" where
  "runStatusTransitions cx t d = (let n = coalesce t (cx_now cx);
     ws = maintenanceWindows d;
     ws1 = update_where (starting n) (started_window cx) ws;
     ws2 = update_where (ending n) (completed_window cx) ws1 in
     ((length (filter (starting n) ws), length (filter (ending n) ws1)), d\<lparr>maintenanceWindows := ws2\<rparr>))"

section \<open>The life cycle of a window\<close>

text \<open>A window only moves forward, and a completed or cancelled one never moves again.\<close>

fun window_moves :: "window_status \<Rightarrow> window_status \<Rightarrow> bool" where
  "window_moves WScheduled t = True"
| "window_moves WInProgress t = (t \<noteq> WScheduled)"
| "window_moves WCompleted t = (t = WCompleted)"
| "window_moves WCancelled t = (t = WCancelled)"

definition window_final :: "window_status \<Rightarrow> bool" where
  "window_final s \<longleftrightarrow> s = WCompleted \<or> s = WCancelled"

interpretation windows: lifecycle window_moves window_final
proof
  show "window_moves s s" for s by (cases s) auto
  show "window_final s \<Longrightarrow> window_moves s t \<Longrightarrow> t = s" for s t
    by (auto simp: window_final_def)
qed

text \<open>Every operation, as one step on the database; a refused one changes nothing.\<close>

inductive window_step :: "db \<Rightarrow> db \<Rightarrow> bool" where
  created: "create_window cx i d = Inr (w, d') \<Longrightarrow> window_step d d'"
| updated: "update_window cx i orgId u d = Inr d' \<Longrightarrow> window_step d d'"
| cancelled: "cancel_window cx i orgId d = Inr d' \<Longrightarrow> window_step d d'"
| deleted: "delete_window i orgId d = Inr d' \<Longrightarrow> window_step d d'"
| advanced: "runStatusTransitions cx t d = (n, d') \<Longrightarrow> window_step d d'"

definition window_kept :: "maintenanceWindow_row \<Rightarrow> maintenanceWindow_row \<Rightarrow> bool" where
  "window_kept w v \<longleftrightarrow> w_id w = w_id v \<and> window_moves (w_status w) (w_status v)"

lemma window_kept_refl [simp]: "window_kept w w"
  by (simp add: window_kept_def)

lemma window_kept_update:
  "(\<And>w. w \<in> set t \<Longrightarrow> P w \<Longrightarrow> window_kept w (f w)) \<Longrightarrow> list_all2 window_kept t (update_where P f t)"
  by (induction t) auto

lemma window_set_kept [simp]: "window_kept w (window_set cx u w)"
  by (simp add: window_kept_def window_set_def)

lemma starting_kept: "starting n w \<Longrightarrow> window_kept w (started_window cx w)"
  by (simp add: window_kept_def starting_def started_window_def)

lemma ending_kept: "ending n w \<Longrightarrow> window_kept w (completed_window cx w)"
  by (simp add: window_kept_def ending_def completed_window_def)

lemma window_kept_trans: "window_kept u v \<Longrightarrow> window_kept v w \<Longrightarrow> window_kept u w"
  by (cases "w_status u"; cases "w_status v") (auto simp: window_kept_def)

text \<open>Each row that was there is still there, moved forward, unless it was deleted while scheduled.\<close>

definition windows_kept :: "db \<Rightarrow> db \<Rightarrow> bool" where
  "windows_kept d d' \<longleftrightarrow> (\<forall>w\<in>set (maintenanceWindows d).
     w_status w = WScheduled \<or> (\<exists>v\<in>set (maintenanceWindows d'). window_kept w v))"

lemma list_all2_kept:
  "list_all2 window_kept t u \<Longrightarrow> w \<in> set t \<Longrightarrow> \<exists>v\<in>set u. window_kept w v"
  by (metis in_set_conv_nth list_all2_lengthD list_all2_nthD)

lemma windows_keptI: "maintenanceWindows d' = maintenanceWindows d @ ws \<Longrightarrow> windows_kept d d'"
  by (auto simp: windows_kept_def intro: window_kept_refl)

lemma windows_kept_all2:
  "list_all2 window_kept (maintenanceWindows d) (maintenanceWindows d') \<Longrightarrow> windows_kept d d'"
  by (auto simp: windows_kept_def dest: list_all2_kept)

lemma create_window_rows:
  assumes "create_window cx i d = Inr (w, d')"
  shows "maintenanceWindows d' = maintenanceWindows d @ [w]" "w_startsAt w < w_endsAt w"
    "w_status w = WScheduled" "cx_now cx < w_endsAt w" "trim (wc_name i) \<noteq> []"
    "monitorsBelongToOrg d (wc_organizationId i) (unique (wc_monitorIds i))"
    "w_organizationId w = wc_organizationId i"
    "maintenanceWindowMonitors d' =
       maintenanceWindowMonitors d @ link_monitors (w_id w) (unique (wc_monitorIds i))"
  using assms by (auto simp: create_window_def Let_def split: if_splits)

lemma rewrite_window_rows [simp]:
  "maintenanceWindows (rewrite_window i orgId f d) =
    update_where (\<lambda>w. w_id w = i \<and> w_organizationId w = orgId) f (maintenanceWindows d)"
  by (simp add: rewrite_window_def)

lemma update_window_rows:
  assumes "update_window cx i orgId u d = Inr d'"
  shows "maintenanceWindows d' =
    update_where (\<lambda>w. w_id w = i \<and> w_organizationId w = orgId) (window_set cx u) (maintenanceWindows d)"
  using assms by (auto simp: update_window_def Let_def split: option.splits if_splits)

lemma window_of_in:
  "window_of d i orgId = Some w \<Longrightarrow>
   w \<in> set (maintenanceWindows d) \<and> w_id w = i \<and> w_organizationId w = orgId"
  unfolding window_of_def by (drule first_row_filter_in) simp

text \<open>Ids are the primary key, so the row an operation reads is the row its update rewrites.\<close>

definition window_keys :: "db \<Rightarrow> bool" where
  "window_keys d \<longleftrightarrow> distinct (map w_id (maintenanceWindows d))"

lemma window_of_unique:
  assumes "window_keys d" "window_of d i orgId = Some w"
    and "v \<in> set (maintenanceWindows d)" "w_id v = i"
  shows "v = w"
  using assms window_of_in [OF assms(2)]
  by (auto simp: window_keys_def distinct_map inj_on_def)

lemma cancel_window_rows:
  assumes "cancel_window cx i orgId d = Inr d'" "window_keys d"
  shows "list_all2 window_kept (maintenanceWindows d) (maintenanceWindows d')"
proof -
  from assms(1) obtain w where w: "window_of d i orgId = Some w" "w_status w \<noteq> WCompleted"
    by (auto simp: cancel_window_def split: option.splits if_splits)
  show ?thesis
  proof (cases "w_status w = WCancelled")
    case True
    with assms(1) w show ?thesis
      by (auto simp: cancel_window_def list_all2_same split: if_splits)
  next
    case False
    have "window_kept v (v\<lparr>w_status := WCancelled, w_updatedAt := cx_now cx\<rparr>)"
      if "v \<in> set (maintenanceWindows d)" "w_id v = i \<and> w_organizationId v = orgId" for v
      using window_of_unique [OF assms(2) w(1) that(1)] that w(2)
      by (cases "w_status v") (auto simp: window_kept_def)
    with assms(1) w False show ?thesis
      by (auto simp: cancel_window_def intro!: window_kept_update)
  qed
qed

lemma delete_window_kept:
  assumes "delete_window i orgId d = Inr d'" "window_keys d"
  shows "windows_kept d d'"
proof -
  from assms(1) obtain w where w: "window_of d i orgId = Some w" "w_status w = WScheduled"
    and d': "maintenanceWindows d' =
      delete_where (\<lambda>w. w_id w = i \<and> w_organizationId w = orgId) (maintenanceWindows d)"
    by (auto simp: delete_window_def split: option.splits if_splits)
  have "w_status v = WScheduled"
    if "v \<in> set (maintenanceWindows d)" "w_id v = i" for v
    using window_of_unique [OF assms(2) w(1) that] w(2) by simp
  then show ?thesis using d' by (auto simp: windows_kept_def intro: window_kept_refl)
qed

lemma transitions_rows:
  assumes "runStatusTransitions cx t d = (n, d')"
  shows "maintenanceWindows d' = update_where (ending (coalesce t (cx_now cx))) (completed_window cx)
    (update_where (starting (coalesce t (cx_now cx))) (started_window cx) (maintenanceWindows d))"
  using assms by (auto simp: runStatusTransitions_def Let_def)

lemma window_kept_all2_trans:
  "list_all2 window_kept t u \<Longrightarrow> list_all2 window_kept u v \<Longrightarrow> list_all2 window_kept t v"
  by (rule list_all2_trans [OF window_kept_trans])

lemma transitions_kept:
  "list_all2 window_kept t
     (update_where (ending n) (completed_window cx) (update_where (starting n) (started_window cx) t))"
  by (rule window_kept_all2_trans [OF window_kept_update window_kept_update])
    (auto intro: starting_kept ending_kept)

lemma window_step_kept: "window_step d d' \<Longrightarrow> window_keys d \<Longrightarrow> windows_kept d d'"
proof (induction rule: window_step.induct)
  case (created cx i d w d')
  then show ?case by (intro windows_keptI) (rule create_window_rows)
next
  case (updated cx i orgId u d d')
  then show ?case
    by (intro windows_kept_all2) (simp add: update_window_rows window_kept_update)
next
  case (cancelled cx i orgId d d')
  then show ?case by (intro windows_kept_all2 cancel_window_rows)
next
  case (deleted i orgId d d')
  then show ?case by (rule delete_window_kept)
next
  case (advanced cx t d n d')
  then show ?case by (intro windows_kept_all2) (simp only: transitions_rows transitions_kept)
qed

section \<open>Windows end after they start\<close>

definition windows_ordered :: "db \<Rightarrow> bool" where
  "windows_ordered d \<longleftrightarrow> (\<forall>w\<in>set (maintenanceWindows d). w_startsAt w < w_endsAt w)"

lemma update_window_ordered:
  assumes "update_window cx i orgId u d = Inr d'" "windows_ordered d" "window_keys d"
  shows "windows_ordered d'"
proof -
  from assms(1) obtain w where w: "window_of d i orgId = Some w"
    "coalesce (wu_startsAt u) (w_startsAt w) < coalesce (wu_endsAt u) (w_endsAt w)"
    by (auto simp: update_window_def Let_def split: option.splits if_splits)
  have "w_startsAt (window_set cx u v) < w_endsAt (window_set cx u v)"
    if "v \<in> set (maintenanceWindows d)" "w_id v = i" for v
    using window_of_unique [OF assms(3) w(1) that] w(2) by (simp add: window_set_def)
  with assms(2) show ?thesis
    unfolding windows_ordered_def update_window_rows [OF assms(1)]
    by (auto simp: set_update_where)
qed

lemma windows_ordered_map:
  "windows_ordered d \<Longrightarrow>
   map (\<lambda>w. (w_startsAt w, w_endsAt w)) (maintenanceWindows d') =
   map (\<lambda>w. (w_startsAt w, w_endsAt w)) (maintenanceWindows d) \<Longrightarrow> windows_ordered d'"
proof -
  have "windows_ordered e = list_all (\<lambda>(a, b). a < b) (map (\<lambda>w. (w_startsAt w, w_endsAt w)) (maintenanceWindows e))"
    for e by (simp add: windows_ordered_def list_all_iff)
  then show "windows_ordered d \<Longrightarrow>
    map (\<lambda>w. (w_startsAt w, w_endsAt w)) (maintenanceWindows d') =
    map (\<lambda>w. (w_startsAt w, w_endsAt w)) (maintenanceWindows d) \<Longrightarrow> windows_ordered d'" by metis
qed

lemma cancel_window_times:
  "cancel_window cx i orgId d = Inr d' \<Longrightarrow>
   map (\<lambda>w. (w_startsAt w, w_endsAt w)) (maintenanceWindows d') =
   map (\<lambda>w. (w_startsAt w, w_endsAt w)) (maintenanceWindows d)"
  by (auto simp: cancel_window_def map_update_where split: option.splits if_splits)

lemma transitions_times:
  "map (\<lambda>w. (w_startsAt w, w_endsAt w)) (update_where (ending n) (completed_window cx)
     (update_where (starting n) (started_window cx) t)) = map (\<lambda>w. (w_startsAt w, w_endsAt w)) t"
  by (subst map_update_where; (subst map_update_where)?)
    (simp_all add: completed_window_def started_window_def)

lemma delete_window_rows:
  "delete_window i orgId d = Inr d' \<Longrightarrow> maintenanceWindows d' =
     delete_where (\<lambda>w. w_id w = i \<and> w_organizationId w = orgId) (maintenanceWindows d)"
  by (auto simp: delete_window_def split: option.splits if_splits)

lemma window_step_ordered:
  assumes "window_step d d'" "windows_ordered d" "window_keys d"
  shows "windows_ordered d'"
  using assms
proof (cases rule: window_step.cases)
  case (created cx i w)
  with assms(2) create_window_rows(1,2) [OF created] show ?thesis by (simp add: windows_ordered_def)
next
  case (updated cx i orgId u)
  then show ?thesis using assms update_window_ordered by blast
next
  case (cancelled cx i orgId)
  then show ?thesis using assms windows_ordered_map cancel_window_times by blast
next
  case (deleted i orgId)
  then show ?thesis using assms(2) delete_window_rows [OF deleted] by (simp add: windows_ordered_def)
next
  case (advanced cx t n)
  then show ?thesis
    using windows_ordered_map [OF assms(2)] transitions_rows [OF advanced] transitions_times by simp
qed

section \<open>Runs of operations\<close>

text \<open>
  A committed operation leaves the ids unique: the id column is the primary key, and an insert that
  would repeat an id fails.
\<close>

definition window_commit :: "db \<Rightarrow> db \<Rightarrow> bool" where
  "window_commit d d' \<longleftrightarrow> window_step d d' \<and> window_keys d'"

lemma window_run_keys: "window_commit\<^sup>*\<^sup>* d d' \<Longrightarrow> window_keys d \<Longrightarrow> window_keys d'"
  by (induction rule: rtranclp_induct) (auto simp: window_commit_def)

lemma final_kept_by_step:
  assumes "windows_kept d d'" "w \<in> set (maintenanceWindows d)" "window_final (w_status w)"
  shows "\<exists>v\<in>set (maintenanceWindows d'). w_id v = w_id w \<and> w_status v = w_status w"
proof -
  have "w_status w \<noteq> WScheduled" using assms(3) by (auto simp: window_final_def)
  then obtain v where v: "v \<in> set (maintenanceWindows d')" "window_kept w v"
    using assms(1,2) by (auto simp: windows_kept_def)
  then show ?thesis
    using windows.final_kept [OF assms(3)] by (auto simp: window_kept_def)
qed

text \<open>
  A maintenance window that has completed or was cancelled stays that way: whatever sequence of
  create, update, cancel, delete and status transition operations follows, its row is still there
  with the same status, so the record of why alerting went quiet is never erased or reopened.
\<close>

theorem finished_window_stays:
  assumes "window_commit\<^sup>*\<^sup>* d d'" "window_keys d"
    and "w \<in> set (maintenanceWindows d)" "window_final (w_status w)"
  shows "\<exists>v\<in>set (maintenanceWindows d'). w_id v = w_id w \<and> w_status v = w_status w"
  using assms
proof (induction rule: rtranclp_induct)
  case (step d1 d2)
  from step.IH [OF step.prems] obtain u where
    u: "u \<in> set (maintenanceWindows d1)" "w_id u = w_id w" "w_status u = w_status w" by blast
  have "windows_kept d1 d2"
    using step.hyps window_run_keys [OF step.hyps(1) step.prems(1)]
    by (intro window_step_kept) (simp_all add: window_commit_def)
  from final_kept_by_step [OF this u(1)] u(2,3) step.prems(3) show ?case by simp
qed blast

definition example_window :: "id \<Rightarrow> window_status \<Rightarrow> time \<Rightarrow> time \<Rightarrow> maintenanceWindow_row" where
  "example_window i st a b = \<lparr>w_id = i, w_organizationId = ''o'', w_name = ''deploy'',
     w_description = None, w_status = st, w_startsAt = a, w_endsAt = b, w_createdBy = None,
     w_createdAt = 0, w_updatedAt = 0\<rparr>"

definition example_windows_db :: db where
  "example_windows_db = empty_db\<lparr>maintenanceWindows :=
     [example_window ''a'' WCompleted 10 20, example_window ''b'' WInProgress 10 50]\<rparr>"

lemma example_window_commit:
  "window_commit example_windows_db (snd (runStatusTransitions (example_ctx 60) None example_windows_db))"
  unfolding window_commit_def
proof
  show "window_step example_windows_db (snd (runStatusTransitions (example_ctx 60) None example_windows_db))"
    by (rule window_step.advanced [where n = "fst (runStatusTransitions (example_ctx 60) None example_windows_db)"])
      (rule surjective_pairing)
qed (simp add: window_keys_def runStatusTransitions_def example_windows_db_def example_window_def
    starting_def ending_def completed_window_def started_window_def Let_def)

lemma finished_window_stays_witness:
  "\<exists>v\<in>set (maintenanceWindows (snd (runStatusTransitions (example_ctx 60) None example_windows_db))).
     w_id v = ''a'' \<and> w_status v = WCompleted"
  using finished_window_stays [OF r_into_rtranclp [of window_commit, OF example_window_commit],
      of "example_window ''a'' WCompleted 10 20"]
  by (simp add: window_keys_def example_windows_db_def example_window_def window_final_def)

text \<open>
  Every window ends after it starts, through any sequence of operations: create and update
  refuse the others, and no transition changes the times.
\<close>

theorem windows_stay_ordered:
  assumes "window_commit\<^sup>*\<^sup>* d d'" "window_keys d" "windows_ordered d"
  shows "windows_ordered d'"
  using assms
proof (induction rule: rtranclp_induct)
  case (step d1 d2)
  then show ?case
    using window_run_keys [OF step.hyps(1)] window_step_ordered by (auto simp: window_commit_def)
qed

lemma windows_stay_ordered_witness:
  "windows_ordered (snd (runStatusTransitions (example_ctx 60) None example_windows_db))"
  by (rule windows_stay_ordered [OF r_into_rtranclp [of window_commit, OF example_window_commit]])
    (simp_all add: window_keys_def windows_ordered_def example_windows_db_def example_window_def)

section \<open>The transition job\<close>

lemma not_starting_after: "\<not> starting n (started_window cx w)"
  by (simp add: starting_def started_window_def)

lemma not_ending_after: "\<not> ending n (completed_window cx w)" "\<not> starting n (completed_window cx w)"
  by (simp_all add: ending_def starting_def completed_window_def)

text \<open>
  After the transition job has run at a time, no scheduled window whose start has come and no
  running window whose end has come is left, a window that both started and ended since the last
  run is completed in the same run, and running the job again at that time changes nothing.
\<close>

theorem transitions_settle:
  "let d' = snd (runStatusTransitions cx t d); n = coalesce t (cx_now cx) in
     filter (starting n) (maintenanceWindows d') = [] \<and>
     filter (ending n) (maintenanceWindows d') = [] \<and>
     runStatusTransitions cx' (Some n) d' = ((0, 0), d')"
proof -
  let ?n = "coalesce t (cx_now cx)"
  let ?u = "update_where (starting ?n) (started_window cx) (maintenanceWindows d)"
  let ?v = "update_where (ending ?n) (completed_window cx) ?u"
  have s: "\<not> starting ?n w" if "w \<in> set ?v" for w
    using that not_ending_after not_starting_after by (auto simp: set_update_where split: if_splits)
  have e: "\<not> ending ?n w" if "w \<in> set ?v" for w
    using that not_ending_after by (auto simp: set_update_where split: if_splits)
  have "filter (starting ?n) ?v = []" "filter (ending ?n) ?v = []"
    using s e by (simp_all add: filter_empty_conv)
  moreover have "update_where (starting ?n) (started_window cx') ?v = ?v"
    "update_where (ending ?n) (completed_window cx') ?v = ?v"
    using s e update_where_none by blast+
  ultimately show ?thesis by (simp add: runStatusTransitions_def Let_def)
qed

section \<open>Which window covers a check\<close>

lemma findActiveWindow_iff:
  "findActiveWindow d mid t \<noteq> None \<longleftrightarrow>
    (\<exists>w\<in>set (maintenanceWindows d). \<exists>wm\<in>set (maintenanceWindowMonitors d).
       wm_windowId wm = w_id w \<and> wm_monitorId wm = mid \<and>
       w_status w = WInProgress \<and> w_startsAt w \<le> t \<and> t \<le> w_endsAt w)"
  unfolding findActiveWindow_def
  by (auto simp: filter_empty_conv)

end
