(* ===== verification/Processor.thy ===== *)
theory Processor
  imports MaintenanceWindows
begin

text \<open>
  The result processor, \<open>worker/monitor/processor.ts\<close>, with the two reads it makes of the event log,
  \<open>lib/server/flap.ts\<close>, and the definition of an ended incident,
  \<open>lib/server/incident-state.ts\<close>.  It is the one place a check result becomes monitor status,
  automatic incidents and notification events.

  The log fields an event builder collects are left out.  The rows a transaction inserts are
  appended in order, each with the next id of the supply, and \<open>clock_timestamp()\<close> is read at the
  draw of that id, so the event log is in the order of its creation times whenever that clock
  advances.
\<close>

section \<open>The event log\<close>

(* src/src/lib/server/flap.ts:15-26 newestEvent *)
definition newestEvent :: "db \<Rightarrow> id \<Rightarrow> notificationType list \<Rightarrow> notificationEvent_row option" where
  "newestEvent d monitorId types = first_row (order_desc e_createdAt
     (filter (\<lambda>e. e_monitorId e = Some monitorId \<and> e_type e \<in> Notice ` set types) (notificationEvents d)))"

(* src/src/lib/server/flap.ts:8-13 STATUS_EVENTS *)
definition STATUS_EVENTS :: "notificationType list" where
  "STATUS_EVENTS = [Monitor_down, Monitor_up, Monitor_degraded, Monitor_flapping]"

(* src/src/lib/server/flap.ts:28-28 OUTAGE_EVENTS *)
definition OUTAGE_EVENTS :: "notificationType list" where
  "OUTAGE_EVENTS = [Monitor_down, Monitor_up, Monitor_flapping]"

text \<open>The flapping message alerts are held behind: when it was sent, and its payload.\<close>

(* src/src/lib/server/flap.ts:30-40 activeFlap *)
definition activeFlap :: "db \<Rightarrow> id \<Rightarrow> (time \<times> event_payload) option" where
  "activeFlap d monitorId = (case newestEvent d monitorId STATUS_EVENTS of
      None \<Rightarrow> None
    | Some latest \<Rightarrow>
        if e_type latest \<noteq> Notice Monitor_flapping then None
        else Some (e_createdAt latest, e_payload latest))"

(* src/src/lib/server/flap.ts:42-49 outageAlerted *)
definition outageAlerted :: "db \<Rightarrow> id \<Rightarrow> bool" where
  "outageAlerted d monitorId = (case newestEvent d monitorId OUTAGE_EVENTS of
      None \<Rightarrow> False
    | Some latest \<Rightarrow> e_type latest \<noteq> Notice Monitor_up)"

(* src/src/worker/monitor/processor.ts:47-61 reachesFlapLimit *)
definition reachesFlapLimit :: "ctx \<Rightarrow> db \<Rightarrow> id \<Rightarrow> time \<Rightarrow> bool" where
  "reachesFlapLimit cx d monitorId t = (if FLAP_THRESHOLD (cx_env cx) < 2 then False
     else let changes = length (filter (\<lambda>e. e_monitorId e = Some monitorId \<and>
              e_type e \<in> {Notice Monitor_down, Notice Monitor_up} \<and>
              e_createdAt e \<ge> t - FLAP_WINDOW_SECONDS (cx_env cx) * 1000) (notificationEvents d)) in
       int changes + 1 \<ge> FLAP_THRESHOLD (cx_env cx))"

(* src/src/worker/monitor/processor.ts:63-77 wentDownRecently *)
definition wentDownRecently :: "ctx \<Rightarrow> db \<Rightarrow> id \<Rightarrow> time \<Rightarrow> bool" where
  "wentDownRecently cx d monitorId t \<longleftrightarrow> first_row (filter (\<lambda>c. c_monitorId c = monitorId \<and>
     c_status c = Down \<and> t - FLAP_SETTLE_SECONDS (cx_env cx) * 1000 \<le> c_checkedAt c \<and>
     c_checkedAt c \<le> t) (monitorChecks d)) \<noteq> None"

section \<open>Incidents\<close>

(* src/src/lib/constants/status.ts:24-28 isEndedIncidentStatus *)
definition isEndedIncidentStatus :: "incident_status \<Rightarrow> bool" where
  "isEndedIncidentStatus s \<longleftrightarrow> s \<in> {Resolved, Postmortem}"

(* src/src/lib/server/incident-state.ts:6-9 incidentEnded *)
definition incidentActive :: "incident_row \<Rightarrow> bool" where
  "incidentActive i \<longleftrightarrow> \<not> isEndedIncidentStatus (i_status i)"

text \<open>\<open>ORDER BY is_auto_created DESC\<close> puts the automatic incidents first.\<close>

(* src/src/worker/monitor/processor.ts:79-89 activeIncident *)
definition activeIncident :: "db \<Rightarrow> id \<Rightarrow> incident_row option" where
  "activeIncident d monitorId = map_option fst (first_row (order_asc (\<lambda>(i, im). \<not> i_isAutoCreated i)
     (filter (\<lambda>(i, im). im_monitorId im = monitorId \<and> incidentActive i)
       (inner_join (\<lambda>i im. i_id i = im_incidentId im) (incidents d) (incidentMonitors d)))))"

(* src/src/worker/monitor/processor.ts:91-95 postUpdate *)
definition postUpdate :: "ctx \<Rightarrow> id \<Rightarrow> incident_status \<Rightarrow> string \<Rightarrow> db \<Rightarrow> db" where
  "postUpdate cx incidentId st message d = (draw d)\<lparr>incidentUpdates := incidentUpdates d @
     [\<lparr>iu_id = cx_nanoid cx (drawn d), iu_incidentId = incidentId, iu_status = st,
       iu_message = message, iu_createdBy = None, iu_createdAt = cx_now cx\<rparr>]\<rparr>"

(* src/src/worker/monitor/processor.ts:259-275 openIncident *)
definition openIncident :: "ctx \<Rightarrow> monitor_row \<Rightarrow> string \<Rightarrow> string \<Rightarrow> db \<Rightarrow> db" where
  "openIncident cx m title message d = (let incidentId = cx_nanoid cx (drawn d);
     d1 = (draw d)\<lparr>
       incidents := incidents d @ [\<lparr>i_id = incidentId, i_organizationId = m_organizationId m,
         i_title = title, i_status = Investigating, i_impact = Major, i_startedAt = cx_now cx,
         i_resolvedAt = None, i_createdBy = None, i_isAutoCreated = True,
         i_createdAt = cx_now cx, i_updatedAt = cx_now cx\<rparr>],
       incidentMonitors := incidentMonitors d @ [\<lparr>im_incidentId = incidentId, im_monitorId = m_id m\<rparr>]\<rparr>
     in postUpdate cx incidentId Investigating message d1)"

(* src/src/worker/monitor/processor.ts:277-288 resolveAutoIncident *)
definition resolveAutoIncident :: "ctx \<Rightarrow> monitor_row \<Rightarrow> string \<Rightarrow> db \<Rightarrow> db" where
  "resolveAutoIncident cx m message d = (case activeIncident d (m_id m) of
      None \<Rightarrow> d
    | Some inc \<Rightarrow>
        if \<not> i_isAutoCreated inc then d
        else postUpdate cx (i_id inc) Resolved message (d\<lparr>incidents :=
          update_where (\<lambda>i. i_id i = i_id inc)
            (\<lambda>i. i\<lparr>i_status := Resolved, i_resolvedAt := Some (cx_now cx), i_updatedAt := cx_now cx\<rparr>)
            (incidents d)\<rparr>))"

section \<open>Interpreting one result\<close>

(* src/src/worker/monitor/processor.ts:121-136 enqueue *)
definition enqueue :: "ctx \<Rightarrow> monitor_row \<Rightarrow> notificationType \<Rightarrow> event_payload \<Rightarrow> db \<Rightarrow> db" where
  "enqueue cx m ty payload d = (draw d)\<lparr>notificationEvents := notificationEvents d @
     [\<lparr>e_id = cx_nanoid cx (drawn d), e_organizationId = m_organizationId m,
       e_monitorId = Some (m_id m), e_incidentId = None, e_type = Notice ty, e_payload = payload,
       e_retry = None, e_mailServerDown = None, e_status = EvPending, e_claimedAt = None, e_processedAt = None,
       e_errorMessage = None, e_createdAt = cx_clock_timestamp cx (drawn d)\<rparr>]\<rparr>"

definition daysUntilExpiry :: "ctx \<Rightarrow> time \<Rightarrow> int" where
  "daysUntilExpiry cx expires = (expires - cx_now cx) div (1000 * 60 * 60 * 24)"

definition recentWarning :: "ctx \<Rightarrow> db \<Rightarrow> id \<Rightarrow> bool" where
  "recentWarning cx d monitorId \<longleftrightarrow> first_row (filter (\<lambda>e. e_monitorId e = Some monitorId \<and>
     e_type e = Notice Ssl_expiry_warning \<and>
     e_createdAt e \<ge> cx_now cx - SSL_WARNING_COOLDOWN_HOURS (cx_env cx) * 60 * 60 * 1000)
     (notificationEvents d)) \<noteq> None"

text \<open>The certificate warning, which the maintenance gate does not stop.\<close>

(* src/src/worker/monitor/processor.ts:154-193 interpret: certificate *)
definition warnExpiry :: "ctx \<Rightarrow> monitor_row \<Rightarrow> monitorCheck_row \<Rightarrow> db \<Rightarrow> db" where
  "warnExpiry cx m row d = (case c_sslExpiresAt row of
      None \<Rightarrow> d
    | Some expires \<Rightarrow>
        if \<not> m_sslCheckEnabled m then d
        else let days = daysUntilExpiry cx expires;
            threshold = number_or (m_sslExpiryThresholdDays m)
              (DEFAULT_SSL_EXPIRY_THRESHOLD_DAYS (cx_env cx)) in
          if days \<le> threshold \<and> days > 0 \<and> \<not> recentWarning cx d (m_id m)
          then enqueue cx m Ssl_expiry_warning (SslPayload days expires (c_sslIssuer row)) d
          else d)"

definition statusOf :: "db \<Rightarrow> id \<Rightarrow> monitorStatus_row option" where
  "statusOf d monitorId = first_row (filter (\<lambda>s. s_monitorId s = monitorId) (monitorStatuses d))"

definition previousFailures :: "monitorStatus_row option \<Rightarrow> int" where
  "previousFailures cur = coalesce (map_option s_consecutiveFailures cur) 0"

definition consecutiveFailures :: "monitorStatus_row option \<Rightarrow> monitorCheck_row \<Rightarrow> int" where
  "consecutiveFailures cur row = (if c_status row = Down then previousFailures cur + 1 else 0)"

definition statusChanged :: "monitorStatus_row option \<Rightarrow> monitorCheck_row \<Rightarrow> bool" where
  "statusChanged cur row \<longleftrightarrow> map_option s_status cur \<noteq> Some (c_status row)"

definition lastStatusChange :: "monitorStatus_row option \<Rightarrow> time option" where
  "lastStatusChange cur = (case cur of None \<Rightarrow> None | Some s \<Rightarrow> s_lastStatusChange s)"

(* src/src/worker/monitor/processor.ts:210-216 interpret: status *)
definition status_set ::
  "ctx \<Rightarrow> monitorCheck_row \<Rightarrow> monitorStatus_row option \<Rightarrow> monitorStatus_row \<Rightarrow> monitorStatus_row" where
  "status_set cx row cur s = s\<lparr>
     s_status := c_status row,
     s_lastCheckAt := Some (c_checkedAt row),
     s_lastStatusChange :=
       (if statusChanged cur row then Some (c_checkedAt row) else lastStatusChange cur),
     s_consecutiveFailures := consecutiveFailures cur row,
     s_updatedAt := cx_now cx\<rparr>"

(* src/src/worker/monitor/processor.ts:208-217 interpret: status *)
definition recordStatus ::
  "ctx \<Rightarrow> monitor_row \<Rightarrow> monitorCheck_row \<Rightarrow> monitorStatus_row option \<Rightarrow> db \<Rightarrow> db" where
  "recordStatus cx m row cur d = d\<lparr>monitorStatuses :=
     update_where (\<lambda>s. s_monitorId s = m_id m) (status_set cx row cur) (monitorStatuses d)\<rparr>"

text \<open>What the code works out about a result before it decides what to send.\<close>

record assessment =
  a_inOutage :: bool
  a_reachesThreshold :: bool
  a_crossesThreshold :: bool
  a_steady :: bool
  a_flap :: "(time \<times> event_payload) option"
  a_settled :: bool
  a_startsFlapping :: bool

text \<open>
  The time the status has been unchanged is minus infinity when no change was ever recorded, here
  None, and then the status is not steady.
\<close>

definition steady :: "ctx \<Rightarrow> monitorStatus_row option \<Rightarrow> monitorCheck_row \<Rightarrow> bool" where
  "steady cx cur row \<longleftrightarrow> (let unchangedForMs = (if statusChanged cur row then Some 0
       else map_option (\<lambda>t. c_checkedAt row - t) (lastStatusChange cur)) in
     on_some (\<lambda>ms. ms \<ge> FLAP_SETTLE_SECONDS (cx_env cx) * 1000) unchangedForMs)"

(* src/src/worker/monitor/processor.ts:219-251 interpret: assessment *)
definition assess ::
  "ctx \<Rightarrow> monitor_row \<Rightarrow> monitorCheck_row \<Rightarrow> monitorStatus_row option \<Rightarrow> db \<Rightarrow> assessment" where
  "assess cx m row cur d = (
     let previousStatus = map_option s_status cur;
       inOutage = ((c_status row \<noteq> Up \<or> previousStatus \<noteq> Some Up) \<and> outageAlerted d (m_id m));
       reachesThreshold = (consecutiveFailures cur row \<ge> m_alertAfterFailures m);
       crossesThreshold = (c_status row = Down \<and> reachesThreshold \<and>
         (previousFailures cur < m_alertAfterFailures m \<or> \<not> inOutage));
       stdy = steady cx cur row;
       flap = activeFlap d (m_id m);
       settled = (flap \<noteq> None \<and>
         (if c_status row = Down then stdy \<and> reachesThreshold
          else previousStatus \<noteq> Some Down \<and> \<not> wentDownRecently cx d (m_id m) (c_checkedAt row)));
       startsFlapping = (flap = None \<and> crossesThreshold \<and> \<not> stdy \<and>
         reachesFlapLimit cx d (m_id m) (c_checkedAt row))
     in \<lparr>a_inOutage = inOutage, a_reachesThreshold = reachesThreshold,
         a_crossesThreshold = crossesThreshold, a_steady = stdy, a_flap = flap,
         a_settled = settled, a_startsFlapping = startsFlapping\<rparr>)"

(* src/src/worker/monitor/processor.ts:253-257 enqueueFlapping *)
definition enqueueFlapping :: "ctx \<Rightarrow> monitor_row \<Rightarrow> db \<Rightarrow> db" where
  "enqueueFlapping cx m d = enqueue cx m Monitor_flapping
     (FlapPayload (FLAP_SETTLE_SECONDS (cx_env cx)) (FLAP_WINDOW_SECONDS (cx_env cx))) d"

(* src/src/worker/monitor/processor.ts:248-248 alertsDown *)
definition alertsDown :: "monitorCheck_row \<Rightarrow> assessment \<Rightarrow> bool" where
  "alertsDown row a \<longleftrightarrow> c_status row = Down \<and> (a_settled a \<or> a_crossesThreshold a)"

(* src/src/worker/monitor/processor.ts:249-249 alertsUp *)
definition alertsUp :: "monitorCheck_row \<Rightarrow> assessment \<Rightarrow> bool" where
  "alertsUp row a \<longleftrightarrow> c_status row = Up \<and> (a_settled a \<or> a_inOutage a)"

(* src/src/worker/monitor/processor.ts:250-251 alertsDegraded *)
definition alertsDegraded ::
  "monitorStatus_row option \<Rightarrow> monitorCheck_row \<Rightarrow> assessment \<Rightarrow> bool" where
  "alertsDegraded cur row a \<longleftrightarrow> c_status row = Degraded \<and>
     (a_settled a \<or> (statusChanged cur row \<and> map_option s_status cur \<noteq> Some Unknown))"

(* src/src/worker/monitor/processor.ts:290-297 interpret: startsFlapping *)
definition startFlapping :: "ctx \<Rightarrow> monitor_row \<Rightarrow> db \<Rightarrow> db" where
  "startFlapping cx m d = (let d1 = enqueueFlapping cx m d;
     message = ''Monitor keeps going down and recovering.'' in
     case activeIncident d1 (m_id m) of
       None \<Rightarrow> openIncident cx m (m_name m @ '' is flapping'') message d1
     | Some inc \<Rightarrow>
         if i_isAutoCreated inc then postUpdate cx (i_id inc) (i_status inc) message d1 else d1)"

(* src/src/worker/monitor/processor.ts:302-317 interpret: alertsDown *)
definition alertDown ::
  "ctx \<Rightarrow> monitor_row \<Rightarrow> monitorCheck_row \<Rightarrow> monitorStatus_row option \<Rightarrow> bool \<Rightarrow> db \<Rightarrow> db" where
  "alertDown cx m row cur flapping d = (
     let d1 = enqueue cx m Monitor_down (StatusPayload (map_option s_status cur) Down
           (consecutiveFailures cur row) (c_errorMessage row) (c_id row)) d in
     case activeIncident d1 (m_id m) of
       None \<Rightarrow> openIncident cx m (m_name m @ '' is down'') ''Monitor is not responding.'' d1
     | Some inc \<Rightarrow>
         if flapping \<and> i_isAutoCreated inc
         then postUpdate cx (i_id inc) (i_status inc) ''Monitor stopped recovering and is down.'' d1
         else d1)"

(* src/src/worker/monitor/processor.ts:318-326 interpret: alertsUp *)
definition alertUp ::
  "ctx \<Rightarrow> monitor_row \<Rightarrow> monitorCheck_row \<Rightarrow> monitorStatus_row option \<Rightarrow> db \<Rightarrow> db" where
  "alertUp cx m row cur d = resolveAutoIncident cx m ''Monitor has recovered automatically.''
     (enqueue cx m Monitor_up (StatusPayload
        (Some (if map_option s_status cur = Some Degraded then Degraded else Down)) Up
        (consecutiveFailures cur row) None (c_id row)) d)"

(* src/src/worker/monitor/processor.ts:327-340 interpret: degraded *)
definition alertDegraded ::
  "ctx \<Rightarrow> monitor_row \<Rightarrow> monitorCheck_row \<Rightarrow> monitorStatus_row option \<Rightarrow> assessment \<Rightarrow> db \<Rightarrow> db" where
  "alertDegraded cx m row cur a d = (
     let d1 = (if alertsDegraded cur row a
       then enqueue cx m Monitor_degraded (StatusPayload (map_option s_status cur) Degraded
              (consecutiveFailures cur row) None (c_id row)) d
       else d) in
     if a_settled a \<or> (a_steady a \<and> a_inOutage a)
     then resolveAutoIncident cx m ''Monitor is responding again, with degraded performance.'' d1
     else d1)"

(* src/src/worker/monitor/processor.ts:290-340 interpret: alerts *)
definition sendAlerts ::
  "ctx \<Rightarrow> monitor_row \<Rightarrow> monitorCheck_row \<Rightarrow> monitorStatus_row option \<Rightarrow> assessment \<Rightarrow> db \<Rightarrow> db" where
  "sendAlerts cx m row cur a d =
    (if a_startsFlapping a then startFlapping cx m d
     else if a_flap a \<noteq> None \<and> \<not> a_settled a then
       (if on_some (\<lambda>(notifiedAt, _). c_checkedAt row - notifiedAt
              \<ge> FLAP_WINDOW_SECONDS (cx_env cx) * 1000) (a_flap a)
        then enqueueFlapping cx m d else d)
     else if alertsDown row a then alertDown cx m row cur (a_flap a \<noteq> None) d
     else if alertsUp row a then alertUp cx m row cur d
     else if c_status row = Degraded then alertDegraded cx m row cur a d
     else d)"

definition stale :: "monitorStatus_row option \<Rightarrow> monitorCheck_row \<Rightarrow> bool" where
  "stale cur row \<longleftrightarrow> (case cur of None \<Rightarrow> False
     | Some s \<Rightarrow> on_some (\<lambda>t. c_checkedAt row < t) (s_lastCheckAt s))"

(* src/src/worker/monitor/processor.ts:97-341 interpret *)
definition interpret_result :: "ctx \<Rightarrow> monitor_row \<Rightarrow> monitorCheck_row \<Rightarrow> db \<Rightarrow> db" where
  "interpret_result cx m row d = (let cur = statusOf d (m_id m) in
     if stale cur row then d
     else let d1 = warnExpiry cx m row d in
       if findActiveWindow d1 (m_id m) (c_checkedAt row) \<noteq> None then d1
       else let d2 = recordStatus cx m row cur d1 in
         sendAlerts cx m row cur (assess cx m row cur d2) d2)"

section \<open>Interpreting what a monitor has waiting\<close>

definition waiting :: "db \<Rightarrow> id \<Rightarrow> monitorCheck_row list" where
  "waiting d monitorId = order_asc (\<lambda>c. (c_checkedAt c, c_id c))
     (filter (\<lambda>c. c_monitorId c = monitorId \<and> c_processedAt c = None) (monitorChecks d))"

text \<open>
  The checks of a deleted monitor go with it, so the monitor of a waiting row is there; without it
  the transaction throws, here None, and changes nothing.
\<close>

(* src/src/worker/monitor/processor.ts:343-373 processResults *)
definition processResults :: "ctx \<Rightarrow> id \<Rightarrow> db \<Rightarrow> (nat \<times> db) option" where
  "processResults cx monitorId d = (let rows = waiting d monitorId in
     if rows = [] then Some (0, d)
     else case first_row (filter (\<lambda>m. m_id m = monitorId) (monitors d)) of
       None \<Rightarrow> None
     | Some m \<Rightarrow> let d1 = fold (interpret_result cx m) rows d in
         Some (length rows, d1\<lparr>monitorChecks := update_where (\<lambda>c. c_id c \<in> c_id ` set rows)
           (\<lambda>c. c\<lparr>c_processedAt := Some (cx_now cx)\<rparr>) (monitorChecks d1)\<rparr>))"

(* src/src/worker/monitor/processor.ts:375-382 pendingMonitorIds *)
definition pendingMonitorIds :: "db \<Rightarrow> id list" where
  "pendingMonitorIds d = unique (map c_monitorId (filter (\<lambda>c. c_processedAt c = None) (monitorChecks d)))"

section \<open>What each step leaves alone\<close>

lemma events_frame [simp]:
  "notificationEvents (draw d) = notificationEvents d"
  "notificationEvents (postUpdate cx i st msg d) = notificationEvents d"
  "notificationEvents (openIncident cx m ti msg d) = notificationEvents d"
  "notificationEvents (resolveAutoIncident cx m msg d) = notificationEvents d"
  "notificationEvents (recordStatus cx m row cur d) = notificationEvents d"
  by (simp_all add: draw_def postUpdate_def openIncident_def resolveAutoIncident_def
      recordStatus_def Let_def split: option.split)

lemma statuses_frame [simp]:
  "monitorStatuses (draw d) = monitorStatuses d"
  "monitorStatuses (postUpdate cx i st msg d) = monitorStatuses d"
  "monitorStatuses (openIncident cx m ti msg d) = monitorStatuses d"
  "monitorStatuses (resolveAutoIncident cx m msg d) = monitorStatuses d"
  "monitorStatuses (enqueue cx m ty pl d) = monitorStatuses d"
  "monitorStatuses (enqueueFlapping cx m d) = monitorStatuses d"
  "monitorStatuses (warnExpiry cx m row d) = monitorStatuses d"
  by (simp_all add: draw_def postUpdate_def openIncident_def resolveAutoIncident_def enqueue_def
      enqueueFlapping_def warnExpiry_def Let_def split: option.split)

lemma checks_frame [simp]:
  "monitorChecks (draw d) = monitorChecks d"
  "monitorChecks (postUpdate cx i st msg d) = monitorChecks d"
  "monitorChecks (openIncident cx m ti msg d) = monitorChecks d"
  "monitorChecks (resolveAutoIncident cx m msg d) = monitorChecks d"
  "monitorChecks (enqueue cx m ty pl d) = monitorChecks d"
  "monitorChecks (enqueueFlapping cx m d) = monitorChecks d"
  "monitorChecks (warnExpiry cx m row d) = monitorChecks d"
  "monitorChecks (recordStatus cx m row cur d) = monitorChecks d"
  by (simp_all add: draw_def postUpdate_def openIncident_def resolveAutoIncident_def enqueue_def
      enqueueFlapping_def warnExpiry_def recordStatus_def Let_def split: option.split)

lemma windows_frame [simp]:
  "findActiveWindow (draw d) = findActiveWindow d"
  "findActiveWindow (postUpdate cx i st msg d) = findActiveWindow d"
  "findActiveWindow (openIncident cx m ti msg d) = findActiveWindow d"
  "findActiveWindow (resolveAutoIncident cx m msg d) = findActiveWindow d"
  "findActiveWindow (enqueue cx m ty pl d) = findActiveWindow d"
  "findActiveWindow (enqueueFlapping cx m d) = findActiveWindow d"
  "findActiveWindow (warnExpiry cx m row d) = findActiveWindow d"
  "findActiveWindow (recordStatus cx m row cur d) = findActiveWindow d"
  by (simp_all add: findActiveWindow_def fun_eq_iff draw_def postUpdate_def openIncident_def
      resolveAutoIncident_def enqueue_def enqueueFlapping_def warnExpiry_def recordStatus_def Let_def
      split: option.split)

lemma incidents_frame [simp]:
  "incidents (draw d) = incidents d"
  "incidents (postUpdate cx i st msg d) = incidents d"
  "incidents (enqueue cx m ty pl d) = incidents d"
  "incidents (enqueueFlapping cx m d) = incidents d"
  "incidents (warnExpiry cx m row d) = incidents d"
  "incidents (recordStatus cx m row cur d) = incidents d"
  "incidentMonitors (draw d) = incidentMonitors d"
  "incidentMonitors (postUpdate cx i st msg d) = incidentMonitors d"
  "incidentMonitors (resolveAutoIncident cx m msg d) = incidentMonitors d"
  "incidentMonitors (enqueue cx m ty pl d) = incidentMonitors d"
  "incidentMonitors (enqueueFlapping cx m d) = incidentMonitors d"
  "incidentMonitors (warnExpiry cx m row d) = incidentMonitors d"
  "incidentMonitors (recordStatus cx m row cur d) = incidentMonitors d"
  by (simp_all add: draw_def postUpdate_def enqueue_def enqueueFlapping_def warnExpiry_def
      recordStatus_def resolveAutoIncident_def Let_def split: option.split)

lemma activeIncident_frame [simp]:
  "activeIncident (draw d) = activeIncident d"
  "activeIncident (postUpdate cx i st msg d) = activeIncident d"
  "activeIncident (enqueue cx m ty pl d) = activeIncident d"
  "activeIncident (enqueueFlapping cx m d) = activeIncident d"
  "activeIncident (recordStatus cx m row cur d) = activeIncident d"
  by (simp_all add: activeIncident_def fun_eq_iff)

lemma drawn_simps [simp]:
  "drawn (postUpdate cx i st msg d) = Suc (drawn d)"
  "drawn (openIncident cx m ti msg d) = Suc (Suc (drawn d))"
  "drawn (enqueue cx m ty pl d) = Suc (drawn d)"
  "drawn (recordStatus cx m row cur d) = drawn d"
  by (simp_all add: postUpdate_def openIncident_def enqueue_def recordStatus_def Let_def)

lemma drawn_mono:
  "drawn d \<le> drawn (resolveAutoIncident cx m msg d)"
  "drawn d \<le> drawn (warnExpiry cx m row d)"
  by (simp_all add: resolveAutoIncident_def postUpdate_def warnExpiry_def Let_def split: option.split)

section \<open>The status row\<close>

interpretation status_key: keyed_update s_monitorId "status_set cx row cur"
  by unfold_locales (simp add: status_set_def)

lemma first_row_map [simp]: "first_row (map f t) = map_option f (first_row t)"
  by (cases t) auto

lemma statusOf_recordStatus [simp]:
  "statusOf (recordStatus cx m row cur d) mid =
    (if mid = m_id m then map_option (status_set cx row cur) (statusOf d mid) else statusOf d mid)"
  by (simp add: statusOf_def recordStatus_def status_key.the_row_updated
      status_key.other_rows_kept [of _ "m_id m"])

lemma statusOf_cong: "monitorStatuses d = monitorStatuses d' \<Longrightarrow> statusOf d mid = statusOf d' mid"
  by (simp add: statusOf_def)

lemma statusOf_frame [simp]:
  "statusOf (warnExpiry cx m row d) mid = statusOf d mid"
  "statusOf (enqueue cx m ty pl d) mid = statusOf d mid"
  by (rule statusOf_cong, simp)+

lemma sendAlerts_statuses [simp]:
  "monitorStatuses (sendAlerts cx m row cur a d) = monitorStatuses d"
  by (simp add: sendAlerts_def startFlapping_def alertDown_def alertUp_def alertDegraded_def Let_def
      split: option.split)

lemma sendAlerts_checks [simp]:
  "monitorChecks (sendAlerts cx m row cur a d) = monitorChecks d"
  by (simp add: sendAlerts_def startFlapping_def alertDown_def alertUp_def alertDegraded_def Let_def
      split: option.split)

lemma sendAlerts_windows [simp]:
  "findActiveWindow (sendAlerts cx m row cur a d) = findActiveWindow d"
  by (simp add: sendAlerts_def startFlapping_def alertDown_def alertUp_def alertDegraded_def Let_def
      split: option.split)

lemma sendAlerts_statusOf [simp]: "statusOf (sendAlerts cx m row cur a d) mid = statusOf d mid"
  by (rule statusOf_cong) simp

lemma interpret_checks [simp]: "monitorChecks (interpret_result cx m row d) = monitorChecks d"
  by (simp add: interpret_result_def Let_def)

lemma interpret_windows [simp]: "findActiveWindow (interpret_result cx m row d) = findActiveWindow d"
  by (simp add: interpret_result_def Let_def)

end
