(* ===== verification/Outages.thy ===== *)
theory Outages
  imports Processor
begin

text \<open>
  What the alerts of the result processor guarantee.  An interpreted result sends at most one
  status alert; the lemmas say which one, and what the two questions the code asks of the event
  log, is the monitor held behind a flapping message and has an outage been alerted, answer
  afterwards.  The properties are invariants of the log and guarantees about single results.
\<close>

section \<open>The clock of the event log\<close>

text \<open>
  Events are stamped by a clock that advances from one draw to the next and is past every event
  there is, which is what \<open>clock_timestamp()\<close> is chosen for in the source.
\<close>

definition clock_ok :: "ctx \<Rightarrow> db \<Rightarrow> bool" where
  "clock_ok cx d \<longleftrightarrow> strict_mono (cx_clock_timestamp cx) \<and>
     (\<forall>e\<in>set (notificationEvents d). e_createdAt e < cx_clock_timestamp cx (drawn d))"

lemma clock_ok_draw:
  assumes "clock_ok cx d" "drawn d \<le> drawn d'" "notificationEvents d' = notificationEvents d"
  shows "clock_ok cx d'"
proof -
  have "cx_clock_timestamp cx (drawn d) \<le> cx_clock_timestamp cx (drawn d')"
    using assms(1,2) by (simp add: clock_ok_def strict_mono_less_eq)
  with assms(1,3) show ?thesis by (auto simp: clock_ok_def)
qed

lemma clock_ok_enqueue: "clock_ok cx d \<Longrightarrow> clock_ok cx (enqueue cx m ty pl d)"
proof -
  assume c: "clock_ok cx d"
  then have "cx_clock_timestamp cx (drawn d) < cx_clock_timestamp cx (Suc (drawn d))"
    by (simp add: clock_ok_def strict_monoD)
  with c show ?thesis by (force simp: clock_ok_def enqueue_def)
qed

section \<open>Reading the log after an append\<close>

text \<open>A monitor is held while its alerts wait behind a flapping message.\<close>

definition held :: "db \<Rightarrow> id \<Rightarrow> bool" where
  "held d mid \<longleftrightarrow> activeFlap d mid \<noteq> None"

lemma newestEvent_cong:
  "notificationEvents d = notificationEvents d' \<Longrightarrow> newestEvent d mid tys = newestEvent d' mid tys"
  by (simp add: newestEvent_def)

lemma activeFlap_cong:
  "notificationEvents d = notificationEvents d' \<Longrightarrow> activeFlap d mid = activeFlap d' mid"
  by (simp add: activeFlap_def newestEvent_def)

lemma held_cong: "notificationEvents d = notificationEvents d' \<Longrightarrow> held d mid = held d' mid"
  by (simp only: held_def activeFlap_def newestEvent_def)

lemma outageAlerted_cong:
  "notificationEvents d = notificationEvents d' \<Longrightarrow> outageAlerted d mid = outageAlerted d' mid"
  by (simp add: outageAlerted_def newestEvent_def)

lemma log_reads_frame [simp]:
  "held (recordStatus cx m row cur d) mid = held d mid"
  "outageAlerted (recordStatus cx m row cur d) mid = outageAlerted d mid"
  by (rule held_cong outageAlerted_cong; simp)+

lemma newestEvent_enqueue:
  assumes "clock_ok cx d"
  shows "map_option e_type (newestEvent (enqueue cx m ty pl d) mid tys) =
    (if mid = m_id m \<and> ty \<in> set tys then Some (Notice ty) else map_option e_type (newestEvent d mid tys))"
proof -
  have "e_createdAt e < cx_clock_timestamp cx (drawn d)" if "e \<in> set (notificationEvents d)" for e
    using that assms by (simp add: clock_ok_def)
  then have "first_row (order_desc e_createdAt (filter P (notificationEvents d) @ [e])) = Some e"
    if "e_createdAt e = cx_clock_timestamp cx (drawn d)" for P e
    using that by (intro first_order_desc_append_newest) simp
  then show ?thesis by (simp add: newestEvent_def enqueue_def image_iff)
qed

lemma held_type: "held d mid \<longleftrightarrow>
    map_option e_type (newestEvent d mid STATUS_EVENTS) = Some (Notice Monitor_flapping)"
  by (auto simp: held_def activeFlap_def split: option.split)

lemma outageAlerted_type: "outageAlerted d mid \<longleftrightarrow>
    (\<exists>ty. map_option e_type (newestEvent d mid OUTAGE_EVENTS) = Some ty \<and> ty \<noteq> Notice Monitor_up)"
  by (auto simp: outageAlerted_def split: option.split)

lemma held_enqueue:
  assumes "clock_ok cx d"
  shows "held (enqueue cx m ty pl d) mid \<longleftrightarrow>
    (if mid = m_id m \<and> ty \<in> set STATUS_EVENTS then ty = Monitor_flapping else held d mid)"
  by (simp add: held_type newestEvent_enqueue [OF assms])

lemma outage_enqueue:
  assumes "clock_ok cx d"
  shows "outageAlerted (enqueue cx m ty pl d) mid \<longleftrightarrow>
    (if mid = m_id m \<and> ty \<in> set OUTAGE_EVENTS then ty \<noteq> Monitor_up else outageAlerted d mid)"
  by (simp add: outageAlerted_type newestEvent_enqueue [OF assms])

text \<open>A held monitor has an alerted outage: the flapping message stands in for the down alert.\<close>

lemma filter_order_desc: "filter P (order_desc k t) = order_desc k (filter P t)"
  by (simp add: order_desc_def filter_sort)

lemma held_outage: "held d mid \<Longrightarrow> outageAlerted d mid"
proof -
  let ?status = "\<lambda>e. e_monitorId e = Some mid \<and> e_type e \<in> Notice ` set STATUS_EVENTS"
  let ?outage = "\<lambda>e. e_type e \<in> Notice ` set OUTAGE_EVENTS"
  assume "held d mid"
  then obtain e where e: "newestEvent d mid STATUS_EVENTS = Some e" "e_type e = Notice Monitor_flapping"
    by (auto simp: held_type)
  then obtain es where es: "order_desc e_createdAt (filter ?status (notificationEvents d)) = e # es"
    by (auto simp: newestEvent_def first_row_def split: list.splits)
  have "filter (\<lambda>e. e_monitorId e = Some mid \<and> ?outage e) (notificationEvents d) =
      filter ?outage (filter ?status (notificationEvents d))"
    by (auto simp: STATUS_EVENTS_def OUTAGE_EVENTS_def intro!: filter_cong)
  then have "order_desc e_createdAt (filter (\<lambda>e. e_monitorId e = Some mid \<and> ?outage e) (notificationEvents d)) =
      filter ?outage (e # es)"
    by (simp only: filter_order_desc [symmetric] es [symmetric])
  with e(2) show ?thesis by (simp add: outageAlerted_def newestEvent_def OUTAGE_EVENTS_def)
qed

section \<open>The one alert of a result\<close>

definition alert_of ::
  "ctx \<Rightarrow> monitorCheck_row \<Rightarrow> monitorStatus_row option \<Rightarrow> assessment \<Rightarrow> notificationType option" where
  "alert_of cx row cur a =
    (if a_startsFlapping a then Some Monitor_flapping
     else if a_flap a \<noteq> None \<and> \<not> a_settled a then
       (if on_some (\<lambda>(t, _). c_checkedAt row - t \<ge> FLAP_WINDOW_SECONDS (cx_env cx) * 1000) (a_flap a)
        then Some Monitor_flapping else None)
     else if alertsDown row a then Some Monitor_down
     else if alertsUp row a then Some Monitor_up
     else if alertsDegraded cur row a then Some Monitor_degraded
     else None)"

lemma alert_events:
  "notificationEvents (startFlapping cx m d) = notificationEvents (enqueueFlapping cx m d)"
  "\<exists>pl. notificationEvents (alertDown cx m row cur b d) = notificationEvents (enqueue cx m Monitor_down pl d)"
  "\<exists>pl. notificationEvents (alertUp cx m row cur d) = notificationEvents (enqueue cx m Monitor_up pl d)"
  "alertsDegraded cur row a \<Longrightarrow> \<exists>pl. notificationEvents (alertDegraded cx m row cur a d) =
     notificationEvents (enqueue cx m Monitor_degraded pl d)"
  "\<not> alertsDegraded cur row a \<Longrightarrow>
     notificationEvents (alertDegraded cx m row cur a d) = notificationEvents d"
proof -
  show "notificationEvents (startFlapping cx m d) = notificationEvents (enqueueFlapping cx m d)"
    by (simp add: startFlapping_def Let_def split: option.split)
  show "\<exists>pl. notificationEvents (alertDown cx m row cur b d) = notificationEvents (enqueue cx m Monitor_down pl d)"
    unfolding alertDown_def Let_def
    by (rule exI [where x = "StatusPayload (map_option s_status cur) Down (consecutiveFailures cur row)
        (c_errorMessage row) (c_id row)"]) (simp split: option.split)
  show "\<exists>pl. notificationEvents (alertUp cx m row cur d) = notificationEvents (enqueue cx m Monitor_up pl d)"
    unfolding alertUp_def by (rule exI) simp
  show "alertsDegraded cur row a \<Longrightarrow> \<exists>pl. notificationEvents (alertDegraded cx m row cur a d) =
     notificationEvents (enqueue cx m Monitor_degraded pl d)"
    unfolding alertDegraded_def Let_def
    by (rule exI [where x = "StatusPayload (map_option s_status cur) Degraded
        (consecutiveFailures cur row) None (c_id row)"]) simp
  show "\<not> alertsDegraded cur row a \<Longrightarrow>
     notificationEvents (alertDegraded cx m row cur a d) = notificationEvents d"
    by (simp add: alertDegraded_def Let_def)
qed

lemma sendAlerts_events:
  "case alert_of cx row cur a of
     None \<Rightarrow> notificationEvents (sendAlerts cx m row cur a d) = notificationEvents d
   | Some ty \<Rightarrow> \<exists>pl. notificationEvents (sendAlerts cx m row cur a d) =
       notificationEvents (enqueue cx m ty pl d)"
proof -
  have flap: "\<exists>pl. notificationEvents (enqueueFlapping cx m d) =
      notificationEvents (enqueue cx m Monitor_flapping pl d)"
    by (rule exI) (simp add: enqueueFlapping_def)
  have "alertsDegraded cur row a \<Longrightarrow> c_status row = Degraded"
    by (simp add: alertsDegraded_def)
  then show ?thesis
    using flap alert_events(2-5)
    by (simp add: alert_of_def sendAlerts_def alert_events(1))
qed

lemma alert_of_Some:
  assumes "clock_ok cx d" "alert_of cx row cur a = Some ty"
  shows "held (sendAlerts cx m row cur a d) mid \<longleftrightarrow>
      (if mid = m_id m \<and> ty \<in> set STATUS_EVENTS then ty = Monitor_flapping else held d mid)"
    "outageAlerted (sendAlerts cx m row cur a d) mid \<longleftrightarrow>
      (if mid = m_id m \<and> ty \<in> set OUTAGE_EVENTS then ty \<noteq> Monitor_up else outageAlerted d mid)"
proof -
  from sendAlerts_events [where cx = cx and m = m and row = row and cur = cur and a = a and d = d] assms(2) obtain pl where
    "notificationEvents (sendAlerts cx m row cur a d) = notificationEvents (enqueue cx m ty pl d)"
    by auto
  note eq = held_cong [OF this] outageAlerted_cong [OF this]
  show "held (sendAlerts cx m row cur a d) mid \<longleftrightarrow>
      (if mid = m_id m \<and> ty \<in> set STATUS_EVENTS then ty = Monitor_flapping else held d mid)"
    using held_enqueue [OF assms(1), of m ty pl mid] by (simp only: eq)
  show "outageAlerted (sendAlerts cx m row cur a d) mid \<longleftrightarrow>
      (if mid = m_id m \<and> ty \<in> set OUTAGE_EVENTS then ty \<noteq> Monitor_up else outageAlerted d mid)"
    using outage_enqueue [OF assms(1), of m ty pl mid] by (simp only: eq)
qed

lemma alert_of_None:
  assumes "alert_of cx row cur a = None"
  shows "held (sendAlerts cx m row cur a d) mid = held d mid"
    "outageAlerted (sendAlerts cx m row cur a d) mid = outageAlerted d mid"
proof -
  have "notificationEvents (sendAlerts cx m row cur a d) = notificationEvents d"
    using sendAlerts_events [where cx = cx and m = m and row = row and cur = cur and a = a and d = d]
      assms by simp
  then show "held (sendAlerts cx m row cur a d) mid = held d mid"
    "outageAlerted (sendAlerts cx m row cur a d) mid = outageAlerted d mid"
    by (rule held_cong, rule outageAlerted_cong)
qed

text \<open>How the assessment's parts relate.\<close>

lemma assess_facts:
  fixes cx m row cur d
  defines "a \<equiv> assess cx m row cur d"
  shows "a_flap a = activeFlap d (m_id m)"
    "a_settled a \<Longrightarrow> a_flap a \<noteq> None"
    "a_startsFlapping a \<Longrightarrow> a_flap a = None \<and> c_status row = Down"
    "a_inOutage a \<Longrightarrow> outageAlerted d (m_id m)"
    "c_status row = Down \<Longrightarrow> a_inOutage a = outageAlerted d (m_id m)"
    "a_crossesThreshold a \<Longrightarrow> c_status row = Down \<and> a_reachesThreshold a"
    "c_status row = Down \<Longrightarrow> a_reachesThreshold a \<Longrightarrow> a_crossesThreshold a \<or> outageAlerted d (m_id m)"
    "c_status row = Down \<Longrightarrow> a_flap a \<noteq> None \<Longrightarrow>
       a_settled a = (a_steady a \<and> a_reachesThreshold a)"
    "a_reachesThreshold a = (consecutiveFailures cur row \<ge> m_alertAfterFailures m)"
    "a_steady a = steady cx cur row"
  by (auto simp: a_def assess_def Let_def)

lemma STATUS_EVENTS_set: "set STATUS_EVENTS = {Monitor_down, Monitor_up, Monitor_degraded, Monitor_flapping}"
  and OUTAGE_EVENTS_set: "set OUTAGE_EVENTS = {Monitor_down, Monitor_up, Monitor_flapping}"
  by (auto simp: STATUS_EVENTS_def OUTAGE_EVENTS_def)

lemma alert_of_status: "alert_of cx row cur a = Some ty \<Longrightarrow> ty \<in> set STATUS_EVENTS"
  by (auto simp: alert_of_def STATUS_EVENTS_set split: if_splits)

lemma alert_of_cases:
  "alert_of cx row cur a = Some Monitor_up \<Longrightarrow> c_status row = Up \<and> (a_settled a \<or> a_inOutage a)"
  "alert_of cx row cur a = Some Monitor_down \<Longrightarrow> c_status row = Down"
  "alert_of cx row cur a = Some Monitor_degraded \<Longrightarrow> c_status row = Degraded"
  by (auto simp: alert_of_def alertsUp_def alertsDown_def alertsDegraded_def split: if_splits)

lemma alert_of_flapping:
  "alert_of cx row cur a = Some Monitor_flapping \<Longrightarrow>
   a_startsFlapping a \<or> (a_flap a \<noteq> None \<and> \<not> a_settled a)"
  by (auto simp: alert_of_def split: if_splits)

section \<open>One result\<close>

text \<open>A result that reaches the alerts: it is not older than the last one, and no window covers it.\<close>

definition counted :: "monitor_row \<Rightarrow> monitorCheck_row \<Rightarrow> db \<Rightarrow> bool" where
  "counted m row d \<longleftrightarrow> \<not> stale (statusOf d (m_id m)) row \<and>
     findActiveWindow d (m_id m) (c_checkedAt row) = None"

lemma warnExpiry_events:
  "notificationEvents (warnExpiry cx m row d) = notificationEvents d \<and> warnExpiry cx m row d = d \<or>
   (\<exists>pl. warnExpiry cx m row d = enqueue cx m Ssl_expiry_warning pl d)"
  by (auto simp: warnExpiry_def Let_def split: option.split)

lemma warnExpiry_log:
  assumes "clock_ok cx d"
  shows "clock_ok cx (warnExpiry cx m row d)"
    "held (warnExpiry cx m row d) mid \<longleftrightarrow> held d mid"
    "outageAlerted (warnExpiry cx m row d) mid \<longleftrightarrow> outageAlerted d mid"
  using warnExpiry_events [of cx m row d] held_enqueue [OF assms] outage_enqueue [OF assms]
    clock_ok_enqueue [OF assms] assms
  by (auto simp: STATUS_EVENTS_set OUTAGE_EVENTS_set)

text \<open>The database the alerts of a counted result are decided on.\<close>

definition recorded :: "ctx \<Rightarrow> monitor_row \<Rightarrow> monitorCheck_row \<Rightarrow> db \<Rightarrow> db" where
  "recorded cx m row d = recordStatus cx m row (statusOf d (m_id m)) (warnExpiry cx m row d)"

definition verdict :: "ctx \<Rightarrow> monitor_row \<Rightarrow> monitorCheck_row \<Rightarrow> db \<Rightarrow> assessment" where
  "verdict cx m row d = assess cx m row (statusOf d (m_id m)) (recorded cx m row d)"

lemma interpret_counted:
  "counted m row d \<Longrightarrow> interpret_result cx m row d =
     sendAlerts cx m row (statusOf d (m_id m)) (verdict cx m row d) (recorded cx m row d)"
  by (simp add: interpret_result_def counted_def recorded_def verdict_def Let_def)

lemma interpret_not_counted:
  "\<not> counted m row d \<Longrightarrow> interpret_result cx m row d = d \<or> interpret_result cx m row d = warnExpiry cx m row d"
  by (auto simp: interpret_result_def counted_def Let_def)

lemma recorded_log:
  assumes "clock_ok cx d"
  shows "clock_ok cx (recorded cx m row d)"
    "held (recorded cx m row d) mid \<longleftrightarrow> held d mid"
    "outageAlerted (recorded cx m row d) mid \<longleftrightarrow> outageAlerted d mid"
proof -
  show "clock_ok cx (recorded cx m row d)"
    unfolding recorded_def
    by (rule clock_ok_draw [OF warnExpiry_log(1) [OF assms]]) simp_all
qed (simp_all only: recorded_def log_reads_frame warnExpiry_log [OF assms])

lemma recorded_status [simp]:
  "statusOf (recorded cx m row d) mid =
    (if mid = m_id m then map_option (status_set cx row (statusOf d mid)) (statusOf d mid) else statusOf d mid)"
  by (simp add: recorded_def)

lemma interpret_statusOf:
  "statusOf (interpret_result cx m row d) mid =
    (if counted m row d \<and> mid = m_id m then map_option (status_set cx row (statusOf d mid)) (statusOf d mid)
     else statusOf d mid)"
proof (cases "counted m row d")
  case True
  then show ?thesis by (simp add: interpret_counted)
next
  case False
  then show ?thesis using interpret_not_counted [OF False, of cx] by (elim disjE) simp_all
qed

text \<open>What a counted result makes of the two questions, and of the clock.\<close>

lemma sendAlerts_drawn:
  "alert_of cx row cur a = Some ty \<Longrightarrow> Suc (drawn d) \<le> drawn (sendAlerts cx m row cur a d)"
  "drawn d \<le> drawn (sendAlerts cx m row cur a d)"
proof -
  have down: "Suc (drawn d) \<le> drawn (alertDown cx m row cur b d)" for b
    by (simp add: alertDown_def Let_def split: option.split)
  have up: "Suc (drawn d) \<le> drawn (alertUp cx m row cur d)"
    using drawn_mono(1) [of "enqueue cx m ty pl d" for ty pl] by (simp add: alertUp_def)
  have starts: "Suc (drawn d) \<le> drawn (startFlapping cx m d)"
    by (simp add: startFlapping_def enqueueFlapping_def Let_def split: option.split)
  have flap: "Suc (drawn d) \<le> drawn (enqueueFlapping cx m d)"
    by (simp add: enqueueFlapping_def)
  have deg: "Suc (drawn d) \<le> drawn (alertDegraded cx m row cur a d)" if "alertsDegraded cur row a"
    using that drawn_mono(1) [of "enqueue cx m ty pl d" for ty pl] by (simp add: alertDegraded_def Let_def)
  have deg': "drawn d \<le> drawn (alertDegraded cx m row cur a d)" if "\<not> alertsDegraded cur row a"
    using that drawn_mono(1) by (simp add: alertDegraded_def Let_def)
  show "alert_of cx row cur a = Some ty \<Longrightarrow> Suc (drawn d) \<le> drawn (sendAlerts cx m row cur a d)"
    using down up starts flap deg
    by (auto simp: alert_of_def sendAlerts_def alertsDegraded_def split: if_splits)
  show "drawn d \<le> drawn (sendAlerts cx m row cur a d)"
    using Suc_leD [OF down] Suc_leD [OF up] Suc_leD [OF starts] Suc_leD [OF flap] Suc_leD [OF deg] deg'
    by (cases "alertsDegraded cur row a") (simp_all add: sendAlerts_def)
qed

lemma sendAlerts_clock:
  assumes "clock_ok cx d"
  shows "clock_ok cx (sendAlerts cx m row cur a d)"
proof (cases "alert_of cx row cur a")
  case None
  with sendAlerts_events [where cx = cx and m = m and row = row and cur = cur and a = a and d = d]
  show ?thesis by (intro clock_ok_draw [OF assms sendAlerts_drawn(2)]) simp
next
  case (Some ty)
  with sendAlerts_events [where cx = cx and m = m and row = row and cur = cur and a = a and d = d]
  obtain pl where "notificationEvents (sendAlerts cx m row cur a d) = notificationEvents (enqueue cx m ty pl d)"
    by auto
  with sendAlerts_drawn(1) [OF Some] show ?thesis
    by (intro clock_ok_draw [OF clock_ok_enqueue [OF assms, of m ty pl]]) simp_all
qed

lemma interpret_clock:
  assumes "clock_ok cx d"
  shows "clock_ok cx (interpret_result cx m row d)"
proof (cases "counted m row d")
  case True
  then show ?thesis by (simp add: interpret_counted sendAlerts_clock recorded_log(1) [OF assms])
next
  case False
  then show ?thesis
    using interpret_not_counted [OF False, of cx] warnExpiry_log(1) [OF assms] assms
    by (elim disjE) simp_all
qed

lemma interpret_alert:
  fixes cx m row d
  defines "ty \<equiv> alert_of cx row (statusOf d (m_id m)) (verdict cx m row d)"
  assumes "clock_ok cx d"
  shows "(held (interpret_result cx m row d) mid \<longleftrightarrow>
      (if counted m row d \<and> mid = m_id m \<and> ty \<noteq> None then ty = Some Monitor_flapping else held d mid)) \<and>
    (outageAlerted (interpret_result cx m row d) mid \<longleftrightarrow>
      (if counted m row d \<and> mid = m_id m \<and> ty \<noteq> None \<and> ty \<noteq> Some Monitor_degraded
       then ty \<noteq> Some Monitor_up else outageAlerted d mid))"
proof (cases "counted m row d")
  case False
  then show ?thesis
    using interpret_not_counted [OF False, of cx] warnExpiry_log(2,3) [OF assms(2)] by auto
next
  case True
  note log = recorded_log [OF assms(2), of m row]
  show ?thesis
  proof (cases ty)
    case None
    then show ?thesis
      using alert_of_None [OF None [unfolded ty_def], of m "recorded cx m row d" mid] log True
      by (simp add: interpret_counted)
  next
    case (Some t)
    note alert = alert_of_Some [OF log(1) Some [unfolded ty_def], of m mid]
    have "t \<in> set STATUS_EVENTS" using Some alert_of_status by (simp add: ty_def)
    with alert log True Some show ?thesis
      by (auto simp: interpret_counted STATUS_EVENTS_set OUTAGE_EVENTS_set)
  qed
qed


section \<open>The verdict in terms of the log before the result\<close>

lemma verdict_facts:
  fixes cx m row d
  defines "a \<equiv> verdict cx m row d"
  assumes "clock_ok cx d"
  shows "a_flap a \<noteq> None \<longleftrightarrow> held d (m_id m)"
    "a_settled a \<Longrightarrow> held d (m_id m)"
    "a_startsFlapping a \<Longrightarrow> \<not> held d (m_id m) \<and> c_status row = Down"
    "a_inOutage a \<Longrightarrow> outageAlerted d (m_id m)"
    "c_status row = Up \<Longrightarrow> map_option s_status (statusOf d (m_id m)) \<noteq> Some Up \<Longrightarrow>
       a_inOutage a = outageAlerted d (m_id m)"
    "a_crossesThreshold a \<Longrightarrow> c_status row = Down"
    "c_status row = Down \<Longrightarrow> a_reachesThreshold a \<Longrightarrow>
       a_crossesThreshold a \<or> outageAlerted d (m_id m)"
    "c_status row = Down \<Longrightarrow> held d (m_id m) \<Longrightarrow> a_settled a = (a_steady a \<and> a_reachesThreshold a)"
    "a_startsFlapping a \<Longrightarrow> \<not> a_steady a"
  using recorded_log(2,3) [OF assms(2), of m row "m_id m"]
  by (auto simp: a_def verdict_def assess_def held_def Let_def)

lemma verdict_threshold:
  "a_reachesThreshold (verdict cx m row d) \<longleftrightarrow>
     consecutiveFailures (statusOf d (m_id m)) row \<ge> m_alertAfterFailures m"
  "a_steady (verdict cx m row d) = steady cx (statusOf d (m_id m)) row"
  by (simp_all add: verdict_def assess_def Let_def)

lemma processResults_cases:
  assumes "processResults cx mid d = Some (n, d')"
  obtains "n = 0" "d' = d" "waiting d mid = []"
  | m where "waiting d mid \<noteq> []" "n = length (waiting d mid)" "m \<in> set (monitors d)" "m_id m = mid"
      "d' = (fold (interpret_result cx m) (waiting d mid) d)\<lparr>monitorChecks :=
         update_where (\<lambda>c. c_id c \<in> c_id ` set (waiting d mid))
           (\<lambda>c. c\<lparr>c_processedAt := Some (cx_now cx)\<rparr>) (monitorChecks d)\<rparr>"
proof (cases "waiting d mid = []")
  case True
  with assms that(1) show ?thesis by (simp add: processResults_def)
next
  case False
  with assms obtain m where m: "first_row (filter (\<lambda>m. m_id m = mid) (monitors d)) = Some m"
    by (auto simp: processResults_def Let_def split: option.splits)
  have "monitorChecks (fold (interpret_result cx m) (waiting d mid) d) = monitorChecks d"
    by (rule fold_frame) simp
  with assms False m first_row_filter_in [OF m] show ?thesis
    by (intro that(2) [of m]) (simp_all add: processResults_def Let_def)
qed

text \<open>What every interpretation keeps, and the marking does not touch, the batch keeps.\<close>

lemma processResults_invariant:
  assumes "processResults cx mid d = Some (n, d')" "I d"
    and step: "\<And>m row e. m_id m = mid \<Longrightarrow> row \<in> set (waiting d mid) \<Longrightarrow> I e \<Longrightarrow> I (interpret_result cx m row e)"
    and mark: "\<And>e cs. I e \<Longrightarrow> I (e\<lparr>monitorChecks := cs\<rparr>)"
  shows "I d'"
  using assms(1)
proof (cases rule: processResults_cases)
  case 1
  with assms(2) show ?thesis by simp
next
  case (2 m)
  have "I (fold (interpret_result cx m) (waiting d mid) d)"
    by (rule fold_invariant [where I = I, OF assms(2)]) (use step 2 in blast)
  then show ?thesis unfolding 2(5) by (rule mark)
qed

lemma reads_ignore_checks [simp]:
  "held (d\<lparr>monitorChecks := cs\<rparr>) k = held d k"
  "outageAlerted (d\<lparr>monitorChecks := cs\<rparr>) k = outageAlerted d k"
  "statusOf (d\<lparr>monitorChecks := cs\<rparr>) k = statusOf d k"
  "clock_ok cx (d\<lparr>monitorChecks := cs\<rparr>) = clock_ok cx d"
  by (rule held_cong outageAlerted_cong statusOf_cong; simp)+ (simp add: clock_ok_def)

section \<open>Recovery\<close>

text \<open>
  A monitor whose recorded status is up, and whose alerts are not held, owes nobody a recovery
  message: no outage is alerted without its \<open>monitor_up\<close>.
\<close>

definition recovery_sent :: "db \<Rightarrow> id \<Rightarrow> bool" where
  "recovery_sent d mid \<longleftrightarrow> (map_option s_status (statusOf d mid) = Some Up \<and> \<not> held d mid
     \<longrightarrow> \<not> outageAlerted d mid)"

lemma interpret_reads_other:
  assumes "clock_ok cx d" "\<not> counted m row d \<or> k \<noteq> m_id m"
  shows "held (interpret_result cx m row d) k = held d k"
    "outageAlerted (interpret_result cx m row d) k = outageAlerted d k"
    "statusOf (interpret_result cx m row d) k = statusOf d k"
proof -
  have no: "(counted m row d \<and> k = m_id m \<and> P) = False" for P using assms(2) by blast
  note r = interpret_alert [OF assms(1), of m row k, unfolded no if_False]
  show "held (interpret_result cx m row d) k = held d k"
    "outageAlerted (interpret_result cx m row d) k = outageAlerted d k"
    using r by (rule conjunct1, rule conjunct2)
  show "statusOf (interpret_result cx m row d) k = statusOf d k"
    using assms(2) by (cases "counted m row d") (simp_all add: interpret_statusOf)
qed

lemma interpret_recovery:
  assumes "clock_ok cx d" "recovery_sent d k"
  shows "recovery_sent (interpret_result cx m row d) k"
proof (cases "counted m row d \<and> k = m_id m")
  case False
  then have "\<not> counted m row d \<or> k \<noteq> m_id m" by blast
  from interpret_reads_other [OF assms(1) this] assms(2) show ?thesis
    by (simp only: recovery_sent_def)
next
  case True
  let ?a = "verdict cx m row d" and ?d' = "interpret_result cx m row d"
  let ?ty = "alert_of cx row (statusOf d (m_id m)) ?a"
  note facts = verdict_facts [OF assms(1), where m = m and row = row]
  have alert: "held ?d' k \<longleftrightarrow> (if ?ty \<noteq> None then ?ty = Some Monitor_flapping else held d k)"
    "outageAlerted ?d' k \<longleftrightarrow> (if ?ty \<noteq> None \<and> ?ty \<noteq> Some Monitor_degraded
       then ?ty \<noteq> Some Monitor_up else outageAlerted d k)"
    using True interpret_alert [OF assms(1), of m row k] by auto
  show ?thesis
    unfolding recovery_sent_def
  proof (intro impI, elim conjE)
    assume "map_option s_status (statusOf ?d' k) = Some Up" and free: "\<not> held ?d' k"
    then have up: "c_status row = Up"
      using True by (auto simp: interpret_statusOf status_set_def)
    have "\<not> a_startsFlapping ?a" using facts(3) up by force
    then have ty: "?ty = None \<or> ?ty = Some Monitor_up \<or> ?ty = Some Monitor_flapping"
      by (simp add: alert_of_def alertsDown_def alertsDegraded_def up)
    show "\<not> outageAlerted ?d' k"
    proof (cases "?ty = Some Monitor_up")
      case False
      with free alert(1) ty have none: "?ty = None" "\<not> held d k" by (auto split: if_splits)
      with facts(1-3) True up have "\<not> a_inOutage ?a"
        by (auto simp: alert_of_def alertsUp_def split: if_splits)
      then have "\<not> outageAlerted d k \<or> map_option s_status (statusOf d k) = Some Up"
        using facts(5) up True by auto
      with assms(2) none alert(2) show ?thesis by (auto simp: recovery_sent_def)
    qed (simp add: alert(2))
  qed
qed

text \<open>
  C1: Every alerted outage gets its recovery: processing any batch of results keeps the invariant
  that a monitor recorded as up, and not held behind a flapping message, has no outage alert
  without the recovery alert that ends it, for the processed monitor and for every other one.
\<close>

theorem recovery_always_sent:
  assumes "processResults cx mid d = Some (n, d')" "clock_ok cx d" "recovery_sent d k"
  shows "recovery_sent d' k"
proof -
  have "clock_ok cx d' \<and> recovery_sent d' k"
    using assms(1)
  proof (rule processResults_invariant)
    show "clock_ok cx d \<and> recovery_sent d k" using assms by simp
    show "clock_ok cx (interpret_result cx m row e) \<and> recovery_sent (interpret_result cx m row e) k"
      if "clock_ok cx e \<and> recovery_sent e k" for m row e
      using that interpret_clock interpret_recovery by blast
  qed (simp add: recovery_sent_def)
  then show ?thesis ..
qed

section \<open>Outages\<close>

text \<open>
  C2: No outage goes unannounced: once a counted down result brings the consecutive failures to the
  monitor's threshold, its newest outage event is an alert, the down alert or the flapping message
  that stands in for it, and never a recovery.
\<close>

theorem outage_announced:
  assumes "clock_ok cx d" "counted m row d" "c_status row = Down"
    and "consecutiveFailures (statusOf d (m_id m)) row \<ge> m_alertAfterFailures m"
  shows "outageAlerted (interpret_result cx m row d) (m_id m)"
proof -
  let ?a = "verdict cx m row d"
  let ?ty = "alert_of cx row (statusOf d (m_id m)) ?a"
  note facts = verdict_facts [OF assms(1), where m = m and row = row]
  have reach: "a_reachesThreshold ?a" using assms(4) by (simp add: verdict_threshold)
  have up: "?ty \<noteq> Some Monitor_up" using alert_of_cases(1) assms(3) by force
  have "outageAlerted d (m_id m)" if "?ty = None \<or> ?ty = Some Monitor_degraded"
  proof -
    have "held d (m_id m) \<or> \<not> a_crossesThreshold ?a"
      using that assms(3) facts(1) by (auto simp: alert_of_def alertsDown_def split: if_splits)
    then show ?thesis using held_outage facts(7) [OF assms(3) reach] by blast
  qed
  with up show ?thesis
    using interpret_alert [OF assms(1), of m row "m_id m"] assms(2) by auto
qed

text \<open>
  C4: When the hold behind a flapping message begins and ends: after a counted result the monitor
  is held exactly if this result starts the flapping, or it was held and the result does not settle
  it; and a monitor that stays down for the settle time at its threshold is held no longer, so the
  outage's own alert goes out.
\<close>

theorem hold_begins_and_ends:
  assumes "clock_ok cx d" "counted m row d" "c_status row \<noteq> Unknown"
  shows "(held (interpret_result cx m row d) (m_id m) \<longleftrightarrow>
      a_startsFlapping (verdict cx m row d) \<or>
      held d (m_id m) \<and> \<not> a_settled (verdict cx m row d)) \<and>
    (c_status row = Down \<and> steady cx (statusOf d (m_id m)) row \<and>
      consecutiveFailures (statusOf d (m_id m)) row \<ge> m_alertAfterFailures m \<longrightarrow>
      \<not> held (interpret_result cx m row d) (m_id m))"
proof -
  let ?a = "verdict cx m row d"
  let ?ty = "alert_of cx row (statusOf d (m_id m)) ?a"
  note facts = verdict_facts [OF assms(1), where m = m and row = row]
  have after: "held (interpret_result cx m row d) (m_id m) \<longleftrightarrow>
      (if ?ty \<noteq> None then ?ty = Some Monitor_flapping else held d (m_id m))"
    using interpret_alert [OF assms(1), of m row "m_id m"] assms(2) by auto
  have settled: "?ty \<noteq> None \<and> ?ty \<noteq> Some Monitor_flapping"
    if "a_settled ?a" "c_status row \<noteq> Unknown"
    using that facts(2,3) by (cases "c_status row") (auto simp: alert_of_def alertsDown_def alertsUp_def alertsDegraded_def)
  have starts: "?ty = Some Monitor_flapping" if "a_startsFlapping ?a"
    using that by (simp add: alert_of_def)
  have holds: "?ty = None \<or> ?ty = Some Monitor_flapping" if "held d (m_id m)" "\<not> a_settled ?a"
    using that facts(1,3) by (auto simp: alert_of_def)
  have free: "?ty \<noteq> Some Monitor_flapping" if "\<not> held d (m_id m)" "\<not> a_startsFlapping ?a"
    using that facts(1) alert_of_flapping by blast
  have iff: "held (interpret_result cx m row d) (m_id m) \<longleftrightarrow>
      a_startsFlapping ?a \<or> held d (m_id m) \<and> \<not> a_settled ?a"
    using after settled starts holds free facts(2) assms(3) by (auto split: if_splits)
  moreover have "\<not> a_startsFlapping ?a \<and> (held d (m_id m) \<longrightarrow> a_settled ?a)"
    if "c_status row = Down \<and> steady cx (statusOf d (m_id m)) row \<and>
      consecutiveFailures (statusOf d (m_id m)) row \<ge> m_alertAfterFailures m"
    using that facts(8,9) by (auto simp: verdict_threshold)
  ultimately show ?thesis by blast
qed

section \<open>What a result appends to the log\<close>

lemma enqueue_event:
  assumes "clock_ok cx d"
  obtains e where "notificationEvents (enqueue cx m ty pl d) = notificationEvents d @ [e]"
    "e_type e = Notice ty" "e_monitorId e = Some (m_id m)" "e_status e = EvPending"
    "\<And>q. q \<in> set (notificationEvents d) \<Longrightarrow> e_createdAt q < e_createdAt e"
    "e_createdAt e = cx_clock_timestamp cx (drawn d)"
  using assms that by (fastforce simp: enqueue_def clock_ok_def)

lemma interpret_appends:
  assumes "clock_ok cx d"
  shows "\<exists>w a. notificationEvents (interpret_result cx m row d) = notificationEvents d @ w @ a \<and>
    (\<forall>e\<in>set w. e_type e = Notice Ssl_expiry_warning) \<and>
    (case (if counted m row d then alert_of cx row (statusOf d (m_id m)) (verdict cx m row d) else None) of
       None \<Rightarrow> a = []
     | Some ty \<Rightarrow> \<exists>e. a = [e] \<and> e_type e = Notice ty \<and> e_monitorId e = Some (m_id m) \<and>
         (\<forall>q\<in>set (notificationEvents d). e_createdAt q < e_createdAt e))"
proof -
  have w: "\<exists>w. notificationEvents (warnExpiry cx m row d) = notificationEvents d @ w \<and>
      (\<forall>e\<in>set w. e_type e = Notice Ssl_expiry_warning)"
    using warnExpiry_events [of cx m row d]
  proof
    assume "\<exists>pl. warnExpiry cx m row d = enqueue cx m Ssl_expiry_warning pl d"
    then obtain pl where pl: "warnExpiry cx m row d = enqueue cx m Ssl_expiry_warning pl d" ..
    obtain e where "notificationEvents (enqueue cx m Ssl_expiry_warning pl d) = notificationEvents d @ [e]"
        "e_type e = Notice Ssl_expiry_warning"
      by (rule enqueue_event [OF assms])
    then show ?thesis unfolding pl by (intro exI [of _ "[e]"]) simp
  qed (intro exI [of _ "[]"], simp)
  show ?thesis
  proof (cases "counted m row d")
    case False
    have "\<exists>w. notificationEvents (interpret_result cx m row d) = notificationEvents d @ w \<and>
        (\<forall>e\<in>set w. e_type e = Notice Ssl_expiry_warning)"
      using interpret_not_counted [OF False, of cx] w by (elim disjE) (simp, simp)
    then obtain w where "notificationEvents (interpret_result cx m row d) = notificationEvents d @ w"
      "\<forall>e\<in>set w. e_type e = Notice Ssl_expiry_warning" by blast
    with False show ?thesis by (intro exI [of _ w] exI [of _ "[]"]) simp
  next
    case True
    let ?ty = "alert_of cx row (statusOf d (m_id m)) (verdict cx m row d)"
    let ?r = "recorded cx m row d"
    from w obtain w where w: "notificationEvents ?r = notificationEvents d @ w"
      "\<forall>e\<in>set w. e_type e = Notice Ssl_expiry_warning" by (auto simp: recorded_def)
    note sent = sendAlerts_events [where cx = cx and m = m and row = row and d = ?r
        and cur = "statusOf d (m_id m)" and a = "verdict cx m row d"]
    show ?thesis
    proof (cases ?ty)
      case None
      with sent True w show ?thesis
        by (intro exI [of _ w] exI [of _ "[]"]) (simp add: interpret_counted)
    next
      case (Some ty)
      with sent obtain pl where pl: "notificationEvents (interpret_result cx m row d) =
          notificationEvents (enqueue cx m ty pl ?r)"
        using True by (auto simp: interpret_counted)
      obtain e where "notificationEvents (enqueue cx m ty pl ?r) = notificationEvents ?r @ [e]"
        "e_type e = Notice ty" "e_monitorId e = Some (m_id m)"
        "\<And>q. q \<in> set (notificationEvents ?r) \<Longrightarrow> e_createdAt q < e_createdAt e"
        using enqueue_event [OF recorded_log(1) [OF assms, of m row], of m ty pl] by metis
      with pl w Some True show ?thesis
        by (intro exI [of _ w] exI [of _ "[e]"]) simp
    qed
  qed
qed

section \<open>Recovery alerts answer outage alerts\<close>

text \<open>
  The outage alerts of a monitor in the order they were written.  The log is answered when every
  recovery in it has an outage alert since the recovery before.
\<close>

definition outage_rows :: "db \<Rightarrow> id \<Rightarrow> notificationEvent_row list" where
  "outage_rows d mid = filter (\<lambda>e. e_monitorId e = Some mid \<and> e_type e \<in> Notice ` set OUTAGE_EVENTS)
     (notificationEvents d)"

fun answered :: "bool \<Rightarrow> event_type list \<Rightarrow> bool" where
  "answered outage [] = True"
| "answered outage (t # ts) =
    (if t = Notice Monitor_up then outage \<and> answered False ts else answered True ts)"

definition open_after :: "bool \<Rightarrow> event_type list \<Rightarrow> bool" where
  "open_after outage ts = (if ts = [] then outage else last ts \<noteq> Notice Monitor_up)"

lemma answered_snoc:
  "answered b (ts @ [t]) \<longleftrightarrow> answered b ts \<and> (t = Notice Monitor_up \<longrightarrow> open_after b ts)"
  by (induction b ts rule: answered.induct) (auto simp: open_after_def)

definition in_order :: "notificationEvent_row list \<Rightarrow> bool" where
  "in_order es \<longleftrightarrow> sorted_wrt (\<lambda>e f. e_createdAt e < e_createdAt f) es"

lemma order_desc_in_order: "in_order es \<Longrightarrow> order_desc e_createdAt es = rev es"
  unfolding in_order_def
proof (induction es rule: rev_induct)
  case (snoc e es)
  then show ?case by (simp add: order_desc_append_newest sorted_wrt_append)
qed (simp add: order_desc_def)

lemma outageAlerted_last:
  assumes "in_order (outage_rows d mid)"
  shows "outageAlerted d mid = open_after False (map e_type (outage_rows d mid))"
  using order_desc_in_order [OF assms]
  by (cases "outage_rows d mid" rule: rev_cases)
    (simp_all add: outageAlerted_def newestEvent_def open_after_def outage_rows_def [symmetric])

definition outages_answered :: "db \<Rightarrow> id \<Rightarrow> bool" where
  "outages_answered d mid \<longleftrightarrow> in_order (outage_rows d mid) \<and>
     answered False (map e_type (outage_rows d mid))"

lemma interpret_answered:
  assumes "clock_ok cx d" "outages_answered d k"
  shows "outages_answered (interpret_result cx m row d) k"
proof -
  let ?ty = "if counted m row d then alert_of cx row (statusOf d (m_id m)) (verdict cx m row d) else None"
  from interpret_appends [OF assms(1), of m row] obtain w a where
    log: "notificationEvents (interpret_result cx m row d) = notificationEvents d @ w @ a"
    and w: "\<forall>e\<in>set w. e_type e = Notice Ssl_expiry_warning"
    and a: "case ?ty of None \<Rightarrow> a = [] | Some ty \<Rightarrow> \<exists>e. a = [e] \<and> e_type e = Notice ty \<and>
      e_monitorId e = Some (m_id m) \<and> (\<forall>q\<in>set (notificationEvents d). e_createdAt q < e_createdAt e)"
    by blast
  have "filter (\<lambda>e. e_monitorId e = Some k \<and> e_type e \<in> Notice ` set OUTAGE_EVENTS) w = []"
    using w by (auto simp: filter_empty_conv OUTAGE_EVENTS_set)
  with log have rows: "outage_rows (interpret_result cx m row d) k = outage_rows d k @
      filter (\<lambda>e. e_monitorId e = Some k \<and> e_type e \<in> Notice ` set OUTAGE_EVENTS) a"
    by (simp add: outage_rows_def)
  show ?thesis
  proof (cases "filter (\<lambda>e. e_monitorId e = Some k \<and> e_type e \<in> Notice ` set OUTAGE_EVENTS) a")
    case Nil
    with rows assms(2) show ?thesis by (simp add: outages_answered_def)
  next
    case (Cons e es)
    then obtain ty where ty: "?ty = Some ty" using a by (cases ?ty) auto
    with a Cons have e: "a = [e]" "es = []" "e_type e = Notice ty" "k = m_id m"
      "\<forall>q\<in>set (notificationEvents d). e_createdAt q < e_createdAt e"
      by (auto split: if_splits)
    have order: "in_order (outage_rows d k @ [e])"
      using assms(2) e(5) by (auto simp: outages_answered_def in_order_def sorted_wrt_append outage_rows_def)
    have "outageAlerted d k" if "ty = Monitor_up"
    proof -
      have "alert_of cx row (statusOf d (m_id m)) (verdict cx m row d) = Some Monitor_up"
        using ty that by (simp split: if_splits)
      from alert_of_cases(1) [OF this] show ?thesis
        using verdict_facts(2,4) [OF assms(1), where m = m and row = row] held_outage e(4) by blast
    qed
    then have "ty = Monitor_up \<longrightarrow> open_after False (map e_type (outage_rows d k))"
      using outageAlerted_last assms(2) by (simp add: outages_answered_def)
    with order assms(2) rows Cons e(2,3) show ?thesis
      by (simp add: outages_answered_def answered_snoc)
  qed
qed

text \<open>
  C3: Nobody is told twice that a monitor is back, or told so of an outage they never heard of:
  processing any batch of results keeps the event log of every monitor such that each recovery
  alert answers an outage alert, the down alert or a flapping message, written since the recovery
  alert before it.
\<close>

theorem recoveries_answer_outages:
  assumes "processResults cx mid d = Some (n, d')" "clock_ok cx d" "outages_answered d k"
  shows "outages_answered d' k"
proof -
  have "clock_ok cx d' \<and> outages_answered d' k"
    using assms(1)
  proof (rule processResults_invariant)
    show "clock_ok cx d \<and> outages_answered d k" using assms by simp
    show "clock_ok cx (interpret_result cx m row e) \<and> outages_answered (interpret_result cx m row e) k"
      if "clock_ok cx e \<and> outages_answered e k" for m row e
      using that interpret_clock interpret_answered by blast
  qed (simp add: outages_answered_def outage_rows_def)
  then show ?thesis ..
qed

section \<open>An example\<close>

text \<open>A monitor recorded as up, with a down result and an up result waiting.\<close>

definition example_check :: "id \<Rightarrow> status \<Rightarrow> time \<Rightarrow> monitorCheck_row" where
  "example_check i st t = \<lparr>c_id = i, c_monitorId = ''m'', c_status = st, c_statusCode = None,
     c_responseTimeMs = Some 12, c_errorMessage = None, c_dnsMs = None, c_connectMs = None,
     c_tlsMs = None, c_firstByteMs = None, c_redirectCount = None, c_sslExpiresAt = None,
     c_sslIssuer = None, c_checkedAt = t, c_region = None, c_processedAt = None\<rparr>"

definition example_status :: "status \<Rightarrow> time \<Rightarrow> int \<Rightarrow> monitorStatus_row" where
  "example_status st t f = \<lparr>s_monitorId = ''m'', s_status = st, s_lastCheckAt = Some t,
     s_lastStatusChange = Some t, s_consecutiveFailures = f, s_uptimePercent24h = None,
     s_avgResponseTimeMs24h = None, s_updatedAt = t\<rparr>"

definition example_results_db :: db where
  "example_results_db = empty_db\<lparr>
     monitors := [example_monitor ''m''],
     monitorStatuses := [example_status Up 1000 0],
     monitorChecks := [example_check ''c2'' Up 3000, example_check ''c1'' Down 2000]\<rparr>"

lemma example_clock [simp]: "clock_ok (example_ctx t) example_results_db"
  by (simp add: clock_ok_def example_results_db_def empty_db_def strict_mono_def)

lemma example_processed: "\<exists>n d'. processResults (example_ctx 9000) ''m'' example_results_db = Some (n, d')"
  by (auto simp: processResults_def example_results_db_def empty_db_def example_monitor_def Let_def)

lemma recovery_always_sent_witness:
  "\<exists>n d'. processResults (example_ctx 9000) ''m'' example_results_db = Some (n, d') \<and>
     recovery_sent d' ''m''"
proof -
  from example_processed obtain n d' where
    "processResults (example_ctx 9000) ''m'' example_results_db = Some (n, d')" by blast
  moreover have "recovery_sent example_results_db ''m''"
    by (simp add: recovery_sent_def outageAlerted_def newestEvent_def example_results_db_def empty_db_def)
  ultimately show ?thesis using recovery_always_sent [OF _ example_clock] by blast
qed

lemma recoveries_answer_outages_witness:
  "\<exists>n d'. processResults (example_ctx 9000) ''m'' example_results_db = Some (n, d') \<and>
     outages_answered d' ''m''"
proof -
  from example_processed obtain n d' where
    "processResults (example_ctx 9000) ''m'' example_results_db = Some (n, d')" by blast
  moreover have "outages_answered example_results_db ''m''"
    by (simp add: outages_answered_def outage_rows_def in_order_def example_results_db_def empty_db_def)
  ultimately show ?thesis using recoveries_answer_outages [OF _ example_clock] by blast
qed

lemma example_counted: "counted (example_monitor ''m'') (example_check ''c1'' Down 2000) example_results_db"
  by (simp add: counted_def stale_def statusOf_def findActiveWindow_def example_results_db_def
      empty_db_def example_monitor_def example_check_def example_status_def)

lemma outage_announced_witness:
  "outageAlerted (interpret_result (example_ctx 9000) (example_monitor ''m'')
     (example_check ''c1'' Down 2000) example_results_db) ''m''"
  using outage_announced [OF example_clock example_counted, of 9000]
  by (simp add: example_monitor_def example_check_def example_status_def consecutiveFailures_def
      previousFailures_def statusOf_def example_results_db_def)

lemma hold_begins_and_ends_witness:
  "held (interpret_result (example_ctx 9000) (example_monitor ''m'')
     (example_check ''c1'' Down 2000) example_results_db) ''m'' \<longleftrightarrow>
     a_startsFlapping (verdict (example_ctx 9000) (example_monitor ''m'')
       (example_check ''c1'' Down 2000) example_results_db)"
  using hold_begins_and_ends [OF example_clock example_counted, of 9000]
  by (simp add: example_check_def example_monitor_def held_def activeFlap_def newestEvent_def
      example_results_db_def empty_db_def)

end
