(* ===== verification/Results.thy ===== *)
theory Results
  imports Outages
begin

text \<open>
  What a batch of results does to a monitor's status, its incidents and the batch itself: the
  refinement of the status row to a small status machine, the freeze during maintenance, the
  incidents an outage opens and closes, the certificate warnings, and that every waiting row is
  interpreted once, oldest first.
\<close>

section \<open>Every waiting row is interpreted once\<close>

lemma waiting_iff:
  "c \<in> set (waiting d mid) \<longleftrightarrow> c \<in> set (monitorChecks d) \<and> c_monitorId c = mid \<and> c_processedAt c = None"
  by (auto simp: waiting_def)

lemma processResults_checks:
  assumes "processResults cx mid d = Some (n, d')"
  shows "monitorChecks d' = update_where (\<lambda>c. c_id c \<in> c_id ` set (waiting d mid))
    (\<lambda>c. c\<lparr>c_processedAt := Some (cx_now cx)\<rparr>) (monitorChecks d)"
  using assms
proof (cases rule: processResults_cases)
  case 1
  then show ?thesis by (simp add: update_where_none)
qed simp

lemma batch_count: "processResults cx mid d = Some (n, d') \<Longrightarrow> n = length (waiting d mid)"
  by (erule processResults_cases) simp_all

text \<open>
  A batch leaves nothing behind and takes nothing twice: it interprets the monitor's waiting
  rows, counts them, marks exactly those, and a second pass finds no work and changes nothing, so
  a result seen by several processors is interpreted by the first alone.
\<close>

theorem batch_once:
  assumes "processResults cx mid d = Some (n, d')"
  shows "n = length (waiting d mid) \<and> waiting d' mid = [] \<and>
    processResults cx' mid d' = Some (0, d') \<and>
    (distinct (map c_id (monitorChecks d)) \<longrightarrow>
      (\<forall>k. k \<noteq> mid \<longrightarrow> waiting d' k = waiting d k))"
proof -
  note n = batch_count [OF assms]
  note checks = processResults_checks [OF assms]
  have "c_processedAt c \<noteq> None" if "c \<in> set (monitorChecks d')" "c_monitorId c = mid" for c
  proof -
    from that(1) obtain q where q: "q \<in> set (monitorChecks d)"
      "if c_id q \<in> c_id ` set (waiting d mid) then c = q\<lparr>c_processedAt := Some (cx_now cx)\<rparr> else c = q"
      unfolding checks in_update_where_iff by blast
    show ?thesis
    proof (cases "c_id q \<in> c_id ` set (waiting d mid)")
      case False
      with q that(2) have "c = q" "q \<notin> set (waiting d mid)" by auto
      with q(1) that(2) show ?thesis by (simp add: waiting_iff)
    qed (use q(2) in simp)
  qed
  then have none: "waiting d' mid = []"
    unfolding waiting_def order_asc_Nil_iff filter_empty_conv by blast
  have others: "waiting d' k = waiting d k"
    if "distinct (map c_id (monitorChecks d))" "k \<noteq> mid" for k
  proof -
    have "c_monitorId c \<noteq> k"
      if "c \<in> set (monitorChecks d)" "c_id c \<in> c_id ` set (waiting d mid)" for c
    proof -
      from that(2) obtain q where q: "q \<in> set (waiting d mid)" "c_id c = c_id q" by blast
      then have "c = q"
        using \<open>distinct (map c_id (monitorChecks d))\<close> that(1)
        by (simp add: distinct_map inj_on_def waiting_iff)
      with q(1) \<open>k \<noteq> mid\<close> show ?thesis by (simp add: waiting_iff)
    qed
    then show ?thesis
      unfolding waiting_def checks by (subst update_where_cong_filter) auto
  qed
  show ?thesis
    using n none others by (simp add: processResults_def)
qed

lemma batch_once_witness:
  "\<exists>n d'. processResults (example_ctx 9000) ''m'' example_results_db = Some (n, d') \<and>
     n = 2 \<and> waiting d' ''m'' = []"
proof -
  from example_processed obtain n d' where
    p: "processResults (example_ctx 9000) ''m'' example_results_db = Some (n, d')" by blast
  moreover have "length (waiting example_results_db ''m'') = 2"
    by (simp add: waiting_def example_results_db_def example_check_def)
  ultimately show ?thesis using batch_once [OF p, of "example_ctx 0"] by auto
qed

section \<open>The status machine\<close>

text \<open>
  The abstract state of a monitor: its status, when that status began, the time of the last result
  and the failures in a row.  A result newer than the last one moves it; an older one is ignored.
\<close>

record beat =
  b_status :: status
  b_since :: "time option"
  b_last :: "time option"
  b_failures :: int

definition absorb :: "monitorCheck_row \<Rightarrow> beat \<Rightarrow> beat" where
  "absorb row b = (if on_some (\<lambda>t. c_checkedAt row < t) (b_last b) then b
     else \<lparr>b_status = c_status row,
           b_since = (if b_status b = c_status row then b_since b else Some (c_checkedAt row)),
           b_last = Some (c_checkedAt row),
           b_failures = (if c_status row = Down then b_failures b + 1 else 0)\<rparr>)"

definition beat_of :: "monitorStatus_row \<Rightarrow> beat" where
  "beat_of s = \<lparr>b_status = s_status s, b_since = s_lastStatusChange s, b_last = s_lastCheckAt s,
     b_failures = s_consecutiveFailures s\<rparr>"

lemma status_set_beat:
  "\<not> stale (Some s) row \<Longrightarrow> beat_of (status_set cx row (Some s) s) = absorb row (beat_of s)"
  by (simp add: absorb_def beat_of_def status_set_def stale_def statusChanged_def lastStatusChange_def
      consecutiveFailures_def previousFailures_def)

lemma interpret_beat:
  assumes "findActiveWindow d (m_id m) (c_checkedAt row) = None"
  shows "map_option beat_of (statusOf (interpret_result cx m row d) (m_id m)) =
    map_option (absorb row) (map_option beat_of (statusOf d (m_id m)))"
proof (cases "statusOf d (m_id m)")
  case None
  then show ?thesis by (simp add: interpret_statusOf)
next
  case (Some s)
  show ?thesis
  proof (cases "stale (Some s) row")
    case True
    with Some have "\<not> counted m row d" "absorb row (beat_of s) = beat_of s"
      by (simp_all add: counted_def absorb_def beat_of_def stale_def)
    with Some show ?thesis by (simp add: interpret_statusOf)
  next
    case False
    with Some assms have "counted m row d" by (simp add: counted_def)
    with Some False show ?thesis by (simp add: interpret_statusOf status_set_beat)
  qed
qed

lemma fold_beat:
  assumes "\<And>row. row \<in> set rows \<Longrightarrow> findActiveWindow d (m_id m) (c_checkedAt row) = None"
  shows "map_option beat_of (statusOf (fold (interpret_result cx m) rows d) (m_id m)) =
    map_option (fold absorb rows) (map_option beat_of (statusOf d (m_id m)))"
  using assms
proof (induction rows arbitrary: d)
  case (Cons row rows)
  have "map_option beat_of (statusOf (fold (interpret_result cx m) rows (interpret_result cx m row d)) (m_id m)) =
      map_option (fold absorb rows) (map_option beat_of (statusOf (interpret_result cx m row d) (m_id m)))"
    using Cons.prems by (intro Cons.IH) simp
  also have "\<dots> = map_option (fold absorb rows) (map_option (absorb row) (map_option beat_of (statusOf d (m_id m))))"
    using Cons.prems by (subst interpret_beat) simp_all
  finally show ?case by (simp add: option.map_comp comp_def)
qed (simp add: option.map_comp)

lemma interpret_batch:
  assumes "processResults cx mid d = Some (n, d')"
    and "\<And>row. row \<in> set (waiting d mid) \<Longrightarrow> findActiveWindow d mid (c_checkedAt row) = None"
  shows "map_option beat_of (statusOf d' mid) =
    map_option (fold absorb (waiting d mid)) (map_option beat_of (statusOf d mid))"
  using assms(1)
proof (cases rule: processResults_cases)
  case 1
  then show ?thesis by (simp add: option.map_id)
next
  case (2 m)
  with fold_beat [of "waiting d mid" d m cx] assms(2) show ?thesis by simp
qed

text \<open>
  C8: The status row refines the status machine: with no maintenance window over the waiting
  results, the row after a batch is what the machine makes of the row before it by absorbing the
  results in the order they were checked, whatever alerts, incidents and certificate warnings the
  batch produced on the way.
\<close>

theorem status_refines_machine:
  assumes "processResults cx mid d = Some (n, d')"
    and "\<And>row. row \<in> set (waiting d mid) \<Longrightarrow> findActiveWindow d mid (c_checkedAt row) = None"
  shows "map_option beat_of (statusOf d' mid) =
    map_option (fold absorb (waiting d mid)) (map_option beat_of (statusOf d mid))"
  using interpret_batch [OF assms] .

lemma status_refines_machine_witness:
  "\<exists>n d'. processResults (example_ctx 9000) ''m'' example_results_db = Some (n, d') \<and>
     map_option beat_of (statusOf d' ''m'') =
       Some \<lparr>b_status = Up, b_since = Some 3000, b_last = Some 3000, b_failures = 0\<rparr>"
proof -
  from example_processed obtain n d' where
    p: "processResults (example_ctx 9000) ''m'' example_results_db = Some (n, d')" by blast
  have "waiting example_results_db ''m'' = [example_check ''c1'' Down 2000, example_check ''c2'' Up 3000]"
    by (simp add: waiting_def order_asc_def example_results_db_def example_check_def)
  then show ?thesis
    using p status_refines_machine [OF p]
    by (auto simp: absorb_def beat_of_def statusOf_def findActiveWindow_def example_results_db_def
        empty_db_def example_check_def example_status_def)
qed

lemma absorb_fresh:
  "\<not> on_some (\<lambda>t. c_checkedAt r < t) (b_last b) \<Longrightarrow>
   b_failures (absorb r b) = (if c_status r = Down then b_failures b + 1 else 0) \<and>
   b_last (absorb r b) = Some (c_checkedAt r) \<and> b_status (absorb r b) = c_status r"
  by (simp add: absorb_def)

text \<open>The failures in a row are the length of the run of down results the batch ends with.\<close>

lemma absorb_failures:
  assumes "sorted (map c_checkedAt rows)" "\<And>r. r \<in> set rows \<Longrightarrow> \<not> on_some (\<lambda>t. c_checkedAt r < t) (b_last b)"
  shows "b_failures (fold absorb rows b) =
    (if \<forall>r\<in>set rows. c_status r = Down then b_failures b + int (length rows)
     else int (length (takeWhile (\<lambda>r. c_status r = Down) (rev rows)))) \<and>
    (rows \<noteq> [] \<longrightarrow> b_last (fold absorb rows b) = Some (c_checkedAt (last rows)))"
  using assms
proof (induction rows rule: rev_induct)
  case (snoc r rows)
  then have IH: "b_failures (fold absorb rows b) =
    (if \<forall>r\<in>set rows. c_status r = Down then b_failures b + int (length rows)
     else int (length (takeWhile (\<lambda>r. c_status r = Down) (rev rows)))) \<and>
    (rows \<noteq> [] \<longrightarrow> b_last (fold absorb rows b) = Some (c_checkedAt (last rows)))"
    by (simp add: sorted_append)
  have "\<not> on_some (\<lambda>t. c_checkedAt r < t) (b_last (fold absorb rows b))"
  proof (cases "rows = []")
    case False
    then have "c_checkedAt (last rows) \<le> c_checkedAt r"
      using snoc.prems(1) by (simp add: sorted_append)
    with IH False show ?thesis by simp
  qed (use snoc.prems(2) in simp)
  with IH absorb_fresh [OF this] show ?case by auto
qed simp

text \<open>
  The failure count the alert threshold is compared with is right: after a batch of results
  none of which is older than the last one recorded, outside maintenance, the count is the number
  of down results the monitor's history now ends with, so it is zero exactly when the newest result
  is not down.
\<close>

theorem failures_counted:
  assumes "processResults cx mid d = Some (n, d')" "statusOf d mid = Some s"
    and "\<And>row. row \<in> set (waiting d mid) \<Longrightarrow> findActiveWindow d mid (c_checkedAt row) = None"
    and "\<And>row. row \<in> set (waiting d mid) \<Longrightarrow> \<not> stale (Some s) row"
  shows "\<exists>s'. statusOf d' mid = Some s' \<and> s_consecutiveFailures s' =
    (if \<forall>r\<in>set (waiting d mid). c_status r = Down then s_consecutiveFailures s + int (length (waiting d mid))
     else int (length (takeWhile (\<lambda>r. c_status r = Down) (rev (waiting d mid)))))"
proof -
  have "sorted (map (\<lambda>c. (c_checkedAt c, c_id c)) (waiting d mid))"
    unfolding waiting_def by (rule sorted_order_asc)
  then have sorted: "sorted (map c_checkedAt (waiting d mid))"
    unfolding sorted_map by (rule sorted_wrt_mono_rel [rotated]) (auto simp: less_eq_prod_def)
  have beat: "map_option beat_of (statusOf d' mid) = Some (fold absorb (waiting d mid) (beat_of s))"
    using interpret_batch [OF assms(1,3)] assms(2) by simp
  then obtain s' where "statusOf d' mid = Some s'" "beat_of s' = fold absorb (waiting d mid) (beat_of s)"
    by auto
  moreover have "\<not> on_some (\<lambda>t. c_checkedAt r < t) (b_last (beat_of s))" if "r \<in> set (waiting d mid)" for r
    using assms(4) [OF that] by (simp add: stale_def beat_of_def)
  from absorb_failures [OF sorted this]
  have "b_failures (fold absorb (waiting d mid) (beat_of s)) =
    (if \<forall>r\<in>set (waiting d mid). c_status r = Down then s_consecutiveFailures s + int (length (waiting d mid))
     else int (length (takeWhile (\<lambda>r. c_status r = Down) (rev (waiting d mid)))))"
    by (simp add: beat_of_def)
  moreover have "b_failures (beat_of s') = s_consecutiveFailures s'" by (simp add: beat_of_def)
  ultimately show ?thesis by (intro exI [of _ s']) metis
qed

lemma failures_counted_witness:
  "\<exists>n d' s'. processResults (example_ctx 9000) ''m'' example_results_db = Some (n, d') \<and>
     statusOf d' ''m'' = Some s' \<and> s_consecutiveFailures s' = 0"
proof -
  from example_processed obtain n d' where
    p: "processResults (example_ctx 9000) ''m'' example_results_db = Some (n, d')" by blast
  have w: "waiting example_results_db ''m'' = [example_check ''c1'' Down 2000, example_check ''c2'' Up 3000]"
    by (simp add: waiting_def order_asc_def example_results_db_def example_check_def)
  have "statusOf example_results_db ''m'' = Some (example_status Up 1000 0)"
    by (simp add: statusOf_def example_results_db_def example_status_def)
  moreover have "findActiveWindow example_results_db ''m'' t = None" for t
    by (simp add: findActiveWindow_def example_results_db_def empty_db_def)
  moreover have "\<not> stale (Some (example_status Up 1000 0)) row" if "row \<in> set (waiting example_results_db ''m'')" for row
    using that by (auto simp: w stale_def example_check_def example_status_def)
  ultimately obtain s' where "statusOf d' ''m'' = Some s'"
    "s_consecutiveFailures s' = int (length (takeWhile (\<lambda>r. c_status r = Down) (rev (waiting example_results_db ''m''))))"
    using failures_counted [OF p] by (auto simp: w example_check_def)
  with p w show ?thesis by (auto simp: example_check_def)
qed

section \<open>Maintenance\<close>

text \<open>What a result covered by a window may still change: it may send a certificate warning.\<close>

definition frozen :: "db \<Rightarrow> db \<Rightarrow> bool" where
  "frozen d d' \<longleftrightarrow> monitorStatuses d' = monitorStatuses d \<and> incidents d' = incidents d \<and>
     incidentMonitors d' = incidentMonitors d \<and> incidentUpdates d' = incidentUpdates d \<and>
     (\<exists>w. notificationEvents d' = notificationEvents d @ w \<and>
        (\<forall>e\<in>set w. e_type e = Notice Ssl_expiry_warning))"

lemma frozen_refl: "frozen d d"
  by (simp add: frozen_def)

lemma frozen_trans:
  assumes "frozen d e" "frozen e f"
  shows "frozen d f"
proof -
  from assms obtain v w where "notificationEvents e = notificationEvents d @ v"
    "\<forall>x\<in>set v. e_type x = Notice Ssl_expiry_warning"
    "notificationEvents f = notificationEvents e @ w"
    "\<forall>x\<in>set w. e_type x = Notice Ssl_expiry_warning"
    by (auto simp: frozen_def)
  then show ?thesis
    using assms unfolding frozen_def by (intro conjI exI [of _ "v @ w"]) auto
qed

lemma frozen_enqueue: "frozen d (enqueue cx m Ssl_expiry_warning pl d)"
  by (simp add: frozen_def enqueue_def draw_def)

lemma frozen_warnExpiry: "frozen d (warnExpiry cx m row d)"
  using warnExpiry_events [of cx m row d] frozen_refl frozen_enqueue by auto

lemma frozen_interpret: "\<not> counted m row d \<Longrightarrow> frozen d (interpret_result cx m row d)"
  using interpret_not_counted [of m row d cx] frozen_refl frozen_warnExpiry by auto

text \<open>
  C7: Maintenance is quiet: while windows cover every waiting result of a monitor, a batch leaves
  all recorded statuses, incidents and their updates as they were, and the only events it may send
  are certificate warnings; so the first result after the window is compared with the state from
  before it.
\<close>

theorem maintenance_freezes:
  assumes "processResults cx mid d = Some (n, d')"
    and "\<And>row. row \<in> set (waiting d mid) \<Longrightarrow> findActiveWindow d mid (c_checkedAt row) \<noteq> None"
  shows "frozen d d'"
proof -
  have "frozen d d' \<and> findActiveWindow d' = findActiveWindow d"
    using assms(1)
  proof (rule processResults_invariant)
    show "frozen d d \<and> findActiveWindow d = findActiveWindow d" by (simp add: frozen_refl)
    show "frozen d (interpret_result cx m row e) \<and> findActiveWindow (interpret_result cx m row e) = findActiveWindow d"
      if "m_id m = mid" "row \<in> set (waiting d mid)" "frozen d e \<and> findActiveWindow e = findActiveWindow d" for m row e
    proof -
      from that assms(2) have "\<not> counted m row e" by (simp add: counted_def)
      then show ?thesis using that(3) frozen_trans [OF _ frozen_interpret] by simp
    qed
    show "frozen d (e\<lparr>monitorChecks := cs\<rparr>) \<and> findActiveWindow (e\<lparr>monitorChecks := cs\<rparr>) = findActiveWindow d"
      if "frozen d e \<and> findActiveWindow e = findActiveWindow d" for e cs
      using that by (auto simp: frozen_def findActiveWindow_def fun_eq_iff)
  qed
  then show ?thesis ..
qed

definition example_maintenance_db :: db where
  "example_maintenance_db = example_results_db\<lparr>
     maintenanceWindows := [example_window ''w'' WInProgress 1500 5000],
     maintenanceWindowMonitors := [\<lparr>wm_windowId = ''w'', wm_monitorId = ''m''\<rparr>]\<rparr>"

lemma maintenance_freezes_witness:
  "\<exists>n d'. processResults (example_ctx 9000) ''m'' example_maintenance_db = Some (n, d') \<and> n = 2 \<and>
     map s_status (monitorStatuses d') = [Up] \<and> incidents d' = []"
proof -
  have "\<exists>n d'. processResults (example_ctx 9000) ''m'' example_maintenance_db = Some (n, d')"
    by (auto simp: processResults_def example_maintenance_db_def example_results_db_def empty_db_def
        example_monitor_def Let_def)
  then obtain n d' where p: "processResults (example_ctx 9000) ''m'' example_maintenance_db = Some (n, d')"
    by blast
  have w: "waiting example_maintenance_db ''m'' = [example_check ''c1'' Down 2000, example_check ''c2'' Up 3000]"
    by (simp add: waiting_def order_asc_def example_maintenance_db_def example_results_db_def example_check_def)
  have "findActiveWindow example_maintenance_db ''m'' t \<noteq> None" if "1500 \<le> t" "t \<le> 5000" for t
    using that by (simp add: findActiveWindow_def example_maintenance_db_def example_window_def)
  then have "findActiveWindow example_maintenance_db ''m'' (c_checkedAt row) \<noteq> None"
    if "row \<in> set (waiting example_maintenance_db ''m'')" for row
    using that unfolding w by (auto simp: example_check_def)
  from maintenance_freezes [OF p this] have "frozen example_maintenance_db d'" by blast
  moreover have "n = 2" using batch_count [OF p] w by simp
  ultimately show ?thesis
    using p by (auto simp: frozen_def example_maintenance_db_def example_results_db_def empty_db_def example_status_def)
qed

end
