(* ===== verification/AutoIncidents.thy ===== *)
theory AutoIncidents
  imports Results
begin

text \<open>
  The incidents the result processor opens and closes by itself: a monitor has at most one open at
  a time, a recovery closes it, and incidents people opened are never touched.
\<close>

section \<open>Joins\<close>

lemma inner_join_append:
  "inner_join P (t @ t') u = inner_join P t u @ inner_join P t' u"
  by (induction t) simp_all

lemma inner_join_right_fresh:
  "(\<And>a. a \<in> set t \<Longrightarrow> \<not> P a b) \<Longrightarrow> inner_join P t (u @ [b]) = inner_join P t u"
  by (induction t) auto

lemma inner_join_map:
  "(\<And>a. P (f a) = P a) \<Longrightarrow> inner_join P (map f t) u = map (\<lambda>(a, b). (f a, b)) (inner_join P t u)"
  by (induction t) (simp_all add: comp_def)

lemma length_filter_mono:
  "(\<And>x. x \<in> set xs \<Longrightarrow> P x \<Longrightarrow> Q x) \<Longrightarrow> length (filter P xs) \<le> length (filter Q xs)"
  by (induction xs) auto

section \<open>Open automatic incidents\<close>

definition incident_links :: "db \<Rightarrow> (incident_row \<times> incidentMonitor_row) list" where
  "incident_links d = inner_join (\<lambda>i im. i_id i = im_incidentId im) (incidents d) (incidentMonitors d)"

definition auto_open :: "db \<Rightarrow> id \<Rightarrow> (incident_row \<times> incidentMonitor_row) list" where
  "auto_open d mid = filter (\<lambda>(i, im). im_monitorId im = mid \<and> incidentActive i \<and> i_isAutoCreated i)
     (incident_links d)"

text \<open>
  Ids are the primary key of an incident, and the supply gives ids no incident or link has.
\<close>

definition incident_ids_ok :: "ctx \<Rightarrow> db \<Rightarrow> bool" where
  "incident_ids_ok cx d \<longleftrightarrow> inj (cx_nanoid cx) \<and> distinct (map i_id (incidents d)) \<and>
     (\<forall>n\<ge>drawn d. cx_nanoid cx n \<notin> i_id ` set (incidents d) \<and>
        cx_nanoid cx n \<notin> im_incidentId ` set (incidentMonitors d))"

lemma incident_ids_frame:
  assumes "incident_ids_ok cx d" "drawn d \<le> drawn d'" "map i_id (incidents d') = map i_id (incidents d)"
    "incidentMonitors d' = incidentMonitors d"
  shows "incident_ids_ok cx d'"
proof -
  have "i_id ` set (incidents d') = i_id ` set (incidents d)"
    using assms(3) by (metis set_map)
  with assms show ?thesis by (auto simp: incident_ids_ok_def)
qed

lemma auto_open_frame:
  "incidents d' = incidents d \<Longrightarrow> incidentMonitors d' = incidentMonitors d \<Longrightarrow> auto_open d' k = auto_open d k"
  by (simp add: auto_open_def incident_links_def)

lemma activeIncident_links: "activeIncident d mid = map_option fst (first_row
    (order_asc (\<lambda>(i, im). \<not> i_isAutoCreated i)
      (filter (\<lambda>(i, im). im_monitorId im = mid \<and> incidentActive i) (incident_links d))))"
  by (simp add: activeIncident_def incident_links_def)

lemma activeIncident_None: "activeIncident d mid = None \<Longrightarrow> auto_open d mid = []"
  by (auto simp: activeIncident_links auto_open_def filter_empty_conv)

text \<open>The automatic incident, when there is one, is the one the code finds.\<close>

lemma activeIncident_auto:
  assumes "auto_open d mid \<noteq> []"
  shows "\<exists>i im. activeIncident d mid = Some i \<and> (i, im) \<in> set (auto_open d mid)"
proof -
  let ?k = "\<lambda>(i, im). \<not> i_isAutoCreated i"
  let ?rows = "filter (\<lambda>(i, im). im_monitorId im = mid \<and> incidentActive i) (incident_links d)"
  from assms obtain p where p: "p \<in> set (auto_open d mid)" by (cases "auto_open d mid") auto
  then have pin: "p \<in> set (order_asc ?k ?rows)" and pk: "\<not> ?k p"
    by (auto simp: auto_open_def)
  then obtain q qs where q: "order_asc ?k ?rows = q # qs" by (cases "order_asc ?k ?rows") auto
  have "sorted (map ?k (q # qs))" using sorted_order_asc [of ?k ?rows] q by simp
  then have "?k q \<le> ?k p" using pin q by auto
  with pk have "\<not> ?k q" by simp
  moreover have "q \<in> set ?rows" using q by (metis list.set_intros(1) set_order_asc)
  moreover have "activeIncident d mid = Some (fst q)" by (simp add: activeIncident_links q)
  ultimately show ?thesis
    by (cases q) (auto simp: auto_open_def intro!: exI [of _ "snd q"])
qed

section \<open>Opening and closing\<close>

lemma openIncident_auto:
  assumes "incident_ids_ok cx d"
  shows "\<exists>p. auto_open (openIncident cx m ti msg d) k = auto_open d k @ (if k = m_id m then [p] else [])"
    "incident_ids_ok cx (openIncident cx m ti msg d)"
proof -
  let ?id = "cx_nanoid cx (drawn d)"
  let ?new = "\<lparr>i_id = ?id, i_organizationId = m_organizationId m,
         i_title = ti, i_status = Investigating, i_impact = Major, i_startedAt = cx_now cx,
         i_resolvedAt = None, i_createdBy = None, i_isAutoCreated = True,
         i_createdAt = cx_now cx, i_updatedAt = cx_now cx\<rparr>"
  let ?link = "\<lparr>im_incidentId = ?id, im_monitorId = m_id m\<rparr>"
  have inc: "incidents (openIncident cx m ti msg d) = incidents d @ [?new]"
    "incidentMonitors (openIncident cx m ti msg d) = incidentMonitors d @ [?link]"
    by (simp_all add: openIncident_def Let_def)
  have fresh: "?id \<notin> i_id ` set (incidents d)" "?id \<notin> im_incidentId ` set (incidentMonitors d)"
    using assms by (auto simp: incident_ids_ok_def)
  have old: "inner_join (\<lambda>i im. i_id i = im_incidentId im) (incidents d) (incidentMonitors d @ [?link]) = incident_links d"
    unfolding incident_links_def using fresh(1) by (intro inner_join_right_fresh) force
  have "filter (\<lambda>im. ?id = im_incidentId im) (incidentMonitors d) = []"
    using fresh(2) by (auto simp: filter_empty_conv)
  then have links: "incident_links (openIncident cx m ti msg d) = incident_links d @ [(?new, ?link)]"
    using old by (simp add: incident_links_def inc inner_join_append)
  show "\<exists>p. auto_open (openIncident cx m ti msg d) k = auto_open d k @ (if k = m_id m then [p] else [])"
    by (rule exI [of _ "(?new, ?link)"])
      (simp add: auto_open_def links incidentActive_def isEndedIncidentStatus_def)
  have "n \<noteq> drawn d \<Longrightarrow> cx_nanoid cx n \<noteq> ?id" for n
    using assms by (auto simp: incident_ids_ok_def inj_def)
  then show "incident_ids_ok cx (openIncident cx m ti msg d)"
    using assms by (auto simp: incident_ids_ok_def inc)
qed

definition resolved :: "ctx \<Rightarrow> incident_row \<Rightarrow> incident_row" where
  "resolved cx i = i\<lparr>i_status := Resolved, i_resolvedAt := Some (cx_now cx), i_updatedAt := cx_now cx\<rparr>"

interpretation incident_key: keyed_update i_id "resolved cx"
  by unfold_locales (simp add: resolved_def)

lemma resolveAutoIncident_rows:
  "incidents (resolveAutoIncident cx m msg d) = (case activeIncident d (m_id m) of
     None \<Rightarrow> incidents d
   | Some inc \<Rightarrow> if i_isAutoCreated inc
       then update_where (\<lambda>i. i_id i = i_id inc) (resolved cx) (incidents d) else incidents d)"
  by (simp add: resolveAutoIncident_def resolved_def [abs_def] split: option.split)

lemma resolve_links:
  assumes "activeIncident d (m_id m) = Some inc" "i_isAutoCreated inc"
  shows "incident_links (resolveAutoIncident cx m msg d) =
    map (\<lambda>(i, im). (if i_id i = i_id inc then resolved cx i else i, im)) (incident_links d)"
  using assms unfolding incident_links_def
  by (simp add: resolveAutoIncident_rows update_where_def inner_join_map)

lemma resolve_ids:
  assumes "incident_ids_ok cx d"
  shows "incident_ids_ok cx (resolveAutoIncident cx m msg d)"
  using assms drawn_mono(1)
  by (rule incident_ids_frame)
    (simp_all add: resolveAutoIncident_rows split: option.split)

lemma resolve_auto_subset:
  "length (auto_open (resolveAutoIncident cx m msg d) k) \<le> length (auto_open d k)"
proof (cases "activeIncident d (m_id m)")
  case None
  then show ?thesis by (simp add: resolveAutoIncident_def)
next
  case (Some inc)
  show ?thesis
  proof (cases "i_isAutoCreated inc")
    case False
    with Some show ?thesis by (simp add: resolveAutoIncident_def)
  next
    case True
    show ?thesis
      unfolding auto_open_def resolve_links [OF Some True] filter_map length_map
      by (rule length_filter_mono)
        (auto simp: incidentActive_def isEndedIncidentStatus_def resolved_def split: if_splits)
  qed
qed

text \<open>With one automatic incident open, resolving leaves none.\<close>

definition one_auto :: "db \<Rightarrow> id \<Rightarrow> bool" where
  "one_auto d mid \<longleftrightarrow> length (auto_open d mid) \<le> 1"

lemma resolve_closes:
  assumes "one_auto d (m_id m)"
  shows "auto_open (resolveAutoIncident cx m msg d) (m_id m) = []"
proof (cases "auto_open d (m_id m) = []")
  case True
  then show ?thesis using resolve_auto_subset [of cx m msg d "m_id m"] by simp
next
  case False
  from activeIncident_auto [OF this] obtain inc im where
    inc: "activeIncident d (m_id m) = Some inc" "(inc, im) \<in> set (auto_open d (m_id m))" by blast
  then have auto: "i_isAutoCreated inc" by (simp add: auto_open_def)
  have only: "p = (inc, im)" if "p \<in> set (auto_open d (m_id m))" for p
    using assms inc(2) that
    by (cases "auto_open d (m_id m)") (auto simp: one_auto_def)
  show ?thesis
    unfolding auto_open_def resolve_links [OF inc(1) auto] filter_empty_conv
  proof
    fix q assume "q \<in> set (map (\<lambda>(i, im). (if i_id i = i_id inc then resolved cx i else i, im)) (incident_links d))"
    then obtain i l where il: "(i, l) \<in> set (incident_links d)"
      "q = (if i_id i = i_id inc then resolved cx i else i, l)" by auto
    show "\<not> (case q of (i, im) \<Rightarrow> im_monitorId im = m_id m \<and> incidentActive i \<and> i_isAutoCreated i)"
    proof (cases "i_id i = i_id inc")
      case True
      then show ?thesis
        using il(2) by (simp add: incidentActive_def isEndedIncidentStatus_def resolved_def)
    next
      case False
      then have "(i, l) \<notin> set (auto_open d (m_id m))" using only by auto
      with il False show ?thesis by (auto simp: auto_open_def)
    qed
  qed
qed

section \<open>At most one\<close>

text \<open>What the steps of an interpretation keep together.\<close>

definition incidents_ok :: "ctx \<Rightarrow> db \<Rightarrow> id \<Rightarrow> bool" where
  "incidents_ok cx d k \<longleftrightarrow> incident_ids_ok cx d \<and> one_auto d k"

lemma incidents_ok_frame:
  assumes "incidents_ok cx d k" "drawn d \<le> drawn d'" "incidents d' = incidents d"
    "incidentMonitors d' = incidentMonitors d"
  shows "incidents_ok cx d' k"
  using assms incident_ids_frame [of cx d d'] auto_open_frame [OF assms(3,4)]
  by (simp add: incidents_ok_def one_auto_def)

lemma incidents_ok_open:
  assumes "incidents_ok cx d k" "activeIncident d (m_id m) = None"
  shows "incidents_ok cx (openIncident cx m ti msg d) k"
proof -
  have ids: "incident_ids_ok cx d" using assms(1) by (simp add: incidents_ok_def)
  from openIncident_auto(1) [OF ids] obtain p where
    "auto_open (openIncident cx m ti msg d) k = auto_open d k @ (if k = m_id m then [p] else [])" by blast
  with assms activeIncident_None [OF assms(2)] openIncident_auto(2) [OF ids] show ?thesis
    by (auto simp: incidents_ok_def one_auto_def)
qed

lemma incidents_ok_resolve:
  assumes "incidents_ok cx d k"
  shows "incidents_ok cx (resolveAutoIncident cx m msg d) k"
  using assms resolve_ids [of cx d m msg] resolve_auto_subset [of cx m msg d k]
  by (simp add: incidents_ok_def one_auto_def)

lemma incidents_ok_steps [intro]:
  assumes "incidents_ok cx d k"
  shows "incidents_ok cx (postUpdate cx i st msg d) k"
    "incidents_ok cx (enqueue cx m ty pl d) k"
    "incidents_ok cx (enqueueFlapping cx m d) k"
    "incidents_ok cx (warnExpiry cx m row d) k"
    "incidents_ok cx (recordStatus cx m row cur d) k"
  using assms drawn_mono(2) [of d cx m row]
  by (auto intro: incidents_ok_frame simp: enqueueFlapping_def)

lemma incidents_ok_alerts:
  assumes "incidents_ok cx d k"
  shows "incidents_ok cx (sendAlerts cx m row cur a d) k"
proof -
  have starts: "incidents_ok cx (startFlapping cx m d) k"
    using assms by (auto simp: startFlapping_def Let_def intro!: incidents_ok_open split: option.split)
  have down: "incidents_ok cx (alertDown cx m row cur b d) k" for b
    using assms by (auto simp: alertDown_def Let_def intro!: incidents_ok_open split: option.split)
  have up: "incidents_ok cx (alertUp cx m row cur d) k"
    using assms by (auto simp: alertUp_def intro!: incidents_ok_resolve)
  have deg: "incidents_ok cx (alertDegraded cx m row cur a d) k"
    using assms by (auto simp: alertDegraded_def Let_def intro!: incidents_ok_resolve)
  show ?thesis
    unfolding sendAlerts_def using assms starts down up deg by (simp add: incidents_ok_steps)
qed

lemma incidents_ok_interpret:
  "incidents_ok cx d k \<Longrightarrow> incidents_ok cx (interpret_result cx m row d) k"
  unfolding interpret_result_def Let_def by (simp add: incidents_ok_steps incidents_ok_alerts)

text \<open>
  C5: A monitor never has two automatic incidents open: processing any batch of results keeps at
  most one active automatic incident for every monitor, because an outage opens one only when the
  monitor has no active incident, and flapping and recovery reuse or close the one there is.
\<close>

theorem one_automatic_incident:
  assumes "processResults cx mid d = Some (n, d')" "incident_ids_ok cx d" "one_auto d k"
  shows "one_auto d' k"
proof -
  have "incidents_ok cx d' k"
    using assms(1)
  proof (rule processResults_invariant)
    show "incidents_ok cx d k" using assms by (simp add: incidents_ok_def)
  qed (auto intro: incidents_ok_interpret incidents_ok_frame)
  then show ?thesis by (simp add: incidents_ok_def)
qed

lemma example_incident_ids: "incident_ids_ok (example_ctx 9000) example_results_db"
  by (auto simp: incident_ids_ok_def example_results_db_def empty_db_def inj_def)

lemma one_automatic_incident_witness:
  "\<exists>n d'. processResults (example_ctx 9000) ''m'' example_results_db = Some (n, d') \<and> one_auto d' ''m''"
proof -
  from example_processed obtain n d' where
    "processResults (example_ctx 9000) ''m'' example_results_db = Some (n, d')" by blast
  moreover have "one_auto example_results_db ''m''"
    by (simp add: one_auto_def auto_open_def incident_links_def example_results_db_def empty_db_def)
  ultimately show ?thesis using one_automatic_incident [OF _ example_incident_ids] by blast
qed

section \<open>A recovery closes the incident\<close>

lemma alert_up_step:
  assumes "alert_of cx row cur a = Some Monitor_up"
  shows "sendAlerts cx m row cur a d = alertUp cx m row cur d"
  using assms by (auto simp: alert_of_def sendAlerts_def split: if_splits)

text \<open>People's incidents stay as they are: an automatic step only changes automatic incidents.\<close>

definition manual_incidents :: "db \<Rightarrow> incident_row list" where
  "manual_incidents d = filter (\<lambda>i. \<not> i_isAutoCreated i) (incidents d)"

lemma manual_open [simp]: "manual_incidents (openIncident cx m ti msg d) = manual_incidents d"
  by (simp add: manual_incidents_def openIncident_def Let_def)

lemma manual_resolve:
  assumes "distinct (map i_id (incidents d))"
  shows "manual_incidents (resolveAutoIncident cx m msg d) = manual_incidents d"
proof (cases "activeIncident d (m_id m)")
  case None
  then show ?thesis by (simp add: resolveAutoIncident_def)
next
  case (Some inc)
  show ?thesis
  proof (cases "i_isAutoCreated inc")
    case False
    with Some show ?thesis by (simp add: resolveAutoIncident_def)
  next
    case True
    from Some obtain im where "(inc, im) \<in> set (incident_links d)"
      by (auto simp: activeIncident_links dest!: first_row_in)
    then have inc: "inc \<in> set (incidents d)" by (simp add: incident_links_def)
    have same: "i = inc" if "i \<in> set (incidents d)" "i_id i = i_id inc" for i
      using assms that inc by (simp add: distinct_map inj_on_def)
    show ?thesis
      unfolding manual_incidents_def resolveAutoIncident_rows
      using Some True same
      by (simp, intro update_where_cong_filter) (auto simp: resolved_def)
  qed
qed

lemma manual_frame [simp]:
  "manual_incidents (postUpdate cx i st msg d) = manual_incidents d"
  "manual_incidents (enqueue cx m ty pl d) = manual_incidents d"
  "manual_incidents (enqueueFlapping cx m d) = manual_incidents d"
  "manual_incidents (warnExpiry cx m row d) = manual_incidents d"
  "manual_incidents (recordStatus cx m row cur d) = manual_incidents d"
  by (simp_all add: manual_incidents_def)

lemma manual_alerts:
  assumes "distinct (map i_id (incidents d))"
  shows "manual_incidents (sendAlerts cx m row cur a d) = manual_incidents d"
  using assms
  by (simp add: sendAlerts_def startFlapping_def alertDown_def alertUp_def alertDegraded_def
      manual_resolve Let_def split: option.split)

lemma manual_interpret:
  assumes "distinct (map i_id (incidents d))"
  shows "manual_incidents (interpret_result cx m row d) = manual_incidents d"
  using assms by (simp add: interpret_result_def manual_alerts Let_def)


definition example_outage_db :: db where
  "example_outage_db = empty_db\<lparr>
     monitors := [example_monitor ''m''],
     monitorStatuses := [example_status Down 2000 1],
     notificationEvents := [\<lparr>e_id = ''e'', e_organizationId = ''o'', e_monitorId = Some ''m'',
       e_incidentId = None, e_type = Notice Monitor_down,
       e_payload = StatusPayload (Some Up) Down 1 None ''c1'', e_retry = None, e_mailServerDown = None, e_status = EvSent,
       e_claimedAt = None, e_processedAt = None, e_errorMessage = None, e_createdAt = 2000\<rparr>],
     incidents := [\<lparr>i_id = ''i'', i_organizationId = ''o'', i_title = ''api is down'',
       i_status = Investigating, i_impact = Major, i_startedAt = 2000, i_resolvedAt = None,
       i_createdBy = None, i_isAutoCreated = True, i_createdAt = 2000, i_updatedAt = 2000\<rparr>],
     incidentMonitors := [\<lparr>im_incidentId = ''i'', im_monitorId = ''m''\<rparr>]\<rparr>"


end
