(* ===== verification/Plans.thy ===== *)
theory Plans
  imports Config
begin

text \<open>
  The plans of \<open>lib/constants/plans.ts\<close>, the ceiling capacity blocks add to, and the retention
  windows the cleanup of old checks runs with.  A plan id is the string the subscription row holds.
\<close>

(* src/src/lib/types/plans.ts:9-9 ApiAccessLevel *)
datatype api_access = NoApi | ReadApi | FullApi

(* src/src/lib/types/plans.ts:33-87 PlanLimits *)
record plan_limits =
  monitors_limit :: int
  checkIntervalSeconds :: int
  statusPages_limit :: int
  retentionDays :: int
  teamMembers :: int
  channel_types :: "string list"
  customDomains :: bool
  apiAccess :: api_access
  apiRequestsPerMinute :: int
  sso :: bool
  auditLogs :: bool

(* src/src/lib/types/plans.ts:89-100 Plan *)
record plan =
  plan_id :: string
  plan_name :: string
  monthlyPriceCents :: "int option"
  annualPriceCents :: "int option"
  limits :: plan_limits

(* src/src/lib/constants/plans.ts:3-27 FREE_PLAN *)
definition FREE_PLAN :: plan where
  "FREE_PLAN = \<lparr>
     plan_id = ''free'', plan_name = ''Free'',
     monthlyPriceCents = Some 0, annualPriceCents = Some 0,
     limits = \<lparr>
       monitors_limit = 20, checkIntervalSeconds = 120, statusPages_limit = 1,
       retentionDays = 30, teamMembers = 5, channel_types = [''email''],
       customDomains = False, apiAccess = ReadApi, apiRequestsPerMinute = 60,
       sso = False, auditLogs = False\<rparr>\<rparr>"

(* src/src/lib/constants/plans.ts:29-37 MONITOR_BLOCK_SIZE *)
definition MONITOR_BLOCK_SIZE :: int where
  "MONITOR_BLOCK_SIZE = 50"

(* src/src/lib/constants/plans.ts:41-45 MAX_MONITOR_BLOCKS *)
definition MAX_MONITOR_BLOCKS :: int where
  "MAX_MONITOR_BLOCKS = 40"

(* src/src/lib/constants/plans.ts:47-64 BLOCK_ELIGIBLE_PLAN_IDS *)
definition BLOCK_ELIGIBLE_PLAN_IDS :: "string list" where
  "BLOCK_ELIGIBLE_PLAN_IDS = [''uppity'']"

(* src/src/lib/constants/plans.ts:66-94 applyCapacityBlocks *)
definition applyCapacityBlocks :: "plan \<Rightarrow> int \<Rightarrow> plan_limits" where
  "applyCapacityBlocks plan blocks = (let l = limits plan in
     if plan_id plan \<notin> set BLOCK_ELIGIBLE_PLAN_IDS \<or> monitors_limit l = -1 then l
     else l\<lparr>monitors_limit := monitors_limit l + MONITOR_BLOCK_SIZE * max 0 blocks\<rparr>)"

(* src/src/lib/constants/plans.ts:96-120 UPPITY_PLAN *)
definition UPPITY_PLAN :: plan where
  "UPPITY_PLAN = \<lparr>
     plan_id = ''uppity'', plan_name = ''Uppity'',
     monthlyPriceCents = Some 1200, annualPriceCents = Some 12000,
     limits = \<lparr>
       monitors_limit = 50, checkIntervalSeconds = 30, statusPages_limit = -1,
       retentionDays = 365, teamMembers = -1,
       channel_types = [''email'', ''slack'', ''discord'', ''webhook''],
       customDomains = True, apiAccess = FullApi, apiRequestsPerMinute = 600,
       sso = True, auditLogs = True\<rparr>\<rparr>"

(* src/src/lib/constants/plans.ts:122-131 SELF_HOSTED_LIMITS *)
definition SELF_HOSTED_LIMITS :: plan_limits where
  "SELF_HOSTED_LIMITS = (limits UPPITY_PLAN)\<lparr>
     monitors_limit := -1, retentionDays := -1, apiRequestsPerMinute := -1\<rparr>"

(* src/src/lib/constants/plans.ts:133-152 DEDICATED_PLAN *)
definition DEDICATED_PLAN :: plan where
  "DEDICATED_PLAN = \<lparr>
     plan_id = ''dedicated'', plan_name = ''Dedicated'',
     monthlyPriceCents = Some 29900, annualPriceCents = Some 299000,
     limits = (limits UPPITY_PLAN)\<lparr>
       monitors_limit := 2000, retentionDays := -1, apiRequestsPerMinute := -1\<rparr>\<rparr>"

(* src/src/lib/constants/plans.ts:154-168 ENTERPRISE_PLAN *)
definition ENTERPRISE_PLAN :: plan where
  "ENTERPRISE_PLAN = \<lparr>
     plan_id = ''enterprise'', plan_name = ''Enterprise'',
     monthlyPriceCents = None, annualPriceCents = None,
     limits = limits DEDICATED_PLAN\<rparr>"

text \<open>The record of plans, in the order \<open>Object.values\<close> lists it.\<close>

(* src/src/lib/constants/plans.ts:170-178 PLANS *)
definition PLANS :: "(string \<times> plan) list" where
  "PLANS = [(''free'', FREE_PLAN), (''uppity'', UPPITY_PLAN), (''dedicated'', DEDICATED_PLAN),
            (''enterprise'', ENTERPRISE_PLAN)]"

(* src/src/lib/constants/plans.ts:188-191 DEFAULT_PLAN_ID *)
definition DEFAULT_PLAN_ID :: string where
  "DEFAULT_PLAN_ID = ''free''"

(* src/src/lib/constants/plans.ts:204-217 RetentionGroup *)
record retention_group =
  rg_days :: int
  rg_planIds :: "string list"
  rg_catchAll :: bool

definition effective_retention :: "int \<Rightarrow> plan \<Rightarrow> int" where
  "effective_retention fallbackDays p =
     (if retentionDays (limits p) = -1 then fallbackDays else retentionDays (limits p))"

(* src/src/lib/constants/plans.ts:219-238 retentionGroups *)
definition retentionGroups :: "int \<Rightarrow> retention_group list" where
  "retentionGroups fallbackDays = map (\<lambda>(days, plans).
     let planIds = map plan_id plans in
     \<lparr>rg_days = days, rg_planIds = planIds, rg_catchAll = DEFAULT_PLAN_ID \<in> set planIds\<rparr>)
   (group_by (effective_retention fallbackDays) (map snd PLANS))"

lemmas plan_defs = FREE_PLAN_def UPPITY_PLAN_def DEDICATED_PLAN_def ENTERPRISE_PLAN_def
  SELF_HOSTED_LIMITS_def PLANS_def DEFAULT_PLAN_ID_def BLOCK_ELIGIBLE_PLAN_IDS_def

section \<open>The monitor ceiling\<close>

lemma applyCapacityBlocks_others [simp]:
  "plan_id p \<notin> set BLOCK_ELIGIBLE_PLAN_IDS \<Longrightarrow> applyCapacityBlocks p b = limits p"
  by (simp add: applyCapacityBlocks_def Let_def)

lemma applyCapacityBlocks_unlimited [simp]:
  "monitors_limit (limits p) = -1 \<Longrightarrow> applyCapacityBlocks p b = limits p"
  by (simp add: applyCapacityBlocks_def Let_def)

lemma applyCapacityBlocks_uppity:
  "monitors_limit (applyCapacityBlocks UPPITY_PLAN b) = 50 + 50 * max 0 b"
  by (simp add: applyCapacityBlocks_def plan_defs MONITOR_BLOCK_SIZE_def Let_def)

lemma applyCapacityBlocks_mono:
  "b \<le> c \<Longrightarrow> monitors_limit (applyCapacityBlocks p b) \<le> monitors_limit (applyCapacityBlocks p c)"
  by (auto simp: applyCapacityBlocks_def MONITOR_BLOCK_SIZE_def Let_def)

lemma applyCapacityBlocks_ge:
  "monitors_limit (limits p) \<le> monitors_limit (applyCapacityBlocks p b)"
  by (simp add: applyCapacityBlocks_def MONITOR_BLOCK_SIZE_def Let_def)

text \<open>Blocks never make a limited plan unlimited, which a sum of exactly -1 would do.\<close>

lemma applyCapacityBlocks_limited:
  "0 \<le> monitors_limit (limits p) \<Longrightarrow> 0 \<le> monitors_limit (applyCapacityBlocks p b)"
  using applyCapacityBlocks_ge order_trans by blast

lemma applyCapacityBlocks_only_monitors:
  "applyCapacityBlocks p b = (limits p)\<lparr>monitors_limit := monitors_limit (applyCapacityBlocks p b)\<rparr>"
  by (simp add: applyCapacityBlocks_def Let_def)

section \<open>Retention groups\<close>

lemma plans_keyed: "list_all (\<lambda>(k, p). plan_id p = k) PLANS"
  by (simp add: plan_defs)

lemma PLANS_distinct: "distinct (map fst PLANS)"
  by (simp add: PLANS_def)

lemma plan_by_id: "p \<in> snd ` set PLANS \<Longrightarrow> map_of PLANS (plan_id p) = Some p"
proof -
  assume "p \<in> snd ` set PLANS"
  then obtain k where kp: "(k, p) \<in> set PLANS" by force
  then have "plan_id p = k" using plans_keyed unfolding list_all_iff by blast
  with kp show ?thesis using PLANS_distinct map_of_is_SomeI by metis
qed

lemma plan_of_id:
  "p \<in> snd ` set PLANS \<Longrightarrow> q \<in> snd ` set PLANS \<Longrightarrow> plan_id p = plan_id q \<Longrightarrow> p = q"
  by (rule option.inject [THEN iffD1], rule trans [OF plan_by_id [symmetric]])
    (simp_all only: plan_by_id)

lemma in_retentionGroups_iff:
  "g \<in> set (retentionGroups f) \<longleftrightarrow>
    rg_days g \<in> effective_retention f ` snd ` set PLANS \<and>
    rg_planIds g = map plan_id (filter (\<lambda>p. effective_retention f p = rg_days g) (map snd PLANS)) \<and>
    rg_catchAll g = (DEFAULT_PLAN_ID \<in> set (rg_planIds g))"
proof
  assume "g \<in> set (retentionGroups f)"
  then obtain d ps where "(d, ps) \<in> set (group_by (effective_retention f) (map snd PLANS))"
      "g = \<lparr>rg_days = d, rg_planIds = map plan_id ps, rg_catchAll = DEFAULT_PLAN_ID \<in> set (map plan_id ps)\<rparr>"
    unfolding retentionGroups_def by (auto simp: Let_def)
  then show "rg_days g \<in> effective_retention f ` snd ` set PLANS \<and>
    rg_planIds g = map plan_id (filter (\<lambda>p. effective_retention f p = rg_days g) (map snd PLANS)) \<and>
    rg_catchAll g = (DEFAULT_PLAN_ID \<in> set (rg_planIds g))"
    by (simp add: in_group_by_iff)
next
  let ?ps = "filter (\<lambda>p. effective_retention f p = rg_days g) (map snd PLANS)"
  assume g: "rg_days g \<in> effective_retention f ` snd ` set PLANS \<and> rg_planIds g = map plan_id ?ps \<and>
    rg_catchAll g = (DEFAULT_PLAN_ID \<in> set (rg_planIds g))"
  then have "(rg_days g, ?ps) \<in> set (group_by (effective_retention f) (map snd PLANS))"
    by (simp add: in_group_by_iff)
  moreover have "g = \<lparr>rg_days = rg_days g, rg_planIds = map plan_id ?ps,
      rg_catchAll = DEFAULT_PLAN_ID \<in> set (map plan_id ?ps)\<rparr>"
    using g by (cases g) simp
  ultimately show "g \<in> set (retentionGroups f)"
    unfolding retentionGroups_def set_map Let_def by (intro image_eqI) simp_all
qed

lemma plan_in_group_iff:
  assumes "g \<in> set (retentionGroups f)" "p \<in> snd ` set PLANS"
  shows "plan_id p \<in> set (rg_planIds g) \<longleftrightarrow> effective_retention f p = rg_days g"
proof -
  have "plan_id p \<in> plan_id ` {q \<in> snd ` set PLANS. effective_retention f q = rg_days g}
      \<longleftrightarrow> effective_retention f p = rg_days g"
  proof
    assume "plan_id p \<in> plan_id ` {q \<in> snd ` set PLANS. effective_retention f q = rg_days g}"
    then obtain q where q: "plan_id p = plan_id q" "q \<in> {q \<in> snd ` set PLANS. effective_retention f q = rg_days g}"
      by (rule imageE)
    then have "p = q" using plan_of_id [OF assms(2) _ q(1)] by simp
    then show "effective_retention f p = rg_days g" using q(2) by simp
  next
    assume "effective_retention f p = rg_days g"
    with assms(2) show "plan_id p \<in> plan_id ` {q \<in> snd ` set PLANS. effective_retention f q = rg_days g}"
      by (intro imageI CollectI conjI)
  qed
  moreover have "set (rg_planIds g) = plan_id ` {q \<in> snd ` set PLANS. effective_retention f q = rg_days g}"
    using assms(1) by (simp add: in_retentionGroups_iff)
  ultimately show ?thesis by simp
qed

lemma retentionGroups_days_distinct: "distinct (map rg_days (retentionGroups f))"
proof -
  have "map rg_days (retentionGroups f) = map fst (group_by (effective_retention f) (map snd PLANS))"
    by (simp add: retentionGroups_def Let_def case_prod_beta)
  then show ?thesis by (simp add: distinct_group_by)
qed

lemma retentionGroups_inj:
  "g \<in> set (retentionGroups f) \<Longrightarrow> h \<in> set (retentionGroups f) \<Longrightarrow> rg_days g = rg_days h \<Longrightarrow> g = h"
  using retentionGroups_days_distinct [of f] by (auto simp: distinct_map inj_on_def)

lemma group_of_plan:
  assumes "p \<in> snd ` set PLANS"
  shows "\<exists>!g. g \<in> set (retentionGroups f) \<and> plan_id p \<in> set (rg_planIds g)"
proof -
  let ?d = "effective_retention f p"
  let ?ids = "map plan_id (filter (\<lambda>q. effective_retention f q = ?d) (map snd PLANS))"
  let ?g = "\<lparr>rg_days = ?d, rg_planIds = ?ids, rg_catchAll = DEFAULT_PLAN_ID \<in> set ?ids\<rparr>"
  have "?g \<in> set (retentionGroups f)"
    using assms by (simp add: in_retentionGroups_iff)
  moreover from this have "plan_id p \<in> set (rg_planIds ?g)"
    using assms plan_in_group_iff [of ?g f p] by simp
  moreover have "h = ?g" if "h \<in> set (retentionGroups f)" "plan_id p \<in> set (rg_planIds h)" for h
    using that calculation(1) plan_in_group_iff [OF that(1) assms]
    by (intro retentionGroups_inj [of h f ?g]) simp_all
  ultimately show ?thesis by (intro ex1I [of _ ?g]) blast+
qed

lemma default_plan_known: "FREE_PLAN \<in> snd ` set PLANS" "plan_id FREE_PLAN = DEFAULT_PLAN_ID"
  by (simp_all add: PLANS_def FREE_PLAN_def DEFAULT_PLAN_ID_def)

text \<open>
  Cleanup sees every plan in exactly one retention group, whose window is the plan's effective
  one, whatever the operator's fallback is; the groups have different windows, and exactly one
  of them is the catch-all, the group of the default plan.
\<close>

theorem retentionGroups_partition:
  "list_all (\<lambda>p. \<exists>!g. g \<in> set (retentionGroups f) \<and> plan_id p \<in> set (rg_planIds g)) (map snd PLANS) \<and>
   list_all (\<lambda>p. list_all (\<lambda>g.
       (plan_id p \<in> set (rg_planIds g)) = (effective_retention f p = rg_days g)) (retentionGroups f))
     (map snd PLANS) \<and>
   distinct (map rg_days (retentionGroups f)) \<and>
   (\<exists>!g. g \<in> set (retentionGroups f) \<and> rg_catchAll g)"
proof (intro conjI)
  show "list_all (\<lambda>p. \<exists>!g. g \<in> set (retentionGroups f) \<and> plan_id p \<in> set (rg_planIds g)) (map snd PLANS)"
    unfolding list_all_iff set_map using group_of_plan by blast
  show "list_all (\<lambda>p. list_all (\<lambda>g. (plan_id p \<in> set (rg_planIds g)) =
      (effective_retention f p = rg_days g)) (retentionGroups f)) (map snd PLANS)"
    unfolding list_all_iff set_map using plan_in_group_iff by blast
  show "distinct (map rg_days (retentionGroups f))"
    by (rule retentionGroups_days_distinct)
  have "rg_catchAll g \<longleftrightarrow> plan_id FREE_PLAN \<in> set (rg_planIds g)" if "g \<in> set (retentionGroups f)" for g
    using that unfolding in_retentionGroups_iff default_plan_known by blast
  then show "\<exists>!g. g \<in> set (retentionGroups f) \<and> rg_catchAll g"
    using group_of_plan [OF default_plan_known(1), of f] by blast
qed

end
