(* ===== verification/Leases.thy ===== *)
theory Leases
  imports Prelude
begin

text \<open>
  The contract of a work queue several workers claim from: a claim hands out keys that are due, and
  a claimed key is not due again while its lease lasts.  The scheduler's monitors and the notifier's
  events are such queues.  The client's lemmas are that two claims within a lease never hand out the
  same key, however many workers claim in between.
\<close>

text \<open>Claims one after another, at the given times, with what each handed out.\<close>

fun claims :: "(time \<Rightarrow> 'q \<Rightarrow> 'k list \<times> 'q) \<Rightarrow> time list \<Rightarrow> 'q \<Rightarrow> 'k list list \<times> 'q" where
  "claims claim [] q = ([], q)"
| "claims claim (t # ts) q =
    (let (ks, q1) = claim t q; (kss, q2) = claims claim ts q1 in (ks # kss, q2))"

locale lease_queue =
  fixes claim :: "time \<Rightarrow> 'q \<Rightarrow> 'k list \<times> 'q"
    and due :: "time \<Rightarrow> 'q \<Rightarrow> 'k \<Rightarrow> bool"
    and lease :: "'q \<Rightarrow> 'k \<Rightarrow> time"
  assumes claimed_due: "claim t q = (ks, q') \<Longrightarrow> k \<in> set ks \<Longrightarrow> due t q k"
    and claimed_leased: "claim t q = (ks, q') \<Longrightarrow> k \<in> set ks \<Longrightarrow> u < t + lease q k \<Longrightarrow> \<not> due u q' k"
    and claim_makes_nothing_due: "claim t q = (ks, q') \<Longrightarrow> t \<le> u \<Longrightarrow> due u q' k \<Longrightarrow> due u q k"
begin

lemma not_due_not_claimed:
  "\<not> due t q k \<Longrightarrow> claim t q = (ks, q') \<Longrightarrow> k \<notin> set ks"
  using claimed_due by blast

lemma two_claims_disjoint:
  assumes "claim t q = (ks, q1)" "claim u q1 = (ls, q2)" "k \<in> set ks" "u < t + lease q k"
  shows "k \<notin> set ls"
  using not_due_not_claimed [OF claimed_leased [OF assms(1,3,4)] assms(2)] .

lemma leased_through_claims:
  "sorted ts \<Longrightarrow> (\<And>t. t \<in> set ts \<Longrightarrow> \<not> due t q k) \<Longrightarrow> claims claim ts q = (kss, q') \<Longrightarrow> ls \<in> set kss \<Longrightarrow>
   k \<notin> set ls"
proof (induction ts arbitrary: q kss)
  case (Cons t ts)
  obtain ks q1 where c: "claim t q = (ks, q1)" by fastforce
  obtain rest q2 where r: "claims claim ts q1 = (rest, q2)" by fastforce
  from Cons.prems(3) c r have kss: "kss = ks # rest" "q' = q2" by auto
  have "\<not> due u q1 k" if "u \<in> set ts" for u
    using Cons.prems(1) Cons.prems(2) [of u] that claim_makes_nothing_due [OF c, of u] by auto
  with Cons.IH [of q1 rest] Cons.prems(1) r kss have "ls \<in> set rest \<Longrightarrow> k \<notin> set ls" by simp
  moreover have "k \<notin> set ks" using Cons.prems(2) [of t] not_due_not_claimed [OF _ c] by simp
  ultimately show ?case using Cons.prems(4) kss by auto
qed simp

text \<open>The first claim's keys stay with it for their lease.\<close>

lemma claimed_once:
  assumes "claim t q = (ks, q1)" "claims claim ts q1 = (kss, q2)" "k \<in> set ks"
    and "sorted ts" "\<And>u. u \<in> set ts \<Longrightarrow> u < t + lease q k"
  shows "\<forall>ls\<in>set kss. k \<notin> set ls"
  using leased_through_claims [OF assms(4) _ assms(2)] claimed_leased [OF assms(1,3)] assms(5) by blast

end

end
