(* ===== verification/Scheduler.thy ===== *)
theory Scheduler
  imports Leases Processor
begin

text \<open>
  The scheduler, \<open>worker/monitor/schedule.ts\<close>, with the lease length of the database function
  \<open>monitor_lease_seconds\<close> and the read-time view of stopped checks in
  \<open>lib/server/check-state.ts\<close>.

  A worker claims due monitors, checks each, and records success or failure on the row it claimed.
  Rows another transaction holds locked are skipped, so the claim takes the set of locked ids; and
  whether the dead-letter column exists yet is a parameter, as a worker can start before the
  migration.
\<close>

section \<open>Claims\<close>

text \<open>Integer ceiling of a quotient.\<close>

definition ceil_div :: "int \<Rightarrow> int \<Rightarrow> int" where
  "ceil_div a b = - ((- a) div b)"

(* src/src/worker/monitor/schedule.ts:13-16 seconds *)
definition seconds :: "int \<Rightarrow> int" where
  "seconds ms = ceil_div ms 1000"

(* src/drizzle/0029_monitor_lease.sql:1-8 monitor_lease_seconds *)
definition monitor_lease_seconds :: "int \<Rightarrow> int \<Rightarrow> int \<Rightarrow> int" where
  "monitor_lease_seconds timeout_seconds retries retry_delay_ms =
     (timeout_seconds + ceil_div retry_delay_ms 1000) * (retries + 1) + 30"

(* src/src/worker/monitor/schedule.ts:18-22 LEASE_SECONDS *)
definition LEASE_SECONDS :: "ctx \<Rightarrow> monitor_row \<Rightarrow> int" where
  "LEASE_SECONDS cx m = monitor_lease_seconds (m_timeoutSeconds m) (m_retries m) (RETRY_DELAY_MS (cx_env cx))"

definition due_row :: "time \<Rightarrow> monitor_row \<Rightarrow> bool" where
  "due_row t m \<longleftrightarrow> m_active m \<and> on_some (\<lambda>n. n \<le> t) (m_nextCheckAt m) \<and>
     (m_checkBackoffUntil m = None \<or> on_some (\<lambda>b. b \<le> t) (m_checkBackoffUntil m))"

definition due_monitors :: "time \<Rightarrow> id set \<Rightarrow> nat \<Rightarrow> db \<Rightarrow> monitor_row list" where
  "due_monitors t locked limit d = take limit (order_asc (\<lambda>m. coalesce (m_nextCheckAt m) 0)
     (filter (\<lambda>m. due_row t m \<and> m_id m \<notin> locked) (monitors d)))"

definition lease_row :: "ctx \<Rightarrow> monitor_row \<Rightarrow> monitor_row" where
  "lease_row cx m = m\<lparr>m_checkBackoffUntil := Some (cx_now cx + LEASE_SECONDS cx m * 1000)\<rparr>"

(* src/src/worker/monitor/schedule.ts:44-78 claimDueMonitors *)
definition claimDueMonitors ::
  "ctx \<Rightarrow> bool \<Rightarrow> id set \<Rightarrow> nat \<Rightarrow> db \<Rightarrow> monitor_row list \<times> db" where
  "claimDueMonitors cx tracks locked limit d = (let due = due_monitors (cx_now cx) locked limit d in
     if due = [] then ([], d)
     else let rows = update_where (\<lambda>m. m_id m \<in> m_id ` set due) (lease_row cx) (monitors d) in
       (map (\<lambda>m. if tracks then m else m\<lparr>m_deadLetteredAt := None\<rparr>)
          (filter (\<lambda>m. m_id m \<in> m_id ` set due) rows),
        d\<lparr>monitors := rows\<rparr>))"

(* src/src/worker/monitor/schedule.ts:80-101 releaseOverlongSchedules *)
definition releaseOverlongSchedules :: "ctx \<Rightarrow> db \<Rightarrow> db" where
  "releaseOverlongSchedules cx d = d\<lparr>monitors := update_where
     (\<lambda>m. m_active m \<and> on_some (\<lambda>t. t > cx_now cx +
            (max (m_intervalSeconds m) (seconds (CHECK_MAX_BACKOFF_MS (cx_env cx))) + LEASE_SECONDS cx m) * 1000)
          (greatest (m_nextCheckAt m) (m_checkBackoffUntil m)))
     (\<lambda>m. m\<lparr>m_nextCheckAt := Some (cx_now cx), m_checkBackoffUntil := None\<rparr>) (monitors d)\<rparr>"

section \<open>Recording a check\<close>

(* src/src/worker/monitor/schedule.ts:103-112 enqueue *)
definition enqueueCheckState :: "ctx \<Rightarrow> monitor_row \<Rightarrow> notificationType \<Rightarrow> db \<Rightarrow> db" where
  "enqueueCheckState cx m ty d = (draw d)\<lparr>notificationEvents := notificationEvents d @
     [\<lparr>e_id = cx_nanoid cx (drawn d), e_organizationId = m_organizationId m,
       e_monitorId = Some (m_id m), e_incidentId = None, e_type = Notice ty,
       e_payload = CheckStatePayload, e_retry = None, e_mailServerDown = None, e_status = EvPending, e_claimedAt = None,
       e_processedAt = None, e_errorMessage = None, e_createdAt = cx_now cx\<rparr>]\<rparr>"

definition success_row :: "ctx \<Rightarrow> monitor_row \<Rightarrow> monitor_row \<Rightarrow> monitor_row" where
  "success_row cx m r = r\<lparr>
     m_nextCheckAt := Some (cx_now cx + m_intervalSeconds m * 1000),
     m_checkRetryCount := Some 0, m_checkLastError := None, m_checkBackoffUntil := None,
     m_deadLetteredAt := (if m_deadLetteredAt m \<noteq> None then None else m_deadLetteredAt r)\<rparr>"

(* src/src/worker/monitor/schedule.ts:114-134 recordCheckSuccess *)
definition recordCheckSuccess :: "ctx \<Rightarrow> monitor_row \<Rightarrow> db \<Rightarrow> db" where
  "recordCheckSuccess cx m d = (
     let d1 = d\<lparr>monitors := update_where (\<lambda>r. m_id r = m_id m) (success_row cx m) (monitors d)\<rparr> in
     if m_deadLetteredAt m \<noteq> None then enqueueCheckState cx m Monitor_checks_resumed d1 else d1)"

definition retryCount :: "monitor_row \<Rightarrow> int" where
  "retryCount m = coalesce (m_checkRetryCount m) 0 + 1"

text \<open>The count of failures is at least one here, so the exponent is a natural number.\<close>

(* src/src/worker/monitor/schedule.ts:144-147 backoffMs *)
definition backoffMs :: "ctx \<Rightarrow> int \<Rightarrow> int" where
  "backoffMs cx n = min
     (CHECK_INITIAL_BACKOFF_MS (cx_env cx) * CHECK_BACKOFF_MULTIPLIER ^ nat (n - 1))
     (CHECK_MAX_BACKOFF_MS (cx_env cx))"

(* src/src/worker/monitor/schedule.ts:148-149 entering *)
definition entersDeadLetter :: "ctx \<Rightarrow> bool \<Rightarrow> monitor_row \<Rightarrow> bool" where
  "entersDeadLetter cx tracks m \<longleftrightarrow>
     retryCount m \<ge> CHECK_MAX_ATTEMPTS (cx_env cx) \<and> m_deadLetteredAt m = None \<and> tracks"

definition failure_row :: "ctx \<Rightarrow> bool \<Rightarrow> monitor_row \<Rightarrow> string \<Rightarrow> monitor_row \<Rightarrow> monitor_row" where
  "failure_row cx tracks m err r = (let due = cx_now cx + backoffMs cx (retryCount m) in r\<lparr>
     m_checkRetryCount := Some (retryCount m), m_checkLastError := Some err,
     m_checkBackoffUntil := Some due, m_nextCheckAt := Some due,
     m_deadLetteredAt :=
       (if entersDeadLetter cx tracks m then Some (cx_now cx) else m_deadLetteredAt r)\<rparr>)"

(* src/src/worker/monitor/schedule.ts:136-165 recordCheckFailure *)
definition recordCheckFailure :: "ctx \<Rightarrow> bool \<Rightarrow> monitor_row \<Rightarrow> string \<Rightarrow> db \<Rightarrow> db" where
  "recordCheckFailure cx tracks m err d = (
     let d1 = d\<lparr>monitors := update_where (\<lambda>r. m_id r = m_id m) (failure_row cx tracks m err) (monitors d)\<rparr> in
     if entersDeadLetter cx tracks m then enqueueCheckState cx m Monitor_checks_stopped d1 else d1)"

section \<open>Stopped checks, as a reader sees them\<close>

(* src/src/lib/server/check-state.ts:6-12 OVERDUE_AFTER_SECONDS *)
definition OVERDUE_AFTER_SECONDS :: int where
  "OVERDUE_AFTER_SECONDS = 300"

(* src/src/lib/server/check-state.ts:14-15 dueAt *)
definition dueAt :: "monitor_row \<Rightarrow> time option" where
  "dueAt m = greatest (m_nextCheckAt m) (m_checkBackoffUntil m)"

(* src/src/lib/server/check-state.ts:17-21 checksOverdue *)
definition checksOverdue :: "time \<Rightarrow> monitor_row \<Rightarrow> bool" where
  "checksOverdue t m \<longleftrightarrow> m_active m \<and> on_some (\<lambda>due. due < t - OVERDUE_AFTER_SECONDS * 1000) (dueAt m)"

(* src/src/lib/server/check-state.ts:23-24 checksStopped *)
definition checksStopped :: "time \<Rightarrow> monitor_row \<Rightarrow> bool" where
  "checksStopped t m \<longleftrightarrow> m_active m \<and> (m_deadLetteredAt m \<noteq> None \<or> checksOverdue t m)"

(* src/src/lib/server/check-state.ts:26-35 overdueChecks *)
definition overdueChecks :: "time \<Rightarrow> db \<Rightarrow> nat \<times> time option" where
  "overdueChecks t d = (let rows = filter (checksOverdue t) (monitors d) in
     (length rows, map_option (\<lambda>m. coalesce (dueAt m) 0)
        (first_row (order_asc (\<lambda>m. coalesce (dueAt m) 0) rows))))"

(* src/src/lib/server/check-state.ts:37-53 deadLetteredMonitors *)
definition deadLetteredMonitors :: "db \<Rightarrow> nat \<Rightarrow> (monitor_row \<times> nat) list" where
  "deadLetteredMonitors d limit = (
     let rows = filter (\<lambda>m. m_deadLetteredAt m \<noteq> None \<and> m_active m) (monitors d) in
     map (\<lambda>m. (m, length rows)) (take limit
       (rev (order_asc (\<lambda>m. (coalesce (m_deadLetteredAt m) 0, m_id m)) rows))))"

section \<open>A claim is a lease\<close>

lemma claim_rows:
  fixes cx locked limit d
  defines "ids \<equiv> m_id ` set (due_monitors (cx_now cx) locked limit d)"
  assumes "claimDueMonitors cx tracks locked limit d = (ms, d')"
  shows "monitors d' = update_where (\<lambda>m. m_id m \<in> ids) (lease_row cx) (monitors d)"
    "m_id ` set ms = ids"
    "d' = d\<lparr>monitors := monitors d'\<rparr>"
proof -
  have sub: "ids \<subseteq> m_id ` set (monitors d)"
    using set_take_subset by (fastforce simp: ids_def due_monitors_def)
  have keys: "m_id ` set (filter (\<lambda>m. m_id m \<in> ids) (update_where (\<lambda>m. m_id m \<in> ids) (lease_row cx) (monitors d))) = ids"
  proof -
    have "set (filter (\<lambda>m. m_id m \<in> ids) (update_where (\<lambda>m. m_id m \<in> ids) (lease_row cx) (monitors d))) =
        lease_row cx ` {m \<in> set (monitors d). m_id m \<in> ids}"
      by (auto simp: set_update_where lease_row_def image_iff)
    then have "m_id ` set (filter (\<lambda>m. m_id m \<in> ids) (update_where (\<lambda>m. m_id m \<in> ids) (lease_row cx) (monitors d)))
        = m_id ` {m \<in> set (monitors d). m_id m \<in> ids}"
      by (simp only: image_image) (simp add: lease_row_def)
    with sub show ?thesis by auto
  qed
  show "monitors d' = update_where (\<lambda>m. m_id m \<in> ids) (lease_row cx) (monitors d)"
    "d' = d\<lparr>monitors := monitors d'\<rparr>"
    using assms(2) by (auto simp: claimDueMonitors_def ids_def Let_def update_where_none split: if_splits)
  show "m_id ` set ms = ids"
  proof (cases "due_monitors (cx_now cx) locked limit d = []")
    case True
    with assms(2) show ?thesis by (auto simp: claimDueMonitors_def ids_def)
  next
    case False
    with assms(2) have "ms = map (\<lambda>m. if tracks then m else m\<lparr>m_deadLetteredAt := None\<rparr>)
        (filter (\<lambda>m. m_id m \<in> ids) (update_where (\<lambda>m. m_id m \<in> ids) (lease_row cx) (monitors d)))"
      by (auto simp: claimDueMonitors_def ids_def Let_def)
    then have "m_id ` set ms = m_id ` set (filter (\<lambda>m. m_id m \<in> ids)
        (update_where (\<lambda>m. m_id m \<in> ids) (lease_row cx) (monitors d)))"
      by (simp only: set_map image_image) (simp add: if_distrib cong: if_cong)
    with keys show ?thesis by simp
  qed
qed

lemma due_monitors_due:
  "m \<in> set (due_monitors t locked limit d) \<Longrightarrow> m \<in> set (monitors d) \<and> due_row t m \<and> m_id m \<notin> locked"
  unfolding due_monitors_def by (auto dest: in_set_takeD)

lemma due_row_later: "due_row t m \<Longrightarrow> t \<le> u \<Longrightarrow> due_row u m"
  by (auto simp: due_row_def on_some_iff)

lemma lease_row_due: "due_row u (lease_row cx m) \<Longrightarrow> cx_now cx + LEASE_SECONDS cx m * 1000 \<le> u"
  by (simp add: due_row_def lease_row_def)

definition due_id :: "time \<Rightarrow> db \<Rightarrow> id \<Rightarrow> bool" where
  "due_id t d k \<longleftrightarrow> (\<exists>m\<in>set (monitors d). m_id m = k \<and> due_row t m)"

definition lease_of :: "ctx \<Rightarrow> db \<Rightarrow> id \<Rightarrow> time" where
  "lease_of cx d k = (if \<exists>m\<in>set (monitors d). m_id m = k
     then Min (LEASE_SECONDS cx ` set (filter (\<lambda>m. m_id m = k) (monitors d))) * 1000 else 0)"

text \<open>A worker's claim at a time, with the rows locked by the others then, as ids.\<close>

definition claim_ids ::
  "ctx \<Rightarrow> bool \<Rightarrow> (time \<Rightarrow> id set) \<Rightarrow> nat \<Rightarrow> time \<Rightarrow> db \<Rightarrow> id list \<times> db" where
  "claim_ids cx tracks locked limit t d =
     (let (ms, d') = claimDueMonitors (cx\<lparr>cx_now := t\<rparr>) tracks (locked t) limit d in (map m_id ms, d'))"

lemma LEASE_SECONDS_now [simp]: "LEASE_SECONDS (cx\<lparr>cx_now := t\<rparr>) m = LEASE_SECONDS cx m"
  by (simp add: LEASE_SECONDS_def)

lemma lease_of_le:
  "m \<in> set (monitors d) \<Longrightarrow> lease_of cx d (m_id m) \<le> LEASE_SECONDS cx m * 1000"
  by (auto simp: lease_of_def intro!: Min_le mult_right_mono)

interpretation monitor_queue: lease_queue "claim_ids cx tracks locked limit" due_id "lease_of cx"
proof
  fix t d ks d' k u
  assume claim: "claim_ids cx tracks locked limit t d = (ks, d')"
  then obtain ms where ms: "claimDueMonitors (cx\<lparr>cx_now := t\<rparr>) tracks (locked t) limit d = (ms, d')" "ks = map m_id ms"
    by (auto simp: claim_ids_def split: prod.splits)
  note rows = claim_rows [OF ms(1)]
  have ks: "set ks = m_id ` set (due_monitors t (locked t) limit d)" using rows(2) ms(2) by simp
  { assume "k \<in> set ks"
    with ks obtain m where "m \<in> set (due_monitors t (locked t) limit d)" "m_id m = k" by auto
    with due_monitors_due show "due_id t d k" unfolding due_id_def by blast }
  { assume k: "k \<in> set ks" and u: "u < t + lease_of cx d k"
    show "\<not> due_id u d' k"
    proof
      assume "due_id u d' k"
      then obtain m' where "m' \<in> set (monitors d')" "m_id m' = k" "due_row u m'" by (auto simp: due_id_def)
      then obtain m where m: "m \<in> set (monitors d)" "m_id m = k" "due_row u (lease_row (cx\<lparr>cx_now := t\<rparr>) m)"
        using k ks by (auto simp: rows(1) in_update_where_iff lease_row_def split: if_splits)
      from lease_row_due [OF m(3)] lease_of_le [OF m(1), of cx] m(2) u show False by simp
    qed }
  { assume "t \<le> u" "due_id u d' k"
    then obtain m' where m': "m' \<in> set (monitors d')" "m_id m' = k" "due_row u m'" by (auto simp: due_id_def)
    then obtain m where m: "m \<in> set (monitors d)" "if m_id m \<in> set ks
        then m' = lease_row (cx\<lparr>cx_now := t\<rparr>) m else m' = m"
      using ks by (auto simp: rows(1) in_update_where_iff)
    show "due_id u d k"
    proof (cases "m_id m \<in> set ks")
      case True
      with m m'(2) have "k \<in> set ks" by (simp add: lease_row_def)
      with ks obtain r where "r \<in> set (due_monitors t (locked t) limit d)" "m_id r = k" by auto
      with due_monitors_due due_row_later \<open>t \<le> u\<close> show ?thesis unfolding due_id_def by blast
    qed (use m m' in \<open>auto simp: due_id_def\<close>) }
qed

lemma lease_of_unique:
  assumes "distinct (map m_id (monitors d))" "m \<in> set (monitors d)"
  shows "lease_of cx d (m_id m) = LEASE_SECONDS cx m * 1000"
proof -
  have "{r \<in> set (monitors d). m_id r = m_id m} = {m}"
    using assms by (auto simp: distinct_map inj_on_def)
  then show ?thesis using assms(2) by (auto simp: lease_of_def)
qed

text \<open>
  No monitor is checked twice at once: once a worker has claimed a monitor, no claim by any
  worker hands it out again before the lease has run out, however many claims come in between and
  whatever rows the workers hold locked.
\<close>

theorem monitor_claimed_once:
  assumes "claim_ids cx tracks locked limit t d = (ks, d1)"
    and "claims (claim_ids cx tracks locked limit) ts d1 = (kss, d2)"
    and "distinct (map m_id (monitors d))" "m \<in> set (monitors d)" "m_id m \<in> set ks"
    and "sorted ts" "\<And>u. u \<in> set ts \<Longrightarrow> u < t + LEASE_SECONDS cx m * 1000"
  shows "\<forall>ls\<in>set kss. m_id m \<notin> set ls"
  using monitor_queue.claimed_once [OF assms(1,2,5,6)] assms(7) lease_of_unique [OF assms(3,4)] by simp

definition example_queue_db :: db where
  "example_queue_db = empty_db\<lparr>monitors := [example_monitor ''a'', example_monitor ''b'']\<rparr>"

lemma monitor_claimed_once_witness:
  "fst (claim_ids (example_ctx 0) True (\<lambda>_. {}) 1 5000 example_queue_db) = [''a''] \<and>
   list_all (\<lambda>ls. ''a'' \<notin> set ls) (fst (claims (claim_ids (example_ctx 0) True (\<lambda>_. {}) 1) [5000, 20000]
      (snd (claim_ids (example_ctx 0) True (\<lambda>_. {}) 1 5000 example_queue_db))))"
proof
  let ?cx = "example_ctx 0" and ?d1 = "snd (claim_ids (example_ctx 0) True (\<lambda>_. {}) 1 5000 example_queue_db)"
  show first: "fst (claim_ids ?cx True (\<lambda>_. {}) 1 5000 example_queue_db) = [''a'']"
    by (simp add: claim_ids_def claimDueMonitors_def due_monitors_def due_row_def example_queue_db_def
        example_monitor_def order_asc_def lease_row_def Let_def)
  have "LEASE_SECONDS ?cx (example_monitor ''a'') = 61"
    by (simp add: LEASE_SECONDS_def monitor_lease_seconds_def ceil_div_def example_monitor_def unset_defaults)
  then have soon: "u < 5000 + LEASE_SECONDS ?cx (example_monitor ''a'') * 1000" if "u \<in> set [5000, 20000]" for u
    using that by auto
  have c1: "claim_ids ?cx True (\<lambda>_. {}) 1 5000 example_queue_db = ([''a''], ?d1)"
    using first by (simp add: prod_eq_iff)
  have queue: "distinct (map m_id (monitors example_queue_db))"
    "example_monitor ''a'' \<in> set (monitors example_queue_db)" "m_id (example_monitor ''a'') \<in> set [''a'']"
    by (simp_all add: example_queue_db_def example_monitor_def)
  have "\<forall>ls\<in>set (fst (claims (claim_ids ?cx True (\<lambda>_. {}) 1) [5000, 20000] ?d1)). m_id (example_monitor ''a'') \<notin> set ls"
    by (rule monitor_claimed_once [OF c1 surjective_pairing queue _ soon]) simp_all
  then show "list_all (\<lambda>ls. ''a'' \<notin> set ls) (fst (claims (claim_ids ?cx True (\<lambda>_. {}) 1) [5000, 20000] ?d1))"
    by (simp only: list_all_iff example_monitor_def monitor_row.simps)
qed

section \<open>Which monitors a claim takes\<close>

text \<open>
  A claim is fair: it takes only active monitors that are due and not locked by another worker,
  never more than asked for, and a due monitor it leaves although nobody else holds it was due no
  earlier than any it takes.
\<close>

theorem claim_takes_oldest:
  fixes cx locked limit d
  defines "due \<equiv> due_monitors (cx_now cx) locked limit d"
  shows "m_id ` set (fst (claimDueMonitors cx tracks locked limit d)) = m_id ` set due \<and>
    length due \<le> limit \<and>
    list_all (\<lambda>m. due_row (cx_now cx) m \<and> m_id m \<notin> locked) due \<and>
    list_all (\<lambda>m. list_all (\<lambda>q. coalesce (m_nextCheckAt m) 0 \<le> coalesce (m_nextCheckAt q) 0)
        (drop limit (order_asc (\<lambda>m. coalesce (m_nextCheckAt m) 0)
          (filter (\<lambda>m. due_row (cx_now cx) m \<and> m_id m \<notin> locked) (monitors d))))) due"
proof -
  let ?k = "\<lambda>m. coalesce (m_nextCheckAt m) 0"
  let ?all = "order_asc ?k (filter (\<lambda>m. due_row (cx_now cx) m \<and> m_id m \<notin> locked) (monitors d))"
  have "sorted (map ?k (take limit ?all @ drop limit ?all))"
    unfolding append_take_drop_id by (rule sorted_order_asc)
  then have "?k m \<le> ?k q" if "m \<in> set due" "q \<in> set (drop limit ?all)" for m q
    using that unfolding map_append sorted_append due_def due_monitors_def by auto
  moreover have "m_id ` set (fst (claimDueMonitors cx tracks locked limit d)) = m_id ` set due"
    using claim_rows(2) [of cx tracks locked limit d] unfolding due_def by (metis prod.collapse)
  moreover have "length due \<le> limit" by (simp add: due_def due_monitors_def)
  ultimately show ?thesis
    using due_monitors_due unfolding list_all_iff due_def by blast
qed

section \<open>Backoff\<close>

text \<open>
  The backoff after the checker fails doubles from the initial delay and stays between it and
  the cap: with a positive initial delay not above the cap, the nth failure in a row waits at least
  the initial delay and at most the cap, each next wait is twice the last or the cap, and the
  monitor is due again once the wait is over, so retries never stop.
\<close>

theorem backoff_doubles:
  assumes "0 < CHECK_INITIAL_BACKOFF_MS (cx_env cx)"
    and "CHECK_INITIAL_BACKOFF_MS (cx_env cx) \<le> CHECK_MAX_BACKOFF_MS (cx_env cx)" "1 \<le> n"
  shows "CHECK_INITIAL_BACKOFF_MS (cx_env cx) \<le> backoffMs cx n \<and>
    backoffMs cx n \<le> CHECK_MAX_BACKOFF_MS (cx_env cx) \<and>
    backoffMs cx (n + 1) = min (2 * backoffMs cx n) (CHECK_MAX_BACKOFF_MS (cx_env cx)) \<and>
    (m_active r \<longrightarrow> due_row (cx_now cx + backoffMs cx (retryCount m)) (failure_row cx tracks m err r))"
proof -
  let ?i = "CHECK_INITIAL_BACKOFF_MS (cx_env cx)" and ?x = "CHECK_MAX_BACKOFF_MS (cx_env cx)"
  have "1 \<le> (2::int) ^ nat (n - 1)" by simp
  with assms(1) have ge: "?i \<le> ?i * 2 ^ nat (n - 1)" by (metis mult.right_neutral mult_le_cancel_left_pos)
  have "nat (n + 1 - 1) = Suc (nat (n - 1))" using assms(3) by simp
  then have "?i * 2 ^ nat (n + 1 - 1) = 2 * (?i * 2 ^ nat (n - 1))" by simp
  with ge assms show ?thesis
    by (auto simp: backoffMs_def CHECK_BACKOFF_MULTIPLIER_def failure_row_def due_row_def Let_def)
qed

lemma backoff_doubles_witness:
  "5000 \<le> backoffMs (example_ctx 0) 7 \<and> backoffMs (example_ctx 0) 7 \<le> 300000 \<and>
   backoffMs (example_ctx 0) 8 = min (2 * backoffMs (example_ctx 0) 7) 300000"
  using backoff_doubles [of "example_ctx 0" 7] by (simp add: unset_defaults)

section \<open>Dead letter\<close>

text \<open>A checked monitor's outcome, recorded on the row as the worker claimed it.\<close>

datatype outcome = Checked | Faulted string

definition monitorOf :: "db \<Rightarrow> id \<Rightarrow> monitor_row option" where
  "monitorOf d k = first_row (filter (\<lambda>m. m_id m = k) (monitors d))"

definition record_outcome :: "ctx \<Rightarrow> bool \<Rightarrow> id \<Rightarrow> outcome \<Rightarrow> db \<Rightarrow> db" where
  "record_outcome cx tracks k oc d = (case monitorOf d k of
      None \<Rightarrow> d
    | Some m \<Rightarrow> (case oc of
        Checked \<Rightarrow> recordCheckSuccess cx m d
      | Faulted err \<Rightarrow> recordCheckFailure cx tracks m err d))"

fun run_outcomes :: "bool \<Rightarrow> id \<Rightarrow> (ctx \<times> outcome) list \<Rightarrow> db \<Rightarrow> db" where
  "run_outcomes tracks k [] d = d"
| "run_outcomes tracks k ((cx, oc) # os) d = run_outcomes tracks k os (record_outcome cx tracks k oc d)"

text \<open>The notices about a monitor's checks, and the rule that they take turns, stopped first.\<close>

definition check_notices :: "db \<Rightarrow> id \<Rightarrow> event_type list" where
  "check_notices d k = map e_type (filter (\<lambda>e. e_monitorId e = Some k \<and>
     e_type e \<in> {Notice Monitor_checks_stopped, Notice Monitor_checks_resumed}) (notificationEvents d))"

fun take_turns :: "bool \<Rightarrow> event_type list \<Rightarrow> bool" where
  "take_turns stopped [] = True"
| "take_turns stopped (t # ts) =
    (t = Notice (if stopped then Monitor_checks_resumed else Monitor_checks_stopped) \<and>
     take_turns (\<not> stopped) ts)"

lemma take_turns_snoc:
  "take_turns b (ts @ [t]) \<longleftrightarrow> take_turns b ts \<and>
    t = Notice (if b = even (length ts) then Monitor_checks_resumed else Monitor_checks_stopped)"
  by (induction b ts rule: take_turns.induct) auto

definition dead_letter_told :: "db \<Rightarrow> id \<Rightarrow> bool" where
  "dead_letter_told d k \<longleftrightarrow> take_turns False (check_notices d k) \<and>
     (\<forall>m. monitorOf d k = Some m \<longrightarrow> (m_deadLetteredAt m \<noteq> None) = odd (length (check_notices d k)))"

interpretation success_key: keyed_update m_id "success_row cx m"
  by unfold_locales (simp add: success_row_def)

interpretation failure_key: keyed_update m_id "failure_row cx tracks m err"
  by unfold_locales (simp add: failure_row_def Let_def)

lemma check_notices_enqueue:
  "check_notices (enqueueCheckState cx m ty d) k =
    check_notices d k @ (if m_id m = k \<and> (ty = Monitor_checks_stopped \<or> ty = Monitor_checks_resumed)
      then [Notice ty] else [])"
  by (simp add: check_notices_def enqueueCheckState_def)

lemma monitorOf_enqueue [simp]: "monitorOf (enqueueCheckState cx m ty d) k = monitorOf d k"
  by (simp add: monitorOf_def enqueueCheckState_def draw_def)

lemma monitorOf_id: "monitorOf d k = Some m \<Longrightarrow> m_id m = k"
  unfolding monitorOf_def by (drule first_row_filter_in) simp

lemma monitorOf_set [simp]:
  "m_id m = k \<Longrightarrow> monitorOf (d\<lparr>monitors := update_where (\<lambda>r. m_id r = k) (success_row cx m) (monitors d)\<rparr>) k =
     map_option (success_row cx m) (monitorOf d k)"
  "m_id m = k \<Longrightarrow> monitorOf (d\<lparr>monitors := update_where (\<lambda>r. m_id r = k) (failure_row cx tracks m err) (monitors d)\<rparr>) k =
     map_option (failure_row cx tracks m err) (monitorOf d k)"
  by (simp_all add: monitorOf_def success_key.the_row_updated failure_key.the_row_updated)

lemma notices_set [simp]: "check_notices (d\<lparr>monitors := ms\<rparr>) k = check_notices d k"
  by (simp add: check_notices_def)

lemma outcome_told:
  assumes "dead_letter_told d k"
  shows "dead_letter_told (record_outcome cx True k oc d) k"
proof (cases "monitorOf d k")
  case None
  with assms show ?thesis by (simp add: record_outcome_def)
next
  case (Some m)
  with monitorOf_id have id: "m_id m = k" by blast
  have told: "take_turns False (check_notices d k)"
    "(m_deadLetteredAt m \<noteq> None) = odd (length (check_notices d k))"
    using assms Some by (auto simp: dead_letter_told_def)
  show ?thesis
  proof (cases oc)
    case Checked
    with Some id told show ?thesis
      by (auto simp: record_outcome_def recordCheckSuccess_def dead_letter_told_def success_row_def
          check_notices_enqueue take_turns_snoc Let_def)
  next
    case (Faulted err)
    with Some id told show ?thesis
      by (auto simp: record_outcome_def recordCheckFailure_def dead_letter_told_def failure_row_def
          check_notices_enqueue take_turns_snoc entersDeadLetter_def Let_def)
  qed
qed

text \<open>
  C10: A customer is told once that checks stopped and once that they resumed: through any sequence
  of successful and failed checks, each at its own time, the notices of a monitor take turns,
  stopped first, and the monitor is dead-lettered exactly while the last one is the stop notice.
\<close>

theorem dead_letter_told_once:
  assumes "dead_letter_told d k"
  shows "dead_letter_told (run_outcomes True k os d) k"
  using assms by (induction os arbitrary: d) (auto simp: outcome_told)

lemma dead_letter_told_once_witness:
  "dead_letter_told (run_outcomes True ''a''
     [(example_ctx 1, Faulted ''x''), (example_ctx 2, Faulted ''x''), (example_ctx 3, Faulted ''x''),
      (example_ctx 4, Checked)] example_queue_db) ''a''"
  by (rule dead_letter_told_once)
    (simp add: dead_letter_told_def check_notices_def monitorOf_def example_queue_db_def empty_db_def
      example_monitor_def)

section \<open>Overlong schedules\<close>

text \<open>
  No active monitor waits longer than this scheduler would ever make it: after the release
  pass, with delays that are not negative, every active monitor is due within its interval or the
  backoff cap, whichever is longer, plus one lease.
\<close>

theorem no_overlong_schedule:
  assumes "\<And>m. m \<in> set (monitors d) \<Longrightarrow>
      0 \<le> max (m_intervalSeconds m) (seconds (CHECK_MAX_BACKOFF_MS (cx_env cx))) + LEASE_SECONDS cx m"
  shows "list_all (\<lambda>m. m_active m \<longrightarrow> \<not> on_some (\<lambda>t. t > cx_now cx +
      (max (m_intervalSeconds m) (seconds (CHECK_MAX_BACKOFF_MS (cx_env cx))) + LEASE_SECONDS cx m) * 1000)
      (dueAt m)) (monitors (releaseOverlongSchedules cx d))"
  unfolding list_all_iff
proof
  fix m assume "m \<in> set (monitors (releaseOverlongSchedules cx d))"
  then obtain r where r: "r \<in> set (monitors d)"
    "if m_active r \<and> on_some (\<lambda>t. t > cx_now cx + (max (m_intervalSeconds r)
        (seconds (CHECK_MAX_BACKOFF_MS (cx_env cx))) + LEASE_SECONDS cx r) * 1000) (dueAt r)
     then m = r\<lparr>m_nextCheckAt := Some (cx_now cx), m_checkBackoffUntil := None\<rparr> else m = r"
    by (auto simp: releaseOverlongSchedules_def in_update_where_iff dueAt_def)
  have "LEASE_SECONDS cx (r\<lparr>m_nextCheckAt := Some (cx_now cx), m_checkBackoffUntil := None\<rparr>) = LEASE_SECONDS cx r"
    by (simp add: LEASE_SECONDS_def)
  with r assms [OF r(1)] show "m_active m \<longrightarrow> \<not> on_some (\<lambda>t. t > cx_now cx +
      (max (m_intervalSeconds m) (seconds (CHECK_MAX_BACKOFF_MS (cx_env cx))) + LEASE_SECONDS cx m) * 1000)
      (dueAt m)"
    by (auto simp: dueAt_def split: if_splits)
qed

lemma no_overlong_schedule_witness:
  "list_all (\<lambda>m. m_active m \<longrightarrow> \<not> on_some (\<lambda>t. t > 7 +
      (max (m_intervalSeconds m) 300 + LEASE_SECONDS (example_ctx 7) m) * 1000) (dueAt m))
     (monitors (releaseOverlongSchedules (example_ctx 7) example_queue_db))"
proof -
  have bound: "seconds (CHECK_MAX_BACKOFF_MS (cx_env (example_ctx 7))) = 300"
    by (simp add: seconds_def ceil_div_def unset_defaults)
  have "0 \<le> max (m_intervalSeconds m) (seconds (CHECK_MAX_BACKOFF_MS (cx_env (example_ctx 7)))) +
      LEASE_SECONDS (example_ctx 7) m" if "m \<in> set (monitors example_queue_db)" for m
    using that by (auto simp: bound example_queue_db_def LEASE_SECONDS_def monitor_lease_seconds_def
        ceil_div_def example_monitor_def unset_defaults)
  from no_overlong_schedule [of example_queue_db, OF this] show ?thesis
    by (simp only: bound) (simp only: example_ctx_simps)
qed

end
