(* ===== verification/Http.thy ===== *)
theory Http
  imports Schema Config
begin

text \<open>
  The HTTP check, \<open>worker/monitor/http.ts\<close>.  The network is a parameter: for each hop it answers the
  request with a reply or with a failure, and it gives the times the code measures with a clock.
  Parsing a URL against a base and the origin of a URL are the platform's, and parameters too.
  What is modelled is what the code does with them: the redirect loop with its limit, the method
  and the headers a redirect may carry on, the certificate it keeps, the sums of the phase timings,
  and the verdict.
\<close>

section \<open>Results\<close>

(* src/src/worker/monitor/check.ts:23-38 CheckResult *)
record check_result =
  cr_status :: status
  cr_statusCode :: "int option"
  cr_responseTimeMs :: int
  cr_errorMessage :: "string option"
  cr_dnsMs :: "int option"
  cr_connectMs :: "int option"
  cr_tlsMs :: "int option"
  cr_firstByteMs :: "int option"
  cr_redirectCount :: "int option"
  cr_sslExpiresAt :: "time option"
  cr_sslIssuer :: "string option"
  cr_fault :: "string option"

definition down_result :: "int \<Rightarrow> string \<Rightarrow> string option \<Rightarrow> check_result" where
  "down_result ms err fault = \<lparr>cr_status = Down, cr_statusCode = None, cr_responseTimeMs = ms,
     cr_errorMessage = Some err, cr_dnsMs = None, cr_connectMs = None, cr_tlsMs = None,
     cr_firstByteMs = None, cr_redirectCount = None, cr_sslExpiresAt = None, cr_sslIssuer = None,
     cr_fault = fault\<rparr>"

section \<open>Requests\<close>

(* src/src/worker/monitor/http.ts:25-25 MAX_REDIRECTS *)
definition MAX_REDIRECTS :: nat where
  "MAX_REDIRECTS = 20"

(* src/src/worker/monitor/http.ts:26-26 REDIRECT_STATUSES *)
definition REDIRECT_STATUSES :: "int list" where
  "REDIRECT_STATUSES = [301, 302, 303, 307, 308]"

(* src/src/worker/monitor/http.ts:27-28 ORIGIN_BOUND_HEADERS *)
definition ORIGIN_BOUND_HEADERS :: "string list" where
  "ORIGIN_BOUND_HEADERS = [''authorization'', ''cookie'', ''proxy-authorization'']"

(* src/src/worker/monitor/http.ts:68-70 lowerCaseKeys *)
definition lowerCaseKeys :: "(string \<times> string) list option \<Rightarrow> string \<Rightarrow> string option" where
  "lowerCaseKeys headers = map_of (rev (map (\<lambda>(k, v). (lower k, v)) (coalesce headers [])))"

record 'u request =
  rq_url :: 'u
  rq_method :: string
  rq_body :: "string option"
  rq_headers :: "string \<Rightarrow> string option"

text \<open>
  A reply, with the times of the phases that ran before it, in milliseconds, and the certificate
  the connection showed.
\<close>

record reply =
  rp_status :: int
  rp_location :: "string option"
  rp_body :: string
  rp_dnsMs :: "int option"
  rp_connectMs :: int
  rp_tlsMs :: "int option"
  rp_firstByteMs :: int
  rp_cert :: "(time \<times> string option) option"

text \<open>A failed hop: the message for the owner, and what broke if the checker did.\<close>

record failure =
  fl_message :: string
  fl_fault :: "string option"

(* src/src/worker/monitor/http.ts:45-66 Timings *)
record timings =
  tm_dnsMs :: "int option"
  tm_connectMs :: "int option"
  tm_tlsMs :: "int option"
  tm_firstByteMs :: "int option"

definition no_timings :: timings where
  "no_timings = \<lparr>tm_dnsMs = None, tm_connectMs = None, tm_tlsMs = None, tm_firstByteMs = None\<rparr>"

(* src/src/worker/monitor/http.ts:54-56 add *)
definition add_ms :: "int option \<Rightarrow> int option \<Rightarrow> int option" where
  "add_ms acc ms = (case ms of None \<Rightarrow> acc | Some n \<Rightarrow> Some (coalesce acc 0 + n))"

definition add_hop :: "reply \<Rightarrow> timings \<Rightarrow> timings" where
  "add_hop r t = \<lparr>tm_dnsMs = add_ms (tm_dnsMs t) (rp_dnsMs r),
     tm_connectMs = add_ms (tm_connectMs t) (Some (rp_connectMs r)),
     tm_tlsMs = add_ms (tm_tlsMs t) (rp_tlsMs r),
     tm_firstByteMs = add_ms (tm_firstByteMs t) (Some (rp_firstByteMs r))\<rparr>"

text \<open>
  What the platform gives: the answer to a request on a hop, the URL a text names relative to a
  base, the origin of a URL, and the time since the start when the check ends.
\<close>

record 'u web =
  wb_send :: "nat \<Rightarrow> 'u request \<Rightarrow> failure + reply"
  wb_parse :: "string \<Rightarrow> 'u option \<Rightarrow> 'u option"
  wb_origin :: "'u \<Rightarrow> string"
  wb_elapsedMs :: int

section \<open>Following redirects\<close>

definition redirects :: "monitor_row \<Rightarrow> reply \<Rightarrow> string option" where
  "redirects m r = (if m_followRedirects m \<and> rp_status r \<in> set REDIRECT_STATUSES
     then (case rp_location r of None \<Rightarrow> None | Some l \<Rightarrow> if l = [] then None else Some l) else None)"

text \<open>The next request: a 303 that is not a HEAD, and a 301 or 302 to a POST, become a GET.\<close>

(* src/src/worker/monitor/http.ts:192-204 performHttpCheck: next request *)
definition next_request :: "'u web \<Rightarrow> reply \<Rightarrow> 'u \<Rightarrow> 'u request \<Rightarrow> 'u request" where
  "next_request w r next rq = (
     let get = (if rp_status r = 303 then rq_method rq \<noteq> ''HEAD''
                else rp_status r \<le> 302 \<and> rq_method rq = ''POST'');
       hs = (if get then (rq_headers rq)(''content-type'' := None) else rq_headers rq);
       hs' = (if wb_origin w next \<noteq> wb_origin w (rq_url rq)
              then (\<lambda>k. if k \<in> set ORIGIN_BOUND_HEADERS then None else hs k) else hs)
     in \<lparr>rq_url = next, rq_method = (if get then ''GET'' else rq_method rq),
         rq_body = (if get then None else rq_body rq), rq_headers = hs'\<rparr>)"

text \<open>
  The loop: every request that was sent, and how it ended.  The hops left count down from the
  redirect limit, so the loop is structural.
\<close>

record 'u trip =
  tr_requests :: "'u request list"
  tr_outcome :: "failure + reply"
  tr_hop :: nat
  tr_timings :: timings
  tr_cert :: "(time \<times> string option) option"

definition first_cert ::
  "nat \<Rightarrow> reply \<Rightarrow> (time \<times> string option) option \<Rightarrow> (time \<times> string option) option" where
  "first_cert hop r c = (if hop = 0 then rp_cert r else c)"

(* src/src/worker/monitor/http.ts:174-206 performHttpCheck: redirect loop *)
fun follow ::
  "'u web \<Rightarrow> monitor_row \<Rightarrow> nat \<Rightarrow> nat \<Rightarrow> 'u request \<Rightarrow> timings \<Rightarrow> (time \<times> string option) option \<Rightarrow> 'u trip"
where
  "follow w m left hop rq t c = (case wb_send w hop rq of
      Inl f \<Rightarrow> \<lparr>tr_requests = [rq], tr_outcome = Inl f, tr_hop = hop, tr_timings = t, tr_cert = c\<rparr>
    | Inr r \<Rightarrow> (let t' = add_hop r t; c' = first_cert hop r c in
        case redirects m r of
          None \<Rightarrow> \<lparr>tr_requests = [rq], tr_outcome = Inr r, tr_hop = hop, tr_timings = t', tr_cert = c'\<rparr>
        | Some location \<Rightarrow> (case left of
            0 \<Rightarrow> \<lparr>tr_requests = [rq], tr_outcome = Inl \<lparr>fl_message = ''More than 20 redirects'', fl_fault = None\<rparr>,
                 tr_hop = hop, tr_timings = t', tr_cert = c'\<rparr>
          | Suc left' \<Rightarrow> (case wb_parse w location (Some (rq_url rq)) of
              None \<Rightarrow> \<lparr>tr_requests = [rq],
                tr_outcome = Inl \<lparr>fl_message = ''Redirect to an unsupported location'', fl_fault = None\<rparr>,
                tr_hop = hop, tr_timings = t', tr_cert = c'\<rparr>
            | Some next \<Rightarrow>
                (let rest = follow w m left' (Suc hop) (next_request w r next rq) t' c' in
                 rest\<lparr>tr_requests := rq # tr_requests rest\<rparr>)))))"

declare follow.simps [simp del]

section \<open>The check\<close>

definition contains :: "string \<Rightarrow> string \<Rightarrow> bool" where
  "contains s t \<longleftrightarrow> (\<exists>i\<in>set [0..<Suc (length s)]. take (length t) (drop i s) = t)"

(* src/src/lib/constants/monitor.ts:29-30 BODY_READ_MAX_BYTES *)
definition BODY_READ_MAX_BYTES :: nat where
  "BODY_READ_MAX_BYTES = 1024 * 1024"

(* src/src/worker/monitor/http.ts:163-171 performHttpCheck: first request *)
definition first_request :: "monitor_row \<Rightarrow> 'u \<Rightarrow> 'u request" where
  "first_request m u = (
     let method = (case m_method m of None \<Rightarrow> ''GET'' | Some s \<Rightarrow> if s = [] then ''GET'' else s) in
     \<lparr>rq_url = u, rq_method = method,
      rq_body = (if method \<noteq> ''GET'' \<and> method \<noteq> ''HEAD'' then m_body m else None),
      rq_headers = ([''user-agent'' \<mapsto> ''Uppity/1.0 (Uptime Monitor)''] ++ lowerCaseKeys (m_headers m))
        (''connection'' \<mapsto> ''close'')\<rparr>)"

definition with_timings :: "timings \<Rightarrow> nat \<Rightarrow> check_result \<Rightarrow> check_result" where
  "with_timings t hop r = r\<lparr>cr_dnsMs := tm_dnsMs t, cr_connectMs := tm_connectMs t,
     cr_tlsMs := tm_tlsMs t, cr_firstByteMs := tm_firstByteMs t, cr_redirectCount := Some (int hop)\<rparr>"

text \<open>An empty expected text counts as none.\<close>

(* src/src/worker/monitor/http.ts:208-238 performHttpCheck: verdict *)
definition judge_reply :: "env \<Rightarrow> monitor_row \<Rightarrow> int \<Rightarrow> reply \<Rightarrow> 'u trip \<Rightarrow> check_result" where
  "judge_reply env m responseTimeMs r tr = (
     let expectedCodes = coalesce (m_expectedStatusCodes m) [200];
       statusOk = (rp_status r \<in> set expectedCodes);
       bodyOk = (case m_expectedBodyContains m of
           None \<Rightarrow> True
         | Some s \<Rightarrow> s = [] \<or> \<not> statusOk \<or> contains (take BODY_READ_MAX_BYTES (rp_body r)) s);
       st = (if \<not> statusOk \<or> \<not> bodyOk then Down
             else if responseTimeMs > DEGRADED_RESPONSE_TIME_MS env then Degraded else Up);
       err = (if \<not> statusOk then Some (''Unexpected status code: '' @ show_int (rp_status r))
              else if \<not> bodyOk then Some ''Expected body content not found'' else None)
     in with_timings (tr_timings tr) (tr_hop tr) ((down_result responseTimeMs [] None)\<lparr>
          cr_status := st, cr_statusCode := Some (rp_status r), cr_errorMessage := err,
          cr_sslExpiresAt := (if m_sslCheckEnabled m then map_option fst (tr_cert tr) else None),
          cr_sslIssuer := (if m_sslCheckEnabled m
            then (case tr_cert tr of None \<Rightarrow> None | Some (_, issuer) \<Rightarrow> issuer) else None)\<rparr>))"

(* src/src/worker/monitor/http.ts:113-247 performHttpCheck *)
definition performHttpCheck :: "env \<Rightarrow> 'u web \<Rightarrow> monitor_row \<Rightarrow> check_result" where
  "performHttpCheck env w m = (case m_url m of
      None \<Rightarrow> down_result 0 ''No URL configured'' None
    | Some raw \<Rightarrow> if raw = [] then down_result 0 ''No URL configured'' None
      else (case wb_parse w raw None of
          None \<Rightarrow> down_result 0 ''URL is not valid'' None
        | Some target \<Rightarrow>
            (let tr = follow w m MAX_REDIRECTS 0 (first_request m target) no_timings None in
             case tr_outcome tr of
               Inr r \<Rightarrow> judge_reply env m (wb_elapsedMs w) r tr
             | Inl f \<Rightarrow> with_timings (tr_timings tr) (tr_hop tr)
                 (down_result (wb_elapsedMs w) (fl_message f) (fl_fault f)))))"

section \<open>The loop\<close>

lemma follow_hops:
  "tr_hop (follow w m left hop rq t c) + 1 = hop + length (tr_requests (follow w m left hop rq t c)) \<and>
   length (tr_requests (follow w m left hop rq t c)) \<le> Suc left"
proof (induction left arbitrary: hop rq t c)
  case 0
  show ?case by (subst (1 2 3) follow.simps) (auto split: sum.split option.split simp: Let_def)
next
  case (Suc left)
  show ?case
    by (subst (1 2 3) follow.simps)
      (use Suc.IH in \<open>auto split: sum.split option.split simp: Let_def\<close>)
qed

lemma follow_head: "\<exists>rs. tr_requests (follow w m left hop rq t c) = rq # rs"
  by (subst follow.simps) (auto split: sum.split option.split nat.split simp: Let_def)

text \<open>A header a request carries was on the request before it, or is its own.\<close>

lemma next_request_headers:
  "rq_headers (next_request w r next rq) k = Some v \<Longrightarrow> rq_headers rq k = Some v"
  by (auto simp: next_request_def Let_def split: if_splits)

lemma next_request_origin:
  "rq_headers (next_request w r next rq) k \<noteq> None \<Longrightarrow> k \<in> set ORIGIN_BOUND_HEADERS \<Longrightarrow>
   wb_origin w (rq_url (next_request w r next rq)) = wb_origin w (rq_url rq)"
  by (auto simp: next_request_def Let_def split: if_splits)

lemma follow_credentials:
  assumes "k \<in> set ORIGIN_BOUND_HEADERS" "q \<in> set (tr_requests (follow w m left hop rq t c))"
    and "rq_headers q k \<noteq> None"
  shows "wb_origin w (rq_url q) = wb_origin w (rq_url rq) \<and> rq_headers q k = rq_headers rq k"
  using assms(2)
proof (induction left arbitrary: hop rq t c)
  case 0
  then have "q = rq"
    by (subst (asm) follow.simps) (auto split: sum.splits option.splits simp: Let_def)
  then show ?case by simp
next
  case (Suc left)
  show ?case
  proof (cases "q = rq")
    case False
    with Suc.prems obtain r u hop' t' c' where
      "q \<in> set (tr_requests (follow w m left hop' (next_request w r u rq) t' c'))"
      by (subst (asm) follow.simps) (auto split: sum.splits option.splits simp: Let_def)
    from Suc.IH [OF this] assms(1,3)
    have "wb_origin w (rq_url q) = wb_origin w (rq_url (next_request w r u rq))"
      "rq_headers q k = rq_headers (next_request w r u rq) k" by auto
    moreover from this assms(3) have "rq_headers (next_request w r u rq) k \<noteq> None" by simp
    ultimately show ?thesis
      using next_request_origin [OF _ assms(1)] next_request_headers by (metis not_None_eq)
  qed simp
qed

text \<open>
  C11: A check never leaks credentials through a redirect: whatever the servers answer, every request
  of the check that carries an authorization, cookie or proxy-authorization header goes to the
  origin of the monitor's own URL, with the value the monitor set.
\<close>

theorem credentials_stay_home:
  assumes "q \<in> set (tr_requests (follow w m MAX_REDIRECTS 0 (first_request m target) no_timings None))"
    and "k \<in> set ORIGIN_BOUND_HEADERS" "rq_headers q k \<noteq> None"
  shows "wb_origin w (rq_url q) = wb_origin w target \<and> rq_headers q k = lowerCaseKeys (m_headers m) k"
proof -
  have "rq_headers (first_request m target) k = lowerCaseKeys (m_headers m) k"
    using assms(2) by (auto simp: first_request_def ORIGIN_BOUND_HEADERS_def Let_def map_add_def split: option.split)
  then show ?thesis
    using follow_credentials [OF assms(2,1,3)] by (simp add: first_request_def Let_def)
qed

definition example_web :: "string web" where
  "example_web = \<lparr>
     wb_send = (\<lambda>hop rq. Inr \<lparr>rp_status = (if hop = 0 then 302 else 200), rp_location = Some ''b'',
       rp_body = ''ok'', rp_dnsMs = None, rp_connectMs = 1, rp_tlsMs = None, rp_firstByteMs = 2,
       rp_cert = None\<rparr>),
     wb_parse = (\<lambda>s base. Some s), wb_origin = (\<lambda>u. u), wb_elapsedMs = 12\<rparr>"

definition example_secret_monitor :: monitor_row where
  "example_secret_monitor = (example_monitor ''m'')\<lparr>m_headers := Some [(''Authorization'', ''s'')]\<rparr>"

lemma credentials_stay_home_witness:
  "rq_headers (first_request example_secret_monitor ''a'') ''authorization'' = Some ''s'' \<and>
   wb_origin example_web (rq_url (first_request example_secret_monitor ''a'')) = ''a''"
proof -
  have own: "lowerCaseKeys (m_headers example_secret_monitor) ''authorization'' = Some ''s''"
    by code_simp
  have "first_request example_secret_monitor ''a'' \<in> set (tr_requests (follow example_web
      example_secret_monitor MAX_REDIRECTS 0 (first_request example_secret_monitor ''a'') no_timings None))"
    using follow_head [of example_web example_secret_monitor MAX_REDIRECTS 0
        "first_request example_secret_monitor ''a''" no_timings None] by auto
  from credentials_stay_home [OF this, of "''authorization''"] own show ?thesis
    by (simp add: ORIGIN_BOUND_HEADERS_def example_web_def first_request_def map_add_def Let_def)
qed

text \<open>
  A check sends at most 21 requests, one for the URL and one for each of 20 redirects, and the
  redirect count it reports is the number of requests after the first.
\<close>

theorem redirects_bounded:
  fixes w m target
  defines "tr \<equiv> follow w m MAX_REDIRECTS 0 (first_request m target) no_timings None"
  shows "length (tr_requests tr) \<le> 21 \<and> tr_hop tr + 1 = length (tr_requests tr)"
  using follow_hops [of w m MAX_REDIRECTS 0 "first_request m target" no_timings None]
  by (simp add: tr_def MAX_REDIRECTS_def)

text \<open>
  The verdict of a check that got an answer: up or degraded exactly when the status code is
  expected and the wanted text, if any, is in the first mebibyte of the body; degraded exactly when
  such an answer took longer than the degraded threshold; and an error message exactly when down.
\<close>

theorem verdict_of_reply:
  fixes env m ms r tr
  defines "res \<equiv> judge_reply env m ms r tr"
  shows "(cr_status res \<noteq> Down) =
      (rp_status r \<in> set (coalesce (m_expectedStatusCodes m) [200]) \<and>
       (m_expectedBodyContains m \<in> {None, Some []} \<or>
        contains (take BODY_READ_MAX_BYTES (rp_body r)) (coalesce (m_expectedBodyContains m) []))) \<and>
    (cr_status res = Degraded) = (cr_status res \<noteq> Down \<and> ms > DEGRADED_RESPONSE_TIME_MS env) \<and>
    (cr_errorMessage res \<noteq> None) = (cr_status res = Down) \<and> cr_status res \<noteq> Unknown"
  by (auto simp: res_def judge_reply_def with_timings_def down_result_def Let_def split: option.split)

end
