(* ===== verification/Probe.thy ===== *)
theory Probe
  imports Http Scheduler
begin

text \<open>
  Running a check, \<open>worker/monitor/check.ts\<close>, and the heartbeat endpoint of a push monitor,
  \<open>routes/api/webhooks/push/[token]/+server.ts\<close>.  The network answers of each attempt are a
  parameter.  A check takes time, so it has a context for its start and one for its end.
\<close>

section \<open>Probes\<close>

text \<open>What a TCP dial gives: whether the connection opened, the message if not, and the time it took.\<close>

record dial_result =
  dl_error :: "string option"
  dl_fault :: "string option"
  dl_ms :: int

text \<open>The network as one check sees it: for each attempt, the answers to HTTP requests and dials.\<close>

record 'u network =
  nw_web :: "nat \<Rightarrow> 'u web"
  nw_dial :: "nat \<Rightarrow> string \<Rightarrow> int \<Rightarrow> int \<Rightarrow> dial_result"

definition checkTimeout :: "env \<Rightarrow> monitor_row \<Rightarrow> int" where
  "checkTimeout env m = min (number_or (Some (m_timeoutSeconds m)) (DEFAULT_TIMEOUT_SECONDS env)) MAX_TIMEOUT_SECONDS"

(* src/src/worker/monitor/check.ts:40-58 performTcpCheck *)
definition performTcpCheck :: "env \<Rightarrow> (string \<Rightarrow> int \<Rightarrow> int \<Rightarrow> dial_result) \<Rightarrow> monitor_row \<Rightarrow> check_result" where
  "performTcpCheck env dial m = (case (m_hostname m, m_port m) of
      (Some host, Some port) \<Rightarrow>
        if host = [] \<or> port = 0 then down_result 0 ''No hostname or port configured'' None
        else let r = dial host port (checkTimeout env m * 1000) in
          (case dl_error r of
             Some err \<Rightarrow> down_result (dl_ms r) err (dl_fault r)
           | None \<Rightarrow> (down_result (dl_ms r) [] None)\<lparr>cr_errorMessage := None, cr_status :=
               (if dl_ms r > DEGRADED_RESPONSE_TIME_MS env then Degraded else Up)\<rparr>)
    | _ \<Rightarrow> down_result 0 ''No hostname or port configured'' None)"

(* src/src/worker/monitor/check.ts:100-109 performProbe *)
definition performProbe :: "env \<Rightarrow> 'u network \<Rightarrow> monitor_row \<Rightarrow> nat \<Rightarrow> check_result" where
  "performProbe env nw m attempt = (case m_type m of
      HttpMonitor \<Rightarrow> performHttpCheck env (nw_web nw attempt) m
    | TcpMonitor \<Rightarrow> performTcpCheck env (nw_dial nw attempt) m
    | _ \<Rightarrow> down_result 0 ''Unknown monitor type'' None)"

text \<open>The retries left count down; the attempts made so far number the answers.\<close>

fun retry_probe :: "(nat \<Rightarrow> check_result) \<Rightarrow> nat \<Rightarrow> nat \<Rightarrow> check_result \<Rightarrow> check_result \<times> nat" where
  "retry_probe probe n 0 r = (r, n)"
| "retry_probe probe n (Suc left) r =
    (if cr_status r = Down then retry_probe probe (Suc n) left (probe n) else (r, n))"

text \<open>The result of the last attempt, and how many attempts there were.\<close>

(* src/src/worker/monitor/check.ts:111-121 performProbeWithRetries *)
definition performProbeWithRetries :: "env \<Rightarrow> 'u network \<Rightarrow> monitor_row \<Rightarrow> check_result \<times> nat" where
  "performProbeWithRetries env nw m = (
     let retries = min (m_retries m) MAX_RETRIES; probe = performProbe env nw m in
     retry_probe probe 1 (nat retries) (probe 0))"

section \<open>Heartbeats\<close>

definition newestUp :: "db \<Rightarrow> id \<Rightarrow> monitorCheck_row option" where
  "newestUp d mid = first_row (order_desc c_checkedAt
     (filter (\<lambda>c. c_monitorId c = mid \<and> c_status c = Up) (monitorChecks d)))"

definition allowedMs :: "env \<Rightarrow> monitor_row \<Rightarrow> int" where
  "allowedMs env m = (number_or (Some (m_intervalSeconds m)) (DEFAULT_INTERVAL_SECONDS env) +
     number_or (m_pushGracePeriodSeconds m) (DEFAULT_PUSH_GRACE_PERIOD_SECONDS env)) * 1000"

(* src/src/worker/monitor/check.ts:72-98 findMissedHeartbeat *)
definition findMissedHeartbeat :: "ctx \<Rightarrow> monitor_row \<Rightarrow> db \<Rightarrow> check_result option" where
  "findMissedHeartbeat cx m d = (case newestUp d (m_id m) of
      None \<Rightarrow> if cx_now cx - m_createdAt m < allowedMs (cx_env cx) m then None
              else Some (down_result 0 ''No heartbeat received'' None)
    | Some c \<Rightarrow> let lastPingAge = cx_now cx - c_checkedAt c in
        if lastPingAge \<le> allowedMs (cx_env cx) m then None
        else Some (down_result 0
          (''No heartbeat for '' @ show_int (lastPingAge div 60000) @ '' minutes'') None))"

(* src/src/worker/monitor/check.ts:123-132 insertResult *)
definition insertResult :: "ctx \<Rightarrow> id \<Rightarrow> check_result \<Rightarrow> time \<Rightarrow> db \<Rightarrow> db" where
  "insertResult cx monitorId r checkedAt d = (draw d)\<lparr>monitorChecks := monitorChecks d @
     [\<lparr>c_id = cx_nanoid cx (drawn d), c_monitorId = monitorId, c_status = cr_status r,
       c_statusCode = cr_statusCode r, c_responseTimeMs = Some (cr_responseTimeMs r),
       c_errorMessage = cr_errorMessage r, c_dnsMs = cr_dnsMs r, c_connectMs = cr_connectMs r,
       c_tlsMs = cr_tlsMs r, c_firstByteMs = cr_firstByteMs r, c_redirectCount = cr_redirectCount r,
       c_sslExpiresAt = cr_sslExpiresAt r, c_sslIssuer = cr_sslIssuer r, c_checkedAt = checkedAt,
       c_region = Some ''default'', c_processedAt = None\<rparr>]\<rparr>"

text \<open>The check time is the start's, stamped before the lookup; the lookup reads the later clock.\<close>

(* src/src/worker/monitor/check.ts:60-70 recordPushCheck *)
definition recordPushCheck :: "ctx \<Rightarrow> ctx \<Rightarrow> monitor_row \<Rightarrow> db \<Rightarrow> check_result option \<times> db" where
  "recordPushCheck cx0 cx m d = (let result = findMissedHeartbeat cx m d in
     (result, case result of None \<Rightarrow> d | Some r \<Rightarrow> insertResult cx (m_id m) r (cx_now cx0) d))"

section \<open>A whole check\<close>

text \<open>
  The database afterwards, and whether the processing returned: when it throws, the inserted row
  stays and the worker records a failure.
\<close>

(* src/src/worker/monitor/check.ts:134-158 executeCheck *)
definition executeCheck ::
  "ctx \<Rightarrow> ctx \<Rightarrow> 'u network \<Rightarrow> monitor_row \<Rightarrow> db \<Rightarrow> db \<times> bool" where
  "executeCheck cx0 cx nw m d = (
     let d1 = (if m_type m = PushMonitor then snd (recordPushCheck cx0 cx m d)
               else insertResult cx (m_id m) (fst (performProbeWithRetries (cx_env cx) nw m)) (cx_now cx) d)
     in case processResults cx (m_id m) d1 of
          None \<Rightarrow> (d1, False)
        | Some (n, d2) \<Rightarrow> (d2, True))"

(* src/src/worker/monitor/check.ts:160-178 runCheck *)
definition runCheck ::
  "ctx \<Rightarrow> ctx \<Rightarrow> bool \<Rightarrow> 'u network \<Rightarrow> monitor_row \<Rightarrow> db \<Rightarrow> db" where
  "runCheck cx0 cx tracks nw m d = (case executeCheck cx0 cx nw m d of
      (d1, ok) \<Rightarrow> if ok then recordCheckSuccess cx m d1
                  else recordCheckFailure cx tracks m ''processing failed'' d1)"

section \<open>The push endpoint\<close>

datatype push_error = InvalidPushToken | NotPushType | NotActive

(* src/src/routes/api/webhooks/push/[token]/+server.ts:10-46 GET *)
definition recordHeartbeat :: "ctx \<Rightarrow> string \<Rightarrow> db \<Rightarrow> push_error + db" where
  "recordHeartbeat cx token d = (
     case first_row (filter (\<lambda>m. m_pushToken m = Some token) (monitors d)) of
       None \<Rightarrow> Inl InvalidPushToken
     | Some m \<Rightarrow>
         if m_type m \<noteq> PushMonitor then Inl NotPushType
         else if \<not> m_active m then Inl NotActive
         else Inr (insertResult cx (m_id m) ((down_result 0 [] None)\<lparr>cr_status := Up,
                cr_errorMessage := None\<rparr>) (cx_now cx) d))"

section \<open>Attempts and the lease\<close>

lemma retry_probe_attempts:
  "n \<le> snd (retry_probe probe n left r) \<and> snd (retry_probe probe n left r) \<le> n + left"
proof (induction left arbitrary: n r)
  case (Suc left)
  then show ?case by (auto dest: Suc_leD) (use Suc in \<open>fastforce dest: Suc_leD\<close>)+
qed simp

text \<open>
  A check outlasts no lease: it makes at most retries plus one attempts, and the time they can
  take, every attempt running to its timeout with the retry pause after each but the last, leaves
  at least thirty seconds of the lease of the monitor's claim, so a running check is never claimed
  by a second worker.  The bounds on timeout and retries are the table's constraints.
\<close>

theorem check_within_lease:
  fixes cx nw m
  defines "attempts \<equiv> int (snd (performProbeWithRetries (cx_env cx) nw m))"
  assumes "1 \<le> m_timeoutSeconds m" "m_timeoutSeconds m \<le> 60" "0 \<le> m_retries m" "m_retries m \<le> 10"
    and "0 \<le> RETRY_DELAY_MS (cx_env cx)"
  shows "1 \<le> attempts \<and> attempts \<le> m_retries m + 1 \<and>
    attempts * (checkTimeout (cx_env cx) m * 1000) + (attempts - 1) * RETRY_DELAY_MS (cx_env cx) + 30000
      \<le> LEASE_SECONDS cx m * 1000"
proof -
  let ?d = "RETRY_DELAY_MS (cx_env cx)"
  have r: "int (1 + nat (m_retries m)) = m_retries m + 1" using assms(4) by simp
  have a: "attempts = int (snd (retry_probe (performProbe (cx_env cx) nw m) 1 (nat (m_retries m))
      (performProbe (cx_env cx) nw m 0)))"
    using assms(5) by (simp add: attempts_def performProbeWithRetries_def MAX_RETRIES_def Let_def min_def)
  note k = retry_probe_attempts [of 1 "performProbe (cx_env cx) nw m" "nat (m_retries m)"
      "performProbe (cx_env cx) nw m 0"]
  have n1: "1 \<le> attempts" unfolding a using k by linarith
  have n2: "attempts \<le> m_retries m + 1" unfolding a r [symmetric] using k by (intro of_nat_mono) simp
  note n = n1 n2
  have t: "checkTimeout (cx_env cx) m = m_timeoutSeconds m"
    using assms(2,3) by (simp add: checkTimeout_def MAX_TIMEOUT_SECONDS_def)
  have "?d \<le> ceil_div ?d 1000 * 1000"
    by (simp add: ceil_div_def minus_div_mult_eq_mod [symmetric])
  then have "(m_timeoutSeconds m * 1000 + ?d) \<le> (m_timeoutSeconds m + ceil_div ?d 1000) * 1000" by simp
  then have "(m_retries m + 1) * (m_timeoutSeconds m * 1000 + ?d) \<le>
      (m_retries m + 1) * ((m_timeoutSeconds m + ceil_div ?d 1000) * 1000)"
    using assms(4) by (intro mult_left_mono) simp_all
  moreover have "attempts * (m_timeoutSeconds m * 1000 + ?d) \<le> (m_retries m + 1) * (m_timeoutSeconds m * 1000 + ?d)"
    using n assms(2,6) by (intro mult_right_mono) simp_all
  ultimately have "attempts * (m_timeoutSeconds m * 1000 + ?d) + 30000 \<le> LEASE_SECONDS cx m * 1000"
    by (simp add: LEASE_SECONDS_def monitor_lease_seconds_def algebra_simps)
  moreover have "attempts * (m_timeoutSeconds m * 1000) + (attempts - 1) * ?d \<le> attempts * (m_timeoutSeconds m * 1000 + ?d)"
    using assms(6) by (simp add: algebra_simps)
  ultimately show ?thesis using n t by simp
qed

lemma check_within_lease_witness:
  "int (snd (performProbeWithRetries (\<lambda>_. None) \<lparr>nw_web = (\<lambda>_. example_web),
      nw_dial = (\<lambda>_ _ _ _. \<lparr>dl_error = None, dl_fault = None, dl_ms = 3\<rparr>)\<rparr> (example_monitor ''m''))) \<le> 1"
  using check_within_lease [of "example_monitor ''m''" "example_ctx 0" "\<lparr>nw_web = (\<lambda>_. example_web),
      nw_dial = (\<lambda>_ _ _ _. \<lparr>dl_error = None, dl_fault = None, dl_ms = 3\<rparr>)\<rparr>"]
  by (simp add: example_monitor_def unset_defaults)

lemma retry_probe_down:
  "retry_probe p (Suc i) left (p i) =
    (let j = i + length (takeWhile (\<lambda>n. cr_status (p n) = Down) [i..<i + left]) in (p j, Suc j))"
proof (induction left arbitrary: i)
  case (Suc left)
  have "[i..<i + Suc left] = i # [Suc i..<Suc i + left]" by (simp add: upt_conv_Cons)
  with Suc.IH [of "Suc i"] show ?case by (simp add: Let_def del: upt_Suc)
qed simp

text \<open>
  A failed attempt is retried before the target counts as down: a check makes one attempt more
  than the run of down attempts it starts with, up to the retries the monitor allows, and records
  the result of the last one.  So down is recorded only when every attempt allowed was down.
\<close>

theorem down_only_after_retries:
  "performProbeWithRetries env nw m =
    (let downs = length (takeWhile (\<lambda>n. cr_status (performProbe env nw m n) = Down)
           [0..<nat (min (m_retries m) MAX_RETRIES)])
     in (performProbe env nw m downs, Suc downs))"
  using retry_probe_down [of "performProbe env nw m" 0]
  by (simp only: performProbeWithRetries_def Let_def One_nat_def add_0)

section \<open>Missed heartbeats\<close>

text \<open>
  A push monitor is down exactly when its heartbeat is overdue: with a heartbeat on record, the
  lookup reports a missed one exactly when every heartbeat is older than the interval plus the
  grace period; with none, exactly when the monitor itself is at least that old.
\<close>

theorem heartbeat_missed_iff:
  "findMissedHeartbeat cx m d \<noteq> None \<longleftrightarrow>
    (let ups = filter (\<lambda>c. c_monitorId c = m_id m \<and> c_status c = Up) (monitorChecks d) in
     if ups = [] then cx_now cx - m_createdAt m \<ge> allowedMs (cx_env cx) m
     else list_all (\<lambda>c. cx_now cx - c_checkedAt c > allowedMs (cx_env cx) m) ups)"
proof (cases "newestUp d (m_id m)")
  case None
  then show ?thesis by (auto simp: findMissedHeartbeat_def newestUp_def Let_def)
next
  case (Some c)
  let ?ups = "filter (\<lambda>c. c_monitorId c = m_id m \<and> c_status c = Up) (monitorChecks d)"
  have c: "c \<in> set ?ups" "\<And>q. q \<in> set ?ups \<Longrightarrow> c_checkedAt q \<le> c_checkedAt c"
    using first_order_desc [OF Some [unfolded newestUp_def]] by blast+
  then have "?ups \<noteq> []" by (metis empty_iff empty_set)
  moreover have "list_all (\<lambda>q. cx_now cx - c_checkedAt q > allowedMs (cx_env cx) m) ?ups \<longleftrightarrow>
      cx_now cx - c_checkedAt c > allowedMs (cx_env cx) m"
    unfolding list_all_iff using c by (meson diff_left_mono less_le_trans)
  ultimately show ?thesis using Some by (simp add: findMissedHeartbeat_def Let_def not_le)
qed

end
