(* ===== verification/Mail.thy ===== *)
theory Mail
  imports Config Schema
begin

text \<open>
  Mail that can fail or be refused: how a failed send is classified,
  \<open>lib/server/notifications/email.ts\<close>, and the guard over mail to addresses that never agreed to
  it, \<open>lib/server/services/mail-reputation.service.ts\<close>.

  The guard's transaction lock is not modelled: an operation here is one committed transaction, and
  the lock makes those of one organization run one after another.
\<close>

section \<open>Failed sends\<close>

text \<open>
  The fields of a nodemailer error the code reads.  A response code that is \<open>false\<close> or missing is
  None; zero counts as missing, as it does there.
\<close>

(* src/src/lib/server/notifications/email.ts:57-61 MailError *)
record mail_error =
  mf_code :: "string option"
  mf_command :: "string option"
  mf_responseCode :: "int option"
  mf_message :: string

(* src/src/lib/server/notifications/email.ts:63-64 UNSENDABLE *)
definition UNSENDABLE :: "string list" where
  "UNSENDABLE = [''EENVELOPE'', ''EMESSAGE'', ''ESTREAM'']"

definition replied :: "mail_error \<Rightarrow> bool" where
  "replied e \<longleftrightarrow> on_some (\<lambda>n. n \<noteq> 0) (mf_responseCode e)"

(* src/src/lib/server/notifications/email.ts:66-76 isMailServerDown *)
definition isMailServerDown :: "mail_error \<Rightarrow> bool" where
  "isMailServerDown e = (case mf_code e of
      None \<Rightarrow> False
    | Some code \<Rightarrow>
        if replied e then mf_command e \<noteq> Some ''RCPT TO'' \<and> mf_command e \<noteq> Some ''DATA''
        else code \<notin> set UNSENDABLE)"

(* src/src/lib/server/notifications/email.ts:78-81 isTransientMailFailure *)
definition isTransientMailFailure :: "mail_error \<Rightarrow> bool" where
  "isTransientMailFailure e \<longleftrightarrow> isMailServerDown e \<or>
     (if replied e then on_some (\<lambda>n. n < 500) (mf_responseCode e) else False)"

text \<open>
  The pattern \<open>\S+@\S+\<close> is greedy, so it takes a whole run of other than white space, and it
  matches in the run exactly when an at sign stands in it neither first nor last.
\<close>

definition quotes_address :: "string \<Rightarrow> bool" where
  "quotes_address w \<longleftrightarrow> CHR ''@'' \<in> set (butlast (tl w))"

definition hide_address :: "string \<Rightarrow> string" where
  "hide_address w = (if quotes_address w then ''<address>'' else w)"

(* src/src/lib/server/notifications/email.ts:83-85 mailFailureText *)
definition mailFailureText :: "mail_error \<Rightarrow> string" where
  "mailFailureText e = rewrite_words hide_address [] (mf_message e)"

section \<open>The guard\<close>

definition DAY_MS :: int where
  "DAY_MS = 24 * 60 * 60000"

(* src/src/lib/server/services/mail-reputation.service.ts:20-24 ATTRIBUTION_WINDOW_MS *)
definition ATTRIBUTION_WINDOW_MS :: int where
  "ATTRIBUTION_WINDOW_MS = 5 * 60000"

(* src/src/lib/server/services/mail-reputation.service.ts:26-26 MailRefusal *)
datatype mail_refusal = Suppressed | Blocked | Ceiling

definition raise_alert :: "ops_alert \<Rightarrow> db \<Rightarrow> db" where
  "raise_alert a d = d\<lparr>opsAlertsRaised := opsAlertsRaised d @ [a]\<rparr>"

(* src/src/lib/server/services/mail-reputation.service.ts:58-64 isBlocked *)
definition isBlocked :: "id \<Rightarrow> db \<Rightarrow> bool" where
  "isBlocked org d \<longleftrightarrow> filter (\<lambda>b. mb_organizationId b = org) (organizationMailBlocks d) \<noteq> []"

(* src/src/lib/server/services/mail-reputation.service.ts:66-72 isSuppressed *)
definition isSuppressed :: "string \<Rightarrow> db \<Rightarrow> bool" where
  "isSuppressed email d \<longleftrightarrow> filter (\<lambda>s. es_email s = email) (emailSuppressions d) \<noteq> []"

definition recent_sends :: "time \<Rightarrow> db \<Rightarrow> unsolicitedMailSend_row list" where
  "recent_sends t d = filter (\<lambda>s. um_sentAt s > t - DAY_MS) (unsolicitedMailSends d)"

definition visitor_sends :: "time \<Rightarrow> db \<Rightarrow> unsolicitedMailSend_row list" where
  "visitor_sends t d = filter (\<lambda>s. um_organizationId s = None) (recent_sends t d)"

(* src/src/lib/server/services/mail-reputation.service.ts:87-92 alert *)
definition ceiling_alert :: "int \<Rightarrow> int \<Rightarrow> int \<Rightarrow> ops_alert" where
  "ceiling_alert limit sent fromVisitors = \<lparr>al_type = Unsolicited_mail_ceiling, al_subject = ''instance'',
     al_title = ''Unsolicited mail ceiling reached'',
     al_body = show_int sent @ '' emails to new addresses went out in the past 24 hours, '' @
       show_int fromVisitors @ '' of them typed into public status pages, which may use half of the ceiling of '' @
       show_int limit @ ''. Sends are refused until the count drops.''\<rparr>"

(* src/src/lib/server/services/mail-reputation.service.ts:74-94 overCeiling *)
definition overCeiling :: "ctx \<Rightarrow> int \<Rightarrow> bool \<Rightarrow> db \<Rightarrow> bool \<times> db" where
  "overCeiling cx limit visitor d = (
     if limit \<le> 0 then (False, d)
     else let sent = int (length (recent_sends (cx_now cx) d));
              fromVisitors = int (length (visitor_sends (cx_now cx) d)) in
       if sent < limit \<and> \<not> (visitor \<and> fromVisitors * 2 \<ge> limit) then (False, d)
       else (True, raise_alert (ceiling_alert limit sent fromVisitors) d))"

(* src/src/lib/server/services/mail-reputation.service.ts:35-51 refusal *)
definition refusal :: "ctx \<Rightarrow> int \<Rightarrow> bool \<Rightarrow> id \<Rightarrow> string \<Rightarrow> db \<Rightarrow> mail_refusal option \<times> db" where
  "refusal cx limit visitor org email d = (
     if isBlocked org d then (Some Blocked, d)
     else let (over, d1) = overCeiling cx limit visitor d in
       if over then (Some Ceiling, d1)
       else (if isSuppressed email d1 then Some Suppressed else None, d1))"

(* src/src/lib/server/services/mail-reputation.service.ts:53-56 stopped *)
definition stopped :: "id \<Rightarrow> string \<Rightarrow> db \<Rightarrow> bool" where
  "stopped org email d \<longleftrightarrow> isBlocked org d \<or> isSuppressed email d"

(* src/src/lib/server/services/mail-reputation.service.ts:96-101 record *)
definition recordSend :: "ctx \<Rightarrow> id \<Rightarrow> id option \<Rightarrow> string \<Rightarrow> db \<Rightarrow> db" where
  "recordSend cx sid org email d = d\<lparr>unsolicitedMailSends := unsolicitedMailSends d @
     [\<lparr>um_id = sid, um_organizationId = org, um_email = email, um_sentAt = cx_now cx\<rparr>]\<rparr>"

(* src/src/lib/server/services/mail-reputation.service.ts:103-109 stamp *)
definition stamp :: "ctx \<Rightarrow> id \<Rightarrow> db \<Rightarrow> db" where
  "stamp cx sid d = d\<lparr>unsolicitedMailSends := update_where (\<lambda>s. um_id s = sid)
     (\<lambda>s. s\<lparr>um_sentAt := cx_now cx\<rparr>) (unsolicitedMailSends d)\<rparr>"

(* src/src/lib/server/services/mail-reputation.service.ts:111-114 release *)
definition releaseUnsent :: "id \<Rightarrow> db \<Rightarrow> db" where
  "releaseUnsent sid d = d\<lparr>unsolicitedMailSends := delete_where (\<lambda>s. um_id s = sid) (unsolicitedMailSends d)\<rparr>"

section \<open>What a provider reports\<close>

(* src/src/lib/server/resend-webhook.ts:58-63 MailFailure *)
record mail_failure =
  fl_kind :: mail_fault
  fl_recipients :: "string list"
  fl_sentAt :: "time option"

(* src/src/lib/server/services/mail-reputation.service.ts:171-190 senderOf *)
definition senderOf :: "string list \<Rightarrow> time \<Rightarrow> db \<Rightarrow> id option" where
  "senderOf recipients moment d = (case first_row (order_asc (\<lambda>s. \<bar>um_sentAt s - moment\<bar>)
       (filter (\<lambda>s. um_email s \<in> set recipients \<and> moment - ATTRIBUTION_WINDOW_MS \<le> um_sentAt s \<and>
           um_sentAt s \<le> moment + ATTRIBUTION_WINDOW_MS) (unsolicitedMailSends d))) of
      None \<Rightarrow> None
    | Some s \<Rightarrow> um_organizationId s)"

definition charged :: "id \<Rightarrow> time \<Rightarrow> mail_fault \<Rightarrow> db \<Rightarrow> int" where
  "charged org since k d = int (length (filter (\<lambda>e. me_kind e = k)
     (filter (\<lambda>e. me_organizationId e = Some org \<and> me_receivedAt e > since) (mailEvents d))))"

(* src/src/lib/server/services/mail-reputation.service.ts:192-223 crossedThreshold *)
definition crossedThreshold :: "ctx \<Rightarrow> id \<Rightarrow> mail_reputation \<Rightarrow> db \<Rightarrow> mail_fault option" where
  "crossedThreshold cx org th d = (
     let since = cx_now cx - rep_windowDays th * DAY_MS;
         bounces = charged org since Bounce d; complaints = charged org since Complaint d;
         sent = int (length (filter (\<lambda>s. um_organizationId s = Some org \<and> um_sentAt s > since)
           (unsolicitedMailSends d))) in
     if complaints \<ge> rep_complaintMin th \<and> complaints * 1000 \<ge> sent * rep_complaintPerMille th then Some Complaint
     else if bounces \<ge> rep_bounceMin th \<and> bounces * 100 \<ge> sent * rep_bouncePercent th then Some Bounce
     else None)"

(* src/src/lib/server/account-email.ts:4-4 appUrl *)
definition appUrl :: "env \<Rightarrow> string" where
  "appUrl env = envString env ''BETTER_AUTH_URL'' ''https://localhost:3000''"

definition fault_word :: "mail_fault \<Rightarrow> string" where
  "fault_word k = (case k of Bounce \<Rightarrow> ''bounce'' | Complaint \<Rightarrow> ''complaint'')"

definition blocked_alert :: "ctx \<Rightarrow> id \<Rightarrow> mail_fault \<Rightarrow> ops_alert" where
  "blocked_alert cx org k = \<lparr>al_type = Organization_mail_blocked, al_subject = org,
     al_title = ''Organization blocked from emailing new addresses'',
     al_body = ''Organization '' @ org @ '' crossed the '' @ fault_word k @
       '' threshold. It stays blocked until an admin clears it at '' @ appUrl (cx_env cx) @
       ''/admin/organizations/'' @ org\<rparr>"

definition suppress_all :: "ctx \<Rightarrow> mail_fault \<Rightarrow> string list \<Rightarrow> db \<Rightarrow> db" where
  "suppress_all cx k recipients d = d\<lparr>emailSuppressions := fold
     (\<lambda>a. insert_new es_email \<lparr>es_email = a, es_reason = k, es_suppressedAt = cx_now cx\<rparr>)
     recipients (emailSuppressions d)\<rparr>"

definition block_organization :: "ctx \<Rightarrow> id \<Rightarrow> mail_fault \<Rightarrow> db \<Rightarrow> db" where
  "block_organization cx org k d = (
     if isBlocked org d then d
     else raise_alert (blocked_alert cx org k) (d\<lparr>organizationMailBlocks := organizationMailBlocks d @
       [\<lparr>mb_organizationId = org, mb_reason = k, mb_blockedAt = cx_now cx\<rparr>]\<rparr>))"

definition charge :: "ctx \<Rightarrow> mail_reputation \<Rightarrow> id \<Rightarrow> id \<Rightarrow> db \<Rightarrow> db" where
  "charge cx th eventId org d = (
     let d1 = d\<lparr>mailEvents := update_where (\<lambda>e. me_id e = eventId)
           (\<lambda>e. e\<lparr>me_organizationId := Some org\<rparr>) (mailEvents d)\<rparr> in
     case crossedThreshold cx org th d1 of
       None \<Rightarrow> d1
     | Some k \<Rightarrow> block_organization cx org k d1)"

(* src/src/lib/server/services/mail-reputation.service.ts:117-169 recordMailFailure *)
definition recordMailFailure :: "ctx \<Rightarrow> mail_reputation \<Rightarrow> id \<Rightarrow> mail_failure \<Rightarrow> db \<Rightarrow> db" where
  "recordMailFailure cx th eventId f d = (
     if eventId \<in> me_id ` set (mailEvents d) then d
     else let d1 = d\<lparr>mailEvents := mailEvents d @ [\<lparr>me_id = eventId, me_kind = fl_kind f,
             me_organizationId = None, me_receivedAt = cx_now cx\<rparr>]\<rparr> in
       if fl_recipients f = [] then d1
       else let d2 = suppress_all cx (fl_kind f) (fl_recipients f) d1 in
         (case fl_sentAt f of
            None \<Rightarrow> d2
          | Some moment \<Rightarrow> (case senderOf (fl_recipients f) moment d2 of
              None \<Rightarrow> d2
            | Some org \<Rightarrow> charge cx th eventId org d2)))"

(* src/src/lib/server/services/mail-reputation.service.ts:225-237 pruneMailRecords *)
definition pruneMailRecords :: "ctx \<Rightarrow> db \<Rightarrow> nat \<times> db" where
  "pruneMailRecords cx d = (
     let cutoff = cx_now cx - rep_windowDays (MAIL_REPUTATION (cx_env cx)) * DAY_MS;
         d' = d\<lparr>mailEvents := delete_where (\<lambda>e. me_receivedAt e < cutoff) (mailEvents d),
                unsolicitedMailSends := delete_where (\<lambda>s. um_sentAt s < cutoff) (unsolicitedMailSends d)\<rparr> in
     ((length (mailEvents d) - length (mailEvents d')) +
      (length (unsolicitedMailSends d) - length (unsolicitedMailSends d')), d'))"

section \<open>Error texts keep no address\<close>

text \<open>The runs of other than white space of a text, the first one continuing the run so far.\<close>

fun runs :: "string \<Rightarrow> string \<Rightarrow> string list" where
  "runs w [] = [w]"
| "runs w (c # s) = (if is_space c then w # runs [] s else runs (w @ [c]) s)"

lemma runs_append: "list_all (\<lambda>c. \<not> is_space c) u \<Longrightarrow> runs w (u @ s) = runs (w @ u) s"
  by (induction u arbitrary: w) auto

lemma runs_rewrite_words:
  "list_all (\<lambda>c. \<not> is_space c) w \<Longrightarrow>
   (\<And>w. list_all (\<lambda>c. \<not> is_space c) w \<Longrightarrow> list_all (\<lambda>c. \<not> is_space c) (f w)) \<Longrightarrow>
   runs [] (rewrite_words f w s) = map f (runs w s)"
proof (induction f w s rule: rewrite_words.induct)
  case (1 f w)
  from 1(1) 1(2) have "list_all (\<lambda>c. \<not> is_space c) (f w)" by simp
  then show ?case using runs_append [of "f w" "[]" "[]"] by simp
next
  case (2 f w c s)
  have "list_all (\<lambda>c. \<not> is_space c) (f w)" using 2(3,4) by simp
  with 2 show ?case by (auto simp: runs_append)
qed

lemma hide_address_solid:
  "list_all (\<lambda>c. \<not> is_space c) w \<Longrightarrow> list_all (\<lambda>c. \<not> is_space c) (hide_address w)"
  by (simp add: hide_address_def is_space_def)

text \<open>
  The text kept of a failed send quotes no address: word by word it is the message, with each
  word that holds an address replaced by a placeholder, so no word of it holds one.
\<close>

theorem failure_text_hides_addresses:
  "runs [] (mailFailureText e) = map hide_address (runs [] (mf_message e)) \<and>
   list_all (\<lambda>w. \<not> quotes_address w) (runs [] (mailFailureText e))"
proof -
  have "runs [] (mailFailureText e) = map hide_address (runs [] (mf_message e))"
    unfolding mailFailureText_def by (rule runs_rewrite_words) (simp_all add: hide_address_solid)
  moreover have "\<not> quotes_address (hide_address w)" for w
    by (simp add: hide_address_def quotes_address_def)
  ultimately show ?thesis by (simp add: list_all_iff)
qed

section \<open>A report counts once and for all\<close>

lemma raise_alert_frame [frame_simps]:
  "emailSuppressions (raise_alert a d) = emailSuppressions d"
  "mailEvents (raise_alert a d) = mailEvents d"
  "organizationMailBlocks (raise_alert a d) = organizationMailBlocks d"
  "unsolicitedMailSends (raise_alert a d) = unsolicitedMailSends d"
  "notificationChannels (raise_alert a d) = notificationChannels d"
  "channelConfirmationSends (raise_alert a d) = channelConfirmationSends d"
  "emailOptOuts (raise_alert a d) = emailOptOuts d"
  by (simp_all add: raise_alert_def)

lemma suppress_all_keys:
  "es_email ` set (emailSuppressions (suppress_all cx k as d)) = set as \<union> es_email ` set (emailSuppressions d)"
proof -
  have "es_email ` set (fold (\<lambda>a. insert_new es_email \<lparr>es_email = a, es_reason = k, es_suppressedAt = t\<rparr>) as ss)
      = set as \<union> es_email ` set ss" for t and ss :: "emailSuppression_row list"
    by (induction as arbitrary: ss) (auto simp: insert_new_keys)
  then show ?thesis by (simp add: suppress_all_def)
qed

lemma suppress_all_frame [frame_simps]: "mailEvents (suppress_all cx k as d) = mailEvents d"
  by (simp add: suppress_all_def)

lemma charge_frame [frame_simps]:
  "emailSuppressions (charge cx th ev org d) = emailSuppressions d"
  "me_id ` set (mailEvents (charge cx th ev org d)) = me_id ` set (mailEvents d)"
proof -
  have e: "me_id ` set (update_where P (\<lambda>e. e\<lparr>me_organizationId := x\<rparr>) es) = me_id ` set es" for P x es
  proof -
    have "map me_id (update_where P (\<lambda>e. e\<lparr>me_organizationId := x\<rparr>) es) = map me_id es"
      by (rule map_update_where) simp
    then show ?thesis by (metis list.set_map)
  qed
  show "emailSuppressions (charge cx th ev org d) = emailSuppressions d"
    "me_id ` set (mailEvents (charge cx th ev org d)) = me_id ` set (mailEvents d)"
    by (simp_all add: charge_def block_organization_def frame_simps e Let_def split: option.splits)
qed

lemma recordMailFailure_known:
  "ev \<in> me_id ` set (mailEvents (recordMailFailure cx th ev f d))"
  by (simp add: recordMailFailure_def frame_simps Let_def split: option.splits)

lemma recordMailFailure_suppresses:
  assumes "ev \<notin> me_id ` set (mailEvents d)"
  shows "es_email ` set (emailSuppressions (recordMailFailure cx th ev f d)) =
    set (fl_recipients f) \<union> es_email ` set (emailSuppressions d)"
  using assms by (auto simp: recordMailFailure_def frame_simps suppress_all_keys Let_def split: option.splits)

lemma isSuppressed_iff: "isSuppressed a d \<longleftrightarrow> a \<in> es_email ` set (emailSuppressions d)"
  by (auto simp: isSuppressed_def filter_empty_conv)

lemma overCeiling_frame [frame_simps]:
  "emailSuppressions (snd (overCeiling cx limit v d)) = emailSuppressions d"
  "organizationMailBlocks (snd (overCeiling cx limit v d)) = organizationMailBlocks d"
  "unsolicitedMailSends (snd (overCeiling cx limit v d)) = unsolicitedMailSends d"
  "notificationChannels (snd (overCeiling cx limit v d)) = notificationChannels d"
  "channelConfirmationSends (snd (overCeiling cx limit v d)) = channelConfirmationSends d"
  "emailOptOuts (snd (overCeiling cx limit v d)) = emailOptOuts d"
  by (simp_all add: overCeiling_def Let_def frame_simps)

lemma suppressed_refused:
  assumes "isSuppressed a d"
  shows "fst (refusal cx limit v org a d) \<noteq> None"
proof -
  obtain over d1 where o: "overCeiling cx limit v d = (over, d1)" by fastforce
  then have "emailSuppressions d1 = emailSuppressions d"
    using overCeiling_frame(1) [of cx limit v d] by simp
  with assms have "isSuppressed a d1" by (simp add: isSuppressed_def)
  then show ?thesis by (simp add: refusal_def o)
qed

text \<open>
  A provider's report counts once and for all: once a bounce or complaint is recorded, every
  address it names is refused to every organization and to visitors, a queued send to it is
  stopped, and a delivery of the same report again changes nothing.
\<close>

theorem report_counts_once:
  assumes "ev \<notin> me_id ` set (mailEvents d)" "a \<in> set (fl_recipients f)"
  shows "fst (refusal cx2 limit v org a (recordMailFailure cx th ev f d)) \<noteq> None \<and>
    stopped org a (recordMailFailure cx th ev f d) \<and>
    recordMailFailure cx2 th2 ev f2 (recordMailFailure cx th ev f d) = recordMailFailure cx th ev f d"
proof -
  have "isSuppressed a (recordMailFailure cx th ev f d)"
    using recordMailFailure_suppresses [OF assms(1)] assms(2) by (auto simp: isSuppressed_iff)
  moreover have "recordMailFailure cx2 th2 ev f2 (recordMailFailure cx th ev f d) = recordMailFailure cx th ev f d"
    using recordMailFailure_known by (subst recordMailFailure_def) simp
  ultimately show ?thesis using suppressed_refused by (simp add: stopped_def)
qed

definition example_report :: mail_failure where
  "example_report = \<lparr>fl_kind = Bounce, fl_recipients = [''a@b.c''], fl_sentAt = None\<rparr>"

lemma report_counts_once_witness:
  "fst (refusal (example_ctx 9) 1000 False ''o'' ''a@b.c'' (recordMailFailure (example_ctx 1)
     (MAIL_REPUTATION (\<lambda>_. None)) ''ev'' example_report empty_db)) \<noteq> None"
  using report_counts_once [of "''ev''" empty_db "''a@b.c''" example_report]
  by (simp add: empty_db_def example_report_def)

end
