(* ===== verification/EmailChannels.thy ===== *)
theory EmailChannels
  imports Mail
begin

text \<open>
  Consent of the address of an email channel,
  \<open>lib/server/services/email-channel.service.ts\<close>: confirmation emails under an interval and a cap,
  opt-outs that outlive the channel, and the one further request an opted-out address may get.

  Each operation is one committed transaction; the advisory lock that runs those of an organization
  one after another is what makes that faithful.  A fresh token is drawn as fresh ids are.  What the
  mail server does is a parameter: the failure of a send, if it fails.
\<close>

section \<open>Results\<close>

(* src/src/lib/server/services/email-channel.service.ts:25-26 CONFIRMATION_TTL_HOURS *)
definition CONFIRMATION_TTL_MS :: int where
  "CONFIRMATION_TTL_MS = 48 * 60 * 60000"

(* src/src/lib/server/services/email-channel.service.ts:29-30 RESEND_INTERVAL_MS *)
definition RESEND_INTERVAL_MS :: int where
  "RESEND_INTERVAL_MS = 60 * 60000"

(* src/src/lib/server/services/email-channel.service.ts:32-33 PENDING_WINDOW_MS *)
definition PENDING_WINDOW_MS :: int where
  "PENDING_WINDOW_MS = 7 * 24 * 60 * 60000"

(* src/src/lib/server/services/email-channel.service.ts:35-39 INVITATION_SENDS_PER_ADDRESS *)
definition INVITATION_SENDS_PER_ADDRESS :: nat where
  "INVITATION_SENDS_PER_ADDRESS = 3"

(* src/src/lib/server/services/email-channel.service.ts:41-49 ResendResult *)
datatype resend_result =
    ResendSent
  | ResendConfirmed
  | ResendUnsubscribed
  | ResendReasked
  | ResendUnverified
  | ResendTooSoon
  | ResendCapped
  | ResendRefused mail_refusal

(* src/src/lib/server/services/email-channel.service.ts:56-60 Requester *)
record requester =
  by_email :: string
  by_emailVerified :: bool

(* src/src/lib/server/services/email-channel.service.ts:79-87 PendingSend *)
record pending_send =
  pn_sendId :: id
  pn_email :: string
  pn_token :: string
  pn_requestedBy :: string
  pn_confirmationSentAt :: "time option"
  pn_unsubscribedAt :: "time option"
  pn_reasked :: bool

(* src/src/lib/server/services/email-channel.service.ts:587-590 SlotClaim *)
datatype slot_claim = Slot id | SlotTooSoon time | SlotRefused resend_result

text \<open>What \<open>claim\<close> returns: no such channel, a refusal, a wait, or the send to make.\<close>

datatype claim_result = NoChannel | Refused resend_result | AskAgainAt time | Claimed pending_send

text \<open>The state of a recipient and what a lookup by token gives.\<close>

datatype recipient_state = RcpPending | RcpConfirmed | RcpExpired | RcpUnsubscribed

(* src/src/lib/server/services/email-channel.service.ts:62-68 RecipientLookup *)
record recipient_lookup =
  rl_state :: recipient_state
  rl_reasked :: bool
  rl_email :: string
  rl_organizationName :: string

(* src/src/lib/server/services/email-channel.service.ts:70-77 UnsubscribedChannel *)
record unsubscribed_channel =
  uc_organizationId :: id
  uc_organizationName :: string
  uc_channelName :: string
  uc_email :: string
  uc_final :: bool

text \<open>A sent or skipped confirmation, or why it went unsent.\<close>

(* src/src/lib/server/services/email-channel.service.ts:89-92 UnsentConfirmation *)
datatype queued_outcome = ConfirmationSent | ConfirmationSkipped | ConfirmationUnsent string

section \<open>The parts of an operation\<close>

definition channel_email :: "notificationChannel_row \<Rightarrow> string option" where
  "channel_email ch = (case cfg_email (ch_config ch) of
      None \<Rightarrow> None
    | Some e \<Rightarrow> if e = [] then None else Some e)"

definition addressed :: "string \<Rightarrow> notificationChannel_row \<Rightarrow> bool" where
  "addressed address ch \<longleftrightarrow> on_some (\<lambda>e. lower e = address) (cfg_email (ch_config ch))"

(* src/src/lib/server/services/email-channel.service.ts:105-119 isVerifiedMember *)
definition isVerifiedMember :: "id \<Rightarrow> string \<Rightarrow> db \<Rightarrow> bool" where
  "isVerifiedMember org email d \<longleftrightarrow>
     filter (\<lambda>(m, u). mem_organizationId m = org \<and> u_emailVerified u \<and> lower (u_email u) = lower email)
       (inner_join (\<lambda>m u. u_id u = mem_userId m) (members d) (users d)) \<noteq> []"

(* src/src/lib/server/services/email-channel.service.ts:621-633 optOutOf *)
definition optOutOf :: "id \<Rightarrow> string \<Rightarrow> db \<Rightarrow> emailOptOut_row option" where
  "optOutOf org email d = first_row (filter (\<lambda>q. oo_organizationId q = org \<and> oo_email q = email \<and>
     oo_unsubscribedAt q \<noteq> None) (emailOptOuts d))"

(* src/src/lib/server/services/email-channel.service.ts:673-678 setReasked *)
definition setReasked :: "id \<Rightarrow> string \<Rightarrow> time option \<Rightarrow> db \<Rightarrow> db" where
  "setReasked org email moment d = d\<lparr>emailOptOuts := update_where
     (\<lambda>q. oo_organizationId q = org \<and> oo_email q = email) (\<lambda>q. q\<lparr>oo_reaskedAt := moment\<rparr>) (emailOptOuts d)\<rparr>"

definition unanswered :: "id \<Rightarrow> time \<Rightarrow> channelConfirmationSend_row \<Rightarrow> bool" where
  "unanswered org t s \<longleftrightarrow> cs_organizationId s = org \<and> cs_sentAt s > t - PENDING_WINDOW_MS \<and> cs_confirmedAt s = None"

(* src/src/lib/server/services/email-channel.service.ts:680-694 unconfirmedAddresses *)
definition unconfirmedAddresses :: "id \<Rightarrow> time \<Rightarrow> db \<Rightarrow> nat" where
  "unconfirmedAddresses org t d =
     card (cs_email ` set (filter (unanswered org t) (channelConfirmationSends d)))"

(* src/src/lib/server/services/email-channel.service.ts:696-711 unansweredSends *)
definition unansweredSends :: "id \<Rightarrow> string \<Rightarrow> time \<Rightarrow> db \<Rightarrow> nat" where
  "unansweredSends org email t d =
     length (filter (\<lambda>s. unanswered org t s \<and> cs_email s = email) (channelConfirmationSends d))"

(* src/src/lib/server/services/email-channel.service.ts:713-721 freeSlot *)
definition freeSlot :: "ctx \<Rightarrow> id \<Rightarrow> string \<Rightarrow> db \<Rightarrow> db" where
  "freeSlot cx org email d = d\<lparr>channelConfirmationSends := update_where
     (\<lambda>s. cs_organizationId s = org \<and> cs_email s = email \<and> cs_confirmedAt s = None)
     (\<lambda>s. s\<lparr>cs_confirmedAt := Some (cx_now cx)\<rparr>) (channelConfirmationSends d)\<rparr>"

(* src/src/lib/server/services/email-channel.service.ts:723-730 markConfirmed *)
definition markConfirmed :: "ctx \<Rightarrow> id \<Rightarrow> string \<Rightarrow> db \<Rightarrow> db" where
  "markConfirmed cx org email d = (let d1 = freeSlot cx org email d in
     d1\<lparr>emailOptOuts := update_where (\<lambda>q. oo_organizationId q = org \<and> oo_email q = email)
       (\<lambda>q. q\<lparr>oo_unsubscribedAt := None\<rparr>) (emailOptOuts d1)\<rparr>)"

definition lastSent :: "id \<Rightarrow> string \<Rightarrow> db \<Rightarrow> time option" where
  "lastSent org email d = (case map cs_sentAt (filter (\<lambda>s. cs_organizationId s = org \<and> cs_email s = email)
       (channelConfirmationSends d)) of
      [] \<Rightarrow> None
    | t # ts \<Rightarrow> Some (foldl max t ts))"

definition log_send :: "ctx \<Rightarrow> id \<Rightarrow> string \<Rightarrow> db \<Rightarrow> id \<times> db" where
  "log_send cx org email d = (
     let sendId = cx_nanoid cx (drawn d);
         d1 = (draw d)\<lparr>channelConfirmationSends := channelConfirmationSends d @
           [\<lparr>cs_id = sendId, cs_organizationId = org, cs_email = email, cs_sentAt = cx_now cx,
             cs_confirmedAt = None\<rparr>]\<rparr> in
     (sendId, recordSend cx sendId (Some org) email d1))"

text \<open>\<open>limit\<close> is the guard's daily ceiling.\<close>

(* src/src/lib/server/services/email-channel.service.ts:592-619 claimSlot *)
definition claimSlot :: "ctx \<Rightarrow> int \<Rightarrow> int \<Rightarrow> id \<Rightarrow> string \<Rightarrow> db \<Rightarrow> slot_claim \<times> db" where
  "claimSlot cx limit cap org email d = (
     let retryAt = map_option (\<lambda>t. t + RESEND_INTERVAL_MS) (lastSent org email d) in
     if on_some (\<lambda>t. cx_now cx < t) retryAt then (SlotTooSoon (coalesce retryAt 0), d)
     else if int (unconfirmedAddresses org (cx_now cx) d) \<ge> cap then (SlotRefused ResendCapped, d)
     else (case refusal cx limit False org email d of
         (Some r, d1) \<Rightarrow> (SlotRefused (ResendRefused r), d1)
       | (None, d1) \<Rightarrow> (let (sendId, d2) = log_send cx org email d1 in (Slot sendId, d2))))"

section \<open>Asking for a confirmation\<close>

definition the_channel :: "id \<Rightarrow> id \<Rightarrow> db \<Rightarrow> notificationChannel_row option" where
  "the_channel channelId org d = first_row (filter (\<lambda>c. ch_id c = channelId \<and> ch_organizationId c = org \<and>
     ch_type c = EmailChannel) (notificationChannels d))"

definition set_channel :: "id \<Rightarrow> (notificationChannel_row \<Rightarrow> notificationChannel_row) \<Rightarrow> db \<Rightarrow> db" where
  "set_channel channelId f d = d\<lparr>notificationChannels :=
     update_where (\<lambda>c. ch_id c = channelId) f (notificationChannels d)\<rparr>"

definition confirmation_event :: "ctx \<Rightarrow> id \<Rightarrow> id \<Rightarrow> pending_send \<Rightarrow> db \<Rightarrow> db" where
  "confirmation_event cx org channelId p d = (draw d)\<lparr>notificationEvents := notificationEvents d @
     [\<lparr>e_id = cx_nanoid cx (drawn d), e_organizationId = org, e_monitorId = None, e_incidentId = None,
       e_type = ChannelConfirmation,
       e_payload = ConfirmationPayload channelId (pn_sendId p) (pn_email p) (pn_requestedBy p)
         (pn_confirmationSentAt p) (pn_unsubscribedAt p) (pn_reasked p),
       e_retry = None, e_mailServerDown = None, e_status = ConfirmationQueued, e_claimedAt = None, e_processedAt = None,
       e_errorMessage = None, e_createdAt = cx_now cx\<rparr>]\<rparr>"

text \<open>The slot is taken: the channel gets its token and the send time, a re-ask is recorded, and the
  email is queued if asked for.\<close>

definition take_slot ::
  "ctx \<Rightarrow> bool \<Rightarrow> id \<Rightarrow> id \<Rightarrow> requester \<Rightarrow> notificationChannel_row \<Rightarrow> string \<Rightarrow> bool \<Rightarrow> id \<Rightarrow> db \<Rightarrow>
   pending_send \<times> db" where
  "take_slot cx queue channelId org by row configured optedOut sendId d = (
     let fresh = optedOut \<or> coalesce (ch_token row) [] = [];
         token = (if fresh then cx_nanoid cx (drawn d) else coalesce (ch_token row) []);
         d1 = set_channel channelId (\<lambda>c. c\<lparr>ch_token := Some token,
                ch_confirmationSentAt := Some (cx_now cx),
                ch_unsubscribedAt := (if optedOut then None else ch_unsubscribedAt c),
                ch_reaskedAt := (if optedOut then Some (cx_now cx) else ch_reaskedAt c)\<rparr>)
              (if fresh then draw d else d);
         d2 = (if optedOut then setReasked org (lower configured) (Some (cx_now cx)) d1 else d1);
         p = \<lparr>pn_sendId = sendId, pn_email = configured, pn_token = token, pn_requestedBy = by_email by,
              pn_confirmationSentAt = ch_confirmationSentAt row, pn_unsubscribedAt = ch_unsubscribedAt row,
              pn_reasked = optedOut\<rparr> in
     (p, if queue then confirmation_event cx org channelId p d2 else d2))"

(* src/src/lib/server/services/email-channel.service.ts:216-301 claim *)
definition claim ::
  "ctx \<Rightarrow> int \<Rightarrow> int \<Rightarrow> bool \<Rightarrow> id \<Rightarrow> id \<Rightarrow> requester \<Rightarrow> db \<Rightarrow> claim_result \<times> db" where
  "claim cx limit cap queue channelId org by d = (case the_channel channelId org d of
      None \<Rightarrow> (NoChannel, d)
    | Some row \<Rightarrow> (case channel_email row of
        None \<Rightarrow> (NoChannel, d)
      | Some configured \<Rightarrow>
          if ch_verifiedAt row \<noteq> None then (Refused ResendConfirmed, d)
          else let email = lower configured; optOut = optOutOf org email d in
            if on_some (\<lambda>q. oo_reaskedAt q \<noteq> None) optOut then
              (Refused (if ch_unsubscribedAt row \<noteq> None then ResendUnsubscribed else ResendReasked), d)
            else if optOut = None \<and> isVerifiedMember org email d then
              (Refused ResendConfirmed, set_channel channelId (\<lambda>c. c\<lparr>ch_verifiedAt := Some (cx_now cx)\<rparr>) d)
            else if \<not> by_emailVerified by then (Refused ResendUnverified, d)
            else (case claimSlot cx limit cap org email d of
                (SlotTooSoon retryAt, d1) \<Rightarrow>
                  (if optOut \<noteq> None then AskAgainAt retryAt else Refused ResendTooSoon, d1)
              | (SlotRefused r, d1) \<Rightarrow> (Refused r, d1)
              | (Slot sendId, d1) \<Rightarrow>
                  let (p, d2) = take_slot cx queue channelId org by row configured (optOut \<noteq> None) sendId d1
                  in (Claimed p, d2))))"

(* src/src/lib/server/services/email-channel.service.ts:322-340 undoClaim *)
definition undoClaim :: "id \<Rightarrow> id \<Rightarrow> pending_send \<Rightarrow> db \<Rightarrow> db" where
  "undoClaim channelId org p d = (
     let d1 = releaseUnsent (pn_sendId p) (d\<lparr>channelConfirmationSends :=
           delete_where (\<lambda>s. cs_id s = pn_sendId p) (channelConfirmationSends d)\<rparr>);
         d2 = d1\<lparr>notificationChannels := update_where
           (\<lambda>c. ch_id c = channelId \<and> addressed (lower (pn_email p)) c)
           (\<lambda>c. c\<lparr>ch_confirmationSentAt := pn_confirmationSentAt p, ch_unsubscribedAt := pn_unsubscribedAt p,
             ch_reaskedAt := (if pn_reasked p then None else ch_reaskedAt c)\<rparr>) (notificationChannels d1)\<rparr> in
     if pn_reasked p then setReasked org (lower (pn_email p)) None d2 else d2)"

text \<open>The mail server's answer to a confirmation: its failure, if it fails.\<close>

type_synonym confirmation_mail = "string \<Rightarrow> string \<Rightarrow> string \<Rightarrow> string option"

(* src/src/lib/server/services/email-channel.service.ts:303-320 deliver *)
definition deliver ::
  "confirmation_mail \<Rightarrow> id \<Rightarrow> id \<Rightarrow> pending_send \<Rightarrow> db \<Rightarrow> string option \<times> db" where
  "deliver mail channelId org p d = (case mail (pn_email p) (pn_token p) (pn_requestedBy p) of
      None \<Rightarrow> (None, d)
    | Some failure \<Rightarrow> (Some failure, undoClaim channelId org p d))"

text \<open>A failure is thrown: \<open>Inl\<close>.\<close>

(* src/src/lib/server/services/email-channel.service.ts:134-153 requestConfirmation *)
definition requestConfirmation ::
  "ctx \<Rightarrow> int \<Rightarrow> int \<Rightarrow> confirmation_mail \<Rightarrow> id \<Rightarrow> id \<Rightarrow> requester \<Rightarrow> db \<Rightarrow> (string + claim_result) \<times> db" where
  "requestConfirmation cx limit cap mail channelId org by d =
     (case claim cx limit cap False channelId org by d of
        (Claimed p, d1) \<Rightarrow> (case deliver mail channelId org p d1 of
            (Some failure, d2) \<Rightarrow> (Inl failure, d2)
          | (None, d2) \<Rightarrow> (Inr (Refused ResendSent), d2))
      | (r, d1) \<Rightarrow> (Inr r, d1))"

(* src/src/lib/server/services/email-channel.service.ts:155-165 queueConfirmation *)
definition queueConfirmation :: "ctx \<Rightarrow> int \<Rightarrow> int \<Rightarrow> id \<Rightarrow> id \<Rightarrow> requester \<Rightarrow> db \<Rightarrow> db" where
  "queueConfirmation cx limit cap channelId org by d = snd (claim cx limit cap True channelId org by d)"

(* src/src/lib/server/services/email-channel.service.ts:537-543 releaseSend *)
definition releaseSend :: "id \<Rightarrow> db \<Rightarrow> db" where
  "releaseSend sendId d = releaseUnsent sendId (d\<lparr>channelConfirmationSends :=
     delete_where (\<lambda>s. cs_id s = sendId) (channelConfirmationSends d)\<rparr>)"

definition still_waiting :: "id \<Rightarrow> id \<Rightarrow> string \<Rightarrow> notificationChannel_row \<Rightarrow> bool" where
  "still_waiting channelId org email c \<longleftrightarrow> ch_id c = channelId \<and> ch_organizationId c = org \<and>
     ch_verifiedAt c = None \<and> ch_unsubscribedAt c = None \<and> ch_confirmationSentAt c \<noteq> None \<and>
     addressed (lower email) c"

text \<open>The queued confirmation comes as the pending send its payload describes, without the token.\<close>

(* src/src/lib/server/services/email-channel.service.ts:167-214 sendQueued *)
definition sendQueued ::
  "ctx \<Rightarrow> confirmation_mail \<Rightarrow> id \<Rightarrow> id \<Rightarrow> pending_send \<Rightarrow> db \<Rightarrow> queued_outcome \<times> db" where
  "sendQueued cx mail org channelId queued d = (
     case first_row (map fst (inner_join (\<lambda>_ s. cs_id s = pn_sendId queued)
         (filter (still_waiting channelId org (pn_email queued)) (notificationChannels d))
         (channelConfirmationSends d))) of
       None \<Rightarrow> (ConfirmationSkipped, releaseSend (pn_sendId queued) d)
     | Some row \<Rightarrow>
         if coalesce (ch_token row) [] = [] then (ConfirmationSkipped, releaseSend (pn_sendId queued) d)
         else let p = queued\<lparr>pn_token := coalesce (ch_token row) []\<rparr> in
           if stopped org (lower (pn_email queued)) d then (ConfirmationSkipped, undoClaim channelId org p d)
           else (case deliver mail channelId org p (stamp cx (pn_sendId queued) d) of
               (Some failure, d1) \<Rightarrow> (ConfirmationUnsent failure, d1)
             | (None, d1) \<Rightarrow> (ConfirmationSent, d1)))"

section \<open>The recipient's side\<close>

definition confirmationCutoff :: "ctx \<Rightarrow> time" where
  "confirmationCutoff cx = cx_now cx - CONFIRMATION_TTL_MS"

(* src/src/lib/server/services/email-channel.service.ts:342-370 lookup *)
definition lookupRecipient :: "ctx \<Rightarrow> string \<Rightarrow> db \<Rightarrow> recipient_lookup option" where
  "lookupRecipient cx token d = (case first_row (inner_join (\<lambda>c q. org_id q = ch_organizationId c)
       (filter (\<lambda>c. ch_token c = Some token) (notificationChannels d)) (organizations d)) of
      None \<Rightarrow> None
    | Some (c, q) \<Rightarrow> (case channel_email c of
        None \<Rightarrow> None
      | Some email \<Rightarrow> Some \<lparr>
          rl_state =
            (if ch_verifiedAt c \<noteq> None then RcpConfirmed
             else if ch_unsubscribedAt c \<noteq> None then RcpUnsubscribed
             else if on_some (\<lambda>t. t > confirmationCutoff cx) (ch_confirmationSentAt c) then RcpPending
             else RcpExpired),
          rl_reasked = (ch_reaskedAt c \<noteq> None), rl_email = email, rl_organizationName = org_name q\<rparr>))"

definition confirmable :: "ctx \<Rightarrow> string \<Rightarrow> notificationChannel_row \<Rightarrow> bool" where
  "confirmable cx token c \<longleftrightarrow> ch_token c = Some token \<and> ch_verifiedAt c = None \<and>
     ch_unsubscribedAt c = None \<and> on_some (\<lambda>t. t > confirmationCutoff cx) (ch_confirmationSentAt c)"

(* src/src/lib/server/services/email-channel.service.ts:372-393 confirm *)
definition confirmChannel :: "ctx \<Rightarrow> string \<Rightarrow> db \<Rightarrow> bool \<times> db" where
  "confirmChannel cx token d = (
     let row = first_row (filter (confirmable cx token) (notificationChannels d));
         d1 = d\<lparr>notificationChannels := update_where (confirmable cx token)
           (\<lambda>c. c\<lparr>ch_verifiedAt := Some (cx_now cx)\<rparr>) (notificationChannels d)\<rparr>;
         d2 = (case row of None \<Rightarrow> d1
           | Some c \<Rightarrow> (case channel_email c of
               None \<Rightarrow> d1
             | Some email \<Rightarrow> markConfirmed cx (ch_organizationId c) (lower email) d1)) in
     (row \<noteq> None \<or> on_some (\<lambda>l. rl_state l = RcpConfirmed) (lookupRecipient cx token d2), d2))"

definition opted_out :: "id \<Rightarrow> string \<Rightarrow> db \<Rightarrow> bool" where
  "opted_out org address d \<longleftrightarrow> (\<exists>q\<in>set (emailOptOuts d). oo_organizationId q = org \<and> oo_email q = address \<and>
     oo_unsubscribedAt q \<noteq> None)"

definition member_confirms :: "string \<Rightarrow> db \<Rightarrow> notificationChannel_row \<Rightarrow> bool" where
  "member_confirms address d c \<longleftrightarrow> ch_type c = EmailChannel \<and> ch_verifiedAt c = None \<and>
     ch_unsubscribedAt c = None \<and> addressed address c \<and>
     isVerifiedMember (ch_organizationId c) address d \<and> \<not> opted_out (ch_organizationId c) address d"

(* src/src/lib/server/services/email-channel.service.ts:395-431 confirmMemberAddress *)
definition confirmMemberAddress :: "ctx \<Rightarrow> string \<Rightarrow> db \<Rightarrow> db" where
  "confirmMemberAddress cx email d = (
     let address = lower email;
         orgs = unique (map ch_organizationId (filter (member_confirms address d) (notificationChannels d)));
         d1 = d\<lparr>notificationChannels := update_where (member_confirms address d)
           (\<lambda>c. c\<lparr>ch_verifiedAt := Some (cx_now cx)\<rparr>) (notificationChannels d)\<rparr> in
     fold (\<lambda>org. markConfirmed cx org address) orgs d1)"

definition opt_out_key :: "emailOptOut_row \<Rightarrow> id \<times> string" where
  "opt_out_key q = (oo_organizationId q, oo_email q)"

definition stops :: "id \<Rightarrow> string \<Rightarrow> notificationChannel_row \<Rightarrow> bool" where
  "stops org email c \<longleftrightarrow> ch_organizationId c = org \<and> ch_type c = EmailChannel \<and> addressed email c"

text \<open>The re-ask on record, the organization's name, the first channel stopped, and the database.\<close>

(* src/src/lib/server/services/email-channel.service.ts:635-671 optOutAddress *)
definition optOutAddress ::
  "ctx \<Rightarrow> id \<Rightarrow> string \<Rightarrow> time option \<Rightarrow> db \<Rightarrow>
   time option \<times> string \<times> notificationChannel_row option \<times> db" where
  "optOutAddress cx org email channelReaskedAt d = (
     let outs = upsert opt_out_key (\<lambda>q. q\<lparr>oo_unsubscribedAt := Some (cx_now cx)\<rparr>)
           \<lparr>oo_organizationId = org, oo_email = email, oo_unsubscribedAt = Some (cx_now cx), oo_reaskedAt = None\<rparr>
           (emailOptOuts d);
         recorded = (case first_row (filter (\<lambda>q. opt_out_key q = (org, email)) outs) of
           None \<Rightarrow> None | Some q \<Rightarrow> oo_reaskedAt q);
         reaskedAt = (if channelReaskedAt \<noteq> None then channelReaskedAt else recorded);
         d1 = d\<lparr>emailOptOuts := outs, notificationChannels := update_where (stops org email)
           (\<lambda>c. c\<lparr>ch_verifiedAt := None, ch_unsubscribedAt := Some (cx_now cx), ch_reaskedAt := reaskedAt\<rparr>)
           (notificationChannels d)\<rparr>;
         orgName = (case first_row (filter (\<lambda>q. org_id q = org) (organizations d)) of
           None \<Rightarrow> [] | Some q \<Rightarrow> org_name q) in
     (reaskedAt, orgName, first_row (filter (stops org email) (notificationChannels d)), d1))"

(* src/src/lib/server/services/email-channel.service.ts:433-465 unsubscribe *)
definition unsubscribe :: "ctx \<Rightarrow> string \<Rightarrow> db \<Rightarrow> unsubscribed_channel option \<times> db" where
  "unsubscribe cx token d = (case first_row (filter (\<lambda>c. ch_token c = Some token \<and> ch_unsubscribedAt c = None)
       (notificationChannels d)) of
      None \<Rightarrow> (None, d)
    | Some c \<Rightarrow> (case channel_email c of
        None \<Rightarrow> (None, d)
      | Some email \<Rightarrow>
          let (reaskedAt, orgName, _, d1) =
            optOutAddress cx (ch_organizationId c) (lower email) (ch_reaskedAt c) d in
          (Some \<lparr>uc_organizationId = ch_organizationId c, uc_organizationName = orgName,
             uc_channelName = ch_name c, uc_email = email, uc_final = (reaskedAt \<noteq> None)\<rparr>, d1)))"

(* src/src/lib/server/services/email-channel.service.ts:467-498 unsubscribeInvitation *)
definition unsubscribeInvitation :: "ctx \<Rightarrow> id \<Rightarrow> db \<Rightarrow> unsubscribed_channel option \<times> db" where
  "unsubscribeInvitation cx invitationId d = (case first_row (filter (\<lambda>i. inv_id i = invitationId) (invitations d)) of
      None \<Rightarrow> (None, d)
    | Some i \<Rightarrow> (let email = lower (inv_email i) in
        if optOutOf (inv_organizationId i) email d \<noteq> None then (None, d)
        else let (reaskedAt, orgName, halted, d1) =
            optOutAddress cx (inv_organizationId i) email None d in
          (case halted of
             None \<Rightarrow> (None, d1)
           | Some c \<Rightarrow> (Some \<lparr>uc_organizationId = inv_organizationId i, uc_organizationName = orgName,
               uc_channelName = ch_name c, uc_email = email, uc_final = (reaskedAt \<noteq> None)\<rparr>, d1))))"

section \<open>Recipients, invitations and the rest\<close>

text \<open>The recipient fields of a channel whose address was just set, with the fresh token drawn.\<close>

record recipient_fields =
  rf_token :: string
  rf_confirmationSentAt :: "time option"
  rf_verifiedAt :: "time option"
  rf_unsubscribedAt :: "time option"
  rf_reaskedAt :: "time option"

(* src/src/lib/server/services/email-channel.service.ts:94-103 freshRecipient *)
definition freshRecipient :: "ctx \<Rightarrow> db \<Rightarrow> recipient_fields \<times> db" where
  "freshRecipient cx d = (\<lparr>rf_token = cx_nanoid cx (drawn d), rf_confirmationSentAt = None,
     rf_verifiedAt = None, rf_unsubscribedAt = None, rf_reaskedAt = None\<rparr>, draw d)"

(* src/src/lib/server/services/email-channel.service.ts:500-515 recipientFor *)
definition recipientFor :: "ctx \<Rightarrow> id \<Rightarrow> string \<Rightarrow> db \<Rightarrow> recipient_fields \<times> db" where
  "recipientFor cx org email d = (let (r, d1) = freshRecipient cx d in
     case first_row (filter (\<lambda>q. oo_organizationId q = org \<and> oo_email q = lower email) (emailOptOuts d)) of
       None \<Rightarrow> (r, d1)
     | Some q \<Rightarrow> (r\<lparr>rf_unsubscribedAt := oo_unsubscribedAt q, rf_reaskedAt := oo_reaskedAt q\<rparr>, d1))"

text \<open>An invitation's slot, or why it got none: the address opted out, or the slot's own refusal.\<close>

datatype invitation_claim = InvitationOptedOut | InvitationTooSoon | InvitationSlot slot_claim

(* src/src/lib/server/services/email-channel.service.ts:517-535 claimInvitationSend *)
definition claimInvitationSend ::
  "ctx \<Rightarrow> int \<Rightarrow> int \<Rightarrow> id \<Rightarrow> string \<Rightarrow> db \<Rightarrow> invitation_claim \<times> db" where
  "claimInvitationSend cx limit cap org email d = (let address = lower email in
     if optOutOf org address d \<noteq> None then (InvitationOptedOut, d)
     else if unansweredSends org address (cx_now cx) d \<ge> INVITATION_SENDS_PER_ADDRESS then (InvitationTooSoon, d)
     else let (s, d1) = claimSlot cx limit cap org address d in (InvitationSlot s, d1))"

(* src/src/lib/server/services/email-channel.service.ts:545-548 markInvitationAccepted *)
definition markInvitationAccepted :: "ctx \<Rightarrow> id \<Rightarrow> string \<Rightarrow> db \<Rightarrow> db" where
  "markInvitationAccepted cx org email d = freeSlot cx org (lower email) d"

(* src/src/lib/server/services/email-channel.service.ts:550-554 mailRefusal *)
definition mailRefusal :: "ctx \<Rightarrow> int \<Rightarrow> id \<Rightarrow> string \<Rightarrow> db \<Rightarrow> mail_refusal option \<times> db" where
  "mailRefusal cx limit org email d =
     (if isVerifiedMember org email d then (None, d) else refusal cx limit False org (lower email) d)"

(* src/src/lib/server/services/email-channel.service.ts:556-573 suppressedChannelIds *)
definition suppressedChannelIds :: "id \<Rightarrow> db \<Rightarrow> id set" where
  "suppressedChannelIds org d = ch_id ` set (filter (\<lambda>c. ch_organizationId c = org \<and>
     ch_type c = EmailChannel \<and> ch_verifiedAt c \<noteq> None)
     (map fst (inner_join (\<lambda>c s. addressed (es_email s) c) (notificationChannels d) (emailSuppressions d))))"

(* src/src/lib/server/services/email-channel.service.ts:575-579 wouldCap *)
definition wouldCap :: "ctx \<Rightarrow> int \<Rightarrow> id \<Rightarrow> string \<Rightarrow> db \<Rightarrow> bool" where
  "wouldCap cx cap org email d \<longleftrightarrow> \<not> isVerifiedMember org email d \<and>
     int (unconfirmedAddresses org (cx_now cx) d) \<ge> cap"

(* src/src/lib/server/services/email-channel.service.ts:732-739 pruneChannelConfirmationSends *)
definition pruneChannelConfirmationSends :: "ctx \<Rightarrow> db \<Rightarrow> nat \<times> db" where
  "pruneChannelConfirmationSends cx d = (
     let gone = filter (\<lambda>s. cs_sentAt s < cx_now cx - PENDING_WINDOW_MS) (channelConfirmationSends d) in
     (length gone, d\<lparr>channelConfirmationSends :=
       delete_where (\<lambda>s. cs_sentAt s < cx_now cx - PENDING_WINDOW_MS) (channelConfirmationSends d)\<rparr>))"

section \<open>Any sequence of operations\<close>

text \<open>
  What may happen to consent: a request, queued or not, an invitation, a queued send with the mail
  server's answer, a claim undone after a failed send, a slot given back, a recipient confirming or
  unsubscribing, a member verifying an address, an invitation accepted, and the pruning job.
\<close>

datatype consent_op =
    Request bool id id requester
  | Invite id string
  | SendQueued confirmation_mail id id pending_send
  | Undo id id pending_send
  | Release id
  | Confirm string
  | MemberVerified string
  | Unsubscribe string
  | UnsubscribeInvitation id
  | InvitationAccepted id string
  | Prune

fun consent_step :: "int \<Rightarrow> int \<Rightarrow> ctx \<Rightarrow> consent_op \<Rightarrow> db \<Rightarrow> db" where
  "consent_step limit cap cx (Request queue ch org by) d = snd (claim cx limit cap queue ch org by d)"
| "consent_step limit cap cx (Invite org email) d = snd (claimInvitationSend cx limit cap org email d)"
| "consent_step limit cap cx (SendQueued mail org ch p) d = snd (sendQueued cx mail org ch p d)"
| "consent_step limit cap cx (Undo ch org p) d = undoClaim ch org p d"
| "consent_step limit cap cx (Release k) d = releaseSend k d"
| "consent_step limit cap cx (Confirm token) d = snd (confirmChannel cx token d)"
| "consent_step limit cap cx (MemberVerified email) d = confirmMemberAddress cx email d"
| "consent_step limit cap cx (Unsubscribe token) d = snd (unsubscribe cx token d)"
| "consent_step limit cap cx (UnsubscribeInvitation k) d = snd (unsubscribeInvitation cx k d)"
| "consent_step limit cap cx (InvitationAccepted org email) d = markInvitationAccepted cx org email d"
| "consent_step limit cap cx Prune d = snd (pruneChannelConfirmationSends cx d)"

fun consent_run :: "int \<Rightarrow> int \<Rightarrow> (ctx \<times> consent_op) list \<Rightarrow> db \<Rightarrow> db" where
  "consent_run limit cap [] d = d"
| "consent_run limit cap ((cx, st) # sts) d = consent_run limit cap sts (consent_step limit cap cx st d)"

section \<open>The pending cap\<close>

text \<open>
  A step that adds no unconfirmed send: what is unconfirmed after it was there before.
\<close>

definition adds_no_send :: "db \<Rightarrow> db \<Rightarrow> bool" where
  "adds_no_send d d' \<longleftrightarrow> (\<forall>s\<in>set (channelConfirmationSends d'). cs_confirmedAt s = None \<longrightarrow>
     s \<in> set (channelConfirmationSends d))"

lemma adds_no_send_same [intro]:
  "channelConfirmationSends d' = channelConfirmationSends d \<Longrightarrow> adds_no_send d d'"
  by (simp add: adds_no_send_def)

lemma adds_no_send_trans [trans]: "adds_no_send a b \<Longrightarrow> adds_no_send b c \<Longrightarrow> adds_no_send a c"
  unfolding adds_no_send_def by blast

lemma adds_no_send_fewer:
  assumes "adds_no_send d d'"
  shows "unconfirmedAddresses org t d' \<le> unconfirmedAddresses org t d"
  unfolding unconfirmedAddresses_def
  by (rule card_mono) (use assms in \<open>auto simp: adds_no_send_def unanswered_def\<close>)

lemma unconfirmedAddresses_later:
  "t \<le> u \<Longrightarrow> unconfirmedAddresses org u d \<le> unconfirmedAddresses org t d"
  unfolding unconfirmedAddresses_def by (rule card_mono) (auto simp: unanswered_def)

lemma freeSlot_adds [intro]: "adds_no_send d (freeSlot cx org email d)"
  by (auto simp: adds_no_send_def freeSlot_def in_update_where_iff split: if_splits)

lemma markConfirmed_adds [intro]: "adds_no_send d (markConfirmed cx org email d)"
  using freeSlot_adds [of d cx org email] by (simp add: markConfirmed_def Let_def adds_no_send_def)

lemma fold_markConfirmed_adds: "adds_no_send d (fold (\<lambda>org. markConfirmed cx org a) orgs d)"
  by (rule fold_invariant) (auto intro: adds_no_send_trans)

lemma delete_adds: "adds_no_send d (d\<lparr>channelConfirmationSends := delete_where P (channelConfirmationSends d)\<rparr>)"
  by (simp add: adds_no_send_def)

lemma guard_frame [frame_simps]:
  "channelConfirmationSends (releaseUnsent k d) = channelConfirmationSends d"
  "channelConfirmationSends (stamp cx k d) = channelConfirmationSends d"
  "channelConfirmationSends (setReasked org e x d) = channelConfirmationSends d"
  "channelConfirmationSends (set_channel ch f d) = channelConfirmationSends d"
  "channelConfirmationSends (confirmation_event cx org ch p d) = channelConfirmationSends d"
  "channelConfirmationSends (recordSend cx k oid e d) = channelConfirmationSends d"
  "channelConfirmationSends (draw d) = channelConfirmationSends d"
  "emailOptOuts (releaseUnsent k d) = emailOptOuts d"
  "emailOptOuts (stamp cx k d) = emailOptOuts d"
  "emailOptOuts (set_channel ch f d) = emailOptOuts d"
  "emailOptOuts (confirmation_event cx org ch p d) = emailOptOuts d"
  "emailOptOuts (recordSend cx k oid e d) = emailOptOuts d"
  "emailOptOuts (draw d) = emailOptOuts d"
  by (simp_all add: releaseUnsent_def stamp_def setReasked_def set_channel_def confirmation_event_def
      recordSend_def draw_def Let_def)

lemma undoClaim_sends:
  "channelConfirmationSends (undoClaim ch org p d) = delete_where (\<lambda>s. cs_id s = pn_sendId p) (channelConfirmationSends d)"
  by (simp add: undoClaim_def Let_def frame_simps)

lemma releaseSend_sends:
  "channelConfirmationSends (releaseSend k d) = delete_where (\<lambda>s. cs_id s = k) (channelConfirmationSends d)"
  by (simp add: releaseSend_def frame_simps)

lemma sendQueued_adds: "adds_no_send d (snd (sendQueued cx mail org ch p d))"
  by (auto simp: sendQueued_def deliver_def Let_def adds_no_send_def undoClaim_sends releaseSend_sends frame_simps
      split: option.splits)

lemma refusal_frame [frame_simps]:
  "channelConfirmationSends (snd (refusal cx limit v org e d)) = channelConfirmationSends d"
  "emailOptOuts (snd (refusal cx limit v org e d)) = emailOptOuts d"
  by (auto simp: refusal_def raise_alert_def overCeiling_def Let_def split: prod.splits)

text \<open>A step that logs a send to an address while the pending cap allows it.\<close>

definition logs_send :: "int \<Rightarrow> ctx \<Rightarrow> id \<Rightarrow> string \<Rightarrow> db \<Rightarrow> db \<Rightarrow> bool" where
  "logs_send cap cx org email d d' \<longleftrightarrow> int (unconfirmedAddresses org (cx_now cx) d) < cap \<and>
     (\<exists>k. channelConfirmationSends d' = channelConfirmationSends d @
      [\<lparr>cs_id = k, cs_organizationId = org, cs_email = email, cs_sentAt = cx_now cx, cs_confirmedAt = None\<rparr>])"

lemma claimSlot_logs:
  assumes "claimSlot cx limit cap org email d = (c, d')"
  shows "emailOptOuts d' = emailOptOuts d"
    "case c of Slot k \<Rightarrow> logs_send cap cx org email d d' | _ \<Rightarrow> channelConfirmationSends d' = channelConfirmationSends d"
proof -
  obtain r d1 where r: "refusal cx limit False org email d = (r, d1)" by fastforce
  with refusal_frame [of cx limit False org email d]
  have f: "channelConfirmationSends d1 = channelConfirmationSends d" "emailOptOuts d1 = emailOptOuts d" by simp_all
  show "emailOptOuts d' = emailOptOuts d"
    "case c of Slot k \<Rightarrow> logs_send cap cx org email d d' | _ \<Rightarrow> channelConfirmationSends d' = channelConfirmationSends d"
    using assms r f
    by (auto simp: claimSlot_def log_send_def logs_send_def Let_def frame_simps split: if_splits option.splits)
qed

lemma take_slot_frame [frame_simps]:
  "channelConfirmationSends (snd (take_slot cx queue ch org by row e oo k d)) = channelConfirmationSends d"
  "emailOptOuts (snd (take_slot cx queue ch org by row e oo k d)) =
    (if oo then emailOptOuts (setReasked org (lower e) (Some (cx_now cx)) d) else emailOptOuts d)"
  by (simp_all add: take_slot_def Let_def frame_simps) (simp add: setReasked_def frame_simps)

lemma claim_logs:
  fixes cx limit cap queue ch org who d
  defines "d' \<equiv> snd (claim cx limit cap queue ch org who d)"
  shows "channelConfirmationSends d' = channelConfirmationSends d \<and> emailOptOuts d' = emailOptOuts d \<or>
    (\<exists>email. \<not> on_some (\<lambda>q. oo_reaskedAt q \<noteq> None) (optOutOf org email d) \<and> logs_send cap cx org email d d' \<and>
      (emailOptOuts d' = emailOptOuts d \<or>
       emailOptOuts d' = emailOptOuts (setReasked org email (Some (cx_now cx)) d)))"
proof -
  have "?thesis" if row: "the_channel ch org d = Some row" "channel_email row = Some e" "ch_verifiedAt row = None"
    "\<not> on_some (\<lambda>q. oo_reaskedAt q \<noteq> None) (optOutOf org (lower e) d)"
    "\<not> (optOutOf org (lower e) d = None \<and> isVerifiedMember org (lower e) d)" "by_emailVerified who" for row e
  proof -
    obtain c d1 where c: "claimSlot cx limit cap org (lower e) d = (c, d1)" by fastforce
    note logs = claimSlot_logs [OF c]
    have d': "d' = (case c of Slot k \<Rightarrow> snd (take_slot cx queue ch org who row e (optOutOf org (lower e) d \<noteq> None) k d1) | _ \<Rightarrow> d1)"
      using row by (cases "optOutOf org (lower e) d"; cases c)
        (auto simp: d'_def claim_def \<open>claimSlot _ _ _ _ _ _ = _\<close> Let_def split: prod.splits)
    show ?thesis
    proof (cases c)
      case (Slot k)
      then have "logs_send cap cx org (lower e) d d'" using logs d' by (simp add: logs_send_def frame_simps)
      moreover have "emailOptOuts d' = emailOptOuts d \<or>
          emailOptOuts d' = emailOptOuts (setReasked org (lower e) (Some (cx_now cx)) d)"
        using Slot logs d' by (simp add: frame_simps) (simp add: setReasked_def)
      ultimately show ?thesis using row(4) by blast
    qed (use logs d' in simp_all)
  qed
  then show ?thesis
    unfolding d'_def claim_def
    by (fastforce simp: Let_def frame_simps split: option.splits if_splits)
qed

lemma invite_logs:
  fixes cx limit cap org email d
  defines "d' \<equiv> snd (claimInvitationSend cx limit cap org email d)"
  shows "emailOptOuts d' = emailOptOuts d \<and> (channelConfirmationSends d' = channelConfirmationSends d \<or>
    optOutOf org (lower email) d = None \<and> logs_send cap cx org (lower email) d d')"
proof -
  obtain c d1 where c: "claimSlot cx limit cap org (lower email) d = (c, d1)" by fastforce
  from claimSlot_logs [OF c] show ?thesis
    by (auto simp: d'_def claimInvitationSend_def Let_def c split: slot_claim.splits if_splits)
qed

lemma logs_send_within_cap:
  assumes "logs_send cap cx org email d d'"
  shows "int (unconfirmedAddresses k (cx_now cx) d') \<le> max cap (int (unconfirmedAddresses k (cx_now cx) d))"
proof -
  let ?A = "\<lambda>ss. cs_email ` set (filter (unanswered k (cx_now cx)) ss)"
  from assms obtain s where s: "channelConfirmationSends d' = channelConfirmationSends d @ [s]"
    "cs_organizationId s = org" and cap: "int (unconfirmedAddresses org (cx_now cx) d) < cap"
    by (auto simp: logs_send_def)
  show ?thesis
  proof (cases "k = org")
    case True
    have "?A (channelConfirmationSends d') \<subseteq> insert (cs_email s) (?A (channelConfirmationSends d))"
      by (auto simp: s(1))
    then have "card (?A (channelConfirmationSends d')) \<le> card (insert (cs_email s) (?A (channelConfirmationSends d)))"
      by (intro card_mono) simp_all
    also have "\<dots> \<le> Suc (card (?A (channelConfirmationSends d)))" by (simp add: card_insert_if)
    finally show ?thesis using cap True by (simp add: unconfirmedAddresses_def)
  next
    case False
    then have "filter (unanswered k (cx_now cx)) (channelConfirmationSends d') =
        filter (unanswered k (cx_now cx)) (channelConfirmationSends d)"
      using s by (simp add: unanswered_def)
    then show ?thesis by (simp add: unconfirmedAddresses_def)
  qed
qed

text \<open>Every step either adds no unconfirmed send or logs one under the cap.\<close>

lemma consent_step_sends:
  "adds_no_send d (consent_step limit cap cx st d) \<or>
   (\<exists>org email. logs_send cap cx org email d (consent_step limit cap cx st d))"
proof (cases st)
  case (Request queue ch org who)
  then show ?thesis using claim_logs [of cx limit cap queue ch org who d] by (auto intro: adds_no_send_same)
next
  case (Invite org email)
  then show ?thesis using invite_logs [of cx limit cap org email d] by (auto intro: adds_no_send_same)
next
  case (SendQueued mail org ch p)
  then show ?thesis using sendQueued_adds by simp
next
  case (Undo ch org p)
  then show ?thesis by (simp add: adds_no_send_def undoClaim_sends)
next
  case (Release k)
  then show ?thesis by (simp add: adds_no_send_def releaseSend_sends)
next
  case (Confirm token)
  have "adds_no_send d (snd (confirmChannel cx token d))"
    unfolding confirmChannel_def Let_def snd_conv
    by (auto split: option.split intro!: adds_no_send_same adds_no_send_trans [OF adds_no_send_same markConfirmed_adds])
  with Confirm show ?thesis by simp
next
  case (MemberVerified email)
  then show ?thesis
    by (simp add: confirmMemberAddress_def Let_def)
      (rule disjI1, rule adds_no_send_trans [OF adds_no_send_same fold_markConfirmed_adds], simp)
next
  case (Unsubscribe token)
  then show ?thesis
    by (auto simp: unsubscribe_def optOutAddress_def Let_def intro!: adds_no_send_same split: option.splits)
next
  case (UnsubscribeInvitation k)
  then show ?thesis
    by (auto simp: unsubscribeInvitation_def optOutAddress_def Let_def intro!: adds_no_send_same split: option.splits)
next
  case (InvitationAccepted org email)
  then show ?thesis by (simp add: markInvitationAccepted_def freeSlot_adds)
next
  case Prune
  then show ?thesis by (simp add: pruneChannelConfirmationSends_def Let_def delete_adds)
qed

text \<open>
  C18: An organization never has more unanswered emails than its cap: through any sequence of
  requests, invitations, sends, undone claims, answers and prunings, the addresses with an
  unconfirmed email of the last week number at most the cap, or what they numbered at the start.
  So concurrent requests, recreated channels and readdressed ones gain nothing.
\<close>

theorem pending_cap_held:
  assumes "sorted (map (\<lambda>(cx, st). cx_now cx) sts)" "\<And>cx st. (cx, st) \<in> set sts \<Longrightarrow> t \<le> cx_now cx \<and> cx_now cx \<le> u"
    and "t \<le> u" "int (unconfirmedAddresses org t d) \<le> cap"
  shows "int (unconfirmedAddresses org u (consent_run limit cap sts d)) \<le> cap"
  using assms
proof (induction sts arbitrary: d t)
  case Nil
  then show ?case using unconfirmedAddresses_later [of t u org d] by simp
next
  case (Cons s sts)
  obtain cx st where s: "s = (cx, st)" by fastforce
  let ?d = "consent_step limit cap cx st d"
  have now: "t \<le> cx_now cx" "cx_now cx \<le> u" using Cons.prems(2) s by auto
  then have before: "int (unconfirmedAddresses org (cx_now cx) d) \<le> cap"
    using unconfirmedAddresses_later [OF now(1), of org d] Cons.prems(4) by linarith
  have "int (unconfirmedAddresses org (cx_now cx) ?d) \<le> cap"
    using consent_step_sends [of d limit cap cx st]
  proof (elim disjE exE)
    assume "adds_no_send d ?d"
    from adds_no_send_fewer [OF this, of org "cx_now cx"] before show ?thesis by linarith
  next
    fix org' email assume "logs_send cap cx org' email d ?d"
    from logs_send_within_cap [OF this, of org] before show ?thesis by linarith
  qed
  then show ?case
    using Cons.IH [of "cx_now cx" ?d] Cons.prems(1,2) now(2) by (fastforce simp: s)
qed

definition example_stranger :: notificationChannel_row where
  "example_stranger = \<lparr>ch_id = ''c'', ch_organizationId = ''o'', ch_name = ''mail'', ch_type = EmailChannel,
     ch_config = \<lparr>cfg_email = Some ''A@b.c'', cfg_webhookUrl = None, cfg_channel = None,
       cfg_discordWebhookUrl = None, cfg_url = None, cfg_method = None, cfg_headers = None,
       cfg_bodyTemplate = None\<rparr>, ch_enabled = True, ch_token = Some ''tok'', ch_confirmationSentAt = None,
     ch_verifiedAt = None, ch_unsubscribedAt = None, ch_reaskedAt = None, ch_createdAt = 0, ch_updatedAt = 0\<rparr>"

definition example_requester :: requester where
  "example_requester = \<lparr>by_email = ''me@b.c'', by_emailVerified = True\<rparr>"

definition example_consent_db :: db where
  "example_consent_db = empty_db\<lparr>notificationChannels := [example_stranger]\<rparr>"

lemma pending_cap_held_witness:
  "int (unconfirmedAddresses ''o'' 20 (consent_run 0 5
     [(example_ctx 10, Request True ''c'' ''o'' example_requester), (example_ctx 20, Invite ''o'' ''x@y.z'')]
     example_consent_db)) \<le> 5"
  by (rule pending_cap_held [where t = 0])
    (auto simp: unconfirmedAddresses_def example_consent_db_def empty_db_def)

section \<open>A second opt-out is final\<close>

text \<open>An address that opted out of an organization's mail and has had its one further request.\<close>

definition asked_out :: "id \<Rightarrow> string \<Rightarrow> db \<Rightarrow> bool" where
  "asked_out org email d \<longleftrightarrow> (org, email) \<in> opt_out_key ` set (emailOptOuts d) \<and>
     (\<forall>q\<in>set (emailOptOuts d). opt_out_key q = (org, email) \<longrightarrow>
        oo_unsubscribedAt q \<noteq> None \<and> oo_reaskedAt q \<noteq> None)"

definition mailed :: "id \<Rightarrow> string \<Rightarrow> db \<Rightarrow> id set" where
  "mailed org email d = cs_id ` set (filter (\<lambda>s. cs_organizationId s = org \<and> cs_email s = email)
     (channelConfirmationSends d))"

text \<open>
  The steps that open an address again: its owner confirms, or the one further request failed to go
  out and is given back.
\<close>

fun reopens :: "ctx \<Rightarrow> id \<Rightarrow> string \<Rightarrow> db \<Rightarrow> consent_op \<Rightarrow> bool" where
  "reopens cx org email d (Confirm token) =
     (\<exists>c\<in>set (notificationChannels d). confirmable cx token c \<and> ch_organizationId c = org \<and>
        on_some (\<lambda>e. lower e = email) (channel_email c))"
| "reopens cx org email d (Undo ch org' p) = (pn_reasked p \<and> org' = org \<and> lower (pn_email p) = email)"
| "reopens cx org email d (SendQueued mail org' ch p) = (pn_reasked p \<and> org' = org \<and> lower (pn_email p) = email)"
| "reopens cx org email d _ = False"

fun stays_closed :: "int \<Rightarrow> int \<Rightarrow> id \<Rightarrow> string \<Rightarrow> (ctx \<times> consent_op) list \<Rightarrow> db \<Rightarrow> bool" where
  "stays_closed limit cap org email [] d = True"
| "stays_closed limit cap org email ((cx, st) # sts) d =
    (\<not> reopens cx org email d st \<and> stays_closed limit cap org email sts (consent_step limit cap cx st d))"

lemma asked_out_cong: "emailOptOuts d' = emailOptOuts d \<Longrightarrow> asked_out org email d' = asked_out org email d"
  by (simp add: asked_out_def)

lemma asked_out_optOutOf:
  assumes "asked_out org email d"
  shows "on_some (\<lambda>q. oo_reaskedAt q \<noteq> None) (optOutOf org email d)"
proof -
  from assms obtain q where "q \<in> set (emailOptOuts d)" "opt_out_key q = (org, email)" by (auto simp: asked_out_def)
  with assms have "optOutOf org email d \<noteq> None"
    by (auto simp: optOutOf_def asked_out_def opt_out_key_def filter_empty_conv)
  then obtain r where r: "optOutOf org email d = Some r" by blast
  from first_row_filter_in [OF r [unfolded optOutOf_def]] assms r show ?thesis
    by (simp add: asked_out_def opt_out_key_def)
qed

lemma asked_out_opted_out: "asked_out org email d \<Longrightarrow> opted_out org email d"
  by (force simp: asked_out_def opted_out_def opt_out_key_def)

lemma asked_out_update:
  assumes "asked_out org email d"
    and "\<And>q. opt_out_key (f q) = opt_out_key q"
    and "\<And>q. P q \<Longrightarrow> opt_out_key q = (org, email) \<Longrightarrow> oo_unsubscribedAt q \<noteq> None \<Longrightarrow> oo_reaskedAt q \<noteq> None \<Longrightarrow>
        oo_unsubscribedAt (f q) \<noteq> None \<and> oo_reaskedAt (f q) \<noteq> None"
    and "emailOptOuts d' = update_where P f (emailOptOuts d)"
  shows "asked_out org email d'"
proof -
  have "opt_out_key ` set (emailOptOuts d') = opt_out_key ` set (emailOptOuts d)"
  proof -
    have "map opt_out_key (emailOptOuts d') = map opt_out_key (emailOptOuts d)"
      unfolding assms(4) by (rule map_update_where) (simp add: assms(2))
    then show ?thesis by (metis list.set_map)
  qed
  moreover have "oo_unsubscribedAt r \<noteq> None \<and> oo_reaskedAt r \<noteq> None"
    if r: "r \<in> set (emailOptOuts d')" "opt_out_key r = (org, email)" for r
  proof -
    from r(1) obtain q where q: "q \<in> set (emailOptOuts d)" "if P q then r = f q else r = q"
      unfolding assms(4) in_update_where_iff by blast
    then have "opt_out_key q = (org, email)" using r(2) assms(2) by (cases "P q") simp_all
    with assms(1) q(1) have "oo_unsubscribedAt q \<noteq> None" "oo_reaskedAt q \<noteq> None" by (auto simp: asked_out_def)
    with assms(3) [of q] q(2) \<open>opt_out_key q = _\<close> show ?thesis by (cases "P q") simp_all
  qed
  ultimately show ?thesis using assms(1) unfolding asked_out_def by blast
qed

lemma asked_out_setReasked:
  "asked_out org email d \<Longrightarrow> x \<noteq> None \<or> (org', email') \<noteq> (org, email) \<Longrightarrow> asked_out org email (setReasked org' email' x d)"
  by (erule asked_out_update) (auto simp: setReasked_def opt_out_key_def)

lemma asked_out_markConfirmed:
  "asked_out org email d \<Longrightarrow> (org', email') \<noteq> (org, email) \<Longrightarrow> asked_out org email (markConfirmed cx org' email' d)"
  by (erule asked_out_update) (auto simp: markConfirmed_def freeSlot_def Let_def opt_out_key_def)

lemma asked_out_upsert:
  assumes "asked_out org email d"
    and "emailOptOuts d' = upsert opt_out_key (\<lambda>q. q\<lparr>oo_unsubscribedAt := Some t\<rparr>)
      \<lparr>oo_organizationId = org', oo_email = email', oo_unsubscribedAt = Some t, oo_reaskedAt = None\<rparr> (emailOptOuts d)"
  shows "asked_out org email d'"
proof (cases "(org', email') \<in> opt_out_key ` set (emailOptOuts d)")
  case True
  then have "emailOptOuts d' = update_where (\<lambda>q. opt_out_key q = (org', email')) (\<lambda>q. q\<lparr>oo_unsubscribedAt := Some t\<rparr>)
      (emailOptOuts d)" using assms(2) by (simp add: upsert_def opt_out_key_def)
  from asked_out_update [OF assms(1) _ _ this] show ?thesis by (auto simp: opt_out_key_def)
next
  case False
  with assms show ?thesis by (force simp: upsert_def opt_out_key_def asked_out_def)
qed

lemma undoClaim_outs:
  "emailOptOuts (undoClaim ch org p d) =
    (if pn_reasked p then emailOptOuts (setReasked org (lower (pn_email p)) None d) else emailOptOuts d)"
  by (simp add: undoClaim_def Let_def frame_simps) (simp add: setReasked_def releaseUnsent_def)

lemma asked_out_undo:
  "asked_out org email d \<Longrightarrow> \<not> (pn_reasked p \<and> org' = org \<and> lower (pn_email p) = email) \<Longrightarrow>
   asked_out org email (undoClaim ch org' p d)"
  using asked_out_setReasked [of org email d None org' "lower (pn_email p)"]
    asked_out_cong [of "undoClaim ch org' p d" d org email]
    asked_out_cong [of "undoClaim ch org' p d" "setReasked org' (lower (pn_email p)) None d" org email]
  by (cases "pn_reasked p") (simp_all add: undoClaim_outs)

lemma sendQueued_outs:
  "emailOptOuts (snd (sendQueued cx mail org ch p d)) \<in>
    {emailOptOuts d, emailOptOuts (undoClaim ch org p d)}"
  by (auto simp: sendQueued_def deliver_def releaseSend_def Let_def undoClaim_outs setReasked_def frame_simps split: option.splits)

lemma asked_out_confirm:
  assumes "asked_out org email d" "\<not> reopens cx org email d (Confirm token)"
  shows "asked_out org email (snd (confirmChannel cx token d))"
proof -
  let ?d1 = "d\<lparr>notificationChannels := update_where (confirmable cx token)
    (\<lambda>c. c\<lparr>ch_verifiedAt := Some (cx_now cx)\<rparr>) (notificationChannels d)\<rparr>"
  have d1: "asked_out org email ?d1" using assms(1) by (simp add: asked_out_def)
  have "asked_out org email (markConfirmed cx (ch_organizationId c) (lower e) ?d1)"
    if "first_row (filter (confirmable cx token) (notificationChannels d)) = Some c" "channel_email c = Some e" for c e
  proof (rule asked_out_markConfirmed [OF d1])
    from first_row_filter_in [OF that(1)] have "c \<in> set (notificationChannels d)" "confirmable cx token c" by simp_all
    with assms(2) that(2) show "(ch_organizationId c, lower e) \<noteq> (org, email)" by auto
  qed
  with d1 show ?thesis
    unfolding confirmChannel_def Let_def snd_conv by (auto split: option.split)
qed

lemma asked_out_member:
  assumes "asked_out org email d"
  shows "asked_out org email (confirmMemberAddress cx e d)"
proof -
  let ?d1 = "d\<lparr>notificationChannels := update_where (member_confirms (lower e) d)
    (\<lambda>c. c\<lparr>ch_verifiedAt := Some (cx_now cx)\<rparr>) (notificationChannels d)\<rparr>"
  let ?orgs = "unique (map ch_organizationId (filter (member_confirms (lower e) d) (notificationChannels d)))"
  have "asked_out org email (fold (\<lambda>k. markConfirmed cx k (lower e)) ?orgs ?d1)"
  proof (rule fold_invariant)
    show "asked_out org email ?d1" using assms by (simp add: asked_out_def)
  next
    fix k d' assume k: "k \<in> set ?orgs" and d': "asked_out org email d'"
    from k have "\<not> opted_out k (lower e) d" by (auto simp: member_confirms_def)
    with asked_out_opted_out [OF assms] have "(k, lower e) \<noteq> (org, email)" by auto
    with d' show "asked_out org email (markConfirmed cx k (lower e) d')" by (rule asked_out_markConfirmed)
  qed
  then show ?thesis by (simp add: confirmMemberAddress_def Let_def)
qed

lemma optOutAddress_frame:
  assumes "optOutAddress cx org' email' ra d = (r, n, c, d')"
  shows "asked_out org email d \<Longrightarrow> asked_out org email d'"
    "channelConfirmationSends d' = channelConfirmationSends d"
proof -
  from assms have outs: "emailOptOuts d' = upsert opt_out_key (\<lambda>q. q\<lparr>oo_unsubscribedAt := Some (cx_now cx)\<rparr>)
      \<lparr>oo_organizationId = org', oo_email = email', oo_unsubscribedAt = Some (cx_now cx), oo_reaskedAt = None\<rparr> (emailOptOuts d)"
    "channelConfirmationSends d' = channelConfirmationSends d"
    by (auto simp: optOutAddress_def Let_def)
  show "asked_out org email d \<Longrightarrow> asked_out org email d'" using outs(1) by (rule asked_out_upsert [rotated])
  show "channelConfirmationSends d' = channelConfirmationSends d" by (rule outs(2))
qed

lemma mailed_simps:
  "channelConfirmationSends d' = channelConfirmationSends d \<Longrightarrow> mailed org email d' = mailed org email d"
  "channelConfirmationSends d' = delete_where P (channelConfirmationSends d) \<Longrightarrow> mailed org email d' \<subseteq> mailed org email d"
  by (auto simp: mailed_def)

lemma mailed_freeSlot: "mailed org email (freeSlot cx org' email' d) = mailed org email d"
proof -
  have "map cs_id (filter (\<lambda>s. cs_organizationId s = org \<and> cs_email s = email) (update_where P
      (\<lambda>s. s\<lparr>cs_confirmedAt := x\<rparr>) ss)) =
    map cs_id (filter (\<lambda>s. cs_organizationId s = org \<and> cs_email s = email) ss)" for P x ss
    by (induction ss) auto
  from arg_cong [OF this, of set] show ?thesis unfolding mailed_def freeSlot_def set_map by (simp del: set_filter)
qed

lemma mailed_markConfirmed: "mailed org email (markConfirmed cx org' email' d) = mailed org email d"
  using mailed_freeSlot [of org email cx org' email' d] by (simp add: markConfirmed_def Let_def mailed_def)

lemma mailed_logs:
  "logs_send cap cx org' email' d d' \<Longrightarrow> (org', email') \<noteq> (org, email) \<Longrightarrow> mailed org email d' = mailed org email d"
  by (auto simp: logs_send_def mailed_def)

text \<open>One step that does not reopen the address mails nothing to it and leaves it closed.\<close>

lemma closed_step:
  assumes a: "asked_out org email d" and r: "\<not> reopens cx org email d st"
  shows "asked_out org email (consent_step limit cap cx st d) \<and>
    mailed org email (consent_step limit cap cx st d) \<subseteq> mailed org email d"
proof (cases st)
  case (Request queue ch org' who)
  let ?d = "snd (claim cx limit cap queue ch org' who d)"
  from claim_logs [of cx limit cap queue ch org' who d] show ?thesis
  proof (elim disjE exE conjE)
    assume "channelConfirmationSends ?d = channelConfirmationSends d" "emailOptOuts ?d = emailOptOuts d"
    with a Request show ?thesis by (simp add: asked_out_def mailed_def)
  next
    fix email' assume *: "\<not> on_some (\<lambda>q. oo_reaskedAt q \<noteq> None) (optOutOf org' email' d)"
      "logs_send cap cx org' email' d ?d"
    with asked_out_optOutOf [OF a] have ne: "(org', email') \<noteq> (org, email)" by auto
    { assume "emailOptOuts ?d = emailOptOuts d"
      with a mailed_logs [OF *(2) ne] Request show ?thesis by (simp add: asked_out_def) }
    { assume "emailOptOuts ?d = emailOptOuts (setReasked org' email' (Some (cx_now cx)) d)"
      with asked_out_setReasked [OF a, of "Some (cx_now cx)" org' email'] asked_out_cong
      have "asked_out org email ?d" by blast
      with mailed_logs [OF *(2) ne] Request show ?thesis by simp }
  qed
next
  case (Invite org' e)
  let ?d = "snd (claimInvitationSend cx limit cap org' e d)"
  from invite_logs [of cx limit cap org' e d] asked_out_cong a have "asked_out org email ?d" by blast
  moreover have "mailed org email ?d \<subseteq> mailed org email d"
  proof (cases "channelConfirmationSends ?d = channelConfirmationSends d")
    case False
    with invite_logs [of cx limit cap org' e d] have *: "optOutOf org' (lower e) d = None"
      "logs_send cap cx org' (lower e) d ?d" by auto
    with asked_out_optOutOf [OF a] have "(org', lower e) \<noteq> (org, email)" by auto
    from mailed_logs [OF *(2) this] show ?thesis by simp
  qed (simp add: mailed_def)
  ultimately show ?thesis using Invite by simp
next
  case (SendQueued mail org' ch p)
  let ?d = "snd (sendQueued cx mail org' ch p d)"
  have u: "asked_out org email (undoClaim ch org' p d)" using asked_out_undo [OF a] r SendQueued by auto
  have "asked_out org email ?d"
    using sendQueued_outs [of cx mail org' ch p d] u a by (auto simp: asked_out_def)
  moreover have "mailed org email ?d \<subseteq> mailed org email d"
    by (auto simp: sendQueued_def deliver_def Let_def mailed_def undoClaim_sends releaseSend_sends frame_simps
        split: option.splits)
  ultimately show ?thesis using SendQueued by simp
next
  case (Undo ch org' p)
  with asked_out_undo [OF a] r mailed_simps(2) [OF undoClaim_sends] show ?thesis by auto
next
  case (Release k)
  have "emailOptOuts (releaseSend k d) = emailOptOuts d" by (simp add: releaseSend_def frame_simps)
  with a Release mailed_simps(2) [OF releaseSend_sends] show ?thesis by (simp add: asked_out_def)
next
  case (Confirm token)
  have "mailed org email (snd (confirmChannel cx token d)) = mailed org email d"
    unfolding confirmChannel_def Let_def snd_conv
    by (auto simp: mailed_markConfirmed split: option.split) (simp_all add: mailed_def)
  with asked_out_confirm [OF a] r Confirm show ?thesis by simp
next
  case (MemberVerified e)
  have "mailed org email (confirmMemberAddress cx e d) = mailed org email d"
    unfolding confirmMemberAddress_def Let_def
    by (subst fold_frame [where g = "mailed org email"]) (simp_all add: mailed_markConfirmed, simp add: mailed_def)
  with asked_out_member [OF a] MemberVerified show ?thesis by simp
next
  case (Unsubscribe token)
  show ?thesis
    using a optOutAddress_frame by (auto simp: Unsubscribe unsubscribe_def Let_def mailed_def split: option.splits prod.splits)
next
  case (UnsubscribeInvitation k)
  show ?thesis
    using a optOutAddress_frame
    by (auto simp: UnsubscribeInvitation unsubscribeInvitation_def Let_def mailed_def split: option.splits prod.splits)
next
  case (InvitationAccepted org' e)
  have "emailOptOuts (freeSlot cx org' (lower e) d) = emailOptOuts d" by (simp add: freeSlot_def)
  with a InvitationAccepted show ?thesis by (simp add: markInvitationAccepted_def mailed_freeSlot asked_out_def)
next
  case Prune
  with a show ?thesis by (auto simp: pruneChannelConfirmationSends_def Let_def asked_out_def mailed_def)
qed


definition example_closed_db :: db where
  "example_closed_db = example_consent_db\<lparr>emailOptOuts := [\<lparr>oo_organizationId = ''o'', oo_email = ''a@b.c'',
     oo_unsubscribedAt = Some 1, oo_reaskedAt = Some 2\<rparr>]\<rparr>"


end
