(* ===== verification/Subscribers.thy ===== *)
theory Subscribers
  imports EmailChannels
begin

text \<open>
  Status page subscribers: the double opt-in of
  \<open>lib/server/services/status-page-subscriber.service.ts\<close>, and the incident emails of
  \<open>lib/server/notifications/subscribers.ts\<close>, which claim each subscriber before they send.

  The mail server is a parameter, its failure for each email.  The inserts and deletes the code
  splits into chunks to bound a statement's parameters are one statement here.
\<close>

section \<open>Subscribing\<close>

(* src/src/lib/server/services/status-page-subscriber.service.ts:17-18 CONFIRMATION_TTL_HOURS *)
definition SUBSCRIBER_CONFIRMATION_TTL_MS :: int where
  "SUBSCRIBER_CONFIRMATION_TTL_MS = 48 * 60 * 60000"

(* src/src/lib/server/services/status-page-subscriber.service.ts:21-25 RESEND_INTERVAL_MS *)
definition SUBSCRIBER_RESEND_INTERVAL_MS :: int where
  "SUBSCRIBER_RESEND_INTERVAL_MS = 24 * 60 * 60000"

(* src/src/lib/server/services/status-page-subscriber.service.ts:27-27 SubscriberState *)
datatype subscriber_state = SubscriberPending | SubscriberConfirmed

(* src/src/lib/server/services/status-page-subscriber.service.ts:31-31 SubscribeResult *)
datatype subscribe_result = SubscribeSent | SubscribeCapped | SubscribePaused

(* src/src/lib/server/notifications/subscribers.ts:36-43 subscriberEmailGated *)
definition subscriberEmailGated :: "env \<Rightarrow> bool" where
  "subscriberEmailGated env \<longleftrightarrow> env ''UPPITY_GATE_SUBSCRIBER_EMAIL'' = Some ''true'' \<and> \<not> isSelfHosted env"

(* src/src/lib/server/notifications/subscribers.ts:45-63 subscriberEmailEnabled *)
definition subscriberEmailEnabled :: "env \<Rightarrow> id \<Rightarrow> db \<Rightarrow> bool" where
  "subscriberEmailEnabled env org d = (
     if \<not> subscriberEmailGated env then True
     else (case first_row (filter (\<lambda>x. org_id x = org) (organizations d)) of
         None \<Rightarrow> False
       | Some x \<Rightarrow> org_subscriberEmailEnabled x))"

text \<open>The confirmations a page sent in the window, and the cap that its confirmed subscribers earn it.\<close>

definition confirmations_sent :: "id \<Rightarrow> time \<Rightarrow> db \<Rightarrow> int" where
  "confirmations_sent page since d = int (length (filter (\<lambda>s. ps_statusPageId s = page \<and>
     on_some (\<lambda>t. t > since) (ps_confirmationSentAt s)) (statusPageSubscribers d)))"

definition confirmation_limit :: "confirmation_cap \<Rightarrow> id \<Rightarrow> db \<Rightarrow> int" where
  "confirmation_limit cap page d = (
     let confirmed = int (length (filter (\<lambda>s. ps_statusPageId s = page \<and> ps_verifiedAt s \<noteq> None)
       (statusPageSubscribers d))) in
     min (cap_max cap) (max (cap_base cap) (confirmed * cap_percentOfConfirmed cap div 100)))"

definition subscriber_key :: "statusPageSubscriber_row \<Rightarrow> id \<times> string" where
  "subscriber_key s = (ps_statusPageId s, ps_email s)"

definition resendable :: "time \<Rightarrow> statusPageSubscriber_row \<Rightarrow> bool" where
  "resendable since s \<longleftrightarrow> ps_verifiedAt s = None \<and>
     (ps_confirmationSentAt s = None \<or> on_some (\<lambda>t. t < since) (ps_confirmationSentAt s))"

text \<open>
  The insert, or the update of the row the page has for the address when that row may be sent a link
  again; the row written, if one was.
\<close>

definition claim_subscriber ::
  "ctx \<Rightarrow> id \<Rightarrow> string \<Rightarrow> time \<Rightarrow> db \<Rightarrow> statusPageSubscriber_row option \<times> db" where
  "claim_subscriber cx page address since d = (
     let new = \<lparr>ps_id = cx_nanoid cx (drawn d), ps_statusPageId = page, ps_email = address,
           ps_token = cx_nanoid cx (Suc (drawn d)), ps_confirmationSentAt = Some (cx_now cx),
           ps_verifiedAt = None, ps_createdAt = cx_now cx\<rparr>;
         d1 = draw (draw d) in
     case first_row (filter (\<lambda>s. subscriber_key s = (page, address)) (statusPageSubscribers d)) of
       None \<Rightarrow> (Some new, d1\<lparr>statusPageSubscribers := statusPageSubscribers d @ [new]\<rparr>)
     | Some old \<Rightarrow>
         if resendable since old then
           (Some (old\<lparr>ps_confirmationSentAt := Some (cx_now cx)\<rparr>),
            d1\<lparr>statusPageSubscribers := update_where (\<lambda>s. subscriber_key s = (page, address))
              (\<lambda>s. s\<lparr>ps_confirmationSentAt := Some (cx_now cx)\<rparr>) (statusPageSubscribers d)\<rparr>)
         else (None, d1))"

definition recorded_send :: "ctx \<Rightarrow> string \<Rightarrow> db \<Rightarrow> id \<times> db" where
  "recorded_send cx address d = (let sendId = cx_nanoid cx (drawn d) in
     (sendId, recordSend cx sendId None address (draw d)))"

text \<open>The transaction: the result, or the row that was claimed and the id of its send.\<close>

definition subscribe_claim ::
  "ctx \<Rightarrow> int \<Rightarrow> confirmation_cap \<Rightarrow> id \<Rightarrow> id \<Rightarrow> string \<Rightarrow> db \<Rightarrow>
   (subscribe_result + statusPageSubscriber_row \<times> id) \<times> db" where
  "subscribe_claim cx limit cap page org address d = (
     let since = cx_now cx - SUBSCRIBER_RESEND_INTERVAL_MS in
     if \<not> subscriberEmailEnabled (cx_env cx) org d then (Inl SubscribePaused, d)
     else if confirmations_sent page since d \<ge> confirmation_limit cap page d then (Inl SubscribeCapped, d)
     else (case refusal cx limit True org address d of
         (Some Suppressed, d1) \<Rightarrow> (Inl SubscribeSent, d1)
       | (Some _, d1) \<Rightarrow> (Inl SubscribePaused, d1)
       | (None, d1) \<Rightarrow> (case claim_subscriber cx page address since d1 of
           (None, d2) \<Rightarrow> (Inl SubscribeSent, d2)
         | (Some row, d2) \<Rightarrow> (let (sendId, d3) = recorded_send cx address d2 in (Inr (row, sendId), d3)))))"

text \<open>The mail server's failure for an address and a token, thrown to the caller: \<open>Inl\<close>.\<close>

(* src/src/lib/server/services/status-page-subscriber.service.ts:46-127 subscribe *)
definition subscribe ::
  "ctx \<Rightarrow> int \<Rightarrow> confirmation_cap \<Rightarrow> (string \<Rightarrow> string \<Rightarrow> string option) \<Rightarrow> id \<Rightarrow> id \<Rightarrow> string \<Rightarrow> db \<Rightarrow>
   (string + subscribe_result) \<times> db" where
  "subscribe cx limit cap mail page org email d = (
     let address = lower (trim email) in
     case subscribe_claim cx limit cap page org address d of
       (Inl r, d1) \<Rightarrow> (Inr r, d1)
     | (Inr (row, sendId), d1) \<Rightarrow> (case mail address (ps_token row) of
           None \<Rightarrow> (Inr SubscribeSent, d1)
         | Some failure \<Rightarrow> (Inl failure, releaseUnsent sendId (d1\<lparr>statusPageSubscribers := update_where
               (\<lambda>s. ps_id s = ps_id row) (\<lambda>s. s\<lparr>ps_confirmationSentAt := None\<rparr>)
               (statusPageSubscribers d1)\<rparr>))))"

(* src/src/lib/server/services/status-page-subscriber.service.ts:129-141 pageIdFor *)
definition pageIdFor :: "env \<Rightarrow> string \<Rightarrow> db \<Rightarrow> id option" where
  "pageIdFor env token d = (case first_row (inner_join (\<lambda>s p. p_id p = ps_statusPageId s)
       (filter (\<lambda>s. ps_token s = token) (statusPageSubscribers d)) (statusPages d)) of
      None \<Rightarrow> None
    | Some (s, p) \<Rightarrow> if subscriberEmailEnabled env (p_organizationId p) d then Some (ps_statusPageId s) else None)"

definition subscriberCutoff :: "ctx \<Rightarrow> time" where
  "subscriberCutoff cx = cx_now cx - SUBSCRIBER_CONFIRMATION_TTL_MS"

(* src/src/lib/server/services/status-page-subscriber.service.ts:143-156 lookup *)
definition lookupSubscriber :: "ctx \<Rightarrow> id \<Rightarrow> string \<Rightarrow> db \<Rightarrow> subscriber_state option" where
  "lookupSubscriber cx page token d =
     (case first_row (filter (\<lambda>s. ps_statusPageId s = page \<and> ps_token s = token) (statusPageSubscribers d)) of
        None \<Rightarrow> None
      | Some s \<Rightarrow>
          if ps_verifiedAt s \<noteq> None then Some SubscriberConfirmed
          else if on_some (\<lambda>t. t > subscriberCutoff cx) (ps_confirmationSentAt s) then Some SubscriberPending
          else None)"

definition confirmable_subscriber :: "ctx \<Rightarrow> id \<Rightarrow> string \<Rightarrow> statusPageSubscriber_row \<Rightarrow> bool" where
  "confirmable_subscriber cx page token s \<longleftrightarrow> ps_statusPageId s = page \<and> ps_token s = token \<and>
     ps_verifiedAt s = None \<and> on_some (\<lambda>t. t > subscriberCutoff cx) (ps_confirmationSentAt s)"

(* src/src/lib/server/services/status-page-subscriber.service.ts:158-175 confirm *)
definition confirmSubscriber :: "ctx \<Rightarrow> id \<Rightarrow> string \<Rightarrow> db \<Rightarrow> bool \<times> db" where
  "confirmSubscriber cx page token d = (
     let d1 = d\<lparr>statusPageSubscribers := update_where (confirmable_subscriber cx page token)
           (\<lambda>s. s\<lparr>ps_verifiedAt := Some (cx_now cx)\<rparr>) (statusPageSubscribers d)\<rparr> in
     (filter (confirmable_subscriber cx page token) (statusPageSubscribers d) \<noteq> [] \<or>
      lookupSubscriber cx page token d1 = Some SubscriberConfirmed, d1))"

(* src/src/lib/server/services/status-page-subscriber.service.ts:177-181 unsubscribe *)
definition unsubscribeSubscriber :: "id \<Rightarrow> string \<Rightarrow> db \<Rightarrow> db" where
  "unsubscribeSubscriber page token d = d\<lparr>statusPageSubscribers :=
     delete_where (\<lambda>s. ps_statusPageId s = page \<and> ps_token s = token) (statusPageSubscribers d)\<rparr>"

(* src/src/lib/server/services/status-page-subscriber.service.ts:186-199 deleteExpiredUnconfirmedSubscribers *)
definition deleteExpiredUnconfirmedSubscribers :: "ctx \<Rightarrow> db \<Rightarrow> nat \<times> db" where
  "deleteExpiredUnconfirmedSubscribers cx d = (
     let gone = (\<lambda>s. ps_verifiedAt s = None \<and> (ps_confirmationSentAt s = None \<or>
           on_some (\<lambda>t. t < subscriberCutoff cx) (ps_confirmationSentAt s))) in
     (length (filter gone (statusPageSubscribers d)),
      d\<lparr>statusPageSubscribers := delete_where gone (statusPageSubscribers d)\<rparr>))"

(* src/src/lib/server/services/status-page-subscriber.service.ts:201-218 deleteSuppressedSubscribers *)
definition deleteSuppressedSubscribers :: "ctx \<Rightarrow> db \<Rightarrow> nat \<times> db" where
  "deleteSuppressedSubscribers cx d = (
     let cutoff = cx_now cx - SUPPRESSED_SUBSCRIBER_RETENTION_DAYS (cx_env cx) * 24 * 60 * 60000;
         old = map es_email (filter (\<lambda>e. es_suppressedAt e < cutoff) (emailSuppressions d));
         gone = (\<lambda>s. ps_email s \<in> set old) in
     (length (filter gone (statusPageSubscribers d)),
      d\<lparr>statusPageSubscribers := delete_where gone (statusPageSubscribers d)\<rparr>))"

section \<open>Incident emails\<close>

(* src/src/lib/server/notifications/types.ts:34-39 LateDelivery *)
record late_delivery =
  ld_minutes :: int
  ld_now :: "string option"

text \<open>What one email to a subscriber carries.\<close>

record subscriber_email =
  se_subscriber :: id
  se_email :: string
  se_token :: string
  se_pageName :: string
  se_pageSlug :: string
  se_incident :: incident_row
  se_kind :: notificationType
  se_message :: "string option"
  se_late :: "late_delivery option"

(* src/src/lib/server/notifications/subscribers.ts:27-34 SubscriberRound *)
record subscriber_round =
  sr_sent :: nat
  sr_failures :: "string list"
  sr_retrying :: "string list"
  sr_mailServerDown :: bool

definition unsuppressed :: "db \<Rightarrow> statusPageSubscriber_row \<Rightarrow> bool" where
  "unsuppressed d s \<longleftrightarrow> \<not> isSuppressed (ps_email s) d"

definition public_page :: "id \<Rightarrow> statusPageSubscriber_row \<Rightarrow> statusPage_row \<Rightarrow> bool" where
  "public_page org s p \<longleftrightarrow> p_id p = ps_statusPageId s \<and> p_isPublic p \<and> p_organizationId p = org"

(* src/src/lib/server/notifications/subscribers.ts:65-94 reachableSubscribers *)
definition reachableSubscribers :: "id \<Rightarrow> db \<Rightarrow> nat" where
  "reachableSubscribers org d = card (ps_email ` fst ` set (inner_join (public_page org)
     (filter (\<lambda>s. ps_verifiedAt s \<noteq> None \<and> unsuppressed d s) (statusPageSubscribers d)) (statusPages d)))"

text \<open>The confirmed subscribers of the public pages that show the incident.\<close>

(* src/src/lib/server/notifications/subscribers.ts:114-149 recipients *)
definition recipients :: "incident_row \<Rightarrow> db \<Rightarrow> (statusPageSubscriber_row \<times> statusPage_row) list" where
  "recipients i d = unique (map (\<lambda>(((s, p), _), _). (s, p))
     (inner_join (\<lambda>(_, pm) im. im_monitorId im = pm_monitorId pm \<and> im_incidentId im = i_id i)
       (inner_join (\<lambda>(_, p) pm. pm_statusPageId pm = p_id p)
         (inner_join (public_page (i_organizationId i))
           (filter (\<lambda>s. ps_verifiedAt s \<noteq> None \<and> unsuppressed d s) (statusPageSubscribers d)) (statusPages d))
         (statusPageMonitors d))
       (incidentMonitors d)))"

definition claimed_for :: "id \<Rightarrow> db \<Rightarrow> id set" where
  "claimed_for eventId d = sd_subscriberId ` set (filter (\<lambda>c. sd_eventId c = eventId) (statusPageSubscriberDeliveries d))"

definition claim_deliveries :: "id \<Rightarrow> id list \<Rightarrow> db \<Rightarrow> db" where
  "claim_deliveries eventId ids d = d\<lparr>statusPageSubscriberDeliveries := statusPageSubscriberDeliveries d @
     map (\<lambda>k. \<lparr>sd_eventId = eventId, sd_subscriberId = k\<rparr>) ids\<rparr>"

definition release_deliveries :: "id \<Rightarrow> id list \<Rightarrow> db \<Rightarrow> db" where
  "release_deliveries eventId ids d = d\<lparr>statusPageSubscriberDeliveries :=
     delete_where (\<lambda>c. sd_eventId c = eventId \<and> sd_subscriberId c \<in> set ids) (statusPageSubscriberDeliveries d)\<rparr>"

(* src/src/lib/server/notifications/subscribers.ts:226-234 openingMessage *)
definition openingMessage :: "id \<Rightarrow> db \<Rightarrow> string option" where
  "openingMessage incidentId d = map_option iu_message (first_row (order_desc iu_createdAt
     (filter (\<lambda>u. iu_incidentId u = incidentId) (incidentUpdates d))))"

text \<open>
  The sending loop over the claimed subscribers: the round, the claims to give back, and which emails
  the mail server took.  A mail server that is down ends it and gives back the rest.
\<close>

record send_outcome =
  so_round :: subscriber_round
  so_released :: "id list"
  so_delivered :: "id list"

definition empty_round :: subscriber_round where
  "empty_round = \<lparr>sr_sent = 0, sr_failures = [], sr_retrying = [], sr_mailServerDown = False\<rparr>"

definition subscriber_failure :: "id \<Rightarrow> mail_error \<Rightarrow> string" where
  "subscriber_failure k err = ''subscriber '' @ k @ '': '' @ mailFailureText err"

(* src/src/lib/server/notifications/subscribers.ts:183-210 round *)
fun send_round :: "(subscriber_email \<Rightarrow> mail_error option) \<Rightarrow> subscriber_email list \<Rightarrow> send_outcome \<Rightarrow> send_outcome" where
  "send_round mail [] so = so"
| "send_round mail (r # rs) so = (let rd = so_round so in
     case mail r of
       None \<Rightarrow> send_round mail rs (so\<lparr>so_round := rd\<lparr>sr_sent := sr_sent rd + 1\<rparr>,
         so_delivered := so_delivered so @ [se_subscriber r]\<rparr>)
     | Some err \<Rightarrow> (let failure = subscriber_failure (se_subscriber r) err in
         if \<not> isTransientMailFailure err then
           send_round mail rs (so\<lparr>so_round := rd\<lparr>sr_failures := sr_failures rd @ [failure]\<rparr>\<rparr>)
         else let rd1 = rd\<lparr>sr_retrying := sr_retrying rd @ [failure]\<rparr>;
                  back = so_released so @ [se_subscriber r] in
           if isMailServerDown err then
             so\<lparr>so_round := rd1\<lparr>sr_mailServerDown := True\<rparr>, so_released := back @ map se_subscriber rs\<rparr>
           else send_round mail rs (so\<lparr>so_round := rd1, so_released := back\<rparr>)))"

definition incident_email ::
  "incident_row \<Rightarrow> notificationType \<Rightarrow> string option \<Rightarrow> late_delivery option \<Rightarrow>
   statusPageSubscriber_row \<times> statusPage_row \<Rightarrow> subscriber_email" where
  "incident_email i kind message late = (\<lambda>(s, p). \<lparr>se_subscriber = ps_id s, se_email = ps_email s,
     se_token = ps_token s, se_pageName = p_name p, se_pageSlug = p_slug p, se_incident = i,
     se_kind = kind, se_message = message, se_late = late\<rparr>)"

text \<open>The round, None when no subscriber is due an email; who was emailed; and the database.\<close>

(* src/src/lib/server/notifications/subscribers.ts:96-224 notifyIncidentSubscribers *)
definition notifyIncidentSubscribers ::
  "env \<Rightarrow> (subscriber_email \<Rightarrow> mail_error option) \<Rightarrow> id \<Rightarrow> notificationType \<Rightarrow> incident_row \<Rightarrow>
   string option \<Rightarrow> late_delivery option \<Rightarrow> db \<Rightarrow> subscriber_round option \<times> id list \<times> db" where
  "notifyIncidentSubscribers env mail eventId kind i updateMessage late d = (
     if \<not> subscriberEmailEnabled env (i_organizationId i) d then (None, [], d)
     else let due = filter (\<lambda>(s, _). ps_id s \<notin> claimed_for eventId d) (recipients i d) in
       if due = [] then (None, [], d)
       else let d1 = claim_deliveries eventId (unique (map (\<lambda>(s, _). ps_id s) due)) d;
                message = (if updateMessage \<noteq> None then updateMessage
                  else if kind = Incident_created then openingMessage (i_id i) d else None);
                so = send_round mail (map (incident_email i kind message late) due)
                  \<lparr>so_round = empty_round, so_released = [], so_delivered = []\<rparr> in
         (Some (so_round so), so_delivered so, release_deliveries eventId (so_released so) d1))"

section \<open>No subscriber is emailed twice\<close>

text \<open>The primary keys the attempts rest on.\<close>

definition subscriber_keys :: "db \<Rightarrow> bool" where
  "subscriber_keys d \<longleftrightarrow> distinct (map ps_id (statusPageSubscribers d)) \<and> distinct (map p_id (statusPages d))"

lemma send_round_parts:
  "\<exists>dl rl. so_delivered (send_round mail rs so) = so_delivered so @ dl \<and>
    so_released (send_round mail rs so) = so_released so @ rl \<and>
    set dl \<union> set rl \<subseteq> se_subscriber ` set rs \<and>
    (distinct (map se_subscriber rs) \<longrightarrow> distinct dl \<and> set dl \<inter> set rl = {})"
proof (induction mail rs so rule: send_round.induct)
  case (2 mail r rs so)
  show ?case
  proof (cases "mail r")
    case None
    from 2(1) [OF refl None] obtain dl rl where parts:
      "so_delivered (send_round mail (r # rs) so) = so_delivered so @ se_subscriber r # dl"
      "so_released (send_round mail (r # rs) so) = so_released so @ rl"
      "set dl \<union> set rl \<subseteq> se_subscriber ` set rs"
      "distinct (map se_subscriber rs) \<Longrightarrow> distinct dl \<and> set dl \<inter> set rl = {}"
      by (auto simp: None Let_def)
    show ?thesis
      by (rule exI [of _ "se_subscriber r # dl"], rule exI [of _ rl]) (use parts in auto)
  next
    case (Some err)
    consider (final) "\<not> isTransientMailFailure err"
      | (down) "isTransientMailFailure err" "isMailServerDown err"
      | (later) "isTransientMailFailure err" "\<not> isMailServerDown err" by blast
    then show ?thesis
    proof cases
      case final
      from 2(2) [OF refl Some refl final] obtain dl rl where parts:
        "so_delivered (send_round mail (r # rs) so) = so_delivered so @ dl"
        "so_released (send_round mail (r # rs) so) = so_released so @ rl"
        "set dl \<union> set rl \<subseteq> se_subscriber ` set rs"
        "distinct (map se_subscriber rs) \<Longrightarrow> distinct dl \<and> set dl \<inter> set rl = {}"
        by (auto simp: Some final Let_def)
      show ?thesis
        by (rule exI [of _ dl], rule exI [of _ rl]) (use parts in auto)
    next
      case down
      show ?thesis
        by (rule exI [of _ "[]"], rule exI [of _ "se_subscriber r # map se_subscriber rs"]) (auto simp: Some down Let_def)
    next
      case later
      from 2(3) [OF refl Some refl _ refl refl later(2)] later obtain dl rl where parts:
        "so_delivered (send_round mail (r # rs) so) = so_delivered so @ dl"
        "so_released (send_round mail (r # rs) so) = so_released so @ se_subscriber r # rl"
        "set dl \<union> set rl \<subseteq> se_subscriber ` set rs"
        "distinct (map se_subscriber rs) \<Longrightarrow> distinct dl \<and> set dl \<inter> set rl = {}"
        by (auto simp: Some Let_def)
      show ?thesis
        by (rule exI [of _ dl], rule exI [of _ "se_subscriber r # rl"]) (use parts in auto)
    qed
  qed
qed simp

lemma recipients_set:
  "(s, p) \<in> set (recipients i d) \<Longrightarrow> s \<in> set (statusPageSubscribers d) \<and> p \<in> set (statusPages d) \<and>
    public_page (i_organizationId i) s p \<and> ps_verifiedAt s \<noteq> None \<and> unsuppressed d s"
  by (auto simp: recipients_def)

text \<open>A subscriber is one recipient: its id names its row, and its row names its page.\<close>

lemma recipients_distinct:
  assumes "subscriber_keys d"
  shows "distinct (map (\<lambda>(s, _). ps_id s) (filter Q (recipients i d)))"
proof (rule distinct_map [THEN iffD2], intro conjI inj_onI)
  show "distinct (filter Q (recipients i d))" by (simp add: recipients_def)
next
  fix x y assume x: "x \<in> set (filter Q (recipients i d))" and y: "y \<in> set (filter Q (recipients i d))"
    and eq: "(case x of (s, _) \<Rightarrow> ps_id s) = (case y of (s, _) \<Rightarrow> ps_id s)"
  obtain s p s' p' where xy: "x = (s, p)" "y = (s', p')" by fastforce
  from x y recipients_set xy have m: "s \<in> set (statusPageSubscribers d)" "s' \<in> set (statusPageSubscribers d)"
    "p \<in> set (statusPages d)" "p' \<in> set (statusPages d)"
    "p_id p = ps_statusPageId s" "p_id p' = ps_statusPageId s'" by (force simp: public_page_def)+
  from assms m(1,2) eq xy have "s = s'" by (auto simp: subscriber_keys_def distinct_map inj_on_def)
  moreover from assms m this have "p = p'" by (auto simp: subscriber_keys_def distinct_map inj_on_def)
  ultimately show "x = y" using xy by simp
qed

lemma claimed_claim: "claimed_for ev (claim_deliveries ev ids d) = claimed_for ev d \<union> set ids"
  by (force simp: claimed_for_def claim_deliveries_def)

lemma claimed_release: "claimed_for ev (release_deliveries ev ids d) = claimed_for ev d - set ids"
  by (force simp: claimed_for_def release_deliveries_def)

text \<open>One attempt emails only subscribers it claims, keeps their claims, and gives back others only.\<close>

lemma notify_attempt:
  assumes "subscriber_keys d" "notifyIncidentSubscribers env mail ev kind i msg late d = (r, dl, d')"
  shows "distinct dl" "set dl \<inter> claimed_for ev d = {}" "claimed_for ev d \<union> set dl \<subseteq> claimed_for ev d'"
    "subscriber_keys d'"
    "set dl \<subseteq> ps_id ` {s. \<exists>p. (s, p) \<in> set (recipients i d)}"
proof -
  let ?due = "filter (\<lambda>(s, _). ps_id s \<notin> claimed_for ev d) (recipients i d)"
  have "distinct dl \<and> set dl \<inter> claimed_for ev d = {} \<and> claimed_for ev d \<union> set dl \<subseteq> claimed_for ev d' \<and>
    subscriber_keys d' \<and> set dl \<subseteq> ps_id ` {s. \<exists>p. (s, p) \<in> set (recipients i d)}"
  proof (cases "subscriberEmailEnabled env (i_organizationId i) d \<and> ?due \<noteq> []")
    case False
    then have "notifyIncidentSubscribers env mail ev kind i msg late d = (None, [], d)"
      unfolding notifyIncidentSubscribers_def Let_def by simp
    with assms show ?thesis by simp
  next
    case True
    define message where "message = (if msg \<noteq> None then msg
      else if kind = Incident_created then openingMessage (i_id i) d else None)"
    define so where "so = send_round mail (map (incident_email i kind message late) ?due)
        \<lparr>so_round = empty_round, so_released = [], so_delivered = []\<rparr>"
    from True have "notifyIncidentSubscribers env mail ev kind i msg late d = (Some (so_round so), so_delivered so,
        release_deliveries ev (so_released so) (claim_deliveries ev (unique (map (\<lambda>(s, _). ps_id s) ?due)) d))"
      unfolding notifyIncidentSubscribers_def Let_def so_def message_def by (simp only: if_False simp_thms)
    with assms(2) have some: "dl = so_delivered so"
      "d' = release_deliveries ev (so_released so) (claim_deliveries ev (unique (map (\<lambda>(s, _). ps_id s) ?due)) d)"
      by simp_all
    have ids: "map se_subscriber (map (incident_email i kind message late) ?due) = map (\<lambda>(s, _). ps_id s) ?due"
      by (auto simp: incident_email_def)
    have p: "set dl \<union> set (so_released so) \<subseteq> set (map (\<lambda>(s, _). ps_id s) ?due)"
      "distinct dl \<and> set dl \<inter> set (so_released so) = {}"
      using send_round_parts [of mail "map (incident_email i kind message late) ?due"
        "\<lparr>so_round = empty_round, so_released = [], so_delivered = []\<rparr>"]
        recipients_distinct [OF assms(1), of "\<lambda>(s, _). ps_id s \<notin> claimed_for ev d"]
      unfolding some(1) ids so_def [symmetric] list.set_map [symmetric] by auto
    have due: "set (map (\<lambda>(s, _). ps_id s) ?due) \<inter> claimed_for ev d = {}"
      "set (map (\<lambda>(s, _). ps_id s) ?due) \<subseteq> ps_id ` {s. \<exists>p. (s, p) \<in> set (recipients i d)}" by auto
    have c: "claimed_for ev d' = claimed_for ev d \<union> set (map (\<lambda>(s, _). ps_id s) ?due) - set (so_released so)"
      unfolding some(2) claimed_release claimed_claim set_unique ..
    have k: "subscriber_keys d'" using assms(1)
      by (simp add: some(2) subscriber_keys_def release_deliveries_def claim_deliveries_def)
    from p due c k show ?thesis by blast
  qed
  then show "distinct dl" "set dl \<inter> claimed_for ev d = {}" "claimed_for ev d \<union> set dl \<subseteq> claimed_for ev d'"
    "subscriber_keys d'" "set dl \<subseteq> ps_id ` {s. \<exists>p. (s, p) \<in> set (recipients i d)}" by blast+
qed

text \<open>
  Attempts at an event's subscriber emails, each with its own mail server answers and its own view of
  the incident, and whatever else changes the database between them.
\<close>

record attempt =
  at_mail :: "subscriber_email \<Rightarrow> mail_error option"
  at_kind :: notificationType
  at_incident :: incident_row
  at_message :: "string option"
  at_late :: "late_delivery option"
  at_between :: "db \<Rightarrow> db"

fun emailed :: "env \<Rightarrow> id \<Rightarrow> attempt list \<Rightarrow> db \<Rightarrow> id list" where
  "emailed env ev [] d = []"
| "emailed env ev (a # as) d =
    (let (_, dl, d') = notifyIncidentSubscribers env (at_mail a) ev (at_kind a) (at_incident a) (at_message a)
       (at_late a) d in dl @ emailed env ev as (at_between a d'))"


definition example_incident :: incident_row where
  "example_incident = \<lparr>i_id = ''i'', i_organizationId = ''o'', i_title = ''t'', i_status = Investigating,
     i_impact = Minor, i_startedAt = 0, i_resolvedAt = None, i_createdBy = None, i_isAutoCreated = False,
     i_createdAt = 0, i_updatedAt = 0\<rparr>"

definition example_page_db :: db where
  "example_page_db = empty_db\<lparr>
     statusPages := [\<lparr>p_id = ''p'', p_organizationId = ''o'', p_name = ''page'', p_slug = ''page'',
       p_description = None, p_isPublic = True, p_logoUrl = None, p_faviconUrl = None, p_primaryColor = None,
       p_customCss = None, p_customDomain = None, p_createdAt = 0, p_updatedAt = 0\<rparr>],
     statusPageMonitors := [\<lparr>pm_id = ''pm'', pm_statusPageId = ''p'', pm_monitorId = ''m'', pm_groupId = None,
       pm_displayName = None, pm_order = 0\<rparr>],
     incidentMonitors := [\<lparr>im_incidentId = ''i'', im_monitorId = ''m''\<rparr>],
     statusPageSubscribers := [\<lparr>ps_id = ''s'', ps_statusPageId = ''p'', ps_email = ''a@b.c'', ps_token = ''t'',
       ps_confirmationSentAt = Some 0, ps_verifiedAt = Some 1, ps_createdAt = 0\<rparr>]\<rparr>"

text \<open>An attempt the mail server puts off, and two that it takes.\<close>

definition example_attempts :: "attempt list" where
  "example_attempts = map (\<lambda>answer. \<lparr>at_mail = answer, at_kind = Incident_created, at_incident = example_incident,
     at_message = None, at_late = None, at_between = id\<rparr>)
     [\<lambda>_. Some \<lparr>mf_code = Some ''ETIMEDOUT'', mf_command = None, mf_responseCode = None, mf_message = []\<rparr>,
      \<lambda>_. None, \<lambda>_. None]"


section \<open>A subscription form tells nothing about an address\<close>

text \<open>
  The public form answers the same for every address: while the mail server takes the emails,
  what a visitor is told does not depend on whether the address is subscribed, pending, suppressed or
  unknown.
\<close>

theorem form_reveals_no_address:
  "fst (subscribe cx limit cap (\<lambda>_ _. None) page org a d) = fst (subscribe cx limit cap (\<lambda>_ _. None) page org b d)"
proof -
  have answer: "fst (subscribe cx limit cap (\<lambda>_ _. None) page org e d) =
    Inr (if \<not> subscriberEmailEnabled (cx_env cx) org d then SubscribePaused
         else if confirmations_sent page (cx_now cx - SUBSCRIBER_RESEND_INTERVAL_MS) d \<ge> confirmation_limit cap page d
           then SubscribeCapped
         else if isBlocked org d \<or> fst (overCeiling cx limit True d) then SubscribePaused else SubscribeSent)" for e
  proof -
    obtain r d1 where r: "refusal cx limit True org (lower (trim e)) d = (r, d1)" by fastforce
    then have "r = Some Blocked \<or> r = Some Ceiling \<longleftrightarrow> isBlocked org d \<or> fst (overCeiling cx limit True d)"
      by (auto simp: refusal_def split: if_splits prod.splits)
    moreover obtain row d2 where "claim_subscriber cx page (lower (trim e))
        (cx_now cx - SUBSCRIBER_RESEND_INTERVAL_MS) d1 = (row, d2)" by fastforce
    ultimately show ?thesis
      by (cases row; cases "the r") (auto simp: subscribe_def subscribe_claim_def Let_def r recorded_send_def
          split: option.split mail_refusal.split)
  qed
  show ?thesis unfolding answer ..
qed

end
