(* ===== verification/Dispatch.thy ===== *)
theory Dispatch
  imports Subscribers Processor
begin

text \<open>
  Delivering one notification event, \<open>lib/server/notifications/service.ts\<close>: which channels an event
  goes to, the send to each, and what the outcomes add up to.

  The world outside is a parameter: what each destination answers to a payload, what the mail server
  answers to subscriber and confirmation emails, and the redaction of a URL, which rests on the
  platform's URL parser.  The sends of a round run at once; their log rows are written here in the
  order of the channels, and no result depends on that order.
\<close>

section \<open>Payloads and results\<close>

(* src/src/lib/server/notifications/types.ts:17-18 NotifiedMonitor *)
record notified_monitor =
  nm_id :: id
  nm_name :: string
  nm_type :: monitor_type
  nm_url :: "string option"
  nm_hostname :: "string option"
  nm_port :: "int option"

(* src/src/lib/server/notifications/types.ts:20-32 NotificationPayload *)
record notification_payload =
  np_type :: notificationType
  np_monitor :: "notified_monitor option"
  np_status :: "monitorStatus_row option"
  np_incident :: "incident_row option"
  np_previousStatus :: "status option"
  np_sslDaysRemaining :: "int option"
  np_flap :: "(int \<times> int) option"
  np_errorMessage :: "string option"
  np_updateMessage :: "string option"
  np_timestamp :: time
  np_late :: "late_delivery option"

(* src/src/lib/server/notifications/types.ts:41-48 NotificationResult *)
record notification_result =
  nr_success :: bool
  nr_errorMessage :: "string option"
  nr_transient :: bool
  nr_mailServerDown :: bool

text \<open>A failed or partial delivery keeps whether anyone was reached, which its status shows.\<close>

(* src/src/lib/server/notifications/service.ts:52-55 DispatchResult *)
datatype dispatch_result =
    DispatchSent
  | DispatchFailed (df_reached: bool) (df_errorMessage: string) (df_retry: "delivery_progress option")
  | DispatchSuppressed string

(* src/src/lib/server/notifications/service.ts:57-64 Round *)
record round =
  rd_reached :: bool
  rd_rejected :: "string list"
  rd_transient :: "string list"
  rd_owed :: "id list"
  rd_mailServerDown :: bool

(* src/src/lib/server/notifications/service.ts:66-72 NO_CHANNELS *)
definition NO_CHANNELS :: round where
  "NO_CHANNELS = \<lparr>rd_reached = False, rd_rejected = [], rd_transient = [], rd_owed = [], rd_mailServerDown = False\<rparr>"

text \<open>Where a message goes, and what the world answers; \<open>Inl\<close> is an exception with its message.\<close>

datatype destination =
    ToEmail string string
  | ToSlack string "string option"
  | ToDiscord string
  | ToWebhook string channel_config

record world =
  out_send :: "destination \<Rightarrow> notification_payload \<Rightarrow> string + notification_result"
  out_subscriberMail :: "subscriber_email \<Rightarrow> mail_error option"
  out_confirmationMail :: confirmation_mail
  out_redactUrl :: "string option \<Rightarrow> string option"
  out_parseError :: "event_payload \<Rightarrow> string"

definition status_word :: "status \<Rightarrow> string" where
  "status_word s = (case s of Up \<Rightarrow> ''up'' | Down \<Rightarrow> ''down'' | Degraded \<Rightarrow> ''degraded'' | Unknown \<Rightarrow> ''unknown'')"

definition incident_word :: "incident_status \<Rightarrow> string" where
  "incident_word s = (case s of Investigating \<Rightarrow> ''investigating'' | Identified \<Rightarrow> ''identified''
     | Monitoring \<Rightarrow> ''monitoring'' | Resolved \<Rightarrow> ''resolved'' | Postmortem \<Rightarrow> ''postmortem'')"

definition channel_word :: "channel_type \<Rightarrow> string" where
  "channel_word t = (case t of EmailChannel \<Rightarrow> ''email'' | SlackChannel \<Rightarrow> ''slack''
     | DiscordChannel \<Rightarrow> ''discord'' | WebhookChannel \<Rightarrow> ''webhook'')"

text \<open>A string that is there and not empty, JavaScript's truth of a string.\<close>

definition given :: "string option \<Rightarrow> string option" where
  "given x = (case x of None \<Rightarrow> None | Some s \<Rightarrow> if s = [] then None else Some s)"

section \<open>Payload shapes\<close>

text \<open>
  Which payloads an event type parses with.  The schemas ignore further keys, so a check-state or
  incident event takes any of the payloads; a status event needs a known previous status.
\<close>

(* src/src/lib/server/notifications/events.ts:99-129 parseEventPayload *)
definition payload_fits :: "notificationType \<Rightarrow> event_payload \<Rightarrow> bool" where
  "payload_fits ty p = (case ty of
      Monitor_down \<Rightarrow> (case p of StatusPayload prev new n _ _ \<Rightarrow> prev \<noteq> None \<and> new \<noteq> Unknown \<and> n \<ge> 0 | _ \<Rightarrow> False)
    | Monitor_up \<Rightarrow> (case p of StatusPayload prev new n _ _ \<Rightarrow> prev \<noteq> None \<and> new \<noteq> Unknown \<and> n \<ge> 0 | _ \<Rightarrow> False)
    | Monitor_degraded \<Rightarrow> (case p of StatusPayload prev new n _ _ \<Rightarrow> prev \<noteq> None \<and> new \<noteq> Unknown \<and> n \<ge> 0 | _ \<Rightarrow> False)
    | Ssl_expiry_warning \<Rightarrow> (case p of SslPayload _ _ _ \<Rightarrow> True | _ \<Rightarrow> False)
    | Monitor_checks_stopped \<Rightarrow> True
    | Monitor_checks_resumed \<Rightarrow> True
    | Monitor_flapping \<Rightarrow> (case p of FlapPayload s r \<Rightarrow> s \<ge> 0 \<and> r \<ge> 0 | _ \<Rightarrow> False)
    | Incident_created \<Rightarrow> True
    | Incident_updated \<Rightarrow> True
    | Incident_resolved \<Rightarrow> True)"

section \<open>Sending to a channel\<close>

text \<open>The retry an event carries, if its payload holds a well-formed one.\<close>

(* src/src/lib/server/notifications/events.ts:78-81 queuedRetry *)
definition queuedRetry :: "notificationEvent_row \<Rightarrow> queued_retry option" where
  "queuedRetry e = (case e_retry e of None \<Rightarrow> None | Some r \<Rightarrow> if qr_attempt r \<ge> 1 then Some r else None)"

(* src/src/lib/server/notifications/service.ts:76-84 lateDelivery *)
definition lateDelivery :: "ctx \<Rightarrow> queued_retry option \<Rightarrow> time \<Rightarrow> string option \<Rightarrow> late_delivery option" where
  "lateDelivery cx prior createdAt now = (case prior of
      None \<Rightarrow> None
    | Some _ \<Rightarrow> Some \<lparr>ld_minutes = max 1 ((cx_now cx - createdAt + 30000) div 60000), ld_now = now\<rparr>)"

(* src/src/lib/server/notifications/service.ts:86-112 send *)
definition destinationOf :: "notificationChannel_row \<Rightarrow> destination option" where
  "destinationOf c = (let g = ch_config c in case ch_type c of
      EmailChannel \<Rightarrow> (case (given (cfg_email g), given (ch_token c)) of
          (Some email, Some token) \<Rightarrow> Some (ToEmail email token) | _ \<Rightarrow> None)
    | SlackChannel \<Rightarrow> map_option (\<lambda>u. ToSlack u (cfg_channel g)) (given (cfg_webhookUrl g))
    | DiscordChannel \<Rightarrow> map_option ToDiscord (given (cfg_discordWebhookUrl g))
    | WebhookChannel \<Rightarrow> map_option (\<lambda>u. ToWebhook u g) (given (cfg_url g)))"

text \<open>The result, or the message of what was thrown before a log row was written.\<close>

(* src/src/lib/server/notifications/service.ts:177-212 sendToChannel *)
definition sendToChannel ::
  "ctx \<Rightarrow> world \<Rightarrow> notificationChannel_row \<Rightarrow> notification_payload \<Rightarrow> id option \<Rightarrow> id option \<Rightarrow> db \<Rightarrow>
   (string + notification_result) \<times> db" where
  "sendToChannel cx out c p monitorId incidentId d = (
     case (case destinationOf c of
         None \<Rightarrow> Inr \<lparr>nr_success = False,
           nr_errorMessage = Some (''No provider configured for channel type: '' @ channel_word (ch_type c)),
           nr_transient = False, nr_mailServerDown = False\<rparr>
       | Some dest \<Rightarrow> out_send out dest p) of
       Inl err \<Rightarrow> (Inl err, d)
     | Inr r \<Rightarrow> (Inr r, (draw d)\<lparr>notificationLogs := notificationLogs d @
         [\<lparr>nl_id = cx_nanoid cx (drawn d), nl_channelId = ch_id c, nl_monitorId = monitorId,
           nl_incidentId = incidentId, nl_type = np_type p,
           nl_status = (if nr_success r then LogSent else LogFailed),
           nl_errorMessage = nr_errorMessage r, nl_sentAt = cx_now cx\<rparr>]\<rparr>))"

(* src/src/lib/server/notifications/service.ts:214-237 shouldNotify *)
definition shouldNotify :: "notificationType \<Rightarrow> monitorNotificationChannel_row \<Rightarrow> bool" where
  "shouldNotify ty l = (case ty of
      Monitor_down \<Rightarrow> mc_notifyOnDown l
    | Monitor_up \<Rightarrow> mc_notifyOnUp l
    | Monitor_degraded \<Rightarrow> mc_notifyOnDegraded l
    | Ssl_expiry_warning \<Rightarrow> mc_notifyOnSslExpiry l
    | Monitor_flapping \<Rightarrow> mc_notifyOnDown l \<or> mc_notifyOnUp l
    | _ \<Rightarrow> True)"

section \<open>One attempt at the channels\<close>

(* src/src/lib/server/notifications/service.ts:114-119 summarize *)
definition summarize :: "string list \<Rightarrow> nat \<Rightarrow> string \<Rightarrow> string" where
  "summarize failures whole noun = show_nat (length failures) @ ''/'' @ show_nat whole @ '' '' @ noun @
     '' failed: '' @ join ''; '' (take 3 failures) @
     (if length failures > 3 then ''; +'' @ show_nat (length failures - 3) @ '' more'' else [])"

definition summary :: "nat \<Rightarrow> string \<Rightarrow> string list \<Rightarrow> string list" where
  "summary whole noun some = (if some \<noteq> [] then [summarize some whole noun] else [])"

text \<open>The channels a round sends to: those still owed, without a webhook that events have overtaken.\<close>

(* src/src/lib/server/notifications/service.ts:489-491 due *)
definition due_channels ::
  "queued_retry option \<Rightarrow> notification_payload \<Rightarrow> notificationChannel_row list \<Rightarrow> notificationChannel_row list" where
  "due_channels prior p channels =
     filter (\<lambda>c. \<not> ((case np_late p of None \<Rightarrow> False | Some l \<Rightarrow> given (ld_now l) \<noteq> None) \<and> ch_type c = WebhookChannel))
       (case prior of None \<Rightarrow> channels | Some r \<Rightarrow> filter (\<lambda>c. ch_id c \<in> set (dp_owed r)) channels)"

definition caught :: "string + notification_result \<Rightarrow> notification_result" where
  "caught r = (case r of
      Inl err \<Rightarrow> \<lparr>nr_success = False, nr_errorMessage = Some err, nr_transient = True, nr_mailServerDown = False\<rparr>
    | Inr res \<Rightarrow> res)"

fun send_all ::
  "ctx \<Rightarrow> world \<Rightarrow> notification_payload \<Rightarrow> id option \<Rightarrow> id option \<Rightarrow> notificationChannel_row list \<Rightarrow> db \<Rightarrow>
   (notificationChannel_row \<times> notification_result) list \<times> db" where
  "send_all cx out p monitorId incidentId [] d = ([], d)"
| "send_all cx out p monitorId incidentId (c # cs) d =
    (let (r, d1) = sendToChannel cx out c p monitorId incidentId d;
         (rs, d2) = send_all cx out p monitorId incidentId cs d1 in ((c, caught r) # rs, d2))"

definition channel_failure :: "notificationChannel_row \<times> notification_result \<Rightarrow> string" where
  "channel_failure = (\<lambda>(c, r). ch_id c @ '': '' @ coalesce (nr_errorMessage r) ''delivery failed'')"

(* src/src/lib/server/notifications/service.ts:504-523 fanOut: tally *)
definition tally :: "(notificationChannel_row \<times> notification_result) list \<Rightarrow> round" where
  "tally results = (
     let failed = filter (\<lambda>(_, r). \<not> nr_success r) results;
         rejected = filter (\<lambda>(_, r). \<not> nr_transient r) failed;
         transient = filter (\<lambda>(_, r). nr_transient r) failed in
     \<lparr>rd_reached = (length rejected + length transient < length results),
      rd_rejected = summary (length results) ''channels'' (map channel_failure rejected),
      rd_transient = summary (length results) ''channels'' (map channel_failure transient),
      rd_owed = map (ch_id \<circ> fst) transient,
      rd_mailServerDown = list_ex (\<lambda>(_, r). nr_mailServerDown r) failed\<rparr>)"

(* src/src/lib/server/notifications/service.ts:477-524 fanOut *)
definition fanOut ::
  "ctx \<Rightarrow> world \<Rightarrow> notificationChannel_row list \<Rightarrow> notification_payload \<Rightarrow> queued_retry option \<Rightarrow>
   id option \<Rightarrow> id option \<Rightarrow> db \<Rightarrow> round \<times> db" where
  "fanOut cx out channels p prior monitorId incidentId d = (
     let (results, d1) = send_all cx out p monitorId incidentId (due_channels prior p channels) d in
     (tally results, d1))"

(* src/src/lib/server/notifications/service.ts:121-136 withSubscribers *)
definition withSubscribers :: "round \<Rightarrow> subscriber_round option \<Rightarrow> round" where
  "withSubscribers channels subscribers = (case subscribers of
      None \<Rightarrow> channels
    | Some s \<Rightarrow> (let whole = sr_sent s + length (sr_failures s) + length (sr_retrying s) in
        channels\<lparr>rd_reached := rd_reached channels \<or> sr_sent s > 0,
          rd_rejected := rd_rejected channels @ summary whole ''subscribers'' (sr_failures s),
          rd_transient := rd_transient channels @ summary whole ''subscribers'' (sr_retrying s),
          rd_mailServerDown := rd_mailServerDown channels \<or> sr_mailServerDown s\<rparr>))"

(* src/src/lib/server/notifications/service.ts:138-159 settle *)
definition settle :: "queued_retry option \<Rightarrow> round \<Rightarrow> dispatch_result" where
  "settle prior rd = (
     let reached = (case prior of None \<Rightarrow> False | Some q \<Rightarrow> dp_reached q) \<or> rd_reached rd;
         rejected = (case prior of None \<Rightarrow> [] | Some q \<Rightarrow> dp_rejected q) @ rd_rejected rd;
         errors = rejected @ rd_transient rd in
     if errors = [] then
       (if reached then DispatchSent else DispatchSuppressed ''no channel is owed this alert any more'')
     else DispatchFailed reached (join ''; '' errors)
       (if rd_transient rd \<noteq> [] then Some \<lparr>dp_owed = rd_owed rd, dp_reached = reached,
          dp_rejected = rejected, dp_mailServerDown = rd_mailServerDown rd\<rparr> else None))"

section \<open>Which channels an event goes to\<close>

(* src/src/lib/server/notifications/confirmed.ts:5-9 channelConfirmed *)
definition channelConfirmed :: "notificationChannel_row \<Rightarrow> bool" where
  "channelConfirmed c \<longleftrightarrow> ch_type c \<noteq> EmailChannel \<or> ch_verifiedAt c \<noteq> None"

definition alertable :: "notificationChannel_row \<Rightarrow> bool" where
  "alertable c \<longleftrightarrow> ch_enabled c \<and> channelConfirmed c"

text \<open>A monitor's links with their alertable channels.\<close>

(* src/src/lib/server/notifications/service.ts:311-324 links *)
definition monitor_links :: "id \<Rightarrow> db \<Rightarrow> (monitorNotificationChannel_row \<times> notificationChannel_row) list" where
  "monitor_links monitorId d = inner_join (\<lambda>l c. mc_channelId l = ch_id c \<and> alertable c)
     (filter (\<lambda>l. mc_monitorId l = monitorId) (monitorNotificationChannels d)) (notificationChannels d)"

definition incident_links :: "incident_row \<Rightarrow> db \<Rightarrow> notificationChannel_row list" where
  "incident_links i d = unique (map snd (inner_join
     (\<lambda>(_, l) c. ch_id c = mc_channelId l \<and> ch_organizationId c = i_organizationId i \<and> alertable c)
     (inner_join (\<lambda>im l. mc_monitorId l = im_monitorId im)
       (filter (\<lambda>im. im_incidentId im = i_id i) (incidentMonitors d)) (monitorNotificationChannels d))
     (notificationChannels d)))"

text \<open>The channels of an incident, or why there are none.\<close>

(* src/src/lib/server/notifications/service.ts:410-464 dispatchIncidentChannels: channels *)
definition incident_channels :: "incident_row \<Rightarrow> db \<Rightarrow> string + notificationChannel_row list" where
  "incident_channels i d = (
     if incident_links i d \<noteq> [] then Inr (incident_links i d)
     else if filter (\<lambda>im. im_incidentId im = i_id i) (incidentMonitors d) \<noteq> []
       then Inl ''linked monitors have no channels configured''
     else let channels = filter (\<lambda>c. ch_organizationId c = i_organizationId i \<and> alertable c) (notificationChannels d) in
       if channels = [] then Inl ''no channels configured'' else Inr channels)"

definition incident_payload ::
  "notificationEvent_row \<Rightarrow> notificationType \<Rightarrow> incident_row \<Rightarrow> string option \<Rightarrow> late_delivery option \<Rightarrow> notification_payload" where
  "incident_payload e ty i message late = \<lparr>np_type = ty, np_monitor = None, np_status = None,
     np_incident = Some i, np_previousStatus = None, np_sslDaysRemaining = None, np_flap = None,
     np_errorMessage = None, np_updateMessage = message, np_timestamp = e_createdAt e, np_late = late\<rparr>"

text \<open>\<open>Inl\<close>: suppressed, and why.\<close>

(* src/src/lib/server/notifications/service.ts:403-475 dispatchIncidentChannels *)
definition dispatchIncidentChannels ::
  "ctx \<Rightarrow> world \<Rightarrow> notificationEvent_row \<Rightarrow> notificationType \<Rightarrow> incident_row \<Rightarrow> string option \<Rightarrow>
   queued_retry option \<Rightarrow> late_delivery option \<Rightarrow> db \<Rightarrow> (string + round) \<times> db" where
  "dispatchIncidentChannels cx out e ty i message prior late d = (case incident_channels i d of
      Inl why \<Rightarrow> (Inl why, d)
    | Inr channels \<Rightarrow>
        let (rd, d1) = fanOut cx out channels (incident_payload e ty i message late) prior None (Some (i_id i)) d in
        (Inr rd, d1))"

definition update_message :: "event_payload \<Rightarrow> string option" where
  "update_message p = (case p of IncidentPayload _ message \<Rightarrow> message | _ \<Rightarrow> None)"

(* src/src/lib/server/notifications/service.ts:361-401 dispatchIncidentEvent *)
definition dispatchIncidentEvent ::
  "ctx \<Rightarrow> world \<Rightarrow> notificationEvent_row \<Rightarrow> notificationType \<Rightarrow> db \<Rightarrow> dispatch_result \<times> db" where
  "dispatchIncidentEvent cx out e ty d = (case e_incidentId e of
      None \<Rightarrow> (DispatchSuppressed ''event has no incident_id'', d)
    | Some incidentId \<Rightarrow> (case first_row (filter (\<lambda>i. i_id i = incidentId) (incidents d)) of
        None \<Rightarrow> (DispatchSuppressed ''incident not found'', d)
      | Some i \<Rightarrow>
          let prior = queuedRetry e;
              late = lateDelivery cx prior (e_createdAt e)
                (if isEndedIncidentStatus (i_status i) \<and> ty \<noteq> Incident_resolved
                 then Some (incident_word (i_status i)) else None);
              message = update_message (e_payload e);
              (channels, d1) = dispatchIncidentChannels cx out e ty i message prior late d;
              (subscribers, _, d2) = notifyIncidentSubscribers (cx_env cx) (out_subscriberMail out) (e_id e) ty i
                message late d1 in
          (case (channels, subscribers) of
             (Inl why, None) \<Rightarrow> DispatchSuppressed why
           | (Inl _, Some _) \<Rightarrow> settle prior (withSubscribers NO_CHANNELS subscribers)
           | (Inr rd, _) \<Rightarrow> settle prior (withSubscribers rd subscribers), d2)))"

(* src/src/lib/server/notifications/service.ts:526-556 buildNotificationPayload *)
definition buildNotificationPayload ::
  "world \<Rightarrow> notificationEvent_row \<Rightarrow> notificationType \<Rightarrow> monitor_row \<Rightarrow> monitorStatus_row \<Rightarrow>
   late_delivery option \<Rightarrow> notification_payload" where
  "buildNotificationPayload out e ty m s late = (
     let base = \<lparr>np_type = ty,
           np_monitor = Some \<lparr>nm_id = m_id m, nm_name = m_name m, nm_type = m_type m,
             nm_url = out_redactUrl out (m_url m), nm_hostname = m_hostname m, nm_port = m_port m\<rparr>,
           np_status = (if ty = Monitor_checks_stopped then None else Some s), np_incident = None,
           np_previousStatus = None, np_sslDaysRemaining = None, np_flap = None, np_errorMessage = None,
           np_updateMessage = None, np_timestamp = e_createdAt e, np_late = late\<rparr> in
     if ty = Ssl_expiry_warning then base\<lparr>np_sslDaysRemaining :=
       (case e_payload e of SslPayload n _ _ \<Rightarrow> Some n | _ \<Rightarrow> None)\<rparr>
     else if ty = Monitor_flapping then base\<lparr>np_flap :=
       (case e_payload e of FlapPayload s r \<Rightarrow> Some (s, r) | _ \<Rightarrow> None)\<rparr>
     else base\<lparr>
       np_previousStatus := (case e_payload e of StatusPayload prev _ _ _ _ \<Rightarrow> prev | _ \<Rightarrow> None),
       np_errorMessage := (case e_payload e of StatusPayload _ _ _ err _ \<Rightarrow> err | _ \<Rightarrow> None)\<rparr>)"

text \<open>Whether the monitor has moved on since the event.\<close>

(* src/src/lib/server/notifications/service.ts:340-343 overtaken *)
definition overtaken :: "notificationType \<Rightarrow> queued_retry option \<Rightarrow> notificationEvent_row \<Rightarrow> monitorStatus_row \<Rightarrow> id \<Rightarrow> db \<Rightarrow> bool" where
  "overtaken ty prior e s monitorId d \<longleftrightarrow> (
     if ty = Monitor_flapping then prior \<noteq> None \<and> activeFlap d monitorId = None
     else (case e_payload e of StatusPayload _ new _ _ _ \<Rightarrow> new \<noteq> s_status s | _ \<Rightarrow> False))"

(* src/src/lib/server/notifications/service.ts:239-257 dispatchChannelConfirmation *)
definition dispatchChannelConfirmation ::
  "ctx \<Rightarrow> world \<Rightarrow> notificationEvent_row \<Rightarrow> db \<Rightarrow> dispatch_result \<times> db" where
  "dispatchChannelConfirmation cx out e d = (case e_payload e of
      ConfirmationPayload channelId sendId email requestedBy prevSent prevUnsub reasked \<Rightarrow>
        (case sendQueued cx (out_confirmationMail out) (e_organizationId e) channelId
            \<lparr>pn_sendId = sendId, pn_email = email, pn_token = [], pn_requestedBy = requestedBy,
             pn_confirmationSentAt = prevSent, pn_unsubscribedAt = prevUnsub, pn_reasked = reasked\<rparr> d of
           (ConfirmationSent, d1) \<Rightarrow> (DispatchSent, d1)
         | (ConfirmationSkipped, d1) \<Rightarrow> (DispatchSuppressed ''confirmation no longer due'', d1)
         | (ConfirmationUnsent _, d1) \<Rightarrow> (DispatchFailed False ''confirmation email not sent'' None, d1))
    | _ \<Rightarrow> (DispatchFailed False ''invalid payload'' None, d))"

definition dispatchMonitorEvent ::
  "ctx \<Rightarrow> world \<Rightarrow> notificationEvent_row \<Rightarrow> notificationType \<Rightarrow> db \<Rightarrow> dispatch_result \<times> db" where
  "dispatchMonitorEvent cx out e ty d = (case e_monitorId e of
      None \<Rightarrow> (DispatchSuppressed ''event has no monitor_id'', d)
    | Some monitorId \<Rightarrow> (case first_row (filter (\<lambda>m. m_id m = monitorId) (monitors d)) of
        None \<Rightarrow> (DispatchSuppressed ''monitor not found'', d)
      | Some m \<Rightarrow> (case first_row (filter (\<lambda>s. s_monitorId s = monitorId) (monitorStatuses d)) of
          None \<Rightarrow> (DispatchSuppressed ''monitor has no status yet'', d)
        | Some s \<Rightarrow>
            let links = monitor_links monitorId d;
                eligible = filter (\<lambda>(l, _). shouldNotify ty l) links in
            if eligible = [] then (DispatchSuppressed
              (if links = [] then ''no channels configured'' else ''no channels subscribed to this event type''), d)
            else let prior = queuedRetry e;
                late = lateDelivery cx prior (e_createdAt e)
                  (if overtaken ty prior e s monitorId d then Some (status_word (s_status s)) else None);
                (rd, d1) = fanOut cx out (map snd eligible) (buildNotificationPayload out e ty m s late) prior
                  (Some monitorId) (e_incidentId e) d in
              (settle prior rd, d1))))"

(* src/src/lib/server/notifications/service.ts:259-359 dispatchEvent *)
definition dispatchEvent :: "ctx \<Rightarrow> world \<Rightarrow> notificationEvent_row \<Rightarrow> db \<Rightarrow> dispatch_result \<times> db" where
  "dispatchEvent cx out e d = (case e_type e of
      ChannelConfirmation \<Rightarrow> dispatchChannelConfirmation cx out e d
    | Notice ty \<Rightarrow>
        if \<not> payload_fits ty (e_payload e) then
          (DispatchFailed False (''invalid payload: '' @ out_parseError out (e_payload e)) None, d)
        else if ty \<in> {Incident_created, Incident_updated, Incident_resolved} then dispatchIncidentEvent cx out e ty d
        else dispatchMonitorEvent cx out e ty d)"

end
