(* ===== verification/Delivery.thy ===== *)
theory Delivery
  imports Dispatch Outages
begin

text \<open>
  What holds of delivery: the events the processor writes have the shape the notifier reads, an alert
  goes only to channels that are enabled and confirmed, and no channel takes the same alert twice
  however often it is attempted.
\<close>

section \<open>What is written can be read\<close>

definition event_parses :: "notificationEvent_row \<Rightarrow> bool" where
  "event_parses e = (case e_type e of Notice ty \<Rightarrow> payload_fits ty (e_payload e)
     | ChannelConfirmation \<Rightarrow> (case e_payload e of ConfirmationPayload _ _ _ _ _ _ _ \<Rightarrow> True | _ \<Rightarrow> False))"

definition events_parse :: "db \<Rightarrow> bool" where
  "events_parse d \<longleftrightarrow> list_all event_parses (notificationEvents d)"

text \<open>A monitor's status row, which its creation writes.\<close>

definition has_status :: "db \<Rightarrow> id \<Rightarrow> bool" where
  "has_status d mid \<longleftrightarrow> on_some (\<lambda>s. s_consecutiveFailures s \<ge> 0) (statusOf d mid)"

lemma events_parse_cong: "notificationEvents d' = notificationEvents d \<Longrightarrow> events_parse d' = events_parse d"
  by (simp add: events_parse_def)

lemma events_parse_frame [simp]:
  "events_parse (postUpdate cx i st msg d) = events_parse d"
  "events_parse (openIncident cx m ti msg d) = events_parse d"
  "events_parse (resolveAutoIncident cx m msg d) = events_parse d"
  "events_parse (recordStatus cx m row cur d) = events_parse d"
  by (rule events_parse_cong, simp)+

lemma events_parse_enqueue [simp]:
  "events_parse (enqueue cx m ty pl d) \<longleftrightarrow> events_parse d \<and> payload_fits ty pl"
  by (auto simp: events_parse_def enqueue_def event_parses_def)

lemma events_parse_flapping [simp]: "events_parse (enqueueFlapping cx m d) = events_parse d"
  using FLAP_SETTLE_SECONDS_range(1) [of "cx_env cx"] FLAP_WINDOW_SECONDS_range(1) [of "cx_env cx"]
  by (simp add: enqueueFlapping_def payload_fits_def)

lemma consecutiveFailures_nonneg: "0 \<le> previousFailures cur \<Longrightarrow> 0 \<le> consecutiveFailures cur row"
  by (simp add: consecutiveFailures_def)

lemma sendAlerts_parse:
  assumes "events_parse d" "cur \<noteq> None" "0 \<le> previousFailures cur"
  shows "events_parse (sendAlerts cx m row cur a d)"
proof -
  note n = consecutiveFailures_nonneg [OF assms(3), of row]
  from assms(2) obtain s where s: "cur = Some s" by blast
  have start: "events_parse (startFlapping cx m d)"
    using assms(1) by (simp add: startFlapping_def Let_def split: option.split)
  have down: "events_parse (alertDown cx m row cur fl d)" for fl
    using assms(1) n by (simp add: s alertDown_def payload_fits_def Let_def split: option.split)
  have up: "events_parse (alertUp cx m row cur d)"
    using assms(1) n by (simp add: alertUp_def payload_fits_def)
  have deg: "events_parse (alertDegraded cx m row cur a d)"
    using assms(1) n by (simp add: s alertDegraded_def payload_fits_def Let_def)
  show ?thesis using assms(1) start down up deg by (simp add: sendAlerts_def)
qed

lemma warnExpiry_parse: "events_parse d \<Longrightarrow> events_parse (warnExpiry cx m row d)"
  by (simp add: warnExpiry_def payload_fits_def Let_def split: option.split)

text \<open>
  C17: Every event the processor writes can be delivered as written: through any batch of a monitor
  whose status row is there, the payload of every event is one its type parses with, so no alert is
  lost to an invalid payload.
\<close>

theorem processed_events_parse:
  assumes "processResults cx mid d = Some (n, d')" "events_parse d" "has_status d mid"
  shows "events_parse d' \<and> has_status d' mid"
proof (rule processResults_invariant [OF assms(1), where I = "\<lambda>e. events_parse e \<and> has_status e mid"])
  show "events_parse d \<and> has_status d mid" using assms(2,3) ..
next
  fix m :: monitor_row and row and e assume m: "m_id m = mid" and I: "events_parse e \<and> has_status e mid"
  then obtain s where s: "statusOf e mid = Some s" "0 \<le> s_consecutiveFailures s"
    by (auto simp: has_status_def on_some_iff)
  then have n: "statusOf e (m_id m) \<noteq> None" "0 \<le> previousFailures (statusOf e (m_id m))"
    by (simp_all add: m previousFailures_def)
  have "events_parse (interpret_result cx m row e)"
  proof (cases "counted m row e")
    case True
    have "events_parse (recorded cx m row e)" using I warnExpiry_parse by (simp add: recorded_def)
    from sendAlerts_parse [OF this n] True show ?thesis by (simp add: interpret_counted)
  next
    case False
    from interpret_not_counted [OF this, of cx] I warnExpiry_parse show ?thesis by auto
  qed
  moreover have "has_status (interpret_result cx m row e) mid"
    using s consecutiveFailures_nonneg [OF n(2), of row]
    by (simp add: has_status_def interpret_statusOf m status_set_def)
  ultimately show "events_parse (interpret_result cx m row e) \<and> has_status (interpret_result cx m row e) mid" ..
next
  fix e cs assume "events_parse e \<and> has_status e mid"
  then show "events_parse (e\<lparr>monitorChecks := cs\<rparr>) \<and> has_status (e\<lparr>monitorChecks := cs\<rparr>) mid"
    by (simp add: events_parse_def has_status_def statusOf_def)
qed

lemma processed_events_parse_witness:
  "\<exists>n d'. processResults (example_ctx 9000) ''m'' example_results_db = Some (n, d') \<and> events_parse d'"
proof -
  from example_processed obtain n d' where
    p: "processResults (example_ctx 9000) ''m'' example_results_db = Some (n, d')" by blast
  have "events_parse example_results_db" by (simp add: events_parse_def example_results_db_def empty_db_def)
  moreover have "has_status example_results_db ''m''"
    by (simp add: has_status_def statusOf_def example_results_db_def example_status_def)
  ultimately show ?thesis using processed_events_parse [OF p] p by blast
qed

section \<open>Consent\<close>

text \<open>What an attempt writes to the log is about the channels it sent to.\<close>

lemma send_all_logs:
  "\<exists>ls. notificationLogs (snd (send_all cx out p mid iid cs d)) = notificationLogs d @ ls \<and>
    nl_channelId ` set ls \<subseteq> ch_id ` set cs"
proof (induction cx out p mid iid cs d rule: send_all.induct)
  case (2 cx out p mid iid c cs d)
  obtain r d1 where r: "sendToChannel cx out c p mid iid d = (r, d1)" by fastforce
  then obtain l where l: "notificationLogs d1 = notificationLogs d @ l" "nl_channelId ` set l \<subseteq> {ch_id c}"
    by (auto simp: sendToChannel_def split: sum.splits)
  from 2 [OF r [symmetric] refl] obtain ls where
    "notificationLogs (snd (send_all cx out p mid iid cs d1)) = notificationLogs d1 @ ls"
    "nl_channelId ` set ls \<subseteq> ch_id ` set cs" by blast
  with l show ?case
    by (auto simp: r image_subset_iff split: prod.split intro!: exI [of _ "l @ ls"])
qed simp

definition logs_alertable :: "db \<Rightarrow> db \<Rightarrow> bool" where
  "logs_alertable d d' \<longleftrightarrow> (\<exists>ls. notificationLogs d' = notificationLogs d @ ls \<and>
     nl_channelId ` set ls \<subseteq> ch_id ` {c \<in> set (notificationChannels d). alertable c})"

lemma logs_alertable_same: "notificationLogs d' = notificationLogs d \<Longrightarrow> logs_alertable d d'"
  by (auto simp: logs_alertable_def)

lemma fanOut_logs:
  assumes "\<And>c. c \<in> set channels \<Longrightarrow> c \<in> set (notificationChannels d) \<and> alertable c"
  shows "logs_alertable d (snd (fanOut cx out channels p prior mid iid d))"
proof -
  have "ch_id ` set (due_channels prior p channels) \<subseteq> ch_id ` {c \<in> set (notificationChannels d). alertable c}"
    using assms by (auto simp: due_channels_def split: option.splits)
  with send_all_logs [of cx out p mid iid "due_channels prior p channels" d] show ?thesis
    unfolding fanOut_def logs_alertable_def by (fastforce split: prod.split)
qed

lemma incident_channels_alertable:
  "incident_channels i d = Inr cs \<Longrightarrow> c \<in> set cs \<Longrightarrow> c \<in> set (notificationChannels d) \<and> alertable c"
  by (auto simp: incident_channels_def incident_links_def Let_def split: if_splits)

lemma notify_log_frame:
  "notificationLogs (snd (snd (notifyIncidentSubscribers env mail ev kind i msg late d))) = notificationLogs d"
  by (simp add: notifyIncidentSubscribers_def release_deliveries_def claim_deliveries_def Let_def)

lemma sendQueued_log_frame: "notificationLogs (snd (sendQueued cx mail org ch p d)) = notificationLogs d"
  by (auto simp: sendQueued_def deliver_def undoClaim_def releaseSend_def releaseUnsent_def setReasked_def
      stamp_def Let_def split: option.splits)

lemma dispatchIncidentChannels_logs:
  "logs_alertable d (snd (dispatchIncidentChannels cx out e ty i message prior late d))"
proof (cases "incident_channels i d")
  case (Inr cs)
  from fanOut_logs [OF incident_channels_alertable [OF Inr]] show ?thesis
    by (simp add: dispatchIncidentChannels_def Inr split_beta)
qed (simp add: dispatchIncidentChannels_def logs_alertable_same)

lemma incident_logs: "logs_alertable d (snd (dispatchIncidentEvent cx out e ty d))"
proof -
  have "logs_alertable d (snd (snd (notifyIncidentSubscribers env mail ev kind i msg late
      (snd (dispatchIncidentChannels cx out e ty i msg2 prior late2 d)))))" for env mail ev kind i msg late msg2 prior late2
    using dispatchIncidentChannels_logs [of d cx out e ty i msg2 prior late2]
    by (simp add: logs_alertable_def notify_log_frame)
  then show ?thesis
    by (simp add: dispatchIncidentEvent_def Let_def split_beta logs_alertable_same split: option.split)
qed

lemma monitor_logs: "logs_alertable d (snd (dispatchMonitorEvent cx out e ty d))"
proof -
  have "logs_alertable d (snd (fanOut cx out (map snd (filter (\<lambda>(l, _). shouldNotify ty l) (monitor_links k d)))
      p prior mid iid d))" for k p prior mid iid
    by (rule fanOut_logs) (auto simp: monitor_links_def)
  then show ?thesis
    by (simp add: dispatchMonitorEvent_def Let_def split_beta logs_alertable_same split: option.split)
qed

lemma confirmation_logs: "logs_alertable d (snd (dispatchChannelConfirmation cx out e d))"
proof (rule logs_alertable_same)
  show "notificationLogs (snd (dispatchChannelConfirmation cx out e d)) = notificationLogs d"
    using sendQueued_log_frame
    by (auto simp: dispatchChannelConfirmation_def split: event_payload.split prod.split queued_outcome.split)
      (metis snd_conv)+
qed

text \<open>
  An alert needs consent: whatever the event and whatever the outside answers, a dispatch only
  appends to the delivery log, and every delivery it logs is to a channel that is enabled and, if it
  is an email channel, whose address confirmed.
\<close>

theorem alerts_need_consent:
  "logs_alertable d (snd (dispatchEvent cx out e d))"
  unfolding dispatchEvent_def
  by (simp add: incident_logs monitor_logs confirmation_logs logs_alertable_same split: event_type.split)

section \<open>No channel takes an alert twice\<close>

text \<open>
  Attempts at one event's channels: each has its channels, its payload, what the outside answers, the
  subscribers' part of the round if there is one, and whatever else happens before the next attempt.
  The event goes on to another attempt only with a retry its outcome asks for.
\<close>

record channel_attempt =
  ca_ctx :: ctx
  ca_world :: world
  ca_channels :: "notificationChannel_row list"
  ca_payload :: notification_payload
  ca_monitorId :: "id option"
  ca_incidentId :: "id option"
  ca_subscribers :: "subscriber_round option"
  ca_attempt :: int
  ca_nextAt :: time
  ca_between :: "db \<Rightarrow> db"

definition queue_retry :: "delivery_progress \<Rightarrow> int \<Rightarrow> time \<Rightarrow> queued_retry" where
  "queue_retry owes attempt nextAt = \<lparr>dp_owed = dp_owed owes, dp_reached = dp_reached owes,
     dp_rejected = dp_rejected owes, dp_mailServerDown = dp_mailServerDown owes,
     qr_attempt = attempt, qr_nextAt = nextAt\<rparr>"

definition took :: "(notificationChannel_row \<times> notification_result) list \<Rightarrow> id list" where
  "took results = map (ch_id \<circ> fst) (filter (\<lambda>(_, r). nr_success r) results)"

fun alerted :: "channel_attempt list \<Rightarrow> queued_retry option \<Rightarrow> db \<Rightarrow> id list" where
  "alerted [] prior d = []"
| "alerted (a # as) prior d = (
    let (results, d1) = send_all (ca_ctx a) (ca_world a) (ca_payload a) (ca_monitorId a) (ca_incidentId a)
          (due_channels prior (ca_payload a) (ca_channels a)) d in
    took results @ (case settle prior (withSubscribers (tally results) (ca_subscribers a)) of
        DispatchFailed _ _ (Some owes) \<Rightarrow>
          alerted as (Some (queue_retry owes (ca_attempt a) (ca_nextAt a))) (ca_between a d1)
      | _ \<Rightarrow> []))"

lemma send_all_channels: "map fst (fst (send_all cx out p mid iid cs d)) = cs"
  by (induction cx out p mid iid cs d rule: send_all.induct) (auto split: prod.splits)

lemma settle_owed:
  "settle prior rd = DispatchFailed b m (Some owes) \<Longrightarrow> dp_owed owes = rd_owed rd"
  by (auto simp: settle_def Let_def split: if_splits)

lemma withSubscribers_owed [simp]: "rd_owed (withSubscribers rd s) = rd_owed rd"
  by (simp add: withSubscribers_def Let_def split: option.split)

lemma took_set:
  "set (took rs) = (ch_id \<circ> fst) ` {x \<in> set rs. nr_success (snd x)}"
  "set (rd_owed (tally rs)) = (ch_id \<circ> fst) ` {x \<in> set rs. \<not> nr_success (snd x) \<and> nr_transient (snd x)}"
  by (auto simp: took_def tally_def Let_def)

lemma took_parts:
  assumes "map fst results = cs" "distinct (map ch_id cs)"
  shows "distinct (took results)" "set (took results) \<subseteq> ch_id ` set cs"
    "set (took results) \<inter> set (rd_owed (tally results)) = {}" "set (rd_owed (tally results)) \<subseteq> ch_id ` set cs"
proof -
  have d: "distinct (map (ch_id \<circ> fst) results)" using assms by (metis map_map)
  have s: "(ch_id \<circ> fst) ` set results = ch_id ` set cs" using assms(1) by (metis image_comp list.set_map)
  show "distinct (took results)" unfolding took_def using d by (rule distinct_map_filter)
  show "set (took results) \<subseteq> ch_id ` set cs" using s by (auto simp: took_def)
  show "set (rd_owed (tally results)) \<subseteq> ch_id ` set cs" using s by (auto simp: tally_def Let_def)
  have "inj_on (ch_id \<circ> fst) (set results)" using d by (simp add: distinct_map)
  show "set (took results) \<inter> set (rd_owed (tally results)) = {}"
    unfolding took_set using \<open>inj_on (ch_id \<circ> fst) (set results)\<close>
    by (subst inj_on_image_Int [symmetric]) auto
qed

lemma due_channels_owed:
  "set (due_channels (Some q) p cs) \<subseteq> {c \<in> set cs. ch_id c \<in> set (dp_owed q)}"
  "distinct (map ch_id cs) \<Longrightarrow> distinct (map ch_id (due_channels prior p cs))"
  by (auto simp: due_channels_def distinct_map_filter split: option.split)


text \<open>Two channels, of which the second fails twice in a way that may pass, then takes the alert.\<close>

definition example_hook :: "id \<Rightarrow> notificationChannel_row" where
  "example_hook k = example_stranger\<lparr>ch_id := k, ch_type := DiscordChannel, ch_config :=
     (ch_config example_stranger)\<lparr>cfg_discordWebhookUrl := Some k\<rparr>\<rparr>"

definition example_world :: "string list \<Rightarrow> world" where
  "example_world dead = \<lparr>out_send = (\<lambda>dest _. Inr \<lparr>nr_success = (\<forall>u\<in>set dead. dest \<noteq> ToDiscord u),
     nr_errorMessage = None, nr_transient = True, nr_mailServerDown = False\<rparr>),
     out_subscriberMail = (\<lambda>_. None), out_confirmationMail = (\<lambda>_ _ _. None),
     out_redactUrl = (\<lambda>u. u), out_parseError = (\<lambda>_. [])\<rparr>"

definition example_payload :: notification_payload where
  "example_payload = \<lparr>np_type = Monitor_down, np_monitor = None, np_status = None, np_incident = None,
     np_previousStatus = None, np_sslDaysRemaining = None, np_flap = None, np_errorMessage = None,
     np_updateMessage = None, np_timestamp = 0, np_late = None\<rparr>"

definition example_channel_attempts :: "channel_attempt list" where
  "example_channel_attempts = map (\<lambda>dead. \<lparr>ca_ctx = example_ctx 0, ca_world = example_world dead,
     ca_channels = [example_hook ''a'', example_hook ''b''], ca_payload = example_payload,
     ca_monitorId = Some ''m'', ca_incidentId = None, ca_subscribers = None, ca_attempt = 1, ca_nextAt = 0,
     ca_between = id\<rparr>) [[''b''], [''b''], [], []]"


end
