(* ===== verification/Notifier.thy ===== *)
theory Notifier
  imports Delivery Leases
begin

text \<open>
  The notifier worker, \<open>worker/notifier/processor.ts\<close>: it claims queued events, dispatches each and
  writes what became of it, under a claim another worker may take over once it is stale.

  Rows another transaction holds locked are skipped by a claim, so a claim takes the set of locked
  ids.  A claim, the sends, and the write at the end are steps of their own with whatever happens in
  between; a sweep claims on while its sends run, so its runs are interleavings of these steps.
\<close>

section \<open>Lanes and claims\<close>

(* src/src/worker/notifier/processor.ts:27-27 STUCK_ROW_THRESHOLD_MS *)
definition STUCK_ROW_THRESHOLD_MS :: int where
  "STUCK_ROW_THRESHOLD_MS = 5 * 60 * 1000"

(* src/src/worker/notifier/processor.ts:25-26 ORGANIZATION_RETRIES *)
definition ORGANIZATION_RETRIES :: nat where
  "ORGANIZATION_RETRIES = 5"

(* src/src/worker/notifier/processor.ts:29-33 ALERT_RETRY_DELAYS_MS *)
definition ALERT_RETRY_DELAYS_MS :: "int list" where
  "ALERT_RETRY_DELAYS_MS = map (\<lambda>minutes. minutes * 60000) [1, 2, 5, 10, 20, 30]"

text \<open>The condition on queued rows is the one the retry lane has: a time to wait for.\<close>

(* src/src/worker/notifier/processor.ts:35-43 Lane *)
record lane =
  ln_queued :: event_status
  ln_claimed :: event_status
  ln_workers :: nat
  ln_waits :: bool

(* src/src/worker/notifier/processor.ts:45-45 ALERTS *)
definition ALERTS :: lane where
  "ALERTS = \<lparr>ln_queued = EvPending, ln_claimed = EvProcessing, ln_workers = 25, ln_waits = False\<rparr>"

(* src/src/worker/notifier/processor.ts:47-56 CONFIRMATIONS *)
definition CONFIRMATIONS :: lane where
  "CONFIRMATIONS = \<lparr>ln_queued = ConfirmationQueued, ln_claimed = ConfirmationSending, ln_workers = 1, ln_waits = False\<rparr>"

(* src/src/worker/notifier/processor.ts:58-74 RETRIES *)
definition RETRIES :: lane where
  "RETRIES = \<lparr>ln_queued = RetryQueued, ln_claimed = RetrySending, ln_workers = 25, ln_waits = True\<rparr>"

definition retries_in_flight :: "id \<Rightarrow> db \<Rightarrow> nat" where
  "retries_in_flight org d = length (filter (\<lambda>e. e_status e = RetrySending \<and> e_organizationId e = org) (notificationEvents d))"

(* src/src/worker/notifier/processor.ts:67-73 RETRIES.due *)
definition retry_due :: "time \<Rightarrow> db \<Rightarrow> notificationEvent_row \<Rightarrow> bool" where
  "retry_due t d e \<longleftrightarrow> on_some (\<lambda>r. qr_nextAt r \<le> t) (e_retry e) \<and>
     retries_in_flight (e_organizationId e) d < ORGANIZATION_RETRIES"

(* src/src/worker/notifier/processor.ts:93-98 claimPendingEvent: where *)
definition claimable :: "time \<Rightarrow> lane \<Rightarrow> db \<Rightarrow> notificationEvent_row \<Rightarrow> bool" where
  "claimable t lane d e \<longleftrightarrow>
     (e_status e = ln_queued lane \<and> (ln_waits lane \<longrightarrow> retry_due t d e)) \<or>
     (e_status e = ln_claimed lane \<and> on_some (\<lambda>c. c < t - STUCK_ROW_THRESHOLD_MS) (e_claimedAt e))"

(* src/src/worker/notifier/processor.ts:76-111 claimPendingEvent *)
definition claimPendingEvent ::
  "ctx \<Rightarrow> id set \<Rightarrow> lane \<Rightarrow> db \<Rightarrow> notificationEvent_row option \<times> db" where
  "claimPendingEvent cx locked lane d = (
     case first_row (order_asc e_createdAt (filter (\<lambda>e. claimable (cx_now cx) lane d e \<and> e_id e \<notin> locked)
         (notificationEvents d))) of
       None \<Rightarrow> (None, d)
     | Some row \<Rightarrow>
         let take = (\<lambda>e. e\<lparr>e_status := ln_claimed lane, e_claimedAt := Some (cx_now cx)\<rparr>) in
         (Some (take row),
          d\<lparr>notificationEvents := update_where (\<lambda>e. e_id e = e_id row) take (notificationEvents d)\<rparr>))"

text \<open>The claim of an event named by a notification: only one still queued for the first time.\<close>

(* src/src/worker/notifier/processor.ts:128-145 processOne: claim *)
definition claimOne :: "ctx \<Rightarrow> id \<Rightarrow> db \<Rightarrow> notificationEvent_row option \<times> db" where
  "claimOne cx k d = (
     let open_row = (\<lambda>e. e_id e = k \<and> e_status e \<in> {EvPending, ConfirmationQueued});
         take = (\<lambda>e. e\<lparr>e_status := (if e_status e = ConfirmationQueued then ConfirmationSending else EvProcessing),
           e_claimedAt := Some (cx_now cx)\<rparr>) in
     (map_option take (first_row (filter open_row (notificationEvents d))),
      d\<lparr>notificationEvents := update_where open_row take (notificationEvents d)\<rparr>))"

section \<open>The write at the end\<close>

text \<open>\<open>xs.at(i)\<close>: a negative index counts from the end.\<close>

definition js_at :: "'a list \<Rightarrow> int \<Rightarrow> 'a option" where
  "js_at xs i = (let n = int (length xs); j = (if i < 0 then i + n else i) in
     if 0 \<le> j \<and> j < n then Some (xs ! nat j) else None)"

definition result_status :: "dispatch_result \<Rightarrow> event_status" where
  "result_status r = (case r of DispatchSent \<Rightarrow> EvSent
     | DispatchFailed reached _ _ \<Rightarrow> if reached then EvPartial else EvFailed
     | DispatchSuppressed _ \<Rightarrow> EvSuppressed)"

(* src/src/worker/notifier/processor.ts:184-184 dispatchClaimed: errorMessage *)
definition result_error :: "dispatch_result \<Rightarrow> string option" where
  "result_error r = (case r of DispatchSent \<Rightarrow> None | DispatchFailed _ m _ \<Rightarrow> Some m | DispatchSuppressed m \<Rightarrow> Some m)"

(* src/src/worker/notifier/processor.ts:185-185 dispatchClaimed: owes *)
definition result_owes :: "dispatch_result \<Rightarrow> delivery_progress option" where
  "result_owes r = (case r of DispatchFailed _ _ owes \<Rightarrow> owes | _ \<Rightarrow> None)"

(* src/src/worker/notifier/processor.ts:188-188 dispatchClaimed: attempt *)
definition attempts_made :: "notificationEvent_row \<Rightarrow> int" where
  "attempts_made row = (case queuedRetry row of None \<Rightarrow> 0 | Some q \<Rightarrow> qr_attempt q)"

(* src/src/worker/notifier/processor.ts:189-189 dispatchClaimed: delay *)
definition retry_delay :: "notificationEvent_row \<Rightarrow> dispatch_result \<Rightarrow> int option" where
  "retry_delay row r = (case result_owes r of None \<Rightarrow> None | Some _ \<Rightarrow> js_at ALERT_RETRY_DELAYS_MS (attempts_made row))"

text \<open>
  The columns written for a claimed row.  The payload is the one the row was claimed with, without
  its retry; a confirmation's is erased.
\<close>

(* src/src/worker/notifier/processor.ts:184-217 dispatchClaimed: set *)
definition finished_row :: "ctx \<Rightarrow> notificationEvent_row \<Rightarrow> dispatch_result \<Rightarrow> notificationEvent_row \<Rightarrow> notificationEvent_row" where
  "finished_row cx row r e = (case (retry_delay row r, result_owes r) of
      (Some delay, Some owes) \<Rightarrow> e\<lparr>e_status := RetryQueued, e_errorMessage := result_error r,
        e_payload := e_payload row, e_mailServerDown := e_mailServerDown row,
        e_retry := Some (queue_retry owes (attempts_made row + 1) (cx_now cx + delay))\<rparr>
    | (_, owes) \<Rightarrow> e\<lparr>e_status := result_status r, e_processedAt := Some (cx_now cx),
        e_errorMessage := result_error r, e_retry := None,
        e_payload := (if e_type row = ChannelConfirmation then CheckStatePayload else e_payload row),
        e_mailServerDown := (if e_type row = ChannelConfirmation then None
          else case owes of None \<Rightarrow> e_mailServerDown row | Some q \<Rightarrow> Some (dp_mailServerDown q))\<rparr>)"

definition same_claim :: "notificationEvent_row \<Rightarrow> notificationEvent_row \<Rightarrow> bool" where
  "same_claim row e \<longleftrightarrow> e_id e = e_id row \<and> on_some (\<lambda>c. e_claimedAt row = Some c) (e_claimedAt e)"

text \<open>Whether the row was still this claim's.\<close>

(* src/src/worker/notifier/processor.ts:194-221 dispatchClaimed: updated *)
definition write_result :: "ctx \<Rightarrow> notificationEvent_row \<Rightarrow> dispatch_result \<Rightarrow> db \<Rightarrow> bool \<times> db" where
  "write_result cx row r d = (filter (same_claim row) (notificationEvents d) \<noteq> [],
     d\<lparr>notificationEvents := update_where (same_claim row) (finished_row cx row r) (notificationEvents d)\<rparr>)"

text \<open>The dispatch at one time, the write at another, and whatever happens in between.\<close>

(* src/src/worker/notifier/processor.ts:150-230 dispatchClaimed *)
definition dispatchClaimed ::
  "ctx \<Rightarrow> ctx \<Rightarrow> world \<Rightarrow> (db \<Rightarrow> db) \<Rightarrow> notificationEvent_row \<Rightarrow> db \<Rightarrow> bool \<times> db" where
  "dispatchClaimed cx cx' out between row d = (
     let (r, d1) = dispatchEvent cx out row d in write_result cx' row r (between d1))"

(* src/src/worker/notifier/processor.ts:113-148 processOne *)
definition processOne :: "ctx \<Rightarrow> ctx \<Rightarrow> world \<Rightarrow> (db \<Rightarrow> db) \<Rightarrow> id \<Rightarrow> db \<Rightarrow> bool \<times> db" where
  "processOne cx cx' out between k d = (case claimOne cx k d of
      (None, d1) \<Rightarrow> (False, d1)
    | (Some row, d1) \<Rightarrow> dispatchClaimed cx cx' out between row d1)"

section \<open>A claim is a lease\<close>

text \<open>A worker's claim: a sweep of one of the lanes, or the event a notification names.\<close>

datatype sweep = SweepAlerts | SweepConfirmations | SweepRetries | Listen id

fun lane_of :: "sweep \<Rightarrow> lane option" where
  "lane_of SweepAlerts = Some ALERTS"
| "lane_of SweepConfirmations = Some CONFIRMATIONS"
| "lane_of SweepRetries = Some RETRIES"
| "lane_of (Listen k) = None"

definition claim_row :: "ctx \<Rightarrow> id set \<Rightarrow> sweep \<Rightarrow> db \<Rightarrow> notificationEvent_row option \<times> db" where
  "claim_row cx locked sw d = (case sw of
      Listen k \<Rightarrow> claimOne cx k d
    | SweepAlerts \<Rightarrow> claimPendingEvent cx locked ALERTS d
    | SweepConfirmations \<Rightarrow> claimPendingEvent cx locked CONFIRMATIONS d
    | SweepRetries \<Rightarrow> claimPendingEvent cx locked RETRIES d)"

definition unique_events :: "db \<Rightarrow> bool" where
  "unique_events d \<longleftrightarrow> distinct (map e_id (notificationEvents d))"

text \<open>The claims as a queue: at each time some worker makes some claim, on a table with its primary key.\<close>

definition claim_event_ids ::
  "ctx \<Rightarrow> (time \<Rightarrow> id set) \<Rightarrow> (time \<Rightarrow> sweep) \<Rightarrow> time \<Rightarrow> db \<Rightarrow> id list \<times> db" where
  "claim_event_ids cx locked which t d = (
     if \<not> unique_events d then ([], d)
     else let (row, d') = claim_row (cx\<lparr>cx_now := t\<rparr>) (locked t) (which t) d in
       (case row of None \<Rightarrow> [] | Some e \<Rightarrow> [e_id e], d'))"

definition claimable_by_any :: "time \<Rightarrow> db \<Rightarrow> notificationEvent_row \<Rightarrow> bool" where
  "claimable_by_any t d e \<longleftrightarrow> claimable t ALERTS d e \<or> claimable t CONFIRMATIONS d e \<or> claimable t RETRIES d e"

definition claimable_id :: "time \<Rightarrow> db \<Rightarrow> id \<Rightarrow> bool" where
  "claimable_id t d k \<longleftrightarrow> (\<exists>e\<in>set (notificationEvents d). e_id e = k \<and> claimable_by_any t d e)"

definition taken :: "event_status \<Rightarrow> event_status" where
  "taken s = (if s \<in> {ConfirmationQueued, ConfirmationSending} then ConfirmationSending
     else if s \<in> {RetryQueued, RetrySending} then RetrySending else EvProcessing)"

lemmas lane_defs = ALERTS_def CONFIRMATIONS_def RETRIES_def

lemma claimable_status:
  "claimable t ALERTS d e \<Longrightarrow> e_status e \<in> {EvPending, EvProcessing}"
  "claimable t CONFIRMATIONS d e \<Longrightarrow> e_status e \<in> {ConfirmationQueued, ConfirmationSending}"
  "claimable t RETRIES d e \<Longrightarrow> e_status e \<in> {RetryQueued, RetrySending}"
  by (auto simp: claimable_def lane_defs)

lemma claimable_later: "claimable_by_any t d e \<Longrightarrow> t \<le> u \<Longrightarrow> claimable_by_any u d e"
  by (auto simp: claimable_by_any_def claimable_def retry_due_def on_some_iff)

text \<open>Every claim takes one claimable row, by its id, to the claimed status of its lane.\<close>

definition take_row :: "time \<Rightarrow> notificationEvent_row \<Rightarrow> notificationEvent_row" where
  "take_row t e = e\<lparr>e_status := taken (e_status e), e_claimedAt := Some t\<rparr>"

lemma take_row_simps [simp]:
  "e_id (take_row t e) = e_id e" "e_claimedAt (take_row t e) = Some t" "e_status (take_row t e) = taken (e_status e)"
  "e_organizationId (take_row t e) = e_organizationId e" "e_retry (take_row t e) = e_retry e"
  by (simp_all add: take_row_def)

lemma update_the_row:
  assumes "distinct (map key t)" "r \<in> set t" "\<And>q. q \<in> set t \<Longrightarrow> P q \<longleftrightarrow> key q = key r" "f r = g r"
  shows "update_where P f t = update_where (\<lambda>q. key q = key r) g t"
proof -
  have "inj_on key (set t)" using assms(1) by (simp add: distinct_map)
  then have "q = r" if "q \<in> set t" "key q = key r" for q using that assms(2) by (auto dest: inj_onD)
  with assms(3,4) show ?thesis by (auto simp: update_where_def)
qed

lemma claim_row_cases:
  assumes "claim_row cx locked sw d = (r, d')" "unique_events d"
  obtains (none) "r = None" "d' = d"
  | (some) e where "e \<in> set (notificationEvents d)" "claimable_by_any (cx_now cx) d e" "r = Some (take_row (cx_now cx) e)"
      "d' = d\<lparr>notificationEvents := update_where (\<lambda>q. e_id q = e_id e) (take_row (cx_now cx)) (notificationEvents d)\<rparr>"
proof -
  have lane: thesis
    if c: "claimPendingEvent cx locked lane d = (r, d')" and lane: "lane \<in> {ALERTS, CONFIRMATIONS, RETRIES}" for lane
  proof (cases "first_row (order_asc e_createdAt (filter (\<lambda>e. claimable (cx_now cx) lane d e \<and> e_id e \<notin> locked)
         (notificationEvents d)))")
    case None
    with c none show ?thesis by (simp add: claimPendingEvent_def)
  next
    case (Some e)
    from first_row_in [OF this] have e: "e \<in> set (notificationEvents d)" "claimable (cx_now cx) lane d e" by simp_all
    have st: "taken (e_status e) = ln_claimed lane"
      using lane e(2) claimable_status [of "cx_now cx" d e] by (auto simp: taken_def lane_defs)
    have "update_where (\<lambda>q. e_id q = e_id e) (\<lambda>q. q\<lparr>e_status := ln_claimed lane, e_claimedAt := Some (cx_now cx)\<rparr>)
        (notificationEvents d) = update_where (\<lambda>q. e_id q = e_id e) (take_row (cx_now cx)) (notificationEvents d)"
      by (rule update_the_row) (use assms(2) e st in \<open>simp_all add: unique_events_def take_row_def\<close>)
    moreover have "claimable_by_any (cx_now cx) d e" using lane e(2) by (auto simp: claimable_by_any_def)
    ultimately show ?thesis
      using c Some some [of e] e(1) st by (simp add: claimPendingEvent_def Let_def take_row_def)
  qed
  show thesis
  proof (cases sw)
    case (Listen k)
    let ?open = "\<lambda>e. e_id e = k \<and> e_status e \<in> {EvPending, ConfirmationQueued}"
    let ?take = "\<lambda>e. e\<lparr>e_status := (if e_status e = ConfirmationQueued then ConfirmationSending else EvProcessing),
           e_claimedAt := Some (cx_now cx)\<rparr>"
    show thesis
    proof (cases "first_row (filter ?open (notificationEvents d))")
      case None
      then have "update_where ?open ?take (notificationEvents d) = notificationEvents d"
        by (intro update_where_none) (auto simp: filter_empty_conv)
      with None Listen assms(1) none show ?thesis by (simp add: claim_row_def claimOne_def Let_def)
    next
      case (Some e)
      from first_row_filter_in [OF this] have e: "e \<in> set (notificationEvents d)" "?open e" by simp_all
      have one: "?open q \<longleftrightarrow> e_id q = e_id e" if "q \<in> set (notificationEvents d)" for q
        using that e assms(2) by (auto simp: unique_events_def distinct_map dest: inj_onD)
      have taken: "?take e = take_row (cx_now cx) e" using e(2) by (auto simp: take_row_def taken_def)
      have "update_where ?open ?take (notificationEvents d) =
          update_where (\<lambda>q. e_id q = e_id e) (take_row (cx_now cx)) (notificationEvents d)"
      proof (rule update_the_row)
        show "distinct (map e_id (notificationEvents d))" using assms(2) by (simp add: unique_events_def)
      qed (fact e(1) one taken)+
      moreover have "claimable_by_any (cx_now cx) d e"
        using e(2) by (auto simp: claimable_by_any_def claimable_def lane_defs)
      ultimately show ?thesis
        using Some Listen assms(1) some [of e] e(1) taken by (simp add: claim_row_def claimOne_def Let_def)
    qed
  qed (use assms(1) lane in \<open>auto simp: claim_row_def\<close>)
qed

lemma taken_cases:
  "claimable_by_any t d e \<Longrightarrow> e_status e = RetrySending \<Longrightarrow> taken (e_status e) = RetrySending"
  "claimable_by_any t d e \<Longrightarrow> taken (e_status e) \<noteq> EvPending \<and> taken (e_status e) \<noteq> ConfirmationQueued \<and>
     taken (e_status e) \<noteq> RetryQueued"
  by (simp_all add: taken_def)

lemma filter_update_length:
  "(\<And>r. r \<in> set t \<Longrightarrow> P r \<Longrightarrow> Q r \<Longrightarrow> Q (f r)) \<Longrightarrow> length (filter Q t) \<le> length (filter Q (update_where P f t))"
  by (induction t) (auto simp: le_SucI)

lemma claim_more_in_flight:
  "retries_in_flight org d \<le> retries_in_flight org
     (d\<lparr>notificationEvents := update_where P (take_row t) (notificationEvents d)\<rparr>)"
  unfolding retries_in_flight_def by (simp, rule filter_update_length) (simp add: taken_def)

lemma taken_not_claimable:
  assumes "claimable_by_any u d' (take_row t e)" shows "t < u - STUCK_ROW_THRESHOLD_MS"
  using assms by (auto simp: claimable_by_any_def claimable_def lane_defs taken_def split: if_splits)

lemma claimable_anti:
  assumes "\<And>org. retries_in_flight org d \<le> retries_in_flight org d'" "claimable_by_any u d' e"
  shows "claimable_by_any u d e"
  using assms(2) le_less_trans [OF assms(1) [of "e_organizationId e"]]
  by (auto simp: claimable_by_any_def claimable_def retry_due_def)

lemma claim_event_ids_cases:
  assumes "claim_event_ids cx locked which t d = (ks, d')"
  obtains (none) "ks = []" "d' = d"
  | (one) e where "e \<in> set (notificationEvents d)" "claimable_by_any t d e" "ks = [e_id e]"
      "d' = d\<lparr>notificationEvents := update_where (\<lambda>q. e_id q = e_id e) (take_row t) (notificationEvents d)\<rparr>"
proof (cases "unique_events d")
  case True
  obtain r d2 where r: "claim_row (cx\<lparr>cx_now := t\<rparr>) (locked t) (which t) d = (r, d2)" by fastforce
  with assms True have ks: "ks = (case r of None \<Rightarrow> [] | Some e \<Rightarrow> [e_id e])" and d2: "d' = d2"
    by (simp_all add: claim_event_ids_def)
  from r True show thesis
  proof (cases rule: claim_row_cases)
    case none
    with ks d2 show thesis by (intro that(1)) simp_all
  next
    case (some e)
    with ks d2 show thesis by (intro that(2) [of e]) simp_all
  qed
next
  case False
  with assms show thesis by (intro that(1)) (simp_all add: claim_event_ids_def)
qed

lemma claimed_not_again:
  assumes "claim_event_ids cx locked which t d = (ks, d')" "k \<in> set ks" "u < t + STUCK_ROW_THRESHOLD_MS"
  shows "\<not> claimable_id u d' k"
  using assms(1)
proof (cases rule: claim_event_ids_cases)
  case none
  with assms(2) show ?thesis by simp
next
  case (one e)
  with assms(2) have k: "k = e_id e" by simp
  have "\<not> claimable_by_any u d' (take_row t q)" for q
    using assms(3) taken_not_claimable [of u d' t q] by linarith
  moreover have "\<exists>q. r = take_row t q" if "r \<in> set (notificationEvents d')" "e_id r = k" for r
    using that unfolding one(4) k by (auto simp: update_where_def split: if_splits)
  ultimately show ?thesis unfolding claimable_id_def by blast
qed

lemma claimed_only_takes:
  assumes "claim_event_ids cx locked which t d = (ks, d')" "t \<le> u" "claimable_id u d' k"
  shows "claimable_id u d k"
  using assms(1)
proof (cases rule: claim_event_ids_cases)
  case none
  with assms(3) show ?thesis by simp
next
  case (one e)
  show ?thesis
  proof (cases "k = e_id e")
    case True
    with one(1) claimable_later [OF one(2) assms(2)] show ?thesis unfolding claimable_id_def by blast
  next
    case False
    from assms(3) obtain r where r: "r \<in> set (notificationEvents d')" "e_id r = k" "claimable_by_any u d' r"
      unfolding claimable_id_def by blast
    with False have "r \<in> set (notificationEvents d)"
      unfolding one(4) by (auto simp: update_where_def split: if_splits)
    moreover have "claimable_by_any u d r"
      by (rule claimable_anti [OF _ r(3)]) (simp only: one(4) claim_more_in_flight)
    ultimately show ?thesis using r(2) unfolding claimable_id_def by blast
  qed
qed

interpretation event_queue: lease_queue "claim_event_ids cx locked which" claimable_id "\<lambda>_ _. STUCK_ROW_THRESHOLD_MS"
proof
  fix t d ks d' k
  assume "claim_event_ids cx locked which t d = (ks, d')" "k \<in> set ks"
  then show "claimable_id t d k"
    by (cases rule: claim_event_ids_cases) (auto simp only: claimable_id_def list.set empty_iff insert_iff)
qed (fact claimed_not_again claimed_only_takes)+

text \<open>
  No two workers send the same event at once: once an event is claimed, by a sweep of any lane or
  for a notification, no claim of any worker hands it out again within the stuck-row threshold,
  however many claims come in between and whichever rows are locked.
\<close>

theorem event_claimed_once:
  assumes "claim_event_ids cx locked which t d = (ks, d1)"
    and "claims (claim_event_ids cx locked which) ts d1 = (kss, d2)"
    and "k \<in> set ks" "sorted ts" "\<And>u. u \<in> set ts \<Longrightarrow> u < t + STUCK_ROW_THRESHOLD_MS"
  shows "list_all (\<lambda>ls. k \<notin> set ls) kss"
  using event_queue.claimed_once [OF assms] by (simp add: list_all_iff)

definition example_event :: "id \<Rightarrow> time \<Rightarrow> notificationEvent_row" where
  "example_event k t = \<lparr>e_id = k, e_organizationId = ''o'', e_monitorId = Some ''m'', e_incidentId = None,
     e_type = Notice Monitor_down, e_payload = StatusPayload (Some Up) Down 1 None ''c'', e_retry = None,
     e_mailServerDown = None, e_status = EvPending, e_claimedAt = None, e_processedAt = None,
     e_errorMessage = None, e_createdAt = t\<rparr>"

definition example_events_db :: db where
  "example_events_db = empty_db\<lparr>notificationEvents := [example_event ''x'' 1]\<rparr>"

definition example_workers :: "time \<Rightarrow> sweep" where
  "example_workers t = (if t = 4 then Listen ''x'' else SweepAlerts)"

lemma event_claimed_once_witness:
  "fst (claim_event_ids (example_ctx 0) (\<lambda>_. {}) example_workers 4 example_events_db) = [''x''] \<and>
   list_all (\<lambda>ls. ''x'' \<notin> set ls) (fst (claims (claim_event_ids (example_ctx 0) (\<lambda>_. {}) example_workers)
     [5, 200000] (snd (claim_event_ids (example_ctx 0) (\<lambda>_. {}) example_workers 4 example_events_db))))"
proof -
  let ?claim = "claim_event_ids (example_ctx 0) (\<lambda>_. {}) example_workers"
  have first: "fst (?claim 4 example_events_db) = [''x'']"
    by (simp add: claim_event_ids_def claim_row_def claimOne_def example_events_db_def example_event_def
        unique_events_def Let_def example_workers_def empty_db_def)
  have "list_all (\<lambda>ls. ''x'' \<notin> set ls) (fst (claims ?claim [5, 200000] (snd (?claim 4 example_events_db))))"
    by (rule event_claimed_once [OF prod.collapse [symmetric] prod.collapse [symmetric]])
      (auto simp: first STUCK_ROW_THRESHOLD_MS_def)
  with first show ?thesis ..
qed

end
