(* ===== verification/NotifierRuns.thy ===== *)
theory NotifierRuns
  imports Notifier
begin

text \<open>
  The notifier's workers together: claims, sends and the writes at their end as steps of one system,
  interleaved in any order with the events the rest of the program queues and with whatever it does to
  the other tables.  A worker may stop at any point; its claim then goes stale.

  The invariant ties each send in flight to its row: the row's claim is that send's or a later one's,
  and while it is that send's the row is still being sent.  From it follow that a finished event stays
  as it was written, that retries are bounded, and that no unfinished event is stranded.
\<close>

section \<open>Sends leave the queue alone\<close>

lemma send_all_events [frame_simps]:
  "notificationEvents (snd (send_all cx out p mid iid cs d)) = notificationEvents d"
proof (induction cx out p mid iid cs d rule: send_all.induct)
  case (2 cx out p mid iid c cs d)
  obtain r d1 where r: "sendToChannel cx out c p mid iid d = (r, d1)" by fastforce
  then have "notificationEvents d1 = notificationEvents d" by (auto simp: sendToChannel_def split: sum.splits)
  with 2 [OF r [symmetric] refl] show ?case by (simp add: r split_beta)
qed simp

lemma fanOut_events [frame_simps]:
  "notificationEvents (snd (fanOut cx out channels p prior mid iid d)) = notificationEvents d"
  by (simp add: fanOut_def split_beta frame_simps)

lemma notify_events [frame_simps]:
  "notificationEvents (snd (snd (notifyIncidentSubscribers env mail ev kind i msg late d))) = notificationEvents d"
  by (simp add: notifyIncidentSubscribers_def release_deliveries_def claim_deliveries_def Let_def)

lemma sendQueued_events [frame_simps]:
  "notificationEvents (snd (sendQueued cx mail org ch p d)) = notificationEvents d"
  by (auto simp: sendQueued_def deliver_def undoClaim_def releaseSend_def releaseUnsent_def setReasked_def
      stamp_def Let_def split: option.splits)

lemma incident_channels_events [frame_simps]:
  "notificationEvents (snd (dispatchIncidentChannels cx out e ty i message prior late d)) = notificationEvents d"
  by (simp add: dispatchIncidentChannels_def split_beta frame_simps split: sum.split)

lemma confirmation_events [frame_simps]:
  "notificationEvents (snd (dispatchChannelConfirmation cx out e d)) = notificationEvents d"
  using sendQueued_events
  by (auto simp: dispatchChannelConfirmation_def split: event_payload.split prod.split queued_outcome.split)
    (metis snd_conv)+

lemma dispatchEvent_events [frame_simps]:
  "notificationEvents (snd (dispatchEvent cx out e d)) = notificationEvents d"
proof -
  have "notificationEvents (snd (dispatchIncidentEvent cx out e ty d)) = notificationEvents d" for ty
    by (simp add: dispatchIncidentEvent_def Let_def split_beta frame_simps split: option.split)
  moreover have "notificationEvents (snd (dispatchMonitorEvent cx out e ty d)) = notificationEvents d" for ty
    by (simp add: dispatchMonitorEvent_def Let_def split_beta frame_simps split: option.split)
  ultimately show ?thesis
    unfolding dispatchEvent_def by (simp add: frame_simps split: event_type.split)
qed

lemma dispatch_keeps_events:
  "dispatchEvent cx out e d = (r, d') \<Longrightarrow> notificationEvents d' = notificationEvents d"
  using dispatchEvent_events [of cx out e d] by simp

section \<open>The workers as a step relation\<close>

text \<open>
  A send in flight is the row as claimed, with the outcome once there is one.  The ids ever given to
  an event are kept, since \<open>nanoid()\<close> gives none twice; a row goes when its monitor, incident or
  organization is deleted.
\<close>

record notifier =
  nf_now :: time
  nf_db :: db
  nf_flights :: "(notificationEvent_row \<times> dispatch_result option) list"
  nf_ids :: "id set"

definition newly_queued :: "notificationEvent_row \<Rightarrow> bool" where
  "newly_queued e \<longleftrightarrow> e_status e \<in> {EvPending, ConfirmationQueued} \<and> e_claimedAt e = None \<and> e_retry e = None"

inductive notifier_step :: "notifier \<Rightarrow> notifier \<Rightarrow> bool" where
  Claim: "nf_now s \<le> cx_now cx \<Longrightarrow> claim_row cx locked sw (nf_db s) = (Some row, d') \<Longrightarrow>
    notifier_step s (s\<lparr>nf_now := cx_now cx, nf_db := d', nf_flights := (row, None) # nf_flights s\<rparr>)"
| Send: "nf_now s \<le> cx_now cx \<Longrightarrow> (row, None) \<in> set (nf_flights s) \<Longrightarrow>
    dispatchEvent cx out row (nf_db s) = (r, d') \<Longrightarrow>
    notifier_step s (s\<lparr>nf_now := cx_now cx, nf_db := d',
      nf_flights := map (\<lambda>f. if f = (row, None) then (row, Some r) else f) (nf_flights s)\<rparr>)"
| Write: "nf_now s \<le> cx_now cx \<Longrightarrow> (row, Some r) \<in> set (nf_flights s) \<Longrightarrow>
    write_result cx row r (nf_db s) = (mine, d') \<Longrightarrow>
    notifier_step s (s\<lparr>nf_now := cx_now cx, nf_db := d',
      nf_flights := filter (\<lambda>f. fst f \<noteq> row) (nf_flights s)\<rparr>)"
| Queue: "newly_queued e \<Longrightarrow> e_id e \<notin> nf_ids s \<Longrightarrow>
    notificationEvents d' = notificationEvents (nf_db s) @ [e] \<Longrightarrow>
    notifier_step s (s\<lparr>nf_db := d', nf_ids := insert (e_id e) (nf_ids s)\<rparr>)"
| Remove: "notificationEvents d' = delete_where gone (notificationEvents (nf_db s)) \<Longrightarrow>
    notifier_step s (s\<lparr>nf_db := d'\<rparr>)"
| Elsewhere: "nf_now s \<le> t \<Longrightarrow> notificationEvents d' = notificationEvents (nf_db s) \<Longrightarrow>
    notifier_step s (s\<lparr>nf_now := t, nf_db := d'\<rparr>)"

inductive_cases notifier_stepE: "notifier_step s s'"

definition idle_notifier :: "notifier \<Rightarrow> bool" where
  "idle_notifier s \<longleftrightarrow> notificationEvents (nf_db s) = [] \<and> nf_flights s = [] \<and> nf_ids s = {}"

inductive notifier_reaches :: "notifier \<Rightarrow> notifier \<Rightarrow> bool" for s0 where
  Start: "notifier_reaches s0 s0"
| Step: "notifier_reaches s0 s \<Longrightarrow> notifier_step s s' \<Longrightarrow> notifier_reaches s0 s'"

definition settled :: "event_status \<Rightarrow> bool" where
  "settled s \<longleftrightarrow> s \<in> {EvSent, EvFailed, EvPartial, EvSuppressed}"

definition sending :: "event_status \<Rightarrow> bool" where
  "sending s \<longleftrightarrow> s \<in> {EvProcessing, ConfirmationSending, RetrySending}"

section \<open>The invariant\<close>

definition retry_ok :: "queued_retry option \<Rightarrow> bool" where
  "retry_ok r \<longleftrightarrow> (case r of None \<Rightarrow> True | Some q \<Rightarrow> 1 \<le> qr_attempt q \<and> qr_attempt q \<le> 6)"

definition waits_ok :: "time \<Rightarrow> notificationEvent_row \<Rightarrow> bool" where
  "waits_ok now e = (case (e_retry e, e_claimedAt e) of
      (Some q, Some c) \<Rightarrow> c < qr_nextAt q \<and> qr_nextAt q \<le> now + 30 * 60000 | _ \<Rightarrow> False)"

definition event_ok :: "time \<Rightarrow> notificationEvent_row \<Rightarrow> bool" where
  "event_ok now e \<longleftrightarrow> retry_ok (e_retry e) \<and>
     (newly_queued e \<or>
      (settled (e_status e) \<or> sending (e_status e) \<or> e_status e = RetryQueued \<and> waits_ok now e) \<and>
      (case e_claimedAt e of None \<Rightarrow> False | Some c \<Rightarrow> c \<le> now))"

definition holds_claim :: "notificationEvent_row \<Rightarrow> notificationEvent_row \<Rightarrow> bool" where
  "holds_claim f e \<longleftrightarrow> e_id e = e_id f \<and> (case (e_claimedAt f, e_claimedAt e) of
     (Some c, Some c') \<Rightarrow> c < c' \<or> c = c' \<and> sending (e_status e) | _ \<Rightarrow> False)"

definition flight_ok :: "notificationEvent_row list \<Rightarrow> notificationEvent_row \<Rightarrow> bool" where
  "flight_ok es f \<longleftrightarrow> retry_ok (e_retry f) \<and> (\<forall>e\<in>set es. e_id e = e_id f \<longrightarrow> holds_claim f e)"

definition claim_key :: "notificationEvent_row \<Rightarrow> id \<times> time option" where
  "claim_key f = (e_id f, e_claimedAt f)"

definition notifier_inv :: "notifier \<Rightarrow> bool" where
  "notifier_inv s \<longleftrightarrow> unique_events (nf_db s) \<and>
     (\<forall>e\<in>set (notificationEvents (nf_db s)). event_ok (nf_now s) e) \<and>
     (\<forall>f\<in>set (nf_flights s). flight_ok (notificationEvents (nf_db s)) (fst f)) \<and>
     distinct (map (claim_key \<circ> fst) (nf_flights s)) \<and>
     e_id ` set (notificationEvents (nf_db s)) \<union> (e_id \<circ> fst) ` set (nf_flights s) \<subseteq> nf_ids s"

lemma event_ok_later: "event_ok t e \<Longrightarrow> t \<le> u \<Longrightarrow> event_ok u e"
  by (auto simp: event_ok_def waits_ok_def split: option.splits)

lemma flight_ok_update:
  assumes "flight_ok es f" "\<And>e. e_id (g e) = e_id e"
    and "\<And>e. e \<in> set es \<Longrightarrow> P e \<Longrightarrow> holds_claim f e \<Longrightarrow> holds_claim f (g e)"
  shows "flight_ok (update_where P g es) f"
  using assms unfolding flight_ok_def update_where_def by (auto split: if_splits)

lemma flight_ok_append: "flight_ok es f \<Longrightarrow> e_id e \<noteq> e_id f \<Longrightarrow> flight_ok (es @ [e]) f"
  unfolding flight_ok_def by auto

lemma claimable_before:
  assumes "event_ok now e" "claimable_by_any t d e"
  shows "case e_claimedAt e of None \<Rightarrow> True | Some c \<Rightarrow> c < t"
  using assms
  by (auto simp: event_ok_def newly_queued_def settled_def sending_def waits_ok_def claimable_by_any_def
      claimable_def lane_defs retry_due_def on_some_iff STUCK_ROW_THRESHOLD_MS_def split: option.splits)

lemma event_ok_take: "event_ok now e \<Longrightarrow> now \<le> t \<Longrightarrow> event_ok t (take_row t e)"
  by (simp add: event_ok_def sending_def taken_def)

lemma holds_claim_take:
  "holds_claim (take_row t e) (take_row t e)"
  "event_ok now e \<Longrightarrow> claimable_by_any t d e \<Longrightarrow> holds_claim f e \<Longrightarrow> holds_claim f (take_row t e)"
  using claimable_before [of now e t d]
  by (auto simp: holds_claim_def sending_def taken_def split: option.splits)

lemma holds_no_later:
  "holds_claim f e \<Longrightarrow> event_ok now e \<Longrightarrow> claimable_by_any t d e \<Longrightarrow> e_claimedAt f \<noteq> Some t"
  using claimable_before [of now e t d] by (auto simp: holds_claim_def split: option.splits)

lemma unique_events_row:
  "unique_events d \<Longrightarrow> e \<in> set (notificationEvents d) \<Longrightarrow> q \<in> set (notificationEvents d) \<Longrightarrow> e_id q = e_id e \<Longrightarrow> q = e"
  unfolding unique_events_def distinct_map by (auto dest: inj_onD)

lemma unique_events_update:
  "unique_events d \<Longrightarrow> (\<And>e. e_id (g e) = e_id e) \<Longrightarrow>
   unique_events (d\<lparr>notificationEvents := update_where P g (notificationEvents d)\<rparr>)"
proof -
  assume "unique_events d" and g: "\<And>e. e_id (g e) = e_id e"
  moreover have "map e_id (update_where P g es) = map e_id es" for es
    by (induction es) (simp_all add: update_where_def g)
  ultimately show ?thesis by (simp add: unique_events_def)
qed

lemma claim_step_inv:
  assumes inv: "notifier_inv s" and now: "nf_now s \<le> cx_now cx"
    and claim: "claim_row cx locked sw (nf_db s) = (Some row, d')"
  shows "notifier_inv (s\<lparr>nf_now := cx_now cx, nf_db := d', nf_flights := (row, None) # nf_flights s\<rparr>)"
proof -
  let ?t = "cx_now cx" and ?es = "notificationEvents (nf_db s)"
  have u: "unique_events (nf_db s)" using inv by (simp add: notifier_inv_def)
  from claim u obtain e where e: "e \<in> set ?es" "claimable_by_any ?t (nf_db s) e" "row = take_row ?t e"
    "d' = (nf_db s)\<lparr>notificationEvents := update_where (\<lambda>q. e_id q = e_id e) (take_row ?t) ?es\<rparr>"
    by (cases rule: claim_row_cases) auto
  have ok: "event_ok (nf_now s) q" if "q \<in> set ?es" for q using inv that by (simp add: notifier_inv_def)
  have same: "q = e" if "q \<in> set ?es" "e_id q = e_id e" for q using unique_events_row [OF u e(1) that] .
  have events: "event_ok ?t q" if "q \<in> set (notificationEvents d')" for q
    using that ok now same by (auto simp: e(4) update_where_def intro: event_ok_take event_ok_later)
  have old: "flight_ok (notificationEvents d') (fst f)" if "f \<in> set (nf_flights s)" for f
  proof -
    have "flight_ok ?es (fst f)" using inv that by (simp add: notifier_inv_def)
    then show ?thesis unfolding e(4)
      by simp (erule flight_ok_update, simp, use same e(2) ok holds_claim_take(2) in blast)
  qed
  have "q = take_row ?t e" if "q \<in> set (notificationEvents d')" "e_id q = e_id e" for q
    using that same by (auto simp: e(4) update_where_def split: if_splits)
  moreover have "retry_ok (e_retry row)" using ok [OF e(1)] by (simp add: event_ok_def e(3))
  ultimately have new: "flight_ok (notificationEvents d') row"
    unfolding flight_ok_def e(3) using holds_claim_take(1) [of ?t e] by (metis take_row_simps(1))
  have "claim_key row \<noteq> claim_key (fst f)" if f: "f \<in> set (nf_flights s)" for f
  proof
    assume k: "claim_key row = claim_key (fst f)"
    from k e(3) have t: "e_id e = e_id (fst f)" "e_claimedAt (fst f) = Some ?t" by (simp_all add: claim_key_def)
    with inv f e(1) have "holds_claim (fst f) e" unfolding notifier_inv_def flight_ok_def by blast
    from holds_no_later [OF this ok [OF e(1)] e(2)] t(2) show False by blast
  qed
  then have "claim_key row \<notin> (claim_key \<circ> fst) ` set (nf_flights s)" by auto
  with inv have keys: "distinct (map (claim_key \<circ> fst) ((row, None) # nf_flights s))" by (simp add: notifier_inv_def)
  have "unique_events d'" unfolding e(4) using u by (intro unique_events_update) simp_all
  moreover have "e_id ` set (notificationEvents d') \<subseteq> nf_ids s" "e_id row \<in> nf_ids s"
    using inv e(1) by (auto simp: notifier_inv_def e(3,4) update_where_def)
  ultimately show ?thesis using inv events old new keys by (simp add: notifier_inv_def)
qed

lemma attempts_made_range: "retry_ok (e_retry row) \<Longrightarrow> 0 \<le> attempts_made row \<and> attempts_made row \<le> 6"
  by (auto simp: retry_ok_def attempts_made_def queuedRetry_def split: option.splits)

lemma retry_delay_range:
  assumes "0 \<le> attempts_made row" "retry_delay row r = Some delay"
  shows "attempts_made row \<le> 5" "0 < delay" "delay \<le> 30 * 60000"
proof -
  let ?n = "attempts_made row"
  have at: "js_at ALERT_RETRY_DELAYS_MS ?n = Some delay"
    using assms(2) by (simp add: retry_delay_def split: option.splits)
  then show "?n \<le> 5" by (simp add: js_at_def ALERT_RETRY_DELAYS_MS_def Let_def split: if_splits)
  then have "?n \<in> {0, 1, 2, 3, 4, 5}" using assms(1) by auto
  with at have "delay \<in> {60000, 120000, 300000, 600000, 1200000, 1800000}"
    by (auto simp: js_at_def ALERT_RETRY_DELAYS_MS_def)
  then show "0 < delay" "delay \<le> 30 * 60000" by auto
qed

lemma retry_delay_owes: "retry_delay row r = Some delay \<Longrightarrow> \<exists>owes. result_owes r = Some owes"
  by (simp add: retry_delay_def split: option.splits)

lemma result_settled: "settled (result_status r)"
  by (simp add: settled_def result_status_def split: dispatch_result.split)

text \<open>The write ends an event, or queues it for one attempt more.\<close>

lemma finished_row_cases:
  obtains (ended) "settled (e_status (finished_row cx row r e))" "e_retry (finished_row cx row r e) = None"
    "retry_delay row r = None"
  | (again) delay owes where "retry_delay row r = Some delay" "result_owes r = Some owes"
    "e_status (finished_row cx row r e) = RetryQueued"
    "e_retry (finished_row cx row r e) = Some (queue_retry owes (attempts_made row + 1) (cx_now cx + delay))"
proof (cases "retry_delay row r")
  case None
  then show thesis using that(1) by (simp add: finished_row_def result_settled)
next
  case (Some delay)
  with retry_delay_owes obtain owes where "result_owes r = Some owes" by blast
  with Some show thesis using that(2) by (simp add: finished_row_def)
qed

lemma finished_row_keeps [simp]:
  "e_id (finished_row cx row r e) = e_id e" "e_claimedAt (finished_row cx row r e) = e_claimedAt e"
  by (simp_all add: finished_row_def split: option.split)

lemma event_ok_finished:
  assumes "event_ok now e" "e_claimedAt e = Some c" "retry_ok (e_retry row)" "now \<le> cx_now cx"
  shows "event_ok (cx_now cx) (finished_row cx row r e)"
proof -
  have c: "c \<le> cx_now cx" using assms by (auto simp: event_ok_def newly_queued_def)
  show ?thesis
  proof (cases rule: finished_row_cases [of cx row r e])
    case ended
    with c assms(2) show ?thesis by (simp add: event_ok_def retry_ok_def)
  next
    case (again delay owes)
    have n: "0 \<le> attempts_made row" using attempts_made_range [OF assms(3)] by simp
    note range = retry_delay_range [OF n again(1)]
    from again range c n assms(2) show ?thesis
      by (simp add: event_ok_def retry_ok_def waits_ok_def queue_retry_def)
  qed
qed

lemma same_claim_iff:
  "same_claim row e \<longleftrightarrow> e_id e = e_id row \<and> e_claimedAt e \<noteq> None \<and> e_claimedAt e = e_claimedAt row"
  by (auto simp: same_claim_def on_some_iff)

text \<open>A row whose claim a write still holds is being sent: nothing else can have ended it.\<close>

lemma same_claim_sending:
  "holds_claim row e \<Longrightarrow> same_claim row e \<Longrightarrow> sending (e_status e)"
  by (auto simp: holds_claim_def same_claim_iff split: option.splits)

lemma write_step_inv:
  assumes inv: "notifier_inv s" and now: "nf_now s \<le> cx_now cx" and flight: "(row, Some r) \<in> set (nf_flights s)"
    and d': "write_result cx row r (nf_db s) = (mine, d')"
  shows "notifier_inv (s\<lparr>nf_now := cx_now cx, nf_db := d', nf_flights := filter (\<lambda>f. fst f \<noteq> row) (nf_flights s)\<rparr>)"
proof -
  let ?es = "notificationEvents (nf_db s)"
  have d': "d' = (nf_db s)\<lparr>notificationEvents := update_where (same_claim row) (finished_row cx row r) ?es\<rparr>"
    using d' by (simp add: write_result_def)
  have row: "retry_ok (e_retry row)" using inv flight unfolding notifier_inv_def flight_ok_def by fastforce
  have ok: "event_ok (nf_now s) q" if "q \<in> set ?es" for q using inv that by (simp add: notifier_inv_def)
  have "event_ok (cx_now cx) (finished_row cx row r q)" if q: "q \<in> set ?es" "same_claim row q" for q
  proof -
    from q(2) obtain c where "e_claimedAt q = Some c" unfolding same_claim_iff by blast
    from event_ok_finished [OF ok [OF q(1)] this row now] show ?thesis .
  qed
  then have events: "event_ok (cx_now cx) q" if "q \<in> set (notificationEvents d')" for q
    using that ok now by (auto simp: d' update_where_def intro: event_ok_later)
  have keys: "distinct (map (claim_key \<circ> fst) (nf_flights s))" using inv by (simp add: notifier_inv_def)
  have other: "claim_key (fst f) \<noteq> claim_key row" if "f \<in> set (nf_flights s)" "fst f \<noteq> row" for f
    using keys flight that unfolding distinct_map by (metis comp_apply fst_conv inj_onD)
  have flights: "flight_ok (notificationEvents d') (fst f)" if f: "f \<in> set (nf_flights s)" "fst f \<noteq> row" for f
  proof -
    have "flight_ok ?es (fst f)" using inv f by (simp add: notifier_inv_def)
    moreover have "holds_claim (fst f) (finished_row cx row r q)"
      if "holds_claim (fst f) q" "same_claim row q" for q
      using that other [OF f] by (auto simp: holds_claim_def same_claim_iff claim_key_def split: option.splits)
    ultimately show ?thesis unfolding d' by simp (erule flight_ok_update, simp, blast)
  qed
  have "unique_events d'" using inv unfolding d' notifier_inv_def by (intro unique_events_update) simp_all
  moreover have "e_id ` set (notificationEvents d') \<subseteq> nf_ids s" "(e_id \<circ> fst) ` set (nf_flights s) \<subseteq> nf_ids s"
    using inv by (auto simp: notifier_inv_def d' update_where_def)
  ultimately show ?thesis using events flights keys by (auto simp: notifier_inv_def distinct_map_filter)
qed

lemma notifier_step_inv:
  assumes "notifier_step s s'" "notifier_inv s" shows "notifier_inv s'"
  using assms
proof (cases rule: notifier_step.cases)
  case (Claim cx locked sw row d')
  with claim_step_inv assms(2) show ?thesis by blast
next
  case (Send cx row out r d')
  have "notificationEvents d' = notificationEvents (nf_db s)"
    using dispatchEvent_events [of cx out row "nf_db s"] Send(4) by simp
  moreover have "map (claim_key \<circ> fst) (map (\<lambda>f. if f = (row, None) then (row, Some r) else f) fs) =
      map (claim_key \<circ> fst) fs" for fs by (induction fs) auto
  ultimately show ?thesis
    using assms(2) Send(1,2) by (auto simp: notifier_inv_def unique_events_def intro: event_ok_later simp del: map_map)
next
  case (Write cx row r mine d')
  with write_step_inv assms(2) show ?thesis by blast
next
  case (Queue e d')
  then show ?thesis using assms(2)
    by (auto simp: notifier_inv_def unique_events_def event_ok_def newly_queued_def retry_ok_def
        intro!: flight_ok_append)
next
  case (Remove d' gone)
  then show ?thesis using assms(2)
    by (auto simp: notifier_inv_def unique_events_def flight_ok_def delete_where_def distinct_map_filter)
next
  case (Elsewhere t d')
  then show ?thesis using assms(2) by (auto simp: notifier_inv_def unique_events_def intro: event_ok_later)
qed

lemma notifier_reaches_inv:
  "notifier_reaches s0 s \<Longrightarrow> idle_notifier s0 \<Longrightarrow> notifier_inv s"
proof (induction rule: notifier_reaches.induct)
  case Start
  then show ?case by (simp add: idle_notifier_def notifier_inv_def unique_events_def)
next
  case (Step s s')
  then show ?case using notifier_step_inv by blast
qed

section \<open>Finished events stay as written\<close>

lemma settled_not_claimable: "settled (e_status e) \<Longrightarrow> \<not> claimable_by_any t d e"
  by (auto simp: settled_def claimable_by_any_def claimable_def lane_defs)

lemma settled_not_same_claim:
  assumes inv: "notifier_inv s" and flight: "(row, r) \<in> set (nf_flights s)"
    and e: "e \<in> set (notificationEvents (nf_db s))" "settled (e_status e)"
  shows "\<not> same_claim row e"
proof
  assume c: "same_claim row e"
  have "holds_claim row e"
    using inv flight e(1) c unfolding notifier_inv_def flight_ok_def same_claim_def by fastforce
  from same_claim_sending [OF this c] have "sending (e_status e)" .
  with e(2) show False by (auto simp: settled_def sending_def)
qed

lemma settled_step:
  assumes "notifier_step s s'" and inv: "notifier_inv s"
    and e: "e \<in> set (notificationEvents (nf_db s))" "settled (e_status e)"
  shows "e \<in> set (notificationEvents (nf_db s')) \<or> e_id e \<notin> e_id ` set (notificationEvents (nf_db s'))"
  using assms(1)
proof (cases rule: notifier_step.cases)
  case (Claim cx locked sw row d')
  have u: "unique_events (nf_db s)" using inv by (simp add: notifier_inv_def)
  from Claim(3) u obtain c where c: "c \<in> set (notificationEvents (nf_db s))" "claimable_by_any (cx_now cx) (nf_db s) c"
    "d' = (nf_db s)\<lparr>notificationEvents := update_where (\<lambda>q. e_id q = e_id c) (take_row (cx_now cx))
      (notificationEvents (nf_db s))\<rparr>" by (cases rule: claim_row_cases) auto
  have "e_id e \<noteq> e_id c" using unique_events_row [OF u c(1) e(1)] c(2) settled_not_claimable [OF e(2)] by blast
  with e(1) show ?thesis by (auto simp: Claim(1) c(3) update_where_def image_iff intro!: bexI [of _ e])
next
  case (Write cx row r mine d')
  from settled_not_same_claim [OF inv Write(3) e] e(1) Write(1,4) show ?thesis
    by (auto simp: write_result_def update_where_def image_iff intro!: bexI [of _ e])
next
  case (Send cx row out r d')
  then show ?thesis using dispatchEvent_events [of cx out row "nf_db s"] e(1) by simp
next
  case (Remove d' gone)
  have same: "q = e" if "q \<in> set (notificationEvents (nf_db s))" "e_id q = e_id e" for q
    using inv unique_events_row [OF _ e(1) that] by (simp add: notifier_inv_def)
  have es: "set (notificationEvents (nf_db s')) = {q \<in> set (notificationEvents (nf_db s)). \<not> gone q}"
    using Remove by simp
  show ?thesis
  proof (cases "gone e")
    case True
    with same es show ?thesis by (metis (no_types, lifting) imageE mem_Collect_eq)
  next
    case False
    with e(1) es show ?thesis by simp
  qed
qed (use e(1) in simp_all)

text \<open>An id that has been given is not given again.\<close>

lemma gone_step:
  assumes "notifier_step s s'" "k \<in> nf_ids s" "k \<notin> e_id ` set (notificationEvents (nf_db s))" "notifier_inv s"
  shows "k \<notin> e_id ` set (notificationEvents (nf_db s'))"
  using assms(1)
proof (cases rule: notifier_step.cases)
  case (Claim cx locked sw row d')
  have u: "unique_events (nf_db s)" using assms(4) by (simp add: notifier_inv_def)
  from Claim(3) u have "map e_id (notificationEvents d') = map e_id (notificationEvents (nf_db s))"
    by (cases rule: claim_row_cases) (simp_all add: map_update_where)
  then have "e_id ` set (notificationEvents d') = e_id ` set (notificationEvents (nf_db s))" by (metis set_map)
  with Claim assms(3) show ?thesis by simp
qed (use assms(2,3) in \<open>auto simp: write_result_def update_where_def dest: dispatch_keeps_events\<close>)

text \<open>
  C13: An event's outcome is written once and for all: however the workers' claims, sends and writes
  interleave, and though a stale claim is taken over while its first worker still sends, a row that
  holds a final status stays exactly as it was written for as long as it is there, because a write
  needs the row's latest claim.
\<close>

theorem settled_events_final:
  assumes "notifier_reaches s0 s" "idle_notifier s0" "notifier_reaches s s'"
    and "e \<in> set (notificationEvents (nf_db s))" "settled (e_status e)"
  shows "filter (\<lambda>q. e_id q = e_id e) (notificationEvents (nf_db s')) \<in> {[e], []}"
proof -
  let ?k = "e_id e" and ?es = "notificationEvents (nf_db s')"
  have "notifier_inv s' \<and> ?k \<in> nf_ids s' \<and> (e \<in> set ?es \<or> ?k \<notin> e_id ` set ?es)"
    using assms(3)
  proof (induction rule: notifier_reaches.induct)
    case Start
    with notifier_reaches_inv [OF assms(1,2)] assms(4) show ?case by (auto simp: notifier_inv_def)
  next
    case (Step s1 s2)
    from Step(3) have inv: "notifier_inv s1" and k: "?k \<in> nf_ids s1" by simp_all
    have "?k \<in> nf_ids s2" using Step(2) k by (cases rule: notifier_step.cases) simp_all
    with settled_step [OF Step(2) inv _ assms(5)] gone_step [OF Step(2) k _ inv]
      notifier_step_inv [OF Step(2) inv] Step(3) show ?case by blast
  qed
  then have u: "distinct (map e_id ?es)" and e: "e \<in> set ?es \<or> ?k \<notin> e_id ` set ?es"
    by (simp_all add: notifier_inv_def unique_events_def)
  from e show ?thesis
  proof
    assume "e \<in> set ?es"
    from filter_the_row [OF this u] show ?thesis by simp
  next
    assume "?k \<notin> e_id ` set ?es"
    then show ?thesis by (auto simp: filter_empty_conv image_iff)
  qed
qed

definition example_queue :: notifier where
  "example_queue = \<lparr>nf_now = 0, nf_db = empty_db\<lparr>notificationEvents := [example_event ''x'' 1]\<rparr>, nf_flights = [], nf_ids = {''x''}\<rparr>"

definition example_taken :: notificationEvent_row where
  "example_taken = take_row 4 (example_event ''x'' 1)"

definition example_written :: notificationEvent_row where
  "example_written = finished_row (example_ctx 7) example_taken (DispatchSuppressed ''monitor not found'') example_taken"

definition example_settled :: notifier where
  "example_settled = \<lparr>nf_now = 7, nf_db = empty_db\<lparr>notificationEvents := [example_written]\<rparr>, nf_flights = [], nf_ids = {''x''}\<rparr>"

text \<open>A queued event is claimed for a notification at 4, sent at 5 and written at 7.\<close>

lemma example_queue_reached: "notifier_reaches \<lparr>nf_now = 0, nf_db = empty_db, nf_flights = [], nf_ids = {}\<rparr> example_queue"
proof -
  have "notifier_step \<lparr>nf_now = 0, nf_db = empty_db, nf_flights = [], nf_ids = {}\<rparr>
      (\<lparr>nf_now = 0, nf_db = empty_db, nf_flights = [], nf_ids = {}\<rparr>\<lparr>nf_db := empty_db\<lparr>notificationEvents := [example_event ''x'' 1]\<rparr>,
        nf_ids := insert (e_id (example_event ''x'' 1)) {}\<rparr>)"
    using notifier_step.Queue [of "example_event ''x'' 1" "\<lparr>nf_now = 0, nf_db = empty_db, nf_flights = [], nf_ids = {}\<rparr>"]
    by (simp add: newly_queued_def example_event_def empty_db_def)
  from notifier_reaches.Step [OF notifier_reaches.Start this] show ?thesis
    by (simp add: example_queue_def) (simp add: example_event_def)
qed

lemma example_settled_reached: "notifier_reaches \<lparr>nf_now = 0, nf_db = empty_db, nf_flights = [], nf_ids = {}\<rparr> example_settled"
proof -
  let ?d1 = "empty_db\<lparr>notificationEvents := [example_taken]\<rparr>"
  let ?r = "DispatchSuppressed ''monitor not found''"
  have "claim_row (example_ctx 4) {} (Listen ''x'') (nf_db example_queue) = (Some example_taken, ?d1)"
    by (simp add: claim_row_def claimOne_def example_queue_def example_taken_def take_row_def example_event_def taken_def
        Let_def empty_db_def)
  from notifier_step.Claim [OF _ this]
  have 1: "notifier_step example_queue \<lparr>nf_now = 4, nf_db = ?d1, nf_flights = [(example_taken, None)], nf_ids = {''x''}\<rparr>"
    by (simp add: example_queue_def)
  let ?s1 = "\<lparr>nf_now = 4, nf_db = ?d1, nf_flights = [(example_taken, None)], nf_ids = {''x''}\<rparr>"
  let ?s2 = "\<lparr>nf_now = 5, nf_db = ?d1, nf_flights = [(example_taken, Some ?r)], nf_ids = {''x''}\<rparr>"
  have "dispatchEvent (example_ctx 5) (example_world []) example_taken (nf_db ?s1) = (?r, ?d1)"
    by (simp add: dispatchEvent_def example_taken_def take_row_def example_event_def payload_fits_def
        dispatchMonitorEvent_def empty_db_def)
  from notifier_step.Send [OF _ _ this] have 2: "notifier_step ?s1 ?s2"
    by simp
  have "write_result (example_ctx 7) example_taken ?r (nf_db ?s2) = (True, nf_db example_settled)"
    by (simp add: write_result_def same_claim_iff example_settled_def example_written_def)
      (simp add: example_taken_def)
  from notifier_step.Write [OF _ _ this] have 3: "notifier_step ?s2 example_settled"
    by (simp add: example_settled_def)
  show ?thesis
    using example_queue_reached 1 2 3 notifier_reaches.Step by blast
qed

lemma settled_events_final_witness:
  "settled (e_status example_written) \<and> filter (\<lambda>q. e_id q = ''x'') (notificationEvents (nf_db example_settled)) \<in> {[example_written], []}"
proof -
  have "example_written \<in> set (notificationEvents (nf_db example_settled))" by (simp add: example_settled_def)
  moreover have "settled (e_status example_written)"
    by (simp add: example_written_def finished_row_def retry_delay_def result_owes_def result_status_def settled_def)
  moreover from calculation have "filter (\<lambda>q. e_id q = e_id example_written) (notificationEvents (nf_db example_settled)) \<in>
      {[example_written], []}"
    using settled_events_final [OF example_settled_reached _ notifier_reaches.Start]
    by (simp add: idle_notifier_def empty_db_def)
  moreover have "e_id example_written = ''x''"
    by (simp add: example_written_def example_taken_def example_event_def)
  ultimately show ?thesis by simp
qed

section \<open>Retries run out\<close>

definition queued :: "event_status \<Rightarrow> bool" where
  "queued s \<longleftrightarrow> s \<in> {EvPending, ConfirmationQueued, RetryQueued}"

text \<open>An event attempted at the given times with the given outcomes, for as long as it is queued.\<close>

fun attempts :: "ctx \<Rightarrow> notificationEvent_row \<Rightarrow> (time \<times> dispatch_result) list \<Rightarrow> notificationEvent_row" where
  "attempts cx e [] = e"
| "attempts cx e ((t, r) # rest) =
    (if queued (e_status e) then
       let row = take_row t e in attempts cx (finished_row (cx\<lparr>cx_now := t\<rparr>) row r row) rest
     else e)"

lemma queued_not_settled: "settled s \<Longrightarrow> \<not> queued s"
  by (auto simp: settled_def queued_def)

lemma attempts_settled: "settled (e_status e) \<Longrightarrow> attempts cx e rs = e"
  by (cases rs) (auto dest: queued_not_settled)

lemma attempts_end:
  "queued (e_status e) \<Longrightarrow> retry_ok (e_retry e) \<Longrightarrow> 7 \<le> length rs + nat (attempts_made e) \<Longrightarrow>
   settled (e_status (attempts cx e rs))"
proof (induction rs arbitrary: e)
  case Nil
  with attempts_made_range [of e] have False by (simp add: le_nat_iff)
  then show ?case ..
next
  case (Cons tr rs)
  obtain t r where tr: "tr = (t, r)" by fastforce
  let ?row = "take_row t e"
  let ?e = "finished_row (cx\<lparr>cx_now := t\<rparr>) ?row r ?row"
  have n: "attempts_made ?row = attempts_made e" by (simp add: attempts_made_def queuedRetry_def)
  have step: "attempts cx e (tr # rs) = attempts cx ?e rs" using Cons.prems(1) by (simp add: tr Let_def)
  show ?case
  proof (cases rule: finished_row_cases [of "cx\<lparr>cx_now := t\<rparr>" ?row r ?row])
    case ended
    then show ?thesis by (simp add: step attempts_settled)
  next
    case (again delay owes)
    have nn: "0 \<le> attempts_made e" using attempts_made_range [OF Cons.prems(2)] by simp
    from retry_delay_range(1) [of ?row r delay] again(1) nn n have le: "attempts_made e \<le> 5" by simp
    from again(4) nn n have made: "attempts_made ?e = attempts_made e + 1"
      by (simp add: attempts_made_def [of ?e] queuedRetry_def queue_retry_def)
    have "retry_ok (e_retry ?e)" using again(4) nn n le by (simp add: retry_ok_def queue_retry_def)
    moreover have "queued (e_status ?e)" using again(3) by (simp add: queued_def)
    moreover have "7 \<le> length rs + nat (attempts_made ?e)"
      using Cons.prems(3) nn unfolding made by (simp add: nat_add_distrib)
    ultimately show ?thesis unfolding step using Cons.IH by blast
  qed
qed

text \<open>
  C15: Retries run out: whatever its attempts come to, and even if every one asks for another, an event
  queued for the first time holds a final status after at most seven attempts, one more than there
  are waits in the schedule.
\<close>

theorem retries_run_out:
  assumes "newly_queued e" "7 \<le> length rs"
  shows "settled (e_status (attempts cx e rs))"
proof (rule attempts_end)
  show "queued (e_status e)" "retry_ok (e_retry e)" using assms(1)
    by (auto simp: newly_queued_def queued_def retry_ok_def)
  show "7 \<le> length rs + nat (attempts_made e)" using assms(2) by simp
qed

definition example_owes :: dispatch_result where
  "example_owes = DispatchFailed False ''1/1 channels failed: c: timeout''
     (Some \<lparr>dp_owed = [''c''], dp_reached = False, dp_rejected = [], dp_mailServerDown = False\<rparr>)"

lemma retries_run_out_witness:
  "settled (e_status (attempts (example_ctx 0) (example_event ''x'' 1)
     (map (\<lambda>t. (t * 3600000, example_owes)) [1, 2, 3, 4, 5, 6, 7])))"
  by (rule retries_run_out) (simp_all add: newly_queued_def example_event_def)

section \<open>No event is stranded\<close>

lemma claims_something:
  assumes "q \<in> set (notificationEvents d)" "claimable_by_any u d q"
  shows "list_ex (\<lambda>sw. fst (claim_row (cx\<lparr>cx_now := u\<rparr>) {} sw d) \<noteq> None)
    [SweepAlerts, SweepConfirmations, SweepRetries]"
proof -
  have "fst (claimPendingEvent (cx\<lparr>cx_now := u\<rparr>) {} lane d) \<noteq> None" if "claimable u lane d q" for lane
  proof -
    from that assms(1) have "filter (\<lambda>e. claimable u lane d e) (notificationEvents d) \<noteq> []"
      by (auto simp: filter_empty_conv)
    then obtain r where
      "first_row (order_asc e_createdAt (filter (\<lambda>e. claimable u lane d e) (notificationEvents d))) = Some r"
      by (metis first_row_None_iff not_None_eq order_asc_def set_empty set_sort)
    then show ?thesis by (simp add: claimPendingEvent_def Let_def)
  qed
  with assms(2) show ?thesis by (auto simp: claimable_by_any_def claim_row_def)
qed

lemma stale_claimable:
  assumes "event_ok now e" "sending (e_status e)" "now + 30 * 60000 < u"
  shows "claimable_by_any u d e"
  using assms
  by (auto simp: event_ok_def newly_queued_def sending_def claimable_by_any_def claimable_def lane_defs
      STUCK_ROW_THRESHOLD_MS_def on_some_iff split: option.splits)

lemma queued_claimable:
  assumes "event_ok now e" "queued (e_status e)" "now + 30 * 60000 < u"
    and "e_status e = RetryQueued \<Longrightarrow> retries_in_flight (e_organizationId e) d < ORGANIZATION_RETRIES"
  shows "claimable_by_any u d e"
  using assms
  by (auto simp: event_ok_def newly_queued_def queued_def settled_def sending_def waits_ok_def claimable_by_any_def
      claimable_def lane_defs retry_due_def on_some_iff split: option.splits)

text \<open>
  C16: No event is stranded: in whatever state the workers and the rest of the program have left the
  queue, however many workers have died holding a claim and however many retries an organization has
  in flight, while some event is unfinished a sweep of one of the lanes finds a row to claim, at any
  time more than thirty minutes on.
\<close>

theorem no_event_stranded:
  assumes "notifier_reaches s0 s" "idle_notifier s0"
    and "e \<in> set (notificationEvents (nf_db s))" "\<not> settled (e_status e)" "nf_now s + 30 * 60000 < u"
  shows "list_ex (\<lambda>sw. fst (claim_row (cx\<lparr>cx_now := u\<rparr>) {} sw (nf_db s)) \<noteq> None)
    [SweepAlerts, SweepConfirmations, SweepRetries]"
proof -
  let ?es = "notificationEvents (nf_db s)"
  have ok: "event_ok (nf_now s) q" if "q \<in> set ?es" for q
    using notifier_reaches_inv [OF assms(1,2)] that by (simp add: notifier_inv_def)
  have "\<exists>q\<in>set ?es. claimable_by_any u (nf_db s) q"
  proof (cases "\<exists>q\<in>set ?es. sending (e_status q)")
    case True
    with stale_claimable ok assms(5) show ?thesis by blast
  next
    case False
    then have "\<not> sending (e_status e)" using assms(3) by blast
    with ok [OF assms(3)] assms(4) have "queued (e_status e)"
      by (auto simp: event_ok_def newly_queued_def queued_def)
    moreover have "retries_in_flight (e_organizationId e) (nf_db s) < ORGANIZATION_RETRIES"
    proof -
      have "e_status q \<noteq> RetrySending" if "q \<in> set ?es" for q using False that by (auto simp: sending_def)
      then show ?thesis by (simp add: retries_in_flight_def ORGANIZATION_RETRIES_def)
    qed
    ultimately show ?thesis using queued_claimable [OF ok [OF assms(3)] _ assms(5)] assms(3) by blast
  qed
  then show ?thesis using claims_something by blast
qed

lemma no_event_stranded_witness:
  "list_ex (\<lambda>sw. fst (claim_row ((example_ctx 0)\<lparr>cx_now := 1800001\<rparr>) {} sw (nf_db example_queue)) \<noteq> None)
    [SweepAlerts, SweepConfirmations, SweepRetries]"
proof (rule no_event_stranded [OF example_queue_reached])
  show "example_event ''x'' 1 \<in> set (notificationEvents (nf_db example_queue))" by (simp add: example_queue_def)
  show "\<not> settled (e_status (example_event ''x'' 1))" by (simp add: example_event_def settled_def)
qed (simp_all add: example_queue_def idle_notifier_def empty_db_def)

end
