(* ===== verification/Incidents.thy ===== *)
theory Incidents
  imports Processor
begin

text \<open>
  Incidents as members write them, \<open>lib/server/services/incident.service.ts\<close>: creation with its
  first update and its notice, edits, timeline updates, postmortems and deletion with what the
  foreign keys take along.

  An operation's statements run one after another, each committed by itself; between the read of an
  incident and the write of it nothing else is assumed to happen, except where the code guards the
  write itself.
\<close>

section \<open>The operations\<close>

(* src/src/lib/constants/defaults.ts:149-150 DEFAULT_INCIDENT_STATUS *)
definition DEFAULT_INCIDENT_STATUS :: incident_status where
  "DEFAULT_INCIDENT_STATUS = Investigating"

(* src/src/lib/constants/defaults.ts:152-153 DEFAULT_INCIDENT_IMPACT *)
definition DEFAULT_INCIDENT_IMPACT :: incident_impact where
  "DEFAULT_INCIDENT_IMPACT = Minor"

text \<open>Monitor ids left out are an empty list.\<close>

(* src/src/lib/server/services/incident.service.ts:26-35 CreateIncidentInput *)
record create_incident_input =
  ic_organizationId :: id
  ic_title :: string
  ic_status :: "incident_status option"
  ic_impact :: "incident_impact option"
  ic_message :: string
  ic_monitorIds :: "id list"
  ic_createdBy :: "id option"
  ic_isAutoCreated :: bool

(* src/src/lib/server/services/incident.service.ts:37-41 UpdateIncidentInput *)
record update_incident_input =
  iv_title :: "string option"
  iv_status :: "incident_status option"
  iv_impact :: "incident_impact option"

(* src/src/lib/server/services/incident.service.ts:43-49 AddUpdateInput *)
record add_update =
  au_incidentId :: id
  au_organizationId :: id
  au_status :: incident_status
  au_message :: string
  au_createdBy :: "id option"

datatype incident_error = IncidentMonitorNotFound

(* src/src/lib/server/services/incident.service.ts:67-84 enqueueIncidentEvent *)
definition enqueueIncidentEvent ::
  "ctx \<Rightarrow> notificationType \<Rightarrow> incident_row \<Rightarrow> (id \<times> string) option \<Rightarrow> db \<Rightarrow> db" where
  "enqueueIncidentEvent cx ty row update d = (draw d)\<lparr>notificationEvents := notificationEvents d @
     [\<lparr>e_id = cx_nanoid cx (drawn d), e_organizationId = i_organizationId row, e_monitorId = None,
       e_incidentId = Some (i_id row), e_type = Notice ty,
       e_payload = IncidentPayload (map_option fst update) (map_option snd update),
       e_retry = None, e_mailServerDown = None, e_status = EvPending, e_claimedAt = None,
       e_processedAt = None, e_errorMessage = None, e_createdAt = cx_now cx\<rparr>]\<rparr>"

definition add_timeline :: "ctx \<Rightarrow> id \<Rightarrow> incident_status \<Rightarrow> string \<Rightarrow> id option \<Rightarrow> db \<Rightarrow> incidentUpdate_row \<times> db" where
  "add_timeline cx incidentId st message createdBy d = (
     let row = \<lparr>iu_id = cx_nanoid cx (drawn d), iu_incidentId = incidentId, iu_status = st,
           iu_message = message, iu_createdBy = createdBy, iu_createdAt = cx_now cx\<rparr> in
     (row, (draw d)\<lparr>incidentUpdates := incidentUpdates d @ [row]\<rparr>))"

(* src/src/lib/server/services/incident.service.ts:94-106 create: values *)
definition new_incident :: "ctx \<Rightarrow> create_incident_input \<Rightarrow> db \<Rightarrow> incident_row" where
  "new_incident cx i d = \<lparr>i_id = cx_nanoid cx (drawn d), i_organizationId = ic_organizationId i,
     i_title = ic_title i, i_status = coalesce (ic_status i) DEFAULT_INCIDENT_STATUS,
     i_impact = coalesce (ic_impact i) DEFAULT_INCIDENT_IMPACT, i_startedAt = cx_now cx,
     i_resolvedAt = None, i_createdBy = ic_createdBy i, i_isAutoCreated = ic_isAutoCreated i,
     i_createdAt = cx_now cx, i_updatedAt = cx_now cx\<rparr>"

(* src/src/lib/server/services/incident.service.ts:92-115 create: insert *)
definition insert_incident :: "incident_row \<Rightarrow> id list \<Rightarrow> db \<Rightarrow> db" where
  "insert_incident row monitorIds d = (draw d)\<lparr>incidents := incidents d @ [row],
     incidentMonitors := incidentMonitors d @
       map (\<lambda>m. \<lparr>im_incidentId = i_id row, im_monitorId = m\<rparr>) monitorIds\<rparr>"

(* src/src/lib/server/services/incident.service.ts:86-129 create *)
definition create_incident :: "ctx \<Rightarrow> create_incident_input \<Rightarrow> db \<Rightarrow> incident_error + incident_row \<times> db" where
  "create_incident cx i d = (
     let monitorIds = unique (ic_monitorIds i) in
     if \<not> monitorsBelongToOrg d (ic_organizationId i) monitorIds then Inl IncidentMonitorNotFound
     else let row = new_incident cx i d;
          (_, d1) = add_timeline cx (i_id row) (i_status row) (ic_message i) (ic_createdBy i)
            (insert_incident row monitorIds d) in
       Inr (row, enqueueIncidentEvent cx Incident_created row None d1))"

definition in_org :: "id \<Rightarrow> id \<Rightarrow> incident_row \<Rightarrow> bool" where
  "in_org k organizationId i \<longleftrightarrow> i_id i = k \<and> i_organizationId i = organizationId"

(* src/src/lib/server/services/incident.service.ts:131-139 findByIdAndOrg *)
definition incident_in_org :: "id \<Rightarrow> id \<Rightarrow> db \<Rightarrow> incident_row option" where
  "incident_in_org k organizationId d = first_row (filter (in_org k organizationId) (incidents d))"

(* src/src/lib/server/services/incident.service.ts:141-156 findByOrganization *)
definition incidents_of_org :: "id \<Rightarrow> bool \<Rightarrow> db \<Rightarrow> incident_row list" where
  "incidents_of_org organizationId includeResolved d = order_desc i_startedAt
     (filter (\<lambda>i. i_organizationId i = organizationId \<and> (includeResolved \<or> incidentActive i)) (incidents d))"

(* src/src/lib/server/services/incident.service.ts:269-275 getUpdates *)
definition getUpdates :: "id \<Rightarrow> db \<Rightarrow> incidentUpdate_row list" where
  "getUpdates incidentId d =
     order_desc iu_createdAt (filter (\<lambda>u. iu_incidentId u = incidentId) (incidentUpdates d))"

(* src/src/lib/server/services/incident.service.ts:158-185 findWithDetails *)
definition findWithDetails ::
  "id \<Rightarrow> id \<Rightarrow> db \<Rightarrow> (incident_row \<times> incidentUpdate_row list \<times> (id \<times> string \<times> monitor_type) list) option" where
  "findWithDetails k organizationId d = (case incident_in_org k organizationId d of
      None \<Rightarrow> None
    | Some inc \<Rightarrow> Some (inc, getUpdates k d,
        map (\<lambda>(_, m). (m_id m, m_name m, m_type m))
          (inner_join (\<lambda>im m. im_monitorId im = m_id m \<and> m_organizationId m = organizationId)
            (filter (\<lambda>im. im_incidentId im = k) (incidentMonitors d)) (monitors d))))"

(* src/src/lib/server/services/incident.service.ts:202-206 update: set *)
definition edited :: "ctx \<Rightarrow> update_incident_input \<Rightarrow> bool \<Rightarrow> incident_row \<Rightarrow> incident_row" where
  "edited cx u flipping i = i\<lparr>i_title := coalesce (iv_title u) (i_title i),
     i_status := coalesce (iv_status u) (i_status i), i_impact := coalesce (iv_impact u) (i_impact i),
     i_updatedAt := cx_now cx,
     i_resolvedAt := (if flipping then Some (cx_now cx) else i_resolvedAt i)\<rparr>"

(* src/src/lib/server/services/incident.service.ts:187-215 update *)
definition update_incident :: "ctx \<Rightarrow> id \<Rightarrow> id \<Rightarrow> update_incident_input \<Rightarrow> db \<Rightarrow> incident_row option \<times> db" where
  "update_incident cx k organizationId u d = (case incident_in_org k organizationId d of
      None \<Rightarrow> (None, d)
    | Some existing \<Rightarrow>
        let flipping = (iv_status u = Some Resolved \<and> \<not> isEndedIncidentStatus (i_status existing));
            d1 = d\<lparr>incidents := update_where (in_org k organizationId) (edited cx u flipping) (incidents d)\<rparr> in
        (case incident_in_org k organizationId d1 of
           None \<Rightarrow> (None, d1)
         | Some updated \<Rightarrow> (Some updated,
             if flipping then enqueueIncidentEvent cx Incident_resolved updated None d1 else d1)))"

text \<open>The guard is on the row as the write finds it.\<close>

(* src/src/lib/server/services/incident.service.ts:244-253 addUpdate: where *)
definition update_applies :: "add_update \<Rightarrow> incident_row \<Rightarrow> bool" where
  "update_applies u i \<longleftrightarrow> in_org (au_incidentId u) (au_organizationId u) i \<and>
     (au_status u = Postmortem \<longrightarrow> isEndedIncidentStatus (i_status i)) \<and>
     (au_status u = Resolved \<longrightarrow> incidentActive i)"

(* src/src/lib/server/services/incident.service.ts:239-243 addUpdate: set *)
definition moved :: "ctx \<Rightarrow> add_update \<Rightarrow> incident_row \<Rightarrow> incident_row" where
  "moved cx u i = i\<lparr>i_status := au_status u, i_updatedAt := cx_now cx,
     i_resolvedAt := (if au_status u = Resolved then Some (cx_now cx) else i_resolvedAt i)\<rparr>"

(* src/src/lib/server/services/incident.service.ts:217-267 addUpdate *)
definition addUpdate :: "ctx \<Rightarrow> add_update \<Rightarrow> db \<Rightarrow> incidentUpdate_row option \<times> db" where
  "addUpdate cx u d = (case incident_in_org (au_incidentId u) (au_organizationId u) d of
      None \<Rightarrow> (None, d)
    | Some _ \<Rightarrow>
        let (update, d1) = add_timeline cx (au_incidentId u) (au_status u) (au_message u) (au_createdBy u) d;
            d2 = d1\<lparr>incidents := update_where (update_applies u) (moved cx u) (incidents d1)\<rparr> in
        (Some update, case first_row (filter (update_applies u) (incidents d1)) of
           None \<Rightarrow> d2
         | Some row \<Rightarrow>
             if au_status u = Postmortem then d2
             else enqueueIncidentEvent cx (if au_status u = Resolved then Incident_resolved else Incident_updated)
               row (Some (iu_id update, au_message u)) d2))"

(* src/src/lib/server/services/incident.service.ts:277-302 updatePostmortem *)
definition updatePostmortem :: "id \<Rightarrow> id \<Rightarrow> id \<Rightarrow> string \<Rightarrow> db \<Rightarrow> incidentUpdate_row option \<times> db" where
  "updatePostmortem incidentId organizationId updateId message d = (
     let owned = i_id ` set (filter (in_org incidentId organizationId) (incidents d));
         mine = (\<lambda>u. iu_id u = updateId \<and> iu_status u = Postmortem \<and> iu_incidentId u \<in> owned);
         d' = d\<lparr>incidentUpdates := update_where mine (\<lambda>u. u\<lparr>iu_message := message\<rparr>) (incidentUpdates d)\<rparr> in
     (first_row (filter mine (incidentUpdates d')), d'))"

text \<open>What the foreign keys do when an incident goes: its links, updates and events go, its log rows lose it.\<close>

(* src/src/lib/server/db/schema.ts:538-538 notificationLog: incidentId *)
definition forget_incident :: "id \<Rightarrow> notificationLog_row \<Rightarrow> notificationLog_row" where
  "forget_incident k l = (if nl_incidentId l = Some k then l\<lparr>nl_incidentId := None\<rparr> else l)"

definition events_of_incident :: "id set \<Rightarrow> notificationEvent_row \<Rightarrow> bool" where
  "events_of_incident ks e \<longleftrightarrow> on_some (\<lambda>k. k \<in> ks) (e_incidentId e)"

(* src/src/lib/server/services/incident.service.ts:304-311 delete *)
definition delete_incident :: "id \<Rightarrow> id \<Rightarrow> db \<Rightarrow> bool \<times> db" where
  "delete_incident k organizationId d = (
     if incident_in_org k organizationId d = None then (False, d)
     else let events = e_id ` set (filter (events_of_incident {k}) (notificationEvents d)) in
       (True, d\<lparr>
         incidents := delete_where (in_org k organizationId) (incidents d),
         incidentMonitors := delete_where (\<lambda>im. im_incidentId im = k) (incidentMonitors d),
         incidentUpdates := delete_where (\<lambda>u. iu_incidentId u = k) (incidentUpdates d),
         notificationEvents := delete_where (events_of_incident {k}) (notificationEvents d),
         statusPageSubscriberDeliveries :=
           delete_where (\<lambda>s. sd_eventId s \<in> events) (statusPageSubscriberDeliveries d),
         notificationLogs := map (forget_incident k) (notificationLogs d)\<rparr>))"

section \<open>Requests\<close>

datatype incident_op =
    CreateIncident create_incident_input
  | UpdateIncident id update_incident_input
  | AddIncidentUpdate add_update
  | RewritePostmortem id id string
  | DeleteIncident id

text \<open>A request of a member of an organization, which the routes take from the session.\<close>

fun incident_request :: "ctx \<Rightarrow> id \<Rightarrow> incident_op \<Rightarrow> db \<Rightarrow> db" where
  "incident_request cx org (CreateIncident i) d =
     (case create_incident cx (i\<lparr>ic_organizationId := org\<rparr>) d of Inl _ \<Rightarrow> d | Inr (_, d') \<Rightarrow> d')"
| "incident_request cx org (UpdateIncident k u) d = snd (update_incident cx k org u d)"
| "incident_request cx org (AddIncidentUpdate u) d = snd (addUpdate cx (u\<lparr>au_organizationId := org\<rparr>) d)"
| "incident_request cx org (RewritePostmortem k updateId message) d = snd (updatePostmortem k org updateId message d)"
| "incident_request cx org (DeleteIncident k) d = snd (delete_incident k org d)"

section \<open>Who is told of an end\<close>

definition unique_incidents :: "db \<Rightarrow> bool" where
  "unique_incidents d \<longleftrightarrow> distinct (map i_id (incidents d))"

text \<open>The ids still to be given belong to no incident.\<close>

definition fresh_incident_ids :: "ctx \<Rightarrow> db \<Rightarrow> bool" where
  "fresh_incident_ids cx d \<longleftrightarrow> cx_nanoid cx (drawn d) \<notin> i_id ` set (incidents d)"

definition resolved_notices :: "id \<Rightarrow> db \<Rightarrow> notificationEvent_row list" where
  "resolved_notices k d =
     filter (\<lambda>e. e_incidentId e = Some k \<and> e_type e = Notice Incident_resolved) (notificationEvents d)"

lemma unique_incident:
  "unique_incidents d \<Longrightarrow> i \<in> set (incidents d) \<Longrightarrow> j \<in> set (incidents d) \<Longrightarrow> i_id i = i_id j \<Longrightarrow> i = j"
  unfolding unique_incidents_def distinct_map by (auto dest: inj_onD)

lemma enqueueIncidentEvent_simps [simp]:
  "incidents (enqueueIncidentEvent cx ty row u d) = incidents d"
  "incidentUpdates (enqueueIncidentEvent cx ty row u d) = incidentUpdates d"
  "incidentMonitors (enqueueIncidentEvent cx ty row u d) = incidentMonitors d"
  "resolved_notices k (enqueueIncidentEvent cx ty row u d) = resolved_notices k d @
     (if i_id row = k \<and> ty = Incident_resolved then [last (notificationEvents (enqueueIncidentEvent cx ty row u d))] else [])"
  "filter (events_of_incident ks) (notificationEvents (enqueueIncidentEvent cx ty row u d)) =
     filter (events_of_incident ks) (notificationEvents d) @
     (if i_id row \<in> ks then [last (notificationEvents (enqueueIncidentEvent cx ty row u d))] else [])"
  "i_id row = k \<Longrightarrow> filter (\<lambda>e. e_incidentId e \<noteq> Some k) (notificationEvents (enqueueIncidentEvent cx ty row u d)) =
     filter (\<lambda>e. e_incidentId e \<noteq> Some k) (notificationEvents d)"
  by (simp_all add: enqueueIncidentEvent_def resolved_notices_def events_of_incident_def draw_def)

lemma add_timeline_simps [simp]:
  "incidents (snd (add_timeline cx k st m b d)) = incidents d"
  "incidentMonitors (snd (add_timeline cx k st m b d)) = incidentMonitors d"
  "notificationEvents (snd (add_timeline cx k st m b d)) = notificationEvents d"
  "incidentUpdates (snd (add_timeline cx k st m b d)) = incidentUpdates d @ [fst (add_timeline cx k st m b d)]"
  "iu_incidentId (fst (add_timeline cx k st m b d)) = k"
  by (simp_all add: add_timeline_def Let_def draw_def)

lemma resolved_notices_cong: "notificationEvents d = notificationEvents d' \<Longrightarrow> resolved_notices k d = resolved_notices k d'"
  by (simp add: resolved_notices_def)

lemma incident_in_org_None:
  "incident_in_org k org d = None \<longleftrightarrow> (\<forall>i\<in>set (incidents d). \<not> in_org k org i)"
  by (simp add: incident_in_org_def filter_empty_conv)

lemma incident_in_org_the:
  assumes "unique_incidents d" "i \<in> set (incidents d)" "in_org k org i"
  shows "incident_in_org k org d = Some i"
proof (cases "incident_in_org k org d")
  case None
  with assms(2,3) show ?thesis by (simp add: incident_in_org_None)
next
  case (Some j)
  then have "j \<in> set (incidents d)" "in_org k org j"
    using first_row_filter_in unfolding incident_in_org_def by metis+
  with unique_incident [OF assms(1,2)] assms(3) Some show ?thesis by (simp add: in_org_def)
qed

lemma in_org_edited [simp]: "in_org k org (edited cx u b i) = in_org k org i"
  by (simp add: edited_def in_org_def)

lemma unique_incidents_update:
  "unique_incidents d \<Longrightarrow> (\<And>i. i_id (g i) = i_id i) \<Longrightarrow>
   unique_incidents (d\<lparr>incidents := update_where P g (incidents d)\<rparr>)"
  by (simp add: unique_incidents_def map_update_where)

lemma update_incident_cases:
  assumes "unique_incidents d"
  obtains (none) "update_incident cx k org u d = (None, d)" "\<And>i. i \<in> set (incidents d) \<Longrightarrow> \<not> in_org k org i"
  | (row) i flipping d1 where "i \<in> set (incidents d)" "in_org k org i"
      "flipping = (iv_status u = Some Resolved \<and> incidentActive i)"
      "d1 = d\<lparr>incidents := update_where (in_org k org) (edited cx u flipping) (incidents d)\<rparr>"
      "update_incident cx k org u d = (Some (edited cx u flipping i),
        if flipping then enqueueIncidentEvent cx Incident_resolved (edited cx u flipping i) None d1 else d1)"
proof (cases "incident_in_org k org d")
  case None
  then have "\<not> in_org k org i" if "i \<in> set (incidents d)" for i
    using that by (simp add: incident_in_org_None)
  with None none show thesis by (simp add: update_incident_def)
next
  case (Some i)
  then have i: "i \<in> set (incidents d)" "in_org k org i"
    using first_row_filter_in unfolding incident_in_org_def by metis+
  let ?f = "iv_status u = Some Resolved \<and> incidentActive i"
  let ?d1 = "d\<lparr>incidents := update_where (in_org k org) (edited cx u ?f) (incidents d)\<rparr>"
  have "unique_incidents ?d1"
    by (rule unique_incidents_update [OF assms]) (simp add: edited_def)
  moreover have "edited cx u ?f i \<in> set (incidents ?d1)" using i by (simp add: updated_in)
  ultimately have "incident_in_org k org ?d1 = Some (edited cx u ?f i)"
    using i(2) by (intro incident_in_org_the) simp_all
  with Some row [of i ?f ?d1] i show thesis
    by (simp add: update_incident_def incidentActive_def Let_def)
qed

lemma addUpdate_cases:
  assumes "unique_incidents d"
  obtains (none) "addUpdate cx u d = (None, d)"
      "\<And>i. i \<in> set (incidents d) \<Longrightarrow> \<not> in_org (au_incidentId u) (au_organizationId u) i"
  | (row) i line d1 d2 where "i \<in> set (incidents d)" "in_org (au_incidentId u) (au_organizationId u) i"
      "(line, d1) = add_timeline cx (au_incidentId u) (au_status u) (au_message u) (au_createdBy u) d"
      "d2 = d1\<lparr>incidents := update_where (update_applies u) (moved cx u) (incidents d1)\<rparr>"
      "addUpdate cx u d = (Some line,
        if update_applies u i \<and> au_status u \<noteq> Postmortem
        then enqueueIncidentEvent cx (if au_status u = Resolved then Incident_resolved else Incident_updated) i
          (Some (iu_id line, au_message u)) d2
        else d2)"
proof (cases "incident_in_org (au_incidentId u) (au_organizationId u) d")
  case None
  then have "\<not> in_org (au_incidentId u) (au_organizationId u) i" if "i \<in> set (incidents d)" for i
    using that by (simp add: incident_in_org_None)
  with None none show thesis by (simp add: addUpdate_def)
next
  case (Some i)
  then have i: "i \<in> set (incidents d)" "in_org (au_incidentId u) (au_organizationId u) i"
    using first_row_filter_in unfolding incident_in_org_def by metis+
  obtain line d1 where l: "add_timeline cx (au_incidentId u) (au_status u) (au_message u) (au_createdBy u) d = (line, d1)"
    by fastforce
  then have d1: "incidents d1 = incidents d" by (metis add_timeline_simps(1) snd_conv)
  have same: "j = i" if "j \<in> set (incidents d)" "update_applies u j" for j
    using unique_incident [OF assms that(1) i(1)] that(2) i(2) by (simp add: update_applies_def in_org_def)
  have found: "first_row (filter (update_applies u) (incidents d1)) = (if update_applies u i then Some i else None)"
  proof (cases "first_row (filter (update_applies u) (incidents d))")
    case None
    then have "\<not> update_applies u i" using i(1) by (simp add: filter_empty_conv)
    with None show ?thesis by (simp add: d1)
  next
    case (Some j)
    from first_row_filter_in [OF this] have j: "j \<in> set (incidents d)" "update_applies u j" by simp_all
    then have "j = i" by (rule same)
    with j Some show ?thesis by (simp add: d1)
  qed
  show thesis
    by (rule row [OF i l [symmetric] refl]) (use Some l found in \<open>simp add: addUpdate_def Let_def\<close>)
qed

text \<open>What a request does to one incident and its end notices.\<close>

definition end_told :: "ctx \<Rightarrow> incident_row \<Rightarrow> db \<Rightarrow> incident_row \<Rightarrow> db \<Rightarrow> bool" where
  "end_told cx i d j d' \<longleftrightarrow>
     length (resolved_notices (i_id i) d') =
       length (resolved_notices (i_id i) d) + (if incidentActive i \<and> i_status j = Resolved then 1 else 0) \<and>
     i_resolvedAt j = (if incidentActive i \<and> i_status j = Resolved then Some (cx_now cx) else i_resolvedAt i)"

lemma end_told_same: "resolved_notices (i_id i) d' = resolved_notices (i_id i) d \<Longrightarrow> end_told cx i d i d'"
  by (auto simp: end_told_def incidentActive_def isEndedIncidentStatus_def)

lemma insert_incident_simps [simp]:
  "incidents (insert_incident row ms d) = incidents d @ [row]"
  "incidentUpdates (insert_incident row ms d) = incidentUpdates d"
  "notificationEvents (insert_incident row ms d) = notificationEvents d"
  "incidentMonitors (insert_incident row ms d) = incidentMonitors d @
     map (\<lambda>m. \<lparr>im_incidentId = i_id row, im_monitorId = m\<rparr>) ms"
  by (simp_all add: insert_incident_def draw_def)

lemma create_incident_row:
  assumes "create_incident cx inp d = Inr (row, d')"
  shows "row = new_incident cx inp d"
    "d' = enqueueIncidentEvent cx Incident_created row None (snd (add_timeline cx (i_id row) (i_status row)
      (ic_message inp) (ic_createdBy inp) (insert_incident row (unique (ic_monitorIds inp)) d)))"
  using assms by (auto simp: create_incident_def Let_def split_beta split: if_splits)

lemma create_end_told:
  assumes "unique_incidents d" "fresh_incident_ids cx d" "i \<in> set (incidents d)"
    and c: "create_incident cx inp d = Inr (row, d')" "j \<in> set (incidents d')" "i_id j = i_id i"
  shows "end_told cx i d j d'"
proof -
  note d' = create_incident_row [OF c(1)]
  have "i_id row \<noteq> i_id i"
    using assms(2,3) d'(1) by (auto simp: fresh_incident_ids_def new_incident_def)
  then have "j \<noteq> row" using c(3) by auto
  then have "j = i" using unique_incident [OF assms(1) _ assms(3) c(3)] c(2) by (simp add: d'(2))
  moreover have "resolved_notices (i_id i) d' = resolved_notices (i_id i) d"
    unfolding d'(2) by (simp, simp add: resolved_notices_def)
  ultimately show ?thesis using end_told_same by simp
qed

lemma update_end_told:
  assumes u: "unique_incidents d" and i: "i \<in> set (incidents d)"
    and j: "j \<in> set (incidents (snd (update_incident cx k org v d)))" "i_id j = i_id i"
  shows "end_told cx i d j (snd (update_incident cx k org v d))"
  using u
proof (cases rule: update_incident_cases [of d cx k org v])
  case none
  with unique_incident [OF u _ i j(2)] j(1) end_told_same show ?thesis by simp
next
  case (row r flipping d1)
  have inc: "incidents (snd (update_incident cx k org v d)) = incidents d1" by (simp add: row(5))
  from j(1) obtain q where q: "q \<in> set (incidents d)" "if in_org k org q then j = edited cx v flipping q else j = q"
    unfolding inc row(4) by (auto simp: in_update_where_iff)
  then have "i_id q = i_id i" using j(2) by (auto simp: edited_def split: if_splits)
  then have "q = i" using unique_incident [OF u q(1) i] by simp
  show ?thesis
  proof (cases "r = i")
    case True
    with row q(2) \<open>q = i\<close> show ?thesis
      by (auto simp: end_told_def edited_def in_org_def coalesce_def resolved_notices_def incidentActive_def
          isEndedIncidentStatus_def enqueueIncidentEvent_def draw_def split: option.splits)
  next
    case False
    then have other: "i_id r \<noteq> i_id i" using unique_incident [OF u row(1) i] by blast
    then have "j = i" using q(2) \<open>q = i\<close> row(2) by (simp add: in_org_def split: if_splits)
    moreover have "resolved_notices (i_id i) (snd (update_incident cx k org v d)) = resolved_notices (i_id i) d"
      using other by (simp add: row(5) row(4)) (simp add: resolved_notices_def edited_def)
    ultimately show ?thesis using end_told_same by simp
  qed
qed

lemma addUpdate_end_told:
  assumes u: "unique_incidents d" and i: "i \<in> set (incidents d)"
    and j: "j \<in> set (incidents (snd (addUpdate cx v d)))" "i_id j = i_id i"
  shows "end_told cx i d j (snd (addUpdate cx v d))"
  using u
proof (cases rule: addUpdate_cases [of d cx v])
  case none
  with unique_incident [OF u _ i j(2)] j(1) end_told_same show ?thesis by simp
next
  case (row r line d1 d2)
  have d1: "incidents d1 = incidents d" "notificationEvents d1 = notificationEvents d"
    using row(3) add_timeline_simps(1,3) by (metis snd_conv)+
  have inc: "incidents (snd (addUpdate cx v d)) = incidents d2" by (simp add: row(5))
  from j(1) obtain q where q: "q \<in> set (incidents d)" "if update_applies v q then j = moved cx v q else j = q"
    unfolding inc row(4) by (auto simp: in_update_where_iff d1)
  then have "i_id q = i_id i" using j(2) by (auto simp: moved_def split: if_splits)
  then have "q = i" using unique_incident [OF u q(1) i] by simp
  have notices: "resolved_notices k d2 = resolved_notices k d" for k
    by (simp add: resolved_notices_def row(4) d1)
  show ?thesis
  proof (cases "r = i")
    case True
    with row(2,5) q(2) \<open>q = i\<close> notices show ?thesis
      by (auto simp: end_told_def moved_def update_applies_def in_org_def incidentActive_def
          isEndedIncidentStatus_def split: if_splits)
  next
    case False
    then have other: "i_id r \<noteq> i_id i" using unique_incident [OF u row(1) i] by blast
    then have "j = i" using q(2) \<open>q = i\<close> row(2) by (simp add: in_org_def update_applies_def split: if_splits)
    moreover have "resolved_notices (i_id i) (snd (addUpdate cx v d)) = resolved_notices (i_id i) d"
      using other by (simp add: row(5) notices)
    ultimately show ?thesis using end_told_same by simp
  qed
qed

lemma delete_notices:
  assumes "k' \<noteq> k"
  shows "resolved_notices k' (snd (delete_incident k org d)) = resolved_notices k' d"
proof (cases "incident_in_org k org d")
  case (Some r)
  then have "notificationEvents (snd (delete_incident k org d)) = delete_where (events_of_incident {k}) (notificationEvents d)"
    by (simp add: delete_incident_def Let_def)
  moreover have "filter (\<lambda>e. e_incidentId e = Some k' \<and> e_type e = Notice Incident_resolved)
      (delete_where (events_of_incident {k}) es) = filter (\<lambda>e. e_incidentId e = Some k' \<and> e_type e = Notice Incident_resolved) es" for es
    by (rule filter_delete_where) (use assms in \<open>simp add: events_of_incident_def\<close>)
  ultimately show ?thesis by (simp only: resolved_notices_def)
qed (simp add: delete_incident_def)

lemma delete_end_told:
  assumes u: "unique_incidents d" and i: "i \<in> set (incidents d)"
    and j: "j \<in> set (incidents (snd (delete_incident k org d)))" "i_id j = i_id i"
  shows "end_told cx i d j (snd (delete_incident k org d))"
proof (cases "incident_in_org k org d")
  case None
  with j(1) unique_incident [OF u _ i j(2)] end_told_same show ?thesis by (simp add: delete_incident_def)
next
  case (Some r)
  then have r: "r \<in> set (incidents d)" "in_org k org r"
    using first_row_filter_in unfolding incident_in_org_def by metis+
  from j(1) Some have jd: "j \<in> set (incidents d)" "\<not> in_org k org j" by (auto simp: delete_incident_def Let_def)
  then have "j = i" using unique_incident [OF u _ i j(2)] by simp
  moreover have "i_id i \<noteq> k"
  proof
    assume "i_id i = k"
    then have "i_id r = i_id i" using r(2) by (simp add: in_org_def)
    with unique_incident [OF u r(1) i] r(2) jd(2) \<open>j = i\<close> show False by simp
  qed
  then have "resolved_notices (i_id i) (snd (delete_incident k org d)) = resolved_notices (i_id i) d"
    by (rule delete_notices)
  ultimately show ?thesis using end_told_same by simp
qed

lemma postmortem_end_told:
  assumes u: "unique_incidents d" and i: "i \<in> set (incidents d)"
    and j: "j \<in> set (incidents (snd (updatePostmortem k org q m d)))" "i_id j = i_id i"
  shows "end_told cx i d j (snd (updatePostmortem k org q m d))"
  using unique_incident [OF u _ i j(2)] j(1) end_told_same [of i "snd (updatePostmortem k org q m d)" d cx]
  by (simp add: updatePostmortem_def Let_def resolved_notices_def)


section \<open>Organizations kept apart\<close>

text \<open>What an organization has: its incidents, with their links, timelines and events.\<close>

definition ids_of_org :: "id \<Rightarrow> db \<Rightarrow> id set" where
  "ids_of_org org d = i_id ` set (filter (\<lambda>i. i_organizationId i = org) (incidents d))"

definition org_incidents ::
  "id \<Rightarrow> db \<Rightarrow> incident_row list \<times> incidentMonitor_row list \<times> incidentUpdate_row list \<times> notificationEvent_row list" where
  "org_incidents org d = (let ks = ids_of_org org d in
     (filter (\<lambda>i. i_organizationId i = org) (incidents d),
      filter (\<lambda>im. im_incidentId im \<in> ks) (incidentMonitors d),
      filter (\<lambda>u. iu_incidentId u \<in> ks) (incidentUpdates d),
      filter (events_of_incident ks) (notificationEvents d)))"

definition only_incident :: "id \<Rightarrow> id \<Rightarrow> db \<Rightarrow> db \<Rightarrow> bool" where
  "only_incident org k d d' \<longleftrightarrow>
     filter (\<lambda>i. i_id i \<noteq> k) (incidents d') = filter (\<lambda>i. i_id i \<noteq> k) (incidents d) \<and>
     filter (\<lambda>im. im_incidentId im \<noteq> k) (incidentMonitors d') = filter (\<lambda>im. im_incidentId im \<noteq> k) (incidentMonitors d) \<and>
     filter (\<lambda>u. iu_incidentId u \<noteq> k) (incidentUpdates d') = filter (\<lambda>u. iu_incidentId u \<noteq> k) (incidentUpdates d) \<and>
     filter (\<lambda>e. e_incidentId e \<noteq> Some k) (notificationEvents d') = filter (\<lambda>e. e_incidentId e \<noteq> Some k) (notificationEvents d) \<and>
     list_all (\<lambda>i. i_id i = k \<longrightarrow> i_organizationId i = org) (incidents d @ incidents d')"

lemma only_incident_view:
  assumes o: "only_incident org k d d'" and other: "org' \<noteq> org"
  shows "org_incidents org' d' = org_incidents org' d"
proof -
  have mine: "i_organizationId i = org" if "i \<in> set (incidents d') \<union> set (incidents d)" "i_id i = k" for i
    using o that by (auto simp: only_incident_def list_all_iff)
  have i: "filter (\<lambda>i. i_organizationId i = org') (incidents d') = filter (\<lambda>i. i_organizationId i = org') (incidents d)"
  proof (rule filter_agree)
    show "filter (\<lambda>i. i_id i \<noteq> k) (incidents d') = filter (\<lambda>i. i_id i \<noteq> k) (incidents d)"
      using o by (simp add: only_incident_def)
  qed (use mine other in blast)
  then have ks: "ids_of_org org' d' = ids_of_org org' d" by (simp only: ids_of_org_def)
  have k: "k \<notin> ids_of_org org' d" using mine other by (auto simp: ids_of_org_def)
  have im: "filter (\<lambda>im. im_incidentId im \<in> ids_of_org org' d) (incidentMonitors d') =
      filter (\<lambda>im. im_incidentId im \<in> ids_of_org org' d) (incidentMonitors d)"
    by (rule filter_agree [where B = "\<lambda>im. im_incidentId im \<noteq> k"]) (use o k in \<open>auto simp: only_incident_def\<close>)
  have iu: "filter (\<lambda>u. iu_incidentId u \<in> ids_of_org org' d) (incidentUpdates d') =
      filter (\<lambda>u. iu_incidentId u \<in> ids_of_org org' d) (incidentUpdates d)"
    by (rule filter_agree [where B = "\<lambda>u. iu_incidentId u \<noteq> k"]) (use o k in \<open>auto simp: only_incident_def\<close>)
  have e: "filter (events_of_incident (ids_of_org org' d)) (notificationEvents d') =
      filter (events_of_incident (ids_of_org org' d)) (notificationEvents d)"
    by (rule filter_agree [where B = "\<lambda>e. e_incidentId e \<noteq> Some k"])
      (use o k in \<open>auto simp: only_incident_def events_of_incident_def on_some_iff\<close>)
  show ?thesis unfolding org_incidents_def Let_def ks i im iu e ..
qed

lemma create_only:
  assumes "fresh_incident_ids cx d" and c: "create_incident cx inp d = Inr (row, d')"
  shows "only_incident (ic_organizationId inp) (i_id row) d d'"
proof -
  note d' = create_incident_row [OF c]
  have "i_id row \<notin> i_id ` set (incidents d)"
    using assms(1) by (simp add: d'(1) fresh_incident_ids_def new_incident_def)
  then have "i_id i \<noteq> i_id row" if "i \<in> set (incidents d)" for i using that by (metis imageI)
  moreover have "i_organizationId row = ic_organizationId inp" by (simp add: d'(1) new_incident_def)
  ultimately show ?thesis
    unfolding d'(2) only_incident_def by (simp add: list_all_iff)
qed

lemma update_only:
  assumes "unique_incidents d"
  shows "snd (update_incident cx k org v d) = d \<or> only_incident org k d (snd (update_incident cx k org v d))"
  using assms
proof (cases rule: update_incident_cases [of d cx k org v])
  case (row r flipping d1)
  have one: "i_organizationId i = org" if "i \<in> set (incidents d)" "i_id i = k" for i
    using unique_incident [OF assms row(1) that(1)] row(2) that(2) by (simp add: in_org_def)
  have i: "filter (\<lambda>i. i_id i \<noteq> k) (incidents d1) = filter (\<lambda>i. i_id i \<noteq> k) (incidents d)"
    unfolding row(4) by simp (rule filter_update_where, simp add: in_org_def edited_def)
  have rows: "i_organizationId i = org" if "i \<in> set (incidents d1)" "i_id i = k" for i
    using that one unfolding row(4) by (auto simp: in_update_where_iff edited_def split: if_splits)
  have other: "incidentMonitors d1 = incidentMonitors d" "incidentUpdates d1 = incidentUpdates d"
    "notificationEvents d1 = notificationEvents d" by (simp_all add: row(4))
  have id: "i_id (edited cx v flipping r) = k" using row(2) by (simp add: edited_def in_org_def)
  have "only_incident org k d (snd (update_incident cx k org v d))"
    using i rows one id by (auto simp add: row(5) only_incident_def list_all_iff other)
  then show ?thesis ..
qed simp

lemma addUpdate_only:
  assumes "unique_incidents d"
  shows "snd (addUpdate cx v d) = d \<or> only_incident (au_organizationId v) (au_incidentId v) d (snd (addUpdate cx v d))"
  using assms
proof (cases rule: addUpdate_cases [of d cx v])
  case (row r line d1 d2)
  let ?k = "au_incidentId v" and ?org = "au_organizationId v"
  have one: "i_organizationId i = ?org" if "i \<in> set (incidents d)" "i_id i = ?k" for i
    using unique_incident [OF assms row(1) that(1)] row(2) that(2) by (simp add: in_org_def)
  have d1: "incidents d1 = incidents d" "notificationEvents d1 = notificationEvents d"
    "incidentMonitors d1 = incidentMonitors d" "incidentUpdates d1 = incidentUpdates d @ [line]" "iu_incidentId line = ?k"
    using row(3) add_timeline_simps by (metis snd_conv fst_conv)+
  have i: "filter (\<lambda>i. i_id i \<noteq> ?k) (incidents d2) = filter (\<lambda>i. i_id i \<noteq> ?k) (incidents d)"
    unfolding row(4) by (simp add: d1) (rule filter_update_where, simp add: in_org_def update_applies_def moved_def)
  have rows: "i_organizationId i = ?org" if "i \<in> set (incidents d2)" "i_id i = ?k" for i
    using that one unfolding row(4) by (auto simp: in_update_where_iff moved_def d1 split: if_splits)
  have id: "i_id r = ?k" using row(2) by (simp add: in_org_def)
  have other: "incidentMonitors d2 = incidentMonitors d" "incidentUpdates d2 = incidentUpdates d @ [line]"
    "notificationEvents d2 = notificationEvents d" by (simp_all add: row(4) d1)
  have "only_incident ?org ?k d (snd (addUpdate cx v d))"
    using i rows one id d1(5) by (auto simp add: row(5) only_incident_def list_all_iff other)
  then show ?thesis ..
qed simp

lemma postmortem_only:
  assumes "unique_incidents d"
  shows "snd (updatePostmortem k org q m d) = d \<or> only_incident org k d (snd (updatePostmortem k org q m d))"
proof (cases "incident_in_org k org d")
  case None
  then have "i_id ` set (filter (in_org k org) (incidents d)) = {}" by (simp add: incident_in_org_None)
  then have "snd (updatePostmortem k org q m d) = d"
    by (simp add: updatePostmortem_def Let_def update_where_none del: set_filter)
  then show ?thesis ..
next
  case (Some r)
  then have r: "r \<in> set (incidents d)" "in_org k org r"
    using first_row_filter_in unfolding incident_in_org_def by metis+
  have one: "i_organizationId i = org" if "i \<in> set (incidents d)" "i_id i = k" for i
    using unique_incident [OF assms r(1) that(1)] r(2) that(2) by (simp add: in_org_def)
  let ?ks = "i_id ` set (filter (in_org k org) (incidents d))"
  have ks: "?ks \<subseteq> {k}" by (auto simp: in_org_def)
  have "filter (\<lambda>u. iu_incidentId u \<noteq> k)
      (update_where (\<lambda>u. iu_id u = q \<and> iu_status u = Postmortem \<and> iu_incidentId u \<in> ?ks) (\<lambda>u. u\<lparr>iu_message := m\<rparr>) us) =
      filter (\<lambda>u. iu_incidentId u \<noteq> k) us" for us
    by (rule filter_update_where) (use ks in auto)
  then have "only_incident org k d (snd (updatePostmortem k org q m d))"
    using one by (auto simp: updatePostmortem_def Let_def only_incident_def list_all_iff simp del: set_filter)
  then show ?thesis ..
qed

lemma delete_only:
  assumes "unique_incidents d"
  shows "snd (delete_incident k org d) = d \<or> only_incident org k d (snd (delete_incident k org d))"
proof (cases "incident_in_org k org d")
  case None
  then show ?thesis by (simp add: delete_incident_def)
next
  case (Some r)
  then have r: "r \<in> set (incidents d)" "in_org k org r"
    using first_row_filter_in unfolding incident_in_org_def by metis+
  have one: "i_organizationId i = org" if "i \<in> set (incidents d)" "i_id i = k" for i
    using unique_incident [OF assms r(1) that(1)] r(2) that(2) by (simp add: in_org_def)
  have d': "incidents (snd (delete_incident k org d)) = delete_where (in_org k org) (incidents d)"
    "incidentMonitors (snd (delete_incident k org d)) = delete_where (\<lambda>im. im_incidentId im = k) (incidentMonitors d)"
    "incidentUpdates (snd (delete_incident k org d)) = delete_where (\<lambda>u. iu_incidentId u = k) (incidentUpdates d)"
    "notificationEvents (snd (delete_incident k org d)) = delete_where (events_of_incident {k}) (notificationEvents d)"
    using Some by (simp_all add: delete_incident_def Let_def)
  have "only_incident org k d (snd (delete_incident k org d))"
    unfolding only_incident_def d'
    by (intro conjI filter_delete_where) (use one in \<open>auto simp: in_org_def events_of_incident_def list_all_iff on_some_iff\<close>)
  then show ?thesis ..
qed

text \<open>
  Organizations are kept apart: whatever request a member of one organization makes, with
  whatever ids it names, the incidents of every other organization, their affected monitors,
  timelines and events are exactly what they were.
\<close>

theorem other_orgs_incidents_kept:
  assumes "unique_incidents d" "fresh_incident_ids cx d" "org' \<noteq> org"
  shows "org_incidents org' (incident_request cx org req d) = org_incidents org' d"
proof -
  let ?d = "incident_request cx org req d"
  have "?d = d \<or> (\<exists>k. only_incident org k d ?d)"
  proof (cases req)
    case (CreateIncident inp)
    show ?thesis
    proof (cases "create_incident cx (inp\<lparr>ic_organizationId := org\<rparr>) d")
      case (Inr p)
      obtain row d' where "p = (row, d')" by fastforce
      with Inr CreateIncident create_only [OF assms(2), of "inp\<lparr>ic_organizationId := org\<rparr>" row d'] show ?thesis by auto
    qed (simp add: CreateIncident)
  next
    case (UpdateIncident k v)
    with update_only [OF assms(1)] show ?thesis unfolding UpdateIncident incident_request.simps by blast
  next
    case (AddIncidentUpdate v)
    have "au_organizationId (v\<lparr>au_organizationId := org\<rparr>) = org" by simp
    with addUpdate_only [OF assms(1), of cx "v\<lparr>au_organizationId := org\<rparr>"] show ?thesis
      unfolding AddIncidentUpdate incident_request.simps by metis
  next
    case (RewritePostmortem k q m)
    with postmortem_only [OF assms(1)] show ?thesis unfolding RewritePostmortem incident_request.simps by blast
  next
    case (DeleteIncident k)
    with delete_only [OF assms(1)] show ?thesis unfolding DeleteIncident incident_request.simps by blast
  qed
  with only_incident_view [OF _ assms(3)] show ?thesis by metis
qed

text \<open>Two organizations with an incident each; the first resolves its own, then tries the other's.\<close>

definition example_incident :: "id \<Rightarrow> id \<Rightarrow> incident_row" where
  "example_incident k org = \<lparr>i_id = k, i_organizationId = org, i_title = ''API errors'', i_status = Investigating,
     i_impact = Minor, i_startedAt = 1, i_resolvedAt = None, i_createdBy = None, i_isAutoCreated = False,
     i_createdAt = 1, i_updatedAt = 1\<rparr>"

definition example_incidents_db :: db where
  "example_incidents_db = empty_db\<lparr>incidents := [example_incident ''a'' ''o'', example_incident ''b'' ''p'']\<rparr>"

definition example_resolve :: "id \<Rightarrow> add_update" where
  "example_resolve k = \<lparr>au_incidentId = k, au_organizationId = [], au_status = Resolved,
     au_message = ''Fixed.'', au_createdBy = None\<rparr>"

lemma example_incidents:
  "unique_incidents example_incidents_db" "fresh_incident_ids (example_ctx 9) example_incidents_db"
  by (simp_all add: unique_incidents_def fresh_incident_ids_def example_incidents_db_def example_incident_def empty_db_def)


lemma other_orgs_incidents_kept_witness:
  "org_incidents ''p'' (incident_request (example_ctx 9) ''o'' (AddIncidentUpdate (example_resolve ''b''))
     example_incidents_db) = ([example_incident ''b'' ''p''], [], [], [])"
proof -
  have "org_incidents ''p'' (incident_request (example_ctx 9) ''o'' (AddIncidentUpdate (example_resolve ''b''))
      example_incidents_db) = org_incidents ''p'' example_incidents_db"
    by (rule other_orgs_incidents_kept [OF example_incidents]) simp
  also have "\<dots> = ([example_incident ''b'' ''p''], [], [], [])"
    by (simp add: org_incidents_def ids_of_org_def example_incidents_db_def example_incident_def empty_db_def)
  finally show ?thesis .
qed

end
