(* ===== verification/Capacity.thy ===== *)
theory Capacity
  imports Plans Schema "HOL-Library.Multiset"
begin

text \<open>
  The monitor ceiling an organization pays for and the grace period above it,
  \<open>lib/server/services/capacity.service.ts\<close>.

  A pass over all organizations reads its rows once and then works through them; sending a notice is
  the outside, a function that delivers it or throws with a message.  Ids are ordered as strings, in
  the order of their characters.
\<close>

section \<open>The ceiling\<close>

(* src/src/lib/server/services/capacity.service.ts:9-10 GRACE_PERIOD_DAYS *)
definition GRACE_PERIOD_DAYS :: int where
  "GRACE_PERIOD_DAYS = 14"

definition GRACE_DAY_MS :: int where
  "GRACE_DAY_MS = 86400000"

text \<open>The plan of a stored id, or the free plan for an id no longer shipped.\<close>

definition plan_of :: "string \<Rightarrow> plan" where
  "plan_of planId = coalesce (map_of PLANS planId) FREE_PLAN"

(* src/src/lib/server/services/capacity.service.ts:34-40 ceilingOf *)
definition ceilingOf :: "env \<Rightarrow> subscription_row \<Rightarrow> int option" where
  "ceilingOf env sub = (if isSelfHosted env then None
     else let m = monitors_limit (applyCapacityBlocks (plan_of (sub_planId sub)) (sub_blocks sub)) in
       if m = -1 then None else Some m)"

(* src/src/lib/server/services/capacity.service.ts:42-45 pauseDate *)
definition pauseDate :: "time \<Rightarrow> time" where
  "pauseDate since = since + GRACE_PERIOD_DAYS * GRACE_DAY_MS"

definition active_in :: "id \<Rightarrow> monitor_row \<Rightarrow> bool" where
  "active_in org m \<longleftrightarrow> m_organizationId m = org \<and> m_active m"

(* src/src/lib/server/services/capacity.service.ts:47-53 activeMonitorCount *)
definition activeMonitorCount :: "id \<Rightarrow> db \<Rightarrow> int" where
  "activeMonitorCount org d = int (length (filter (active_in org) (monitors d)))"

definition by_age :: "monitor_row list \<Rightarrow> monitor_row list" where
  "by_age = order_asc (\<lambda>m. (m_createdAt m, m_id m))"

(* src/src/lib/server/services/capacity.service.ts:55-67 newestActive *)
definition newestActive :: "id \<Rightarrow> int \<Rightarrow> db \<Rightarrow> monitor_row list" where
  "newestActive org limit d = take (nat limit) (rev (by_age (filter (active_in org) (monitors d))))"

definition clock_stopped :: "subscription_row \<Rightarrow> subscription_row" where
  "clock_stopped s = s\<lparr>sub_overCapacitySince := None, sub_capacityNotice := None, sub_capacityNoticedAt := None\<rparr>"

(* src/src/lib/server/services/capacity.service.ts:69-81 clearClock *)
definition clearClock :: "id \<Rightarrow> db \<Rightarrow> bool \<times> db" where
  "clearClock org d = (
     let running = (\<lambda>s. sub_organizationId s = org \<and> sub_overCapacitySince s \<noteq> None) in
     (filter running (subscriptions d) \<noteq> [],
      d\<lparr>subscriptions := update_where running clock_stopped (subscriptions d)\<rparr>))"

definition subscription_of :: "id \<Rightarrow> db \<Rightarrow> subscription_row option" where
  "subscription_of org d = first_row (filter (\<lambda>s. sub_organizationId s = org) (subscriptions d))"

(* src/src/lib/server/services/capacity.service.ts:83-98 clearIfWithinCeiling *)
definition clearIfWithinCeiling :: "env \<Rightarrow> id \<Rightarrow> db \<Rightarrow> db" where
  "clearIfWithinCeiling env org d = (case subscription_of org d of
      None \<Rightarrow> d
    | Some sub \<Rightarrow>
        if sub_overCapacitySince sub = None then d
        else case ceilingOf env sub of
          None \<Rightarrow> snd (clearClock org d)
        | Some c \<Rightarrow> if activeMonitorCount org d \<le> c then snd (clearClock org d) else d)"

(* src/src/lib/server/services/capacity.service.ts:136-144 resumeAfterRaise: set *)
definition resumed_row :: "ctx \<Rightarrow> monitor_row \<Rightarrow> monitor_row" where
  "resumed_row cx m = m\<lparr>m_active := True, m_capacityPausedAt := None, m_updatedAt := cx_now cx,
     m_nextCheckAt := Some (cx_now cx), m_checkRetryCount := Some 0, m_checkLastError := None,
     m_checkBackoffUntil := None\<rparr>"

definition paused_in :: "id \<Rightarrow> monitor_row \<Rightarrow> bool" where
  "paused_in org m \<longleftrightarrow> m_organizationId m = org \<and> m_capacityPausedAt m \<noteq> None"

(* src/src/lib/server/services/capacity.service.ts:100-151 resumeAfterRaise *)
definition resumeAfterRaise :: "ctx \<Rightarrow> id \<Rightarrow> int option \<Rightarrow> int option \<Rightarrow> db \<Rightarrow> nat \<times> db" where
  "resumeAfterRaise cx org before after d = (
     if before = None \<or> on_some (\<lambda>a. a \<le> the before) after then (0, d)
     else let room = (case after of None \<Rightarrow> 2 ^ 53 - 1
            | Some a \<Rightarrow> min (a - the before) (a - activeMonitorCount org d)) in
       if room \<le> 0 then (0, d)
       else let ids = m_id ` set (take (nat room) (by_age (filter (paused_in org) (monitors d)))) in
         (length (filter (\<lambda>m. m_id m \<in> ids) (monitors d)),
          clearIfWithinCeiling (cx_env cx) org
            (d\<lparr>monitors := update_where (\<lambda>m. m_id m \<in> ids) (resumed_row cx) (monitors d)\<rparr>)))"

section \<open>The grace period\<close>

(* src/src/lib/server/services/capacity.service.ts:16-17 NOTICE_ROLES *)
definition NOTICE_ROLES :: "string list" where
  "NOTICE_ROLES = [''owner'', ''admin'']"

(* src/src/lib/server/services/capacity.service.ts:19-29 CapacityNotice *)
datatype capacity_mail =
    WarningMail (wm_kind: capacity_notice) (wm_organizationName: string) (wm_active: int) (wm_ceiling: int)
      (wm_pauseAt: time) (wm_toPause: "string list")
  | PausedMail (pm_organizationName: string) (pm_ceiling: int) (pm_paused: "string list")

text \<open>\<open>None\<close>: delivered.\<close>

(* src/src/lib/server/services/capacity.service.ts:31-32 SendCapacityNotice *)
type_synonym send_notice = "string list \<Rightarrow> capacity_mail \<Rightarrow> string option"

(* src/src/lib/server/services/capacity.service.ts:153-161 noticeRecipients *)
definition noticeRecipients :: "id \<Rightarrow> db \<Rightarrow> string list" where
  "noticeRecipients org d = map (\<lambda>(_, u). u_email u) (inner_join (\<lambda>m u. u_id u = mem_userId m)
     (filter (\<lambda>m. mem_organizationId m = org \<and> mem_role m \<in> set NOTICE_ROLES) (members d)) (users d))"

(* src/src/lib/server/services/capacity.service.ts:163-168 warningDue *)
definition warningDue :: "int \<Rightarrow> capacity_notice" where
  "warningDue elapsed = (if elapsed \<ge> (GRACE_PERIOD_DAYS - 1) * GRACE_DAY_MS then NoticeDay
     else if elapsed \<ge> (GRACE_PERIOD_DAYS - 7) * GRACE_DAY_MS then NoticeWeek else NoticeOver)"

(* src/src/lib/server/services/capacity.service.ts:14-14 NOTICE_ORDER *)
fun notice_order :: "capacity_notice \<Rightarrow> int" where
  "notice_order NoticeOver = 0"
| "notice_order NoticeWeek = 1"
| "notice_order NoticeDay = 2"
| "notice_order NoticePaused = 3"

(* src/src/lib/server/services/capacity.service.ts:170-172 rank *)
definition rank :: "capacity_notice option \<Rightarrow> int" where
  "rank kind = (case kind of None \<Rightarrow> -1 | Some k \<Rightarrow> notice_order k)"

(* src/src/lib/server/services/capacity.service.ts:174-182 CapacityGraceResult *)
record grace_result =
  gr_organizationsOver :: nat
  gr_clocksStarted :: nat
  gr_clocksCleared :: nat
  gr_noticesSent :: nat
  gr_monitorsPaused :: nat
  gr_failures :: "string list"

definition no_grace :: grace_result where
  "no_grace = \<lparr>gr_organizationsOver = 0, gr_clocksStarted = 0, gr_clocksCleared = 0, gr_noticesSent = 0,
     gr_monitorsPaused = 0, gr_failures = []\<rparr>"

(* src/src/lib/server/services/capacity.service.ts:236-239 runCapacityGrace: start *)
definition start_clock :: "time \<Rightarrow> subscription_row \<Rightarrow> db \<Rightarrow> db" where
  "start_clock now sub d = d\<lparr>subscriptions := update_where (\<lambda>s. sub_id s = sub_id sub)
     (\<lambda>s. s\<lparr>sub_overCapacitySince := Some now, sub_capacityNotice := None, sub_capacityNoticedAt := None\<rparr>)
     (subscriptions d)\<rparr>"

(* src/src/lib/server/services/capacity.service.ts:246-250 runCapacityGrace: record *)
definition record_notice :: "time \<Rightarrow> subscription_row \<Rightarrow> capacity_notice \<Rightarrow> db \<Rightarrow> db" where
  "record_notice now sub kind d = d\<lparr>subscriptions := update_where (\<lambda>s. sub_id s = sub_id sub)
     (\<lambda>s. s\<lparr>sub_capacityNotice := Some kind, sub_capacityNoticedAt := Some now\<rparr>) (subscriptions d)\<rparr>"

(* src/src/lib/server/services/capacity.service.ts:267-269 runCapacityGrace: enforce *)
definition enforces :: "time \<Rightarrow> subscription_row \<Rightarrow> time \<Rightarrow> bool" where
  "enforces now sub since \<longleftrightarrow> sub_capacityNotice sub = Some NoticeDay \<and> now \<ge> pauseDate since \<and>
     on_some (\<lambda>noticed. now \<ge> noticed + GRACE_DAY_MS) (sub_capacityNoticedAt sub)"

(* src/src/lib/server/services/capacity.service.ts:279-291 runCapacityGrace: pause *)
definition pause_monitors :: "time \<Rightarrow> monitor_row list \<Rightarrow> db \<Rightarrow> nat \<times> db" where
  "pause_monitors now toPause d = (
     let these = (\<lambda>m. m_id m \<in> m_id ` set toPause \<and> m_active m) in
     (length (filter these (monitors d)),
      d\<lparr>monitors := update_where these
        (\<lambda>m. m\<lparr>m_active := False, m_capacityPausedAt := Some now, m_updatedAt := now\<rparr>) (monitors d)\<rparr>))"

text \<open>One organization above its ceiling.\<close>

(* src/src/lib/server/services/capacity.service.ts:231-299 runCapacityGrace: over *)
definition grace_over ::
  "send_notice \<Rightarrow> time \<Rightarrow> subscription_row \<Rightarrow> string \<Rightarrow> int \<Rightarrow> int \<Rightarrow> grace_result \<times> db \<Rightarrow> grace_result \<times> db" where
  "grace_over send now sub organizationName active c = (\<lambda>(result0, d0).
     let org = sub_organizationId sub;
         result = result0\<lparr>gr_organizationsOver := Suc (gr_organizationsOver result0)\<rparr>;
         since = coalesce (sub_overCapacitySince sub) now;
         (result1, d1) = (if sub_overCapacitySince sub = None
           then (result\<lparr>gr_clocksStarted := Suc (gr_clocksStarted result)\<rparr>, start_clock now sub d0) else (result, d0));
         toPause = newestActive org (active - c) d1;
         due = warningDue (now - since) in
     if rank (sub_capacityNotice sub) < rank (Some due) then
       (case send (noticeRecipients org d1)
           (WarningMail due organizationName active c (pauseDate since) (map m_name toPause)) of
          Some err \<Rightarrow> (result1\<lparr>gr_failures := gr_failures result1 @ [org @ '': '' @ err]\<rparr>, d1)
        | None \<Rightarrow> (result1\<lparr>gr_noticesSent := Suc (gr_noticesSent result1)\<rparr>, record_notice now sub due d1))
     else if \<not> enforces now sub since then (result1, d1)
     else case send (noticeRecipients org d1) (PausedMail organizationName c (map m_name toPause)) of
         Some err \<Rightarrow> (result1\<lparr>gr_failures := gr_failures result1 @ [org @ '': '' @ err]\<rparr>, d1)
       | None \<Rightarrow> let (paused, d2) = pause_monitors now toPause d1 in
           (result1\<lparr>gr_noticesSent := Suc (gr_noticesSent result1),
              gr_monitorsPaused := gr_monitorsPaused result1 + paused\<rparr>, record_notice now sub NoticePaused d2))"

(* src/src/lib/server/services/capacity.service.ts:220-300 runCapacityGrace: row *)
definition grace_row ::
  "env \<Rightarrow> send_notice \<Rightarrow> time \<Rightarrow> subscription_row \<times> string \<times> int \<Rightarrow> grace_result \<times> db \<Rightarrow> grace_result \<times> db" where
  "grace_row env send now = (\<lambda>(sub, organizationName, active) (result, d).
     let stop = (if sub_overCapacitySince sub = None then (result, d)
           else let (cleared, d1) = clearClock (sub_organizationId sub) d in
             (if cleared then result\<lparr>gr_clocksCleared := Suc (gr_clocksCleared result)\<rparr> else result, d1)) in
     case ceilingOf env sub of
       None \<Rightarrow> stop
     | Some c \<Rightarrow> if active \<le> c then stop else grace_over send now sub organizationName active c (result, d))"

definition grace_rows :: "db \<Rightarrow> (subscription_row \<times> string \<times> int) list" where
  "grace_rows d = map (\<lambda>(s, og). (s, org_name og, activeMonitorCount (sub_organizationId s) d))
     (inner_join (\<lambda>s og. org_id og = sub_organizationId s) (subscriptions d) (organizations d))"

(* src/src/lib/server/services/capacity.service.ts:184-303 runCapacityGrace *)
definition runCapacityGrace :: "env \<Rightarrow> send_notice \<Rightarrow> time \<Rightarrow> db \<Rightarrow> grace_result \<times> db" where
  "runCapacityGrace env send now d = (if isSelfHosted env then (no_grace, d)
     else fold (grace_row env send now) (grace_rows d) (no_grace, d))"

section \<open>What a pass changes\<close>

definition unique_monitors :: "db \<Rightarrow> bool" where
  "unique_monitors d \<longleftrightarrow> distinct (map m_id (monitors d))"

text \<open>One subscription per organization, which the table's unique column holds, and unique organizations.\<close>

definition one_subscription :: "db \<Rightarrow> bool" where
  "one_subscription d \<longleftrightarrow> distinct (map sub_organizationId (subscriptions d)) \<and> distinct (map org_id (organizations d))"

definition org_monitors :: "id \<Rightarrow> db \<Rightarrow> monitor_row list" where
  "org_monitors org d = filter (\<lambda>m. m_organizationId m = org) (monitors d)"

lemma filter_filter_and: "filter P (filter Q t) = filter (\<lambda>r. Q r \<and> P r) t"
  by (simp add: conj_commute)

lemma active_of_org: "filter (active_in org) (monitors d) = filter m_active (org_monitors org d)"
  by (simp add: org_monitors_def active_in_def [abs_def] filter_filter_and)

lemma count_of_org: "activeMonitorCount org d = int (length (filter m_active (org_monitors org d)))"
  by (simp add: activeMonitorCount_def active_of_org)

lemma newest_of_org: "newestActive org n d = take (nat n) (rev (by_age (filter m_active (org_monitors org d))))"
  by (simp add: newestActive_def active_of_org)

lemma in_newestActive: "m \<in> set (newestActive org n d) \<Longrightarrow> m \<in> set (monitors d) \<and> active_in org m"
  by (auto simp: newestActive_def by_age_def dest!: in_set_takeD)

lemma clearClock_frame [simp]: "monitors (snd (clearClock org d)) = monitors d"
  by (simp add: clearClock_def Let_def)

lemma clearIfWithinCeiling_frame [simp]: "monitors (clearIfWithinCeiling env org d) = monitors d"
  by (simp add: clearIfWithinCeiling_def split: option.split)

lemma start_clock_frame [simp]: "monitors (start_clock now sub d) = monitors d"
  by (simp add: start_clock_def)

lemma record_notice_frame [simp]: "monitors (record_notice now sub k d) = monitors d"
  by (simp add: record_notice_def)

lemma newestActive_cong: "monitors d = monitors d' \<Longrightarrow> newestActive org n d = newestActive org n d'"
  by (simp add: newestActive_def)

lemma pause_monitors_cong:
  "monitors d = monitors d' \<Longrightarrow> monitors (snd (pause_monitors now ms d)) = monitors (snd (pause_monitors now ms d'))"
  by (simp add: pause_monitors_def)

lemma grace_over_monitors:
  "monitors (snd (grace_over send now sub name active c (r, d))) = monitors d \<or>
   enforces now sub (coalesce (sub_overCapacitySince sub) now) \<and>
   monitors (snd (grace_over send now sub name active c (r, d))) =
     monitors (snd (pause_monitors now (newestActive (sub_organizationId sub) (active - c) d) d))"
proof -
  let ?d1 = "if sub_overCapacitySince sub = None then start_clock now sub d else d"
  have d1: "monitors ?d1 = monitors d" by simp
  have "monitors (snd (grace_over send now sub name active c (r, d))) = monitors d \<or>
     enforces now sub (coalesce (sub_overCapacitySince sub) now) \<and>
     monitors (snd (grace_over send now sub name active c (r, d))) =
       monitors (snd (pause_monitors now (newestActive (sub_organizationId sub) (active - c) ?d1) ?d1))"
    by (simp add: grace_over_def Let_def split_beta split: option.split)
  with newestActive_cong [OF d1] pause_monitors_cong [OF d1] show ?thesis by simp
qed

lemma grace_row_monitors:
  "monitors (snd (grace_row env send now (sub, name, active) (r, d))) = monitors d \<or>
   (\<exists>c. ceilingOf env sub = Some c \<and> c < active \<and> enforces now sub (coalesce (sub_overCapacitySince sub) now) \<and>
     monitors (snd (grace_row env send now (sub, name, active) (r, d))) =
       monitors (snd (pause_monitors now (newestActive (sub_organizationId sub) (active - c) d) d)))"
proof (cases "ceilingOf env sub")
  case None
  then show ?thesis by (simp add: grace_row_def Let_def split_beta)
next
  case (Some c)
  show ?thesis
  proof (cases "active \<le> c")
    case True
    with Some show ?thesis by (simp add: grace_row_def Let_def split_beta)
  next
    case False
    then have "grace_row env send now (sub, name, active) (r, d) = grace_over send now sub name active c (r, d)"
      using Some by (simp add: grace_row_def)
    with grace_over_monitors [of send now sub name active c r d] Some False show ?thesis by auto
  qed
qed

text \<open>The pause of one organization's monitors leaves the others'.\<close>

lemma pause_other_org:
  assumes "unique_monitors d" "org \<noteq> org'"
  shows "org_monitors org' (snd (pause_monitors now (newestActive org n d) d)) = org_monitors org' d"
proof -
  have "m_organizationId m = org" if "m \<in> set (monitors d)" "m_id m \<in> m_id ` set (newestActive org n d)" for m
  proof -
    from that(2) obtain q where q: "q \<in> set (newestActive org n d)" "m_id m = m_id q" by blast
    with in_newestActive [OF q(1)] assms(1) that(1) have "m = q"
      unfolding unique_monitors_def distinct_map by (auto dest: inj_onD)
    with in_newestActive [OF q(1)] show ?thesis by (simp add: active_in_def)
  qed
  with assms(2) show ?thesis
    by (auto simp: org_monitors_def pause_monitors_def Let_def intro!: filter_update_where)
qed

lemma pause_keeps:
  assumes "m \<in> set (monitors d)"
  shows "\<exists>x\<in>set (monitors (snd (pause_monitors now ms d))). m_id x = m_id m \<and> m_organizationId x = m_organizationId m"
proof -
  let ?P = "\<lambda>m. m_id m \<in> m_id ` set ms \<and> m_active m"
  let ?f = "\<lambda>m. m\<lparr>m_active := False, m_capacityPausedAt := Some now, m_updatedAt := now\<rparr>"
  have "(if ?P m then ?f m else m) \<in> set (update_where ?P ?f (monitors d))"
    using assms unfolding update_where_def set_map by (rule imageI)
  then show ?thesis by (intro bexI [of _ "if ?P m then ?f m else m"]) (simp_all add: pause_monitors_def Let_def)
qed

lemma unique_monitors_pause: "unique_monitors d \<Longrightarrow> unique_monitors (snd (pause_monitors now ms d))"
  by (simp add: unique_monitors_def pause_monitors_def Let_def map_update_where)

lemma unique_monitors_cong: "monitors d = monitors d' \<Longrightarrow> unique_monitors d = unique_monitors d'"
  by (simp add: unique_monitors_def)

lemma org_monitors_cong: "monitors d = monitors d' \<Longrightarrow> org_monitors org d = org_monitors org d'"
  by (simp add: org_monitors_def)

lemma grace_row_others:
  assumes "unique_monitors d" "grace_row env send now row (r, d) = (r', d')"
  shows "unique_monitors d'" "org \<noteq> sub_organizationId (fst row) \<Longrightarrow> org_monitors org d' = org_monitors org d"
proof -
  obtain sub name active where row: "row = (sub, name, active)" by (cases row)
  have d': "d' = snd (grace_row env send now (sub, name, active) (r, d))" using assms(2) row by simp
  from grace_row_monitors [of env send now sub name active r d]
  show "unique_monitors d'"
    using assms(1) unique_monitors_pause unique_monitors_cong unfolding d' by metis
  assume "org \<noteq> sub_organizationId (fst row)"
  then have "sub_organizationId sub \<noteq> org" by (simp add: row)
  with grace_row_monitors [of env send now sub name active r d] pause_other_org [OF assms(1)]
  show "org_monitors org d' = org_monitors org d" unfolding d' by (metis org_monitors_cong)
qed

lemma grace_rows_others:
  assumes "unique_monitors d" "\<And>row. row \<in> set rows \<Longrightarrow> sub_organizationId (fst row) \<noteq> org"
    and "fold (grace_row env send now) rows (r, d) = (r', d')"
  shows "unique_monitors d' \<and> org_monitors org d' = org_monitors org d"
  using assms
proof (induction rows arbitrary: r d)
  case (Cons row rows)
  obtain r1 d1 where 1: "grace_row env send now row (r, d) = (r1, d1)" by fastforce
  note step = grace_row_others [OF Cons.prems(1) 1]
  have "org \<noteq> sub_organizationId (fst row)" using Cons.prems(2) [of row] by simp
  with step Cons.IH [OF step(1), of r1] Cons.prems(2,3) 1 show ?case by simp
qed simp

section \<open>Who is paused\<close>

lemma ceilingOf_nonneg: "ceilingOf env sub = Some c \<Longrightarrow> 0 \<le> c"
proof -
  have "p \<in> snd ` set PLANS \<Longrightarrow> monitors_limit (limits p) = -1 \<or> 0 \<le> monitors_limit (limits p)" for p
    by (auto simp: plan_defs)
  moreover have "plan_of k \<in> snd ` set PLANS" for k
    by (auto simp: plan_of_def coalesce_def PLANS_def split: option.split if_splits)
  ultimately have "monitors_limit (limits (plan_of k)) = -1 \<or> 0 \<le> monitors_limit (limits (plan_of k))" for k by blast
  then have "monitors_limit (limits (plan_of (sub_planId sub))) = -1 \<or> 0 \<le> monitors_limit (limits (plan_of (sub_planId sub)))" .
  then show "ceilingOf env sub = Some c \<Longrightarrow> 0 \<le> c"
    using applyCapacityBlocks_limited applyCapacityBlocks_unlimited
    by (auto simp: ceilingOf_def Let_def split: if_splits)
qed

definition newer :: "monitor_row \<Rightarrow> monitor_row \<Rightarrow> bool" where
  "newer m q \<longleftrightarrow> (m_createdAt q, m_id q) < (m_createdAt m, m_id m)"

text \<open>The newest of a list: a number of them, each newer than every one left.\<close>

lemma newest_split:
  fixes ms :: "monitor_row list" and n :: nat
  assumes "distinct (map m_id ms)"
  defines "t \<equiv> take n (rev (by_age ms))" and "rest \<equiv> drop n (rev (by_age ms))"
  shows "set ms = set t \<union> set rest" "m_id ` set t \<inter> m_id ` set rest = {}"
    "\<And>m q. m \<in> set t \<Longrightarrow> q \<in> set rest \<Longrightarrow> newer m q"
    "length (filter (\<lambda>m. m_id m \<notin> m_id ` set t) ms) = length ms - n"
proof -
  let ?l = "rev (by_age ms)"
  have l: "?l = t @ rest" by (simp add: t_def rest_def)
  have "mset ?l = mset ms" by (simp add: by_age_def order_asc_def)
  then have ids: "distinct (map m_id ?l)"
    using assms(1) by (metis distinct_map mset_eq_setD mset_eq_imp_distinct_iff)
  show sets: "set ms = set t \<union> set rest"
    using \<open>mset ?l = mset ms\<close> l by (metis mset_eq_setD set_append)
  show apart: "m_id ` set t \<inter> m_id ` set rest = {}" using ids unfolding l by auto
  have "sorted (rev (map (\<lambda>m. (m_createdAt m, m_id m)) ?l))"
    using sorted_order_asc by (simp add: by_age_def rev_map)
  then have older: "(m_createdAt q, m_id q) \<le> (m_createdAt m, m_id m)" if "m \<in> set t" "q \<in> set rest" for m q
    using that unfolding l by (auto simp: sorted_append)
  show "newer m q" if "m \<in> set t" "q \<in> set rest" for m q
    using older [OF that] apart that by (auto simp: newer_def order.order_iff_strict)
  have "filter (\<lambda>m. m_id m \<notin> m_id ` set t) ?l = rest"
    unfolding l using apart by (auto simp: filter_empty_conv filter_id_conv)
  then have "length (filter (\<lambda>m. m_id m \<notin> m_id ` set t) ms) = length rest"
    using \<open>mset ?l = mset ms\<close> by (metis mset_filter size_mset)
  also have "\<dots> = length ms - n" using \<open>mset ?l = mset ms\<close> by (simp add: rest_def) (metis size_mset length_rev)
  finally show "length (filter (\<lambda>m. m_id m \<notin> m_id ` set t) ms) = length ms - n" .
qed

text \<open>The pause of an organization's own monitors: the newest go, as many as there are above the ceiling.\<close>

lemma pause_own_org:
  fixes now :: time
  assumes u: "unique_monitors d" and c: "0 \<le> c" "c < activeMonitorCount org d"
  defines "d' \<equiv> snd (pause_monitors now (newestActive org (activeMonitorCount org d - c) d) d)"
  shows "activeMonitorCount org d' = c"
    "\<And>m m' q. m \<in> set (monitors d) \<Longrightarrow> active_in org m \<Longrightarrow> m' \<in> set (monitors d') \<Longrightarrow> m_id m' = m_id m \<Longrightarrow>
      \<not> m_active m' \<Longrightarrow> q \<in> set (monitors d') \<Longrightarrow> active_in org q \<Longrightarrow> newer m q"
proof -
  let ?act = "filter (active_in org) (monitors d)"
  let ?n = "nat (activeMonitorCount org d - c)"
  let ?t = "take ?n (rev (by_age ?act))" and ?rest = "drop ?n (rev (by_age ?act))"
  have t: "newestActive org (activeMonitorCount org d - c) d = ?t" by (simp add: newestActive_def)
  have ids: "distinct (map m_id ?act)" using u by (simp add: unique_monitors_def distinct_map_filter)
  note parts = newest_split [OF ids, where n = ?n]
  let ?these = "\<lambda>m. m_id m \<in> m_id ` set ?t \<and> m_active m"
  let ?off = "\<lambda>m. m\<lparr>m_active := False, m_capacityPausedAt := Some now, m_updatedAt := now\<rparr>"
  have d': "monitors d' = update_where ?these ?off (monitors d)"
    by (simp add: d'_def t pause_monitors_def Let_def)
  have "filter (active_in org) (update_where ?these ?off ms) = filter (\<lambda>m. m_id m \<notin> m_id ` set ?t) (filter (active_in org) ms)"
    for ms by (induction ms) (auto simp: active_in_def simp del: set_take_subset)
  then have act': "filter (active_in org) (monitors d') = filter (\<lambda>m. m_id m \<notin> m_id ` set ?t) ?act"
    by (simp only: d')
  have "length ?act - ?n = nat c" using c by (simp add: activeMonitorCount_def)
  with parts(4) c(1) show "activeMonitorCount org d' = c"
    by (simp add: activeMonitorCount_def act' del: filter_filter)
  fix m m' q
  assume m: "m \<in> set (monitors d)" "active_in org m" and m': "m' \<in> set (monitors d')" "m_id m' = m_id m" "\<not> m_active m'"
    and q: "q \<in> set (monitors d')" "active_in org q"
  from m'(1) obtain p where p: "p \<in> set (monitors d)" "if ?these p then m' = ?off p else m' = p"
    unfolding d' in_update_where_iff by blast
  then have "m_id p = m_id m" using m'(2) by (auto split: if_splits)
  then have "p = m" using u p(1) m(1) unfolding unique_monitors_def distinct_map by (auto dest: inj_onD)
  with p(2) m(2) m'(3) have "m_id m \<in> m_id ` set ?t" by (auto simp: active_in_def split: if_splits)
  moreover have "m \<in> set ?act" using m by simp
  ultimately have mt: "m \<in> set ?t" using parts(1,2) by auto
  have "q \<in> set (filter (active_in org) (monitors d'))" using q by simp
  then have "q \<in> set ?act" "m_id q \<notin> m_id ` set ?t" unfolding act' by auto
  then have "q \<in> set ?rest" using parts(1) by blast
  with parts(3) mt show "newer m q" .
qed

lemma grace_rows_orgs:
  assumes "one_subscription d"
  shows "distinct (map (sub_organizationId \<circ> fst) (grace_rows d))"
    "(s, name, n) \<in> set (grace_rows d) \<Longrightarrow> s \<in> set (subscriptions d) \<and> n = activeMonitorCount (sub_organizationId s) d"
proof -
  have one: "filter (\<lambda>og. org_id og = k) t = [] \<or> (\<exists>og. filter (\<lambda>og. org_id og = k) t = [og])"
    if "distinct (map org_id t)" for k t
  proof (cases "\<exists>og\<in>set t. org_id og = k")
    case True
    with filter_the_row [OF _ that] show ?thesis by blast
  next
    case False
    then show ?thesis by (simp add: filter_empty_conv)
  qed
  have orgs: "distinct (map org_id (organizations d))" using assms by (simp add: one_subscription_def)
  have "distinct (map (sub_organizationId \<circ> fst) (inner_join (\<lambda>s og. org_id og = sub_organizationId s) t (organizations d)))"
    if "distinct (map sub_organizationId t)" for t :: "subscription_row list"
    using that
  proof (induction t)
    case (Cons s t)
    from one [OF orgs, of "sub_organizationId s"] Cons show ?case by (auto simp: image_iff)
  qed simp
  then show "distinct (map (sub_organizationId \<circ> fst) (grace_rows d))"
    using assms by (simp add: grace_rows_def one_subscription_def comp_def split_beta)
  show "(s, name, n) \<in> set (grace_rows d) \<Longrightarrow> s \<in> set (subscriptions d) \<and> n = activeMonitorCount (sub_organizationId s) d"
    by (auto simp: grace_rows_def)
qed

text \<open>What allows the pause of an organization's monitors.\<close>

definition warned_out :: "time \<Rightarrow> subscription_row \<Rightarrow> bool" where
  "warned_out now sub \<longleftrightarrow> sub_capacityNotice sub = Some NoticeDay \<and>
     on_some (\<lambda>t. t + GRACE_DAY_MS \<le> now) (sub_capacityNoticedAt sub) \<and>
     on_some (\<lambda>t. t + GRACE_PERIOD_DAYS * GRACE_DAY_MS \<le> now) (sub_overCapacitySince sub)"

lemma enforces_warned_out:
  "enforces now sub (coalesce (sub_overCapacitySince sub) now) \<Longrightarrow> warned_out now sub"
  by (cases "sub_overCapacitySince sub")
    (auto simp: enforces_def warned_out_def pauseDate_def GRACE_PERIOD_DAYS_def GRACE_DAY_MS_def)

text \<open>What a pass does to one organization's monitors: nothing, or the pause its own row calls for.\<close>

lemma grace_pass_org:
  assumes run: "runCapacityGrace env send now d = (r, d')" and u: "unique_monitors d" and one: "one_subscription d"
  obtains (kept) "unique_monitors d'" "org_monitors org d' = org_monitors org d"
  | (paused) sub c d1 where "unique_monitors d'" "sub \<in> set (subscriptions d)" "sub_organizationId sub = org"
      "ceilingOf env sub = Some c" "c < activeMonitorCount org d1" "warned_out now sub"
      "unique_monitors d1" "org_monitors org d1 = org_monitors org d"
      "org_monitors org d' = org_monitors org (snd (pause_monitors now (newestActive org (activeMonitorCount org d1 - c) d1) d1))"
proof (cases "isSelfHosted env \<or> (\<forall>row\<in>set (grace_rows d). sub_organizationId (fst row) \<noteq> org)")
  case True
  with run u grace_rows_others [OF u, of "grace_rows d" org env send now no_grace r d'] kept show thesis
    by (auto simp: runCapacityGrace_def split: if_splits)
next
  case False
  then have run: "fold (grace_row env send now) (grace_rows d) (no_grace, d) = (r, d')"
    using run by (simp add: runCapacityGrace_def)
  from False obtain rs1 sub name n rs2 where rows: "grace_rows d = rs1 @ (sub, name, n) # rs2"
    and sub: "sub_organizationId sub = org" by (metis fst_conv prod_cases3 split_list)
  have "distinct (map (sub_organizationId \<circ> fst) (rs1 @ (sub, name, n) # rs2))"
    using grace_rows_orgs(1) [OF one] unfolding rows .
  then have apart: "sub_organizationId sub \<notin> (sub_organizationId \<circ> fst) ` (set rs1 \<union> set rs2)" by auto
  have others: "sub_organizationId (fst row) \<noteq> org" if "row \<in> set rs1 \<union> set rs2" for row
    using apart that sub by (metis comp_apply image_eqI)
  have "(sub, name, n) \<in> set (grace_rows d)" unfolding rows by simp
  from grace_rows_orgs(2) [OF one this] sub
  have sub_in: "sub \<in> set (subscriptions d)" "n = activeMonitorCount org d" by simp_all
  obtain r1 d1 where 1: "fold (grace_row env send now) rs1 (no_grace, d) = (r1, d1)" by fastforce
  obtain r2 d2 where 2: "grace_row env send now (sub, name, n) (r1, d1) = (r2, d2)" by fastforce
  have 3: "fold (grace_row env send now) rs2 (r2, d2) = (r, d')" using run 1 2 by (simp add: rows)
  have d1: "unique_monitors d1" "org_monitors org d1 = org_monitors org d"
    using grace_rows_others [OF u _ 1, of org] others by auto
  have d2: "unique_monitors d2" using grace_row_others(1) [OF d1(1) 2] .
  have d': "unique_monitors d'" "org_monitors org d' = org_monitors org d2"
    using grace_rows_others [OF d2 _ 3, of org] others by auto
  have n: "n = activeMonitorCount org d1" using sub_in(2) by (simp add: count_of_org d1(2))
  have d2': "d2 = snd (grace_row env send now (sub, name, n) (r1, d1))" using 2 by simp
  from grace_row_monitors [of env send now sub name n r1 d1] show thesis
  proof (elim disjE exE conjE)
    assume "monitors (snd (grace_row env send now (sub, name, n) (r1, d1))) = monitors d1"
    with d1(2) d' org_monitors_cong kept show thesis unfolding d2' by metis
  next
    fix c
    assume "ceilingOf env sub = Some c" "c < n" "enforces now sub (coalesce (sub_overCapacitySince sub) now)"
      "monitors (snd (grace_row env send now (sub, name, n) (r1, d1))) =
        monitors (snd (pause_monitors now (newestActive (sub_organizationId sub) (n - c) d1) d1))"
    then show thesis
      using paused [OF d'(1) sub_in(1) sub _ _ enforces_warned_out d1] d'(2) org_monitors_cong
      unfolding d2' n sub by metis
  qed
qed

lemma unique_monitor:
  "unique_monitors d \<Longrightarrow> m \<in> set (monitors d) \<Longrightarrow> q \<in> set (monitors d) \<Longrightarrow> m_id m = m_id q \<Longrightarrow> m = q"
  unfolding unique_monitors_def distinct_map by (auto dest: inj_onD)

lemma in_org_monitors: "x \<in> set (org_monitors org d) \<longleftrightarrow> x \<in> set (monitors d) \<and> m_organizationId x = org"
  by (auto simp: org_monitors_def)

text \<open>
  C22: Nobody's checks stop without warning: a pass of the grace period pauses a monitor only where the
  clock has run for fourteen days and the last warning was delivered at least a day before, and then
  it leaves the organization exactly the monitors its ceiling pays for, every one of them older than
  the one paused.
\<close>

theorem paused_after_warning:
  assumes "runCapacityGrace env send now d = (r, d')" "unique_monitors d" "one_subscription d"
    and m: "m \<in> set (monitors d)" "m_active m" and m': "m' \<in> set (monitors d')" "m_id m' = m_id m" "\<not> m_active m'"
  shows "list_ex (\<lambda>sub. sub_organizationId sub = m_organizationId m \<and> warned_out now sub \<and>
        ceilingOf env sub = Some (activeMonitorCount (m_organizationId m) d')) (subscriptions d) \<and>
      list_all (newer m) (filter (active_in (m_organizationId m)) (monitors d'))"
  using assms(1-3)
proof (cases rule: grace_pass_org [where org = "m_organizationId m"])
  case kept
  have "m \<in> set (monitors d')" using m(1) in_org_monitors [of m "m_organizationId m"] kept(2) by metis
  with unique_monitor [OF kept(1) m'(1)] m'(2,3) m(2) show ?thesis by metis
next
  case (paused sub c d1)
  let ?org = "m_organizationId m" and ?t = "newestActive (m_organizationId m) (activeMonitorCount (m_organizationId m) d1 - c) d1"
  let ?d2 = "snd (pause_monitors now ?t d1)"
  note own = pause_own_org [OF paused(7) ceilingOf_nonneg [OF paused(4)] paused(5), where now = now]
  have same: "x \<in> set (monitors d') \<longleftrightarrow> x \<in> set (monitors ?d2)" if "m_organizationId x = ?org" for x
    using that in_org_monitors [of x ?org] paused(9) by metis
  have m1: "m \<in> set (monitors d1)" using m(1) in_org_monitors [of m ?org] paused(8) by metis
  from pause_keeps [OF m1] obtain x where x: "x \<in> set (monitors ?d2)" "m_id x = m_id m" "m_organizationId x = ?org" by blast
  then have "m' = x" using same unique_monitor [OF paused(1) m'(1)] m'(2) by metis
  then have m2: "m' \<in> set (monitors ?d2)" using x(1) by simp
  have "newer m q" if "q \<in> set (monitors d')" "active_in ?org q" for q
    using own(2) [OF m1 _ m2 m'(2,3) _ that(2)] same that m(2) by (simp add: active_in_def)
  then have "list_all (newer m) (filter (active_in ?org) (monitors d'))" by (simp add: list_all_iff)
  moreover have "activeMonitorCount ?org d' = c" using own(1) paused(9) by (simp add: count_of_org)
  ultimately show ?thesis using paused(2,3,4,6) by (auto simp: list_ex_iff)
qed

text \<open>A free organization with one monitor above its twenty, warned the day before the period ran out.\<close>

definition example_subscription :: "string \<Rightarrow> subscription_row" where
  "example_subscription planId = \<lparr>sub_id = ''s'', sub_organizationId = ''o'', sub_planId = planId, sub_status = SubActive,
     sub_blocks = 0, sub_scheduledBlocks = None, sub_overCapacitySince = None, sub_capacityNotice = None,
     sub_capacityNoticedAt = None, sub_billingInterval = None, sub_currentPeriodStart = None,
     sub_currentPeriodEnd = None, sub_polarCustomerId = None, sub_polarSubscriptionId = None,
     sub_createdAt = 0, sub_updatedAt = 0\<rparr>"

definition example_organization :: organization_row where
  "example_organization = \<lparr>org_id = ''o'', org_name = ''Acme'', org_slug = ''acme'', org_logo = None, org_createdAt = 0,
     org_metadata = None, org_subscriberEmailEnabled = True\<rparr>"

definition example_fleet :: "monitor_row list" where
  "example_fleet = map (\<lambda>n. (example_monitor (replicate n CHR ''m''))\<lparr>m_createdAt := int n\<rparr>) [0..<21]"

definition example_over_db :: db where
  "example_over_db = empty_db\<lparr>monitors := example_fleet, organizations := [example_organization],
     subscriptions := [(example_subscription ''free'')\<lparr>sub_overCapacitySince := Some 0,
       sub_capacityNotice := Some NoticeDay, sub_capacityNoticedAt := Some (13 * 86400000)\<rparr>]\<rparr>"

lemma paused_after_warning_witness:
  "list_all (newer (last example_fleet)) (filter (active_in ''o'')
     (monitors (snd (runCapacityGrace (\<lambda>_. None) (\<lambda>_ _. None) (14 * 86400000) example_over_db))))"
proof -
  let ?d' = "snd (runCapacityGrace (\<lambda>_. None) (\<lambda>_ _. None) (14 * 86400000) example_over_db)"
  have "list_ex (\<lambda>x. m_id x = m_id (last example_fleet) \<and> \<not> m_active x) (monitors ?d')" by code_simp
  then obtain m' where m': "m' \<in> set (monitors ?d')" "m_id m' = m_id (last example_fleet)" "\<not> m_active m'"
    by (auto simp: list_ex_iff)
  have "unique_monitors example_over_db" "one_subscription example_over_db" by code_simp+
  moreover have "last example_fleet \<in> set (monitors example_over_db)" "m_active (last example_fleet)"
    "m_organizationId (last example_fleet) = ''o''" by code_simp+
  ultimately show ?thesis
    using paused_after_warning [OF surjective_pairing _ _ _ _ m'] by metis
qed

end
