(* ===== verification/Subscriptions.thy ===== *)
theory Subscriptions
  imports Capacity
begin

text \<open>
  What an organization is billed for, \<open>lib/server/services/subscription.service.ts\<close>: the
  subscription row, its capacity blocks and their scheduled reductions, the webhooks of the billing
  provider, and the limits the rest of the program asks about.

  A count of blocks is an integer here; a fraction is refused as a negative count is.  An operation
  runs alone, except where it holds the subscription row, which here comes to the same.
\<close>

section \<open>The row and its limits\<close>

(* src/src/lib/constants/auth.ts:12-13 ORGANIZATION_MEMBERSHIP_LIMIT *)
definition ORGANIZATION_MEMBERSHIP_LIMIT :: "env \<Rightarrow> int" where
  "ORGANIZATION_MEMBERSHIP_LIMIT env = envInt env ''UPPITY_ORGANIZATION_MEMBERSHIP_LIMIT'' 100"

(* src/src/lib/server/services/subscription.service.ts:49-50 BILLING_ROLES *)
definition BILLING_ROLES :: "string list" where
  "BILLING_ROLES = [''owner'', ''admin'']"

(* src/src/lib/server/services/subscription.service.ts:65-70 PERIOD_BOUNDARY_TOLERANCE_MS *)
definition PERIOD_BOUNDARY_TOLERANCE_MS :: int where
  "PERIOD_BOUNDARY_TOLERANCE_MS = 60000"

text \<open>Fields a row starts with when an insert leaves them out.\<close>

(* src/src/lib/server/db/schema.ts:863-941 subscription: defaults *)
definition new_subscription :: "ctx \<Rightarrow> id \<Rightarrow> db \<Rightarrow> subscription_row" where
  "new_subscription cx org d = \<lparr>sub_id = cx_nanoid cx (drawn d), sub_organizationId = org,
     sub_planId = DEFAULT_PLAN_ID, sub_status = SubActive, sub_blocks = 0, sub_scheduledBlocks = None,
     sub_overCapacitySince = None, sub_capacityNotice = None, sub_capacityNoticedAt = None,
     sub_billingInterval = None, sub_currentPeriodStart = None, sub_currentPeriodEnd = None,
     sub_polarCustomerId = None, sub_polarSubscriptionId = None,
     sub_createdAt = cx_now cx, sub_updatedAt = cx_now cx\<rparr>"

definition insert_subscription :: "subscription_row \<Rightarrow> db \<Rightarrow> db" where
  "insert_subscription s d = (draw d)\<lparr>subscriptions := subscriptions d @ [s]\<rparr>"

(* src/src/lib/server/services/subscription.service.ts:167-178 getSubscription *)
definition getSubscription :: "id \<Rightarrow> db \<Rightarrow> subscription_row option" where
  "getSubscription org d = subscription_of org d"

(* src/src/lib/server/services/subscription.service.ts:143-165 getOrCreateSubscription *)
definition getOrCreateSubscription :: "ctx \<Rightarrow> id \<Rightarrow> db \<Rightarrow> subscription_row \<times> db" where
  "getOrCreateSubscription cx org d = (case getSubscription org d of
      Some existing \<Rightarrow> (existing, d)
    | None \<Rightarrow> let s = new_subscription cx org d in (s, insert_subscription s d))"

(* src/src/lib/server/services/subscription.service.ts:180-198 getEffectiveLimits *)
definition getEffectiveLimits :: "ctx \<Rightarrow> id \<Rightarrow> db \<Rightarrow> plan_limits \<times> db" where
  "getEffectiveLimits cx org d = (if isSelfHosted (cx_env cx) then (SELF_HOSTED_LIMITS, d)
     else let (sub, d1) = getOrCreateSubscription cx org d in
       (applyCapacityBlocks (plan_of (sub_planId sub)) (sub_blocks sub), d1))"

(* src/src/lib/server/services/subscription.service.ts:321-339 getOrganizationPlan *)
definition getOrganizationPlan :: "ctx \<Rightarrow> id \<Rightarrow> db \<Rightarrow> plan \<times> db" where
  "getOrganizationPlan cx org d = (if isSelfHosted (cx_env cx)
     then (\<lparr>plan_id = ''dedicated'', plan_name = ''Self-Hosted'', monthlyPriceCents = None,
            annualPriceCents = None, limits = SELF_HOSTED_LIMITS\<rparr>, d)
     else let (sub, d1) = getOrCreateSubscription cx org d in (plan_of (sub_planId sub), d1))"

(* src/src/lib/server/services/subscription.service.ts:124-134 countActiveMonitors *)
definition countActiveMonitors :: "id \<Rightarrow> db \<Rightarrow> int" where
  "countActiveMonitors org d = activeMonitorCount org d"

(* src/src/lib/server/services/subscription.service.ts:341-359 getUsage *)
definition getUsage :: "id \<Rightarrow> db \<Rightarrow> int \<times> int" where
  "getUsage org d = (countActiveMonitors org d,
     int (length (filter (\<lambda>p. p_organizationId p = org) (statusPages d))))"

text \<open>Used, limit, and whether there is room to invite.\<close>

(* src/src/lib/server/services/subscription.service.ts:361-399 getMemberCapacity *)
definition getMemberCapacity :: "ctx \<Rightarrow> id \<Rightarrow> db \<Rightarrow> (int \<times> int \<times> bool) \<times> db" where
  "getMemberCapacity cx org d = (
     let (l, d1) = getEffectiveLimits cx org d;
         limit = (if teamMembers l = -1 then ORGANIZATION_MEMBERSHIP_LIMIT (cx_env cx) else teamMembers l);
         used = int (length (filter (\<lambda>m. mem_organizationId m = org) (members d1))) +
           int (length (filter (\<lambda>i. inv_organizationId i = org \<and> inv_status i = ''pending'' \<and>
             inv_expiresAt i > cx_now cx) (invitations d1))) in
     ((used, limit, used < limit), d1))"

text \<open>Whether one more is allowed, without the message.\<close>

(* src/src/lib/server/services/subscription.service.ts:401-424 canAdd *)
definition canAdd :: "ctx \<Rightarrow> id \<Rightarrow> (plan_limits \<Rightarrow> int) \<Rightarrow> (int \<times> int \<Rightarrow> int) \<Rightarrow> db \<Rightarrow> bool \<times> db" where
  "canAdd cx org limit_of usage_of d = (let (l, d1) = getEffectiveLimits cx org d in
     (limit_of l = -1 \<or> usage_of (getUsage org d1) < limit_of l, d1))"

(* src/src/lib/server/services/subscription.service.ts:426-428 canAddMonitor *)
definition canAddMonitor :: "ctx \<Rightarrow> id \<Rightarrow> db \<Rightarrow> bool \<times> db" where
  "canAddMonitor cx org = canAdd cx org monitors_limit fst"

(* src/src/lib/server/services/subscription.service.ts:460-462 canAddStatusPage *)
definition canAddStatusPage :: "ctx \<Rightarrow> id \<Rightarrow> db \<Rightarrow> bool \<times> db" where
  "canAddStatusPage cx org = canAdd cx org statusPages_limit snd"

(* src/src/lib/server/services/subscription.service.ts:464-481 isCheckIntervalAllowed *)
definition isCheckIntervalAllowed :: "ctx \<Rightarrow> id \<Rightarrow> int \<Rightarrow> db \<Rightarrow> bool \<times> db" where
  "isCheckIntervalAllowed cx org intervalSeconds d = (let (l, d1) = getEffectiveLimits cx org d in
     (intervalSeconds \<ge> checkIntervalSeconds l, d1))"

(* src/src/lib/server/services/subscription.service.ts:483-499 isNotificationChannelAllowed *)
definition isNotificationChannelAllowed :: "ctx \<Rightarrow> id \<Rightarrow> string \<Rightarrow> db \<Rightarrow> bool \<times> db" where
  "isNotificationChannelAllowed cx org channelType d = (let (l, d1) = getEffectiveLimits cx org d in
     (channelType \<in> set (channel_types l), d1))"

(* src/src/lib/server/services/subscription.service.ts:501-513 areCustomDomainsAllowed *)
definition areCustomDomainsAllowed :: "ctx \<Rightarrow> id \<Rightarrow> db \<Rightarrow> bool \<times> db" where
  "areCustomDomainsAllowed cx org d = (let (l, d1) = getEffectiveLimits cx org d in (customDomains l, d1))"

(* src/src/lib/server/services/subscription.service.ts:274-283 memberRole *)
definition memberRole :: "id \<Rightarrow> id \<Rightarrow> db \<Rightarrow> string option" where
  "memberRole org userId d = map_option mem_role
     (first_row (filter (\<lambda>m. mem_organizationId m = org \<and> mem_userId m = userId) (members d)))"

(* src/src/lib/server/services/subscription.service.ts:285-289 canManageBilling *)
definition canManageBilling :: "id \<Rightarrow> id \<Rightarrow> db \<Rightarrow> bool" where
  "canManageBilling org userId d = on_some (\<lambda>r. r \<in> set BILLING_ROLES) (memberRole org userId d)"

text \<open>\<open>Inl\<close>: no room, and the limit.\<close>

(* src/src/lib/server/services/subscription.service.ts:430-458 takeMonitorSlot *)
definition takeMonitorSlot :: "ctx \<Rightarrow> id \<Rightarrow> (db \<Rightarrow> 'a \<times> db) \<Rightarrow> db \<Rightarrow> (int + 'a) \<times> db" where
  "takeMonitorSlot cx org slot d = (
     if isSelfHosted (cx_env cx) then (case slot d of (v, d1) \<Rightarrow> (Inr v, d1))
     else let (sub, d1) = getOrCreateSubscription cx org d;
              limit = monitors_limit (applyCapacityBlocks (plan_of (sub_planId sub)) (sub_blocks sub)) in
       if limit \<noteq> -1 \<and> countActiveMonitors org d1 \<ge> limit then (Inl limit, d1)
       else case slot d1 of (v, d2) \<Rightarrow> (Inr v, d2))"

section \<open>Capacity blocks\<close>

(* src/src/lib/server/services/subscription.service.ts:41-47 SetBlocksResult *)
datatype set_blocks_result =
    BlocksSet subscription_row
  | PlanIneligible
  | InvalidCount
  | AboveMax int
  | MultiOrgCustomer id string

definition block_eligible :: "string \<Rightarrow> bool" where
  "block_eligible planId \<longleftrightarrow> planId \<in> set BLOCK_ELIGIBLE_PLAN_IDS"

(* src/src/lib/server/services/subscription.service.ts:250-272 otherBlockHolder *)
definition otherBlockHolder :: "subscription_row \<Rightarrow> db \<Rightarrow> (id \<times> string) option" where
  "otherBlockHolder sub d = (case sub_polarCustomerId sub of
      None \<Rightarrow> None
    | Some customer \<Rightarrow> if customer = [] then None
        else map_option (\<lambda>(_, og). (org_id og, org_name og)) (first_row
          (inner_join (\<lambda>s og. org_id og = sub_organizationId s)
            (filter (\<lambda>s. sub_polarCustomerId s = Some customer \<and> sub_organizationId s \<noteq> sub_organizationId sub \<and>
              block_eligible (sub_planId s) \<and> sub_blocks s > 0) (subscriptions d)) (organizations d))))"

(* src/src/lib/server/services/subscription.service.ts:233-241 setBlocks: change *)
definition blocks_changed :: "ctx \<Rightarrow> subscription_row \<Rightarrow> int \<Rightarrow> subscription_row \<Rightarrow> subscription_row" where
  "blocks_changed cx sub blocks s = (
     if blocks < sub_blocks sub \<and> sub_currentPeriodEnd sub \<noteq> None
     then s\<lparr>sub_scheduledBlocks := Some blocks, sub_updatedAt := cx_now cx\<rparr>
     else s\<lparr>sub_blocks := blocks, sub_scheduledBlocks := None, sub_updatedAt := cx_now cx\<rparr>)"

(* src/src/lib/server/services/subscription.service.ts:200-248 setBlocks *)
definition setBlocks :: "ctx \<Rightarrow> id \<Rightarrow> int \<Rightarrow> db \<Rightarrow> set_blocks_result \<times> db" where
  "setBlocks cx org blocks d = (
     if blocks < 0 then (InvalidCount, d)
     else if blocks > MAX_MONITOR_BLOCKS then (AboveMax MAX_MONITOR_BLOCKS, d)
     else let (sub, d1) = getOrCreateSubscription cx org d in
       if \<not> on_some (\<lambda>p. block_eligible (plan_id p)) (map_of PLANS (sub_planId sub)) then (PlanIneligible, d1)
       else case (if blocks > sub_blocks sub then otherBlockHolder sub d1 else None) of
         Some (k, name) \<Rightarrow> (MultiOrgCustomer k name, d1)
       | None \<Rightarrow>
           let d2 = d1\<lparr>subscriptions := update_where (\<lambda>s. sub_organizationId s = org)
                 (blocks_changed cx sub blocks) (subscriptions d1)\<rparr>;
               updated = blocks_changed cx sub blocks sub in
           (BlocksSet updated, snd (resumeAfterRaise cx org (ceilingOf (cx_env cx) sub)
             (ceilingOf (cx_env cx) updated) d2)))"

definition reduction_due :: "time \<Rightarrow> subscription_row \<Rightarrow> bool" where
  "reduction_due t s \<longleftrightarrow> sub_scheduledBlocks s \<noteq> None \<and> on_some (\<lambda>e. e \<le> t) (sub_currentPeriodEnd s)"

(* src/src/lib/server/services/subscription.service.ts:291-319 applyScheduledReductions *)
definition applyScheduledReductions :: "ctx \<Rightarrow> time option \<Rightarrow> db \<Rightarrow> nat \<times> db" where
  "applyScheduledReductions cx t d = (let due = reduction_due (coalesce t (cx_now cx)) in
     (length (filter due (subscriptions d)),
      d\<lparr>subscriptions := update_where due (\<lambda>s. s\<lparr>sub_blocks := coalesce (sub_scheduledBlocks s) (sub_blocks s),
        sub_scheduledBlocks := None, sub_updatedAt := cx_now cx\<rparr>) (subscriptions d)\<rparr>))"

section \<open>What the billing provider reports\<close>

text \<open>An interval is absent, cleared, or set.\<close>

(* src/src/lib/server/services/subscription.service.ts:97-107 PolarSyncData *)
record polar_sync =
  py_planId :: string
  py_status :: subscription_status
  py_polarCustomerId :: "id option"
  py_polarSubscriptionId :: "id option"
  py_billingInterval :: "billing_interval option option"
  py_currentPeriodStart :: "time option"
  py_currentPeriodEnd :: "time option"

(* src/src/lib/server/services/subscription.service.ts:88-92 HeldPolarSubscription *)
record held_polar =
  hp_polarSubscriptionId :: id
  hp_polarCustomerId :: id

(* src/src/lib/server/services/subscription.service.ts:94-95 FREE_SYNC *)
definition FREE_SYNC :: polar_sync where
  "FREE_SYNC = \<lparr>py_planId = ''free'', py_status = SubActive, py_polarCustomerId = None,
     py_polarSubscriptionId = None, py_billingInterval = Some None, py_currentPeriodStart = None,
     py_currentPeriodEnd = None\<rparr>"

(* src/src/lib/server/services/subscription.service.ts:72-86 periodRolled *)
definition periodRolled :: "subscription_row \<Rightarrow> polar_sync \<Rightarrow> bool" where
  "periodRolled existing incoming \<longleftrightarrow> (case (py_currentPeriodStart incoming, py_currentPeriodEnd incoming) of
      (Some start, Some _) \<Rightarrow> on_some (\<lambda>e. start \<ge> e - PERIOD_BOUNDARY_TOLERANCE_MS) (sub_currentPeriodEnd existing)
    | _ \<Rightarrow> False)"

(* src/src/lib/server/services/subscription.service.ts:109-122 heldBy *)
definition heldBy :: "held_polar \<Rightarrow> subscription_row \<Rightarrow> bool" where
  "heldBy held s \<longleftrightarrow> sub_polarSubscriptionId s = Some (hp_polarSubscriptionId held) \<or>
     (sub_polarSubscriptionId s = None \<and> sub_polarCustomerId s = Some (hp_polarCustomerId held))"

definition or_kept :: "'a option \<Rightarrow> 'a option \<Rightarrow> 'a option" where
  "or_kept x y = (case x of None \<Rightarrow> y | Some _ \<Rightarrow> x)"

(* src/src/lib/server/services/subscription.service.ts:551-589 applySync: set *)
definition synced_row :: "ctx \<Rightarrow> polar_sync \<Rightarrow> subscription_row \<Rightarrow> subscription_row \<Rightarrow> subscription_row" where
  "synced_row cx data existing s = (
     let leaving = (block_eligible (sub_planId existing) \<and> \<not> block_eligible (py_planId data));
         rolled = (sub_scheduledBlocks existing \<noteq> None \<and> periodRolled existing data) in
     s\<lparr>sub_planId := py_planId data, sub_status := py_status data,
       sub_blocks := (if leaving then 0 else if rolled then coalesce (sub_scheduledBlocks s) (sub_blocks s)
         else sub_blocks s),
       sub_scheduledBlocks := (if leaving \<or> rolled then None else sub_scheduledBlocks s),
       sub_polarCustomerId := or_kept (py_polarCustomerId data) (sub_polarCustomerId existing),
       sub_polarSubscriptionId := or_kept (py_polarSubscriptionId data) (sub_polarSubscriptionId existing),
       sub_billingInterval := coalesce (py_billingInterval data) (sub_billingInterval existing),
       sub_currentPeriodStart := or_kept (py_currentPeriodStart data) (sub_currentPeriodStart existing),
       sub_currentPeriodEnd := or_kept (py_currentPeriodEnd data) (sub_currentPeriodEnd existing),
       sub_updatedAt := cx_now cx\<rparr>)"

(* src/src/lib/server/services/subscription.service.ts:543-617 applySync *)
definition applySync ::
  "ctx \<Rightarrow> id \<Rightarrow> polar_sync \<Rightarrow> held_polar option \<Rightarrow> db \<Rightarrow> subscription_row option \<times> db" where
  "applySync cx org data held d = (case getSubscription org d of
      None \<Rightarrow> if held \<noteq> None then (None, d)
        else let s = (new_subscription cx org d)\<lparr>sub_planId := py_planId data, sub_status := py_status data,
               sub_polarCustomerId := py_polarCustomerId data, sub_polarSubscriptionId := py_polarSubscriptionId data,
               sub_billingInterval := coalesce (py_billingInterval data) None,
               sub_currentPeriodStart := py_currentPeriodStart data, sub_currentPeriodEnd := py_currentPeriodEnd data\<rparr> in
          (Some s, insert_subscription s d)
    | Some existing \<Rightarrow>
        let mine = (\<lambda>s. sub_organizationId s = org \<and> (case held of None \<Rightarrow> True | Some h \<Rightarrow> heldBy h s));
            d1 = d\<lparr>subscriptions := update_where mine (synced_row cx data existing) (subscriptions d)\<rparr> in
        (case first_row (filter mine (subscriptions d)) of
           None \<Rightarrow> (None, d1)
         | Some row \<Rightarrow> let updated = synced_row cx data existing row in
             (Some updated, snd (resumeAfterRaise cx org (ceilingOf (cx_env cx) existing)
               (ceilingOf (cx_env cx) updated) d1))))"

text \<open>\<open>None\<close> of a sync that holds no subscription is an exception: its row vanished.\<close>

(* src/src/lib/server/services/subscription.service.ts:515-527 syncFromPolar *)
definition syncFromPolar :: "ctx \<Rightarrow> id \<Rightarrow> polar_sync \<Rightarrow> db \<Rightarrow> subscription_row option \<times> db" where
  "syncFromPolar cx org data d = applySync cx org data None d"

(* src/src/lib/server/services/subscription.service.ts:529-541 syncHeldFromPolar *)
definition syncHeldFromPolar ::
  "ctx \<Rightarrow> id \<Rightarrow> held_polar \<Rightarrow> polar_sync \<Rightarrow> db \<Rightarrow> subscription_row option \<times> db" where
  "syncHeldFromPolar cx org held data d = applySync cx org data (Some held) d"

(* src/src/lib/server/services/subscription.service.ts:619-628 downgradeToFree *)
definition downgradeToFree :: "ctx \<Rightarrow> id \<Rightarrow> db \<Rightarrow> subscription_row option \<times> db" where
  "downgradeToFree cx org d = syncFromPolar cx org FREE_SYNC d"

(* src/src/lib/server/services/subscription.service.ts:630-636 downgradeHeldToFree *)
definition downgradeHeldToFree :: "ctx \<Rightarrow> id \<Rightarrow> held_polar \<Rightarrow> db \<Rightarrow> subscription_row option \<times> db" where
  "downgradeHeldToFree cx org held d = applySync cx org FREE_SYNC (Some held) d"

end
