(* ===== verification/Monitors.thy ===== *)
theory Monitors
  imports Subscriptions
begin

text \<open>
  Monitors as members manage them, \<open>lib/server/services/monitor.service.ts\<close>: creation and resumption
  within the ceiling an organization pays for, edits, pauses and deletion.  With them stands what holds
  of every operation that touches an organization's monitors or its subscription: the ceiling is never
  passed, and purchased blocks stay what they may be.
\<close>

section \<open>The operations\<close>

(* src/src/lib/constants/defaults.ts:61-62 DEFAULT_HTTP_METHOD *)
definition DEFAULT_HTTP_METHOD :: string where
  "DEFAULT_HTTP_METHOD = ''GET''"

(* src/src/lib/constants/defaults.ts:64-65 DEFAULT_EXPECTED_STATUS_CODES *)
definition DEFAULT_EXPECTED_STATUS_CODES :: "int list" where
  "DEFAULT_EXPECTED_STATUS_CODES = [200]"

text \<open>In an edit the text a body must contain can be left, cleared or set; every other field left or set.\<close>

(* src/src/lib/server/services/monitor.service.ts:21-47 CreateMonitorInput *)
record monitor_input =
  mi_name :: "string option"
  mi_description :: "string option"
  mi_type :: "monitor_type option"
  mi_url :: "string option"
  mi_method :: "string option"
  mi_headers :: "(string \<times> string) list option"
  mi_body :: "string option"
  mi_expectedStatusCodes :: "int list option"
  mi_expectedBodyContains :: "string option option"
  mi_followRedirects :: "bool option"
  mi_acceptSelfSigned :: "bool option"
  mi_hostname :: "string option"
  mi_port :: "int option"
  mi_intervalSeconds :: "int option"
  mi_timeoutSeconds :: "int option"
  mi_retries :: "int option"
  mi_sslCheckEnabled :: "bool option"
  mi_sslExpiryThresholdDays :: "int option"
  mi_alertAfterFailures :: "int option"
  mi_pushGracePeriodSeconds :: "int option"
  mi_active :: "bool option"

datatype monitor_error = IntervalNotAllowed | MonitorLimit int

text \<open>A text that is there and not empty, or the default: \<open>||\<close> on strings.\<close>

definition text_or :: "string option \<Rightarrow> string \<Rightarrow> string" where
  "text_or x y = (case x of None \<Rightarrow> y | Some s \<Rightarrow> if s = [] then y else s)"

(* src/src/lib/server/services/monitor.service.ts:66-91 create: values *)
definition new_monitor :: "ctx \<Rightarrow> id \<Rightarrow> id \<Rightarrow> monitor_input \<Rightarrow> db \<Rightarrow> monitor_row" where
  "new_monitor cx k org i d = (let env = cx_env cx in \<lparr>
     m_id = k, m_organizationId = org, m_name = coalesce (mi_name i) [], m_description = mi_description i,
     m_type = coalesce (mi_type i) HttpMonitor, m_active = True, m_url = mi_url i,
     m_method = Some (text_or (mi_method i) DEFAULT_HTTP_METHOD), m_headers = mi_headers i, m_body = mi_body i,
     m_expectedStatusCodes = Some (coalesce (mi_expectedStatusCodes i) DEFAULT_EXPECTED_STATUS_CODES),
     m_expectedBodyContains = coalesce (mi_expectedBodyContains i) None,
     m_followRedirects = coalesce (mi_followRedirects i) True,
     m_acceptSelfSigned = coalesce (mi_acceptSelfSigned i) False,
     m_hostname = mi_hostname i, m_port = mi_port i,
     m_pushToken = (if mi_type i = Some PushMonitor then Some (cx_nanoid cx (drawn d)) else None),
     m_pushGracePeriodSeconds = Some (number_or (mi_pushGracePeriodSeconds i) (DEFAULT_PUSH_GRACE_PERIOD_SECONDS env)),
     m_intervalSeconds = number_or (mi_intervalSeconds i) (DEFAULT_INTERVAL_SECONDS env),
     m_timeoutSeconds = number_or (mi_timeoutSeconds i) (DEFAULT_TIMEOUT_SECONDS env),
     m_retries = coalesce (mi_retries i) (DEFAULT_RETRIES env),
     m_sslCheckEnabled = coalesce (mi_sslCheckEnabled i) True,
     m_sslExpiryThresholdDays = Some (number_or (mi_sslExpiryThresholdDays i) (DEFAULT_SSL_EXPIRY_THRESHOLD_DAYS env)),
     m_alertAfterFailures = number_or (mi_alertAfterFailures i) (DEFAULT_ALERT_AFTER_FAILURES env),
     m_createdAt = cx_now cx, m_updatedAt = cx_now cx, m_nextCheckAt = Some (cx_now cx),
     m_checkRetryCount = Some 0, m_checkLastError = None, m_checkBackoffUntil = None,
     m_deadLetteredAt = None, m_capacityPausedAt = None\<rparr>)"

(* src/src/lib/server/services/monitor.service.ts:63-101 create: insert *)
definition insert_monitor :: "ctx \<Rightarrow> id \<Rightarrow> id \<Rightarrow> monitor_input \<Rightarrow> db \<Rightarrow> monitor_row \<times> db" where
  "insert_monitor cx k org i d = (
     let created = new_monitor cx k org i d;
         d1 = (if mi_type i = Some PushMonitor then draw d else d) in
     (created, d1\<lparr>monitors := monitors d1 @ [created],
        monitorStatuses := monitorStatuses d1 @ [\<lparr>s_monitorId = k, s_status = Unknown, s_lastCheckAt = None,
          s_lastStatusChange = None, s_consecutiveFailures = 0, s_uptimePercent24h = None,
          s_avgResponseTimeMs24h = None, s_updatedAt = cx_now cx\<rparr>]\<rparr>))"

(* src/src/lib/server/services/monitor.service.ts:50-109 create *)
definition create_monitor :: "ctx \<Rightarrow> id \<Rightarrow> monitor_input \<Rightarrow> db \<Rightarrow> (monitor_error + monitor_row) \<times> db" where
  "create_monitor cx org i d = (
     let (allowed, d1) = isCheckIntervalAllowed cx org
           (number_or (mi_intervalSeconds i) (DEFAULT_INTERVAL_SECONDS (cx_env cx))) d in
     if \<not> allowed then (Inl IntervalNotAllowed, d1)
     else let k = cx_nanoid cx (drawn d1);
              (slot, d2) = takeMonitorSlot cx org (insert_monitor cx k org i) (draw d1) in
       (case slot of Inl limit \<Rightarrow> Inl (MonitorLimit limit) | Inr created \<Rightarrow> Inr created, d2))"

definition monitor_in_org :: "id \<Rightarrow> id \<Rightarrow> monitor_row \<Rightarrow> bool" where
  "monitor_in_org k org m \<longleftrightarrow> m_id m = k \<and> m_organizationId m = org"

(* src/src/lib/server/services/monitor.service.ts:111-119 findByIdAndOrg *)
definition find_monitor :: "id \<Rightarrow> id \<Rightarrow> db \<Rightarrow> monitor_row option" where
  "find_monitor k org d = first_row (filter (monitor_in_org k org) (monitors d))"

(* src/src/lib/server/services/monitor.service.ts:121-127 findByOrganization *)
definition monitors_of_org :: "id \<Rightarrow> db \<Rightarrow> monitor_row list" where
  "monitors_of_org org d = order_desc m_createdAt (filter (\<lambda>m. m_organizationId m = org) (monitors d))"

(* src/src/lib/server/services/monitor.service.ts:159-172 update: set *)
definition monitor_set :: "ctx \<Rightarrow> monitor_input \<Rightarrow> bool \<Rightarrow> bool \<Rightarrow> monitor_row \<Rightarrow> monitor_row" where
  "monitor_set cx i resuming reset m = (let written = m\<lparr>
       m_name := coalesce (mi_name i) (m_name m), m_description := or_kept (mi_description i) (m_description m),
       m_type := coalesce (mi_type i) (m_type m), m_active := coalesce (mi_active i) (m_active m),
       m_url := or_kept (mi_url i) (m_url m), m_method := or_kept (mi_method i) (m_method m),
       m_headers := or_kept (mi_headers i) (m_headers m), m_body := or_kept (mi_body i) (m_body m),
       m_expectedStatusCodes := or_kept (mi_expectedStatusCodes i) (m_expectedStatusCodes m),
       m_expectedBodyContains := coalesce (mi_expectedBodyContains i) (m_expectedBodyContains m),
       m_followRedirects := coalesce (mi_followRedirects i) (m_followRedirects m),
       m_acceptSelfSigned := coalesce (mi_acceptSelfSigned i) (m_acceptSelfSigned m),
       m_hostname := or_kept (mi_hostname i) (m_hostname m), m_port := or_kept (mi_port i) (m_port m),
       m_pushGracePeriodSeconds := or_kept (mi_pushGracePeriodSeconds i) (m_pushGracePeriodSeconds m),
       m_intervalSeconds := coalesce (mi_intervalSeconds i) (m_intervalSeconds m),
       m_timeoutSeconds := coalesce (mi_timeoutSeconds i) (m_timeoutSeconds m),
       m_retries := coalesce (mi_retries i) (m_retries m),
       m_sslCheckEnabled := coalesce (mi_sslCheckEnabled i) (m_sslCheckEnabled m),
       m_sslExpiryThresholdDays := or_kept (mi_sslExpiryThresholdDays i) (m_sslExpiryThresholdDays m),
       m_alertAfterFailures := coalesce (mi_alertAfterFailures i) (m_alertAfterFailures m),
       m_updatedAt := cx_now cx, m_capacityPausedAt := (if resuming then None else m_capacityPausedAt m)\<rparr> in
     if reset then written\<lparr>m_nextCheckAt := Some (cx_now cx), m_checkRetryCount := Some 0,
       m_checkLastError := None, m_checkBackoffUntil := None\<rparr> else written)"

(* src/src/lib/server/services/monitor.service.ts:158-176 update: write *)
definition write_monitor ::
  "ctx \<Rightarrow> id \<Rightarrow> id \<Rightarrow> monitor_input \<Rightarrow> bool \<Rightarrow> bool \<Rightarrow> db \<Rightarrow> monitor_row option \<times> db" where
  "write_monitor cx k org i resuming reset d = (
     let d1 = d\<lparr>monitors := update_where (monitor_in_org k org) (monitor_set cx i resuming reset) (monitors d)\<rparr> in
     (find_monitor k org d1, d1))"

(* src/src/lib/server/services/monitor.service.ts:129-194 update *)
definition update_monitor ::
  "ctx \<Rightarrow> id \<Rightarrow> id \<Rightarrow> monitor_input \<Rightarrow> db \<Rightarrow> (monitor_error + monitor_row option) \<times> db" where
  "update_monitor cx k org i d = (case find_monitor k org d of
      None \<Rightarrow> (Inr None, d)
    | Some existing \<Rightarrow>
        let (allowed, d1) = (case mi_intervalSeconds i of None \<Rightarrow> (True, d)
              | Some s \<Rightarrow> isCheckIntervalAllowed cx org s d) in
        if \<not> allowed then (Inl IntervalNotAllowed, d1)
        else let resuming = (mi_active i = Some True \<and> \<not> m_active existing);
                 reset = (resuming \<or> on_some (\<lambda>s. s \<noteq> m_intervalSeconds existing) (mi_intervalSeconds i)) in
          if \<not> resuming then
            let (written, d2) = write_monitor cx k org i resuming reset d1 in
            (Inr written, if mi_active i = Some False then clearIfWithinCeiling (cx_env cx) org d2 else d2)
          else let (slot, d2) = takeMonitorSlot cx org (write_monitor cx k org i resuming reset) d1 in
            (case slot of Inl limit \<Rightarrow> Inl (MonitorLimit limit) | Inr updated \<Rightarrow> Inr updated, d2))"

text \<open>What the foreign keys do when a monitor goes.\<close>

definition forget_monitor :: "id \<Rightarrow> notificationLog_row \<Rightarrow> notificationLog_row" where
  "forget_monitor k l = (if nl_monitorId l = Some k then l\<lparr>nl_monitorId := None\<rparr> else l)"

definition cascade_monitor :: "id \<Rightarrow> db \<Rightarrow> db" where
  "cascade_monitor k d = (let events = e_id ` set (filter (\<lambda>e. e_monitorId e = Some k) (notificationEvents d)) in d\<lparr>
     monitorChecks := delete_where (\<lambda>c. c_monitorId c = k) (monitorChecks d),
     monitorStatuses := delete_where (\<lambda>s. s_monitorId s = k) (monitorStatuses d),
     monitorDailyStats := delete_where (\<lambda>s. d_monitorId s = k) (monitorDailyStats d),
     incidentMonitors := delete_where (\<lambda>im. im_monitorId im = k) (incidentMonitors d),
     statusPageMonitors := delete_where (\<lambda>pm. pm_monitorId pm = k) (statusPageMonitors d),
     monitorNotificationChannels := delete_where (\<lambda>mc. mc_monitorId mc = k) (monitorNotificationChannels d),
     maintenanceWindowMonitors := delete_where (\<lambda>wm. wm_monitorId wm = k) (maintenanceWindowMonitors d),
     notificationEvents := delete_where (\<lambda>e. e_monitorId e = Some k) (notificationEvents d),
     statusPageSubscriberDeliveries := delete_where (\<lambda>s. sd_eventId s \<in> events) (statusPageSubscriberDeliveries d),
     notificationLogs := map (forget_monitor k) (notificationLogs d)\<rparr>)"

(* src/src/lib/server/services/monitor.service.ts:196-205 delete *)
definition delete_monitor :: "ctx \<Rightarrow> id \<Rightarrow> id \<Rightarrow> db \<Rightarrow> bool \<times> db" where
  "delete_monitor cx k org d = (
     if find_monitor k org d = None then (False, d)
     else (True, clearIfWithinCeiling (cx_env cx) org
       ((cascade_monitor k d)\<lparr>monitors := delete_where (monitor_in_org k org) (monitors d)\<rparr>)))"

definition only_active :: "bool \<Rightarrow> monitor_input" where
  "only_active b = \<lparr>mi_name = None, mi_description = None, mi_type = None, mi_url = None, mi_method = None,
     mi_headers = None, mi_body = None, mi_expectedStatusCodes = None, mi_expectedBodyContains = None,
     mi_followRedirects = None, mi_acceptSelfSigned = None, mi_hostname = None, mi_port = None,
     mi_intervalSeconds = None, mi_timeoutSeconds = None, mi_retries = None, mi_sslCheckEnabled = None,
     mi_sslExpiryThresholdDays = None, mi_alertAfterFailures = None, mi_pushGracePeriodSeconds = None,
     mi_active = Some b\<rparr>"

(* src/src/lib/server/services/monitor.service.ts:207-214 toggleActive *)
definition toggleActive :: "ctx \<Rightarrow> id \<Rightarrow> id \<Rightarrow> db \<Rightarrow> (monitor_error + monitor_row option) \<times> db" where
  "toggleActive cx k org d = (case find_monitor k org d of
      None \<Rightarrow> (Inr None, d)
    | Some existing \<Rightarrow> update_monitor cx k org (only_active (\<not> m_active existing)) d)"

section \<open>Everything that touches monitors or subscriptions\<close>

datatype account_op =
    CreateMonitor id monitor_input
  | UpdateMonitor id id monitor_input
  | ToggleMonitor id id
  | DeleteMonitor id id
  | BuyBlocks id int
  | LandReductions "time option"
  | Sync id polar_sync "held_polar option"
  | GracePass send_notice

fun account_step :: "ctx \<Rightarrow> account_op \<Rightarrow> db \<Rightarrow> db" where
  "account_step cx (CreateMonitor org i) d = snd (create_monitor cx org i d)"
| "account_step cx (UpdateMonitor k org i) d = snd (update_monitor cx k org i d)"
| "account_step cx (ToggleMonitor k org) d = snd (toggleActive cx k org d)"
| "account_step cx (DeleteMonitor k org) d = snd (delete_monitor cx k org d)"
| "account_step cx (BuyBlocks org n) d = snd (setBlocks cx org n d)"
| "account_step cx (LandReductions t) d = snd (applyScheduledReductions cx t d)"
| "account_step cx (Sync org data held) d = snd (applySync cx org data held d)"
| "account_step cx (GracePass send) d = snd (runCapacityGrace (cx_env cx) send (cx_now cx) d)"

section \<open>The ceiling is never passed\<close>

definition within_ceiling :: "env \<Rightarrow> id \<Rightarrow> db \<Rightarrow> bool" where
  "within_ceiling env org d \<longleftrightarrow> isSelfHosted env \<or>
     on_some (\<lambda>s. case ceilingOf env s of None \<Rightarrow> True | Some c \<Rightarrow> activeMonitorCount org d \<le> c) (subscription_of org d)"

definition ceiling_kept :: "env \<Rightarrow> id \<Rightarrow> db \<Rightarrow> db \<Rightarrow> bool" where
  "ceiling_kept env org d d' \<longleftrightarrow> activeMonitorCount org d' \<le> activeMonitorCount org d \<or> within_ceiling env org d'"

definition one_sub :: "db \<Rightarrow> bool" where
  "one_sub d \<longleftrightarrow> distinct (map sub_organizationId (subscriptions d))"

lemma ceiling_kept_same: "monitors d' = monitors d \<Longrightarrow> ceiling_kept env org d d'"
  by (simp add: ceiling_kept_def activeMonitorCount_def)

lemma count_cong: "monitors d = monitors d' \<Longrightarrow> activeMonitorCount org d = activeMonitorCount org d'"
  by (simp add: activeMonitorCount_def)

lemma subscription_of_the:
  assumes "one_sub d" "s \<in> set (subscriptions d)" "sub_organizationId s = org"
  shows "subscription_of org d = Some s"
  using filter_the_row [of s "subscriptions d" sub_organizationId] assms by (simp add: one_sub_def subscription_of_def)

lemma subscription_of_in: "subscription_of org d = Some s \<Longrightarrow> s \<in> set (subscriptions d) \<and> sub_organizationId s = org"
  unfolding subscription_of_def by (rule first_row_filter_in)

lemma getOrCreate_frame:
  assumes "getOrCreateSubscription cx org d = (s, d1)"
  shows "monitors d1 = monitors d" "subscription_of org d1 = Some s" "one_sub d \<Longrightarrow> one_sub d1"
proof -
  have "monitors d1 = monitors d \<and> subscription_of org d1 = Some s \<and> (one_sub d \<longrightarrow> one_sub d1)"
  proof (cases "subscription_of org d")
    case (Some t)
    with assms show ?thesis by (simp add: getOrCreateSubscription_def getSubscription_def)
  next
    case None
    then have none: "sub_organizationId t \<noteq> org" if "t \<in> set (subscriptions d)" for t
      using that by (simp add: subscription_of_def filter_empty_conv)
    have d1: "s = new_subscription cx org d" "d1 = insert_subscription s d"
      using assms None by (auto simp: getOrCreateSubscription_def getSubscription_def Let_def)
    have s: "sub_organizationId s = org" by (simp add: d1 new_subscription_def)
    have "org \<notin> sub_organizationId ` set (subscriptions d)" using none by blast
    then have "one_sub d \<longrightarrow> one_sub d1" using s by (simp add: one_sub_def d1(2) insert_subscription_def)
    moreover have "filter (\<lambda>t. sub_organizationId t = org) (subscriptions d) = []" using none by (simp add: filter_empty_conv)
    then have "subscription_of org d1 = Some s" using s
      by (simp add: subscription_of_def d1(2) insert_subscription_def)
    ultimately show ?thesis by (simp add: d1(2) insert_subscription_def draw_def)
  qed
  then show "monitors d1 = monitors d" "subscription_of org d1 = Some s" "one_sub d \<Longrightarrow> one_sub d1" by simp_all
qed

lemma limits_frame:
  "monitors (snd (getEffectiveLimits cx org d)) = monitors d" "one_sub d \<Longrightarrow> one_sub (snd (getEffectiveLimits cx org d))"
  using getOrCreate_frame(1,3) [OF prod.collapse [symmetric]]
  by (simp_all add: getEffectiveLimits_def split_beta)

lemma interval_frame:
  "monitors (snd (isCheckIntervalAllowed cx org n d)) = monitors d"
  "one_sub d \<Longrightarrow> one_sub (snd (isCheckIntervalAllowed cx org n d))"
  by (simp_all add: isCheckIntervalAllowed_def split_beta limits_frame)

text \<open>A slot is taken only where there is one.\<close>

lemma slot_ceiling:
  assumes "one_sub d" "\<And>e. subscriptions (snd (slot e)) = subscriptions e"
    and "\<And>e k. monitors e = monitors d \<Longrightarrow>
      activeMonitorCount k (snd (slot e)) \<le> activeMonitorCount k e + (if k = org then 1 else 0)"
  shows "ceiling_kept (cx_env cx) k d (snd (takeMonitorSlot cx org slot d))"
proof (cases "isSelfHosted (cx_env cx)")
  case True
  then show ?thesis by (simp add: ceiling_kept_def within_ceiling_def)
next
  case False
  obtain s d1 where s: "getOrCreateSubscription cx org d = (s, d1)" by fastforce
  note f = getOrCreate_frame [OF s]
  let ?limit = "monitors_limit (applyCapacityBlocks (plan_of (sub_planId s)) (sub_blocks s))"
  show ?thesis
  proof (cases "?limit \<noteq> -1 \<and> countActiveMonitors org d1 \<ge> ?limit")
    case True
    with False s f(1) show ?thesis by (simp add: takeMonitorSlot_def Let_def ceiling_kept_same)
  next
    case room: False
    then have d': "snd (takeMonitorSlot cx org slot d) = snd (slot d1)"
      using False s by (auto simp: takeMonitorSlot_def Let_def split_beta)
    show ?thesis
    proof (cases "k = org")
      case True
      have "subscription_of org (snd (slot d1)) = Some s" using f(2) assms(2) by (simp add: subscription_of_def)
      moreover have "activeMonitorCount org (snd (slot d1)) \<le> ?limit \<or> ?limit = -1"
        using assms(3) [OF f(1), of org] room by (auto simp: countActiveMonitors_def)
      ultimately have "within_ceiling (cx_env cx) org (snd (slot d1))"
        by (auto simp: within_ceiling_def ceilingOf_def Let_def)
      then show ?thesis unfolding ceiling_kept_def d' True ..
    next
      case False
      with assms(3) [OF f(1), of k] count_cong [OF f(1), of k] show ?thesis by (simp add: ceiling_kept_def d')
    qed
  qed
qed

text \<open>A resumption takes no more than there is room for.\<close>

lemma clear_subscription:
  assumes "one_sub d"
  shows "one_sub (clearIfWithinCeiling env org d)"
    "map_option (ceilingOf env) (subscription_of k (clearIfWithinCeiling env org d)) = map_option (ceilingOf env) (subscription_of k d)"
proof -
  have same: "ceilingOf env (clock_stopped s) = ceilingOf env s" "sub_organizationId (clock_stopped s) = sub_organizationId s" for s
    by (simp_all add: clock_stopped_def ceilingOf_def)
  have first: "map_option (ceilingOf env) (first_row (filter (\<lambda>s. sub_organizationId s = k) (update_where P clock_stopped t))) =
      map_option (ceilingOf env) (first_row (filter (\<lambda>s. sub_organizationId s = k) t))" for P t
    by (induction t) (auto simp: same)
  have "one_sub (snd (clearClock org d))" using assms
    by (simp add: one_sub_def clearClock_def Let_def map_update_where same)
  moreover have "map_option (ceilingOf env) (subscription_of k (snd (clearClock org d))) = map_option (ceilingOf env) (subscription_of k d)"
    unfolding subscription_of_def clearClock_def Let_def by (simp add: first)
  ultimately show "one_sub (clearIfWithinCeiling env org d)"
    "map_option (ceilingOf env) (subscription_of k (clearIfWithinCeiling env org d)) = map_option (ceilingOf env) (subscription_of k d)"
    using assms by (simp_all add: clearIfWithinCeiling_def split: option.split)
qed

lemma within_ceiling_cong:
  "map_option (ceilingOf env) (subscription_of k d') = map_option (ceilingOf env) (subscription_of k d) \<Longrightarrow>
   monitors d' = monitors d \<Longrightarrow> within_ceiling env k d' = within_ceiling env k d"
  by (cases "subscription_of k d"; cases "subscription_of k d'")
    (auto simp: within_ceiling_def count_cong [of d' d] split: option.split)

lemma filter_update_le:
  "length (filter A (update_where P f t)) \<le> length (filter A t) + length (filter P t)"
  by (induction t) auto

lemma few_named:
  assumes "distinct (map m_id ms)"
  shows "length (filter (\<lambda>m. m_id m \<in> m_id ` set (take n xs)) ms) \<le> n"
proof -
  let ?named = "filter (\<lambda>m. m_id m \<in> m_id ` set (take n xs)) ms"
  have "length ?named = card (set (map m_id ?named))"
    using distinct_card [of "map m_id ?named"] assms by (simp add: distinct_map_filter)
  also have "\<dots> \<le> card (m_id ` set (take n xs))" by (rule card_mono) auto
  also have "\<dots> \<le> length (take n xs)" using card_length [of "map m_id (take n xs)"] by simp
  also have "\<dots> \<le> n" by simp
  finally show ?thesis .
qed

lemma resume_ceiling:
  assumes one: "one_sub d" and u: "unique_monitors d" and s: "subscription_of org d = Some s"
  shows "ceiling_kept (cx_env cx) k d (snd (resumeAfterRaise cx org before (ceilingOf (cx_env cx) s) d))"
proof (cases "before = None \<or> on_some (\<lambda>a. a \<le> the before) (ceilingOf (cx_env cx) s)")
  case True
  then show ?thesis by (simp add: resumeAfterRaise_def ceiling_kept_same)
next
  case raised: False
  let ?c = "ceilingOf (cx_env cx) s"
  let ?room = "case ?c of None \<Rightarrow> 2 ^ 53 - 1 | Some a \<Rightarrow> min (a - the before) (a - activeMonitorCount org d)"
  let ?xs = "by_age (filter (paused_in org) (monitors d))"
  let ?ids = "m_id ` set (take (nat ?room) ?xs)"
  let ?d1 = "d\<lparr>monitors := update_where (\<lambda>m. m_id m \<in> ?ids) (resumed_row cx) (monitors d)\<rparr>"
  show ?thesis
  proof (cases "?room \<le> 0")
    case True
    with raised show ?thesis by (simp add: resumeAfterRaise_def Let_def ceiling_kept_same)
  next
    case room: False
    have d': "snd (resumeAfterRaise cx org before ?c d) = clearIfWithinCeiling (cx_env cx) org ?d1"
      unfolding resumeAfterRaise_def if_not_P [OF raised] Let_def if_not_P [OF room] snd_conv by (rule refl)
    have count: "activeMonitorCount k (clearIfWithinCeiling (cx_env cx) org ?d1) = activeMonitorCount k ?d1"
      by (rule count_cong) simp
    have org: "m_organizationId m = org" if "m \<in> set (monitors d)" "m_id m \<in> ?ids" for m
    proof -
      from that(2) obtain x where "x \<in> set (take (nat ?room) ?xs)" "m_id m = m_id x" by blast
      then have "x \<in> set (monitors d)" "m_organizationId x = org" "m_id m = m_id x"
        by (auto simp: by_age_def paused_in_def dest!: in_set_takeD)
      with unique_monitor [OF u that(1)] show ?thesis by metis
    qed
    show ?thesis
    proof (cases "k = org")
      case False
      have "filter (active_in k) (monitors ?d1) = filter (active_in k) (monitors d)"
        using org False by (auto simp: active_in_def resumed_row_def intro!: filter_update_where)
      then show ?thesis by (simp add: d' ceiling_kept_def count activeMonitorCount_def)
    next
      case True
      have "length (filter (active_in org) (monitors ?d1)) \<le>
          length (filter (active_in org) (monitors d)) + length (filter (\<lambda>m. m_id m \<in> ?ids) (monitors d))"
        using filter_update_le by simp
      also have "\<dots> \<le> length (filter (active_in org) (monitors d)) + nat ?room"
        using few_named [of "monitors d" "nat ?room" ?xs] u by (simp add: unique_monitors_def)
      finally have "activeMonitorCount org ?d1 \<le> activeMonitorCount org d + ?room"
        using room by (simp add: activeMonitorCount_def)
      then have "case ?c of None \<Rightarrow> True | Some c \<Rightarrow> activeMonitorCount org ?d1 \<le> c"
        by (auto split: option.split)
      moreover have "subscription_of org ?d1 = Some s" using s by (simp add: subscription_of_def)
      ultimately have "within_ceiling (cx_env cx) org ?d1" by (simp add: within_ceiling_def)
      moreover have "one_sub ?d1" using one by (simp add: one_sub_def)
      ultimately have "within_ceiling (cx_env cx) org (clearIfWithinCeiling (cx_env cx) org ?d1)"
        using within_ceiling_cong [OF clear_subscription(2)] by simp
      then show ?thesis by (simp add: d' ceiling_kept_def True)
    qed
  qed
qed

lemma filter_update_mono:
  "(\<And>r. r \<in> set t \<Longrightarrow> P r \<Longrightarrow> A (f r) \<Longrightarrow> A r) \<Longrightarrow> length (filter A (update_where P f t)) \<le> length (filter A t)"
  by (induction t) (auto simp: le_SucI)

lemma ceiling_kept_trans:
  "ceiling_kept env k d d1 \<Longrightarrow> monitors d' = monitors d1 \<Longrightarrow>
   map_option (ceilingOf env) (subscription_of k d') = map_option (ceilingOf env) (subscription_of k d1) \<Longrightarrow>
   ceiling_kept env k d d'"
  unfolding ceiling_kept_def using within_ceiling_cong [of env k d' d1] count_cong [of d' d1 k] by simp

lemma ceiling_kept_from:
  "monitors d1 = monitors d \<Longrightarrow> ceiling_kept env k d1 d' \<Longrightarrow> ceiling_kept env k d d'"
  using count_cong [of d1 d k] by (simp add: ceiling_kept_def)

lemma unique_monitors_same: "monitors d1 = monitors d \<Longrightarrow> unique_monitors d \<Longrightarrow> unique_monitors d1"
  by (simp add: unique_monitors_def)

lemma create_ceiling:
  assumes "one_sub d"
  shows "ceiling_kept (cx_env cx) k d (snd (create_monitor cx org i d))"
proof -
  let ?n = "number_or (mi_intervalSeconds i) (DEFAULT_INTERVAL_SECONDS (cx_env cx))"
  let ?d1 = "snd (isCheckIntervalAllowed cx org ?n d)"
  note f = interval_frame
  let ?slot = "insert_monitor cx (cx_nanoid cx (drawn ?d1)) org i"
  have one: "one_sub (draw ?d1)" using f(2) assms by (simp add: one_sub_def draw_def)
  have m: "monitors (draw ?d1) = monitors d" using f(1) by (simp add: draw_def)
  have "ceiling_kept (cx_env cx) k (draw ?d1) (snd (takeMonitorSlot cx org ?slot (draw ?d1)))"
  proof (rule slot_ceiling [OF one])
    show "subscriptions (snd (?slot e)) = subscriptions e" for e
      by (simp add: insert_monitor_def Let_def draw_def)
    show "activeMonitorCount k (snd (?slot e)) \<le> activeMonitorCount k e + (if k = org then 1 else 0)" for e k
      by (simp add: insert_monitor_def Let_def draw_def activeMonitorCount_def active_in_def new_monitor_def)
  qed
  from ceiling_kept_from [OF m this] show ?thesis
    using f(1) by (simp add: create_monitor_def Let_def split_beta ceiling_kept_same)
qed

lemma write_count:
  assumes u: "unique_monitors e"
  shows "activeMonitorCount k' (snd (write_monitor cx k org i b c e)) \<le> activeMonitorCount k' e + (if k' = org then 1 else 0)"
    and "(\<And>m. m \<in> set (monitors e) \<Longrightarrow> monitor_in_org k org m \<Longrightarrow> mi_active i \<noteq> Some True \<or> m_active m) \<Longrightarrow>
      activeMonitorCount k' (snd (write_monitor cx k org i b c e)) \<le> activeMonitorCount k' e"
proof -
  let ?P = "monitor_in_org k org"
  have f: "m_organizationId (monitor_set cx i b c m) = m_organizationId m" "m_active (monitor_set cx i b c m) = coalesce (mi_active i) (m_active m)" for m
    by (simp_all add: monitor_set_def Let_def)
  have rows: "monitors (snd (write_monitor cx k org i b c e)) = update_where ?P (monitor_set cx i b c) (monitors e)"
    by (simp add: write_monitor_def Let_def)
  have one: "length (filter ?P (monitors e)) \<le> 1"
  proof -
    have "distinct (map m_id (filter ?P (monitors e)))" using u by (simp add: unique_monitors_def distinct_map_filter)
    moreover have "set (map m_id (filter ?P (monitors e))) \<subseteq> {k}" by (auto simp: monitor_in_org_def)
    ultimately show ?thesis using distinct_card [of "map m_id (filter ?P (monitors e))"]
      card_mono [of "{k}" "set (map m_id (filter ?P (monitors e)))"] by simp
  qed
  show "activeMonitorCount k' (snd (write_monitor cx k org i b c e)) \<le> activeMonitorCount k' e + (if k' = org then 1 else 0)"
  proof (cases "k' = org")
    case True
    with one filter_update_le [of "active_in k'" ?P "monitor_set cx i b c" "monitors e"] show ?thesis
      by (simp add: activeMonitorCount_def rows)
  next
    case False
    then have "filter (active_in k') (update_where ?P (monitor_set cx i b c) (monitors e)) = filter (active_in k') (monitors e)"
      by (intro filter_update_where) (auto simp: active_in_def monitor_in_org_def f)
    with False show ?thesis by (simp add: activeMonitorCount_def rows)
  qed
  assume act: "\<And>m. m \<in> set (monitors e) \<Longrightarrow> monitor_in_org k org m \<Longrightarrow> mi_active i \<noteq> Some True \<or> m_active m"
  have "active_in k' m" if "m \<in> set (monitors e)" "?P m" "active_in k' (monitor_set cx i b c m)" for m
    using act [OF that(1,2)] that(3) by (auto simp: active_in_def f coalesce_def split: option.splits)
  from filter_update_mono [OF this] show "activeMonitorCount k' (snd (write_monitor cx k org i b c e)) \<le> activeMonitorCount k' e"
    by (simp add: activeMonitorCount_def rows)
qed

lemma find_monitor_in: "find_monitor k org d = Some m \<Longrightarrow> m \<in> set (monitors d) \<and> monitor_in_org k org m"
  unfolding find_monitor_def by (rule first_row_filter_in)

lemma find_monitor_the:
  "unique_monitors d \<Longrightarrow> find_monitor k org d = Some m \<Longrightarrow> q \<in> set (monitors d) \<Longrightarrow> monitor_in_org k org q \<Longrightarrow> q = m"
  using unique_monitor [of d q m] find_monitor_in [of k org d m] by (simp add: monitor_in_org_def)

lemma update_ceiling:
  assumes one: "one_sub d" and u: "unique_monitors d"
  shows "ceiling_kept (cx_env cx) k' d (snd (update_monitor cx k org i d))"
proof (cases "find_monitor k org d")
  case None
  then show ?thesis by (simp add: update_monitor_def ceiling_kept_same)
next
  case (Some existing)
  define chk where "chk = (case mi_intervalSeconds i of None \<Rightarrow> (True, d) | Some s \<Rightarrow> isCheckIntervalAllowed cx org s d)"
  let ?d1 = "snd chk"
  have d1: "monitors ?d1 = monitors d" "one_sub ?d1"
    using interval_frame one by (auto simp: chk_def split: option.split)
  have u1: "unique_monitors ?d1" using unique_monitors_same [OF d1(1) u] .
  define resuming where "resuming \<longleftrightarrow> mi_active i = Some True \<and> \<not> m_active existing"
  define wr where "wr = write_monitor cx k org i resuming
    (resuming \<or> on_some (\<lambda>s. s \<noteq> m_intervalSeconds existing) (mi_intervalSeconds i))"
  have upd: "snd (update_monitor cx k org i d) = (if \<not> fst chk then ?d1
      else if \<not> resuming then (if mi_active i = Some False then clearIfWithinCeiling (cx_env cx) org (snd (wr ?d1)) else snd (wr ?d1))
      else snd (takeMonitorSlot cx org wr ?d1))"
    using Some by (simp add: update_monitor_def chk_def [symmetric] resuming_def [symmetric] Let_def split_beta) (simp add: wr_def)
  have kept: "ceiling_kept (cx_env cx) k' d (snd (wr ?d1))" if "\<not> resuming"
  proof -
    have "activeMonitorCount k' (snd (wr ?d1)) \<le> activeMonitorCount k' ?d1"
    unfolding wr_def
    proof (rule write_count(2) [OF u1])
      fix m assume "m \<in> set (monitors ?d1)" "monitor_in_org k org m"
      with find_monitor_the [OF u Some] d1(1) have "m = existing" by simp
      with that show "mi_active i \<noteq> Some True \<or> m_active m" by (auto simp: resuming_def)
    qed
    with count_cong [OF d1(1), of k'] show ?thesis by (simp add: ceiling_kept_def)
  qed
  have one2: "one_sub (snd (wr ?d1))" using d1(2) by (simp add: wr_def write_monitor_def Let_def one_sub_def)
  have cleared: "ceiling_kept (cx_env cx) k' d (clearIfWithinCeiling (cx_env cx) org (snd (wr ?d1)))" if "\<not> resuming"
    by (rule ceiling_kept_trans [OF kept [OF that] _ clear_subscription(2) [OF one2]]) simp
  have slot: "ceiling_kept (cx_env cx) k' ?d1 (snd (takeMonitorSlot cx org wr ?d1))"
  proof (rule slot_ceiling [OF d1(2)])
    show "subscriptions (snd (wr e)) = subscriptions e" for e by (simp add: wr_def write_monitor_def Let_def)
    show "activeMonitorCount k (snd (wr e)) \<le> activeMonitorCount k e + (if k = org then 1 else 0)"
      if "monitors e = monitors ?d1" for e k
      unfolding wr_def by (rule write_count(1), rule unique_monitors_same [OF that u1])
  qed
  show ?thesis
    unfolding upd using kept cleared ceiling_kept_from [OF d1(1) slot] ceiling_kept_same [OF d1(1)]
    by (simp split: if_split)
qed

lemma toggle_ceiling:
  "one_sub d \<Longrightarrow> unique_monitors d \<Longrightarrow> ceiling_kept (cx_env cx) k' d (snd (toggleActive cx k org d))"
  using update_ceiling by (simp add: toggleActive_def ceiling_kept_same split: option.split)

lemma filter_delete_le: "length (filter A (delete_where P t)) \<le> length (filter A t)"
  by (induction t) (auto simp: le_SucI)

lemma delete_ceiling:
  assumes "one_sub d"
  shows "ceiling_kept (cx_env cx) k' d (snd (delete_monitor cx k org d))"
proof (cases "find_monitor k org d = None")
  case True
  then show ?thesis by (simp add: delete_monitor_def ceiling_kept_same)
next
  case False
  let ?d1 = "(cascade_monitor k d)\<lparr>monitors := delete_where (monitor_in_org k org) (monitors d)\<rparr>"
  have kept: "ceiling_kept (cx_env cx) k' d ?d1"
    using filter_delete_le [of "active_in k'" "monitor_in_org k org" "monitors d"]
    by (simp add: ceiling_kept_def activeMonitorCount_def)
  have one: "one_sub ?d1" using assms by (simp add: one_sub_def cascade_monitor_def Let_def)
  have "ceiling_kept (cx_env cx) k' d (clearIfWithinCeiling (cx_env cx) org ?d1)"
    by (rule ceiling_kept_trans [OF kept _ clear_subscription(2) [OF one]]) simp
  moreover have "snd (delete_monitor cx k org d) = clearIfWithinCeiling (cx_env cx) org ?d1"
    unfolding delete_monitor_def if_not_P [OF False] by (simp only: snd_conv)
  ultimately show ?thesis by simp
qed

lemma first_row_update:
  assumes "first_row (filter Q t) = Some r" "\<And>r. Q (f r) = Q r"
  shows "first_row (filter Q (update_where P f t)) = Some (if P r then f r else r)"
  using assms by (induction t) (auto split: if_splits)

lemma blocks_ceiling:
  assumes one: "one_sub d" and u: "unique_monitors d"
  shows "ceiling_kept (cx_env cx) k' d (snd (setBlocks cx org n d))"
proof -
  obtain sub d1 where s: "getOrCreateSubscription cx org d = (sub, d1)" by fastforce
  note f = getOrCreate_frame [OF s]
  let ?updated = "blocks_changed cx sub n sub"
  let ?d2 = "d1\<lparr>subscriptions := update_where (\<lambda>s. sub_organizationId s = org) (blocks_changed cx sub n) (subscriptions d1)\<rparr>"
  have org: "sub_organizationId (blocks_changed cx sub n s) = sub_organizationId s" for s by (simp add: blocks_changed_def)
  have m: "monitors ?d2 = monitors d" using f(1) by simp
  have "one_sub ?d2" using f(3) [OF one] by (simp add: one_sub_def map_update_where org)
  moreover have "unique_monitors ?d2" using unique_monitors_same [OF m u] .
  moreover have "subscription_of org ?d2 = Some ?updated"
    using first_row_update [OF f(2) [unfolded subscription_of_def], of "blocks_changed cx sub n" "\<lambda>s. sub_organizationId s = org"]
      subscription_of_in [OF f(2)] by (simp add: subscription_of_def org)
  ultimately have "ceiling_kept (cx_env cx) k' ?d2
      (snd (resumeAfterRaise cx org (ceilingOf (cx_env cx) sub) (ceilingOf (cx_env cx) ?updated) ?d2))"
    by (rule resume_ceiling)
  from ceiling_kept_from [OF m this] have set: "ceiling_kept (cx_env cx) k' d
      (snd (resumeAfterRaise cx org (ceilingOf (cx_env cx) sub) (ceilingOf (cx_env cx) ?updated) ?d2))" .
  have none: "ceiling_kept (cx_env cx) k' d d1" "ceiling_kept (cx_env cx) k' d d"
    using f(1) by (simp_all only: ceiling_kept_same)
  consider "snd (setBlocks cx org n d) = d" | "snd (setBlocks cx org n d) = d1" | "snd (setBlocks cx org n d) =
      snd (resumeAfterRaise cx org (ceilingOf (cx_env cx) sub) (ceilingOf (cx_env cx) ?updated) ?d2)"
  proof -
    have "snd (setBlocks cx org n d) \<in> {d, d1,
      snd (resumeAfterRaise cx org (ceilingOf (cx_env cx) sub) (ceilingOf (cx_env cx) ?updated) ?d2)}"
      unfolding setBlocks_def s Let_def prod.case by (simp only: split: if_split option.split prod.split) simp
    with that show thesis by (simp only: insert_iff empty_iff simp_thms) (elim disjE; assumption?)
  qed
  then show ?thesis using set none by cases (simp_all only:)
qed

lemma synced_org [simp]: "sub_organizationId (synced_row cx data e s) = sub_organizationId s"
  by (simp add: synced_row_def Let_def)

lemma sync_ceiling:
  assumes one: "one_sub d" and u: "unique_monitors d"
  shows "ceiling_kept (cx_env cx) k' d (snd (applySync cx org data held d))"
proof (cases "subscription_of org d")
  case None
  then show ?thesis
    unfolding applySync_def getSubscription_def None option.case Let_def
    by (intro ceiling_kept_same) (simp add: insert_subscription_def draw_def)
next
  case (Some existing)
  let ?mine = "\<lambda>s. sub_organizationId s = org \<and> (case held of None \<Rightarrow> True | Some h \<Rightarrow> heldBy h s)"
  let ?d1 = "d\<lparr>subscriptions := update_where ?mine (synced_row cx data existing) (subscriptions d)\<rparr>"
  have m: "monitors ?d1 = monitors d" by simp
  show ?thesis
  proof (cases "first_row (filter ?mine (subscriptions d))")
    case None
    with Some show ?thesis
      by (simp add: applySync_def getSubscription_def Let_def ceiling_kept_same)
  next
    case row: (Some row)
    note r = first_row_filter_in [OF row, THEN conjunct1] first_row_filter_in [OF row, THEN conjunct2]
    let ?updated = "synced_row cx data existing row"
    have "one_sub ?d1" using one by (simp add: one_sub_def map_update_where)
    moreover have "unique_monitors ?d1" using unique_monitors_same [OF m u] .
    moreover have "?updated \<in> set (subscriptions ?d1)" using updated_in [of row "subscriptions d" ?mine] r by simp
    then have "subscription_of org ?d1 = Some ?updated"
      using subscription_of_the [OF \<open>one_sub ?d1\<close>, of ?updated org] r(2) by simp
    ultimately have "ceiling_kept (cx_env cx) k' ?d1
        (snd (resumeAfterRaise cx org (ceilingOf (cx_env cx) existing) (ceilingOf (cx_env cx) ?updated) ?d1))"
      by (rule resume_ceiling)
    from ceiling_kept_from [OF m this] show ?thesis
      using Some row by (simp add: applySync_def getSubscription_def Let_def)
  qed
qed

lemma grace_ceiling:
  assumes "one_subscription d" and u: "unique_monitors d"
  shows "ceiling_kept env k' d (snd (runCapacityGrace env send now d))"
proof -
  have "activeMonitorCount k' (snd (runCapacityGrace env send now d)) \<le> activeMonitorCount k' d"
    using surjective_pairing u assms(1)
  proof (cases rule: grace_pass_org [where org = k' and env = env and send = send and now = now and d = d
        and r = "fst (runCapacityGrace env send now d)" and d' = "snd (runCapacityGrace env send now d)"])
    case kept
    then show ?thesis by (simp add: count_of_org)
  next
    case (paused sub c d1)
    have "activeMonitorCount k' (snd (runCapacityGrace env send now d)) = c"
      using pause_own_org(1) [OF paused(7) ceilingOf_nonneg [OF paused(4)] paused(5), where now = now] paused(9)
      by (simp add: count_of_org)
    with paused(5,8) show ?thesis by (simp add: count_of_org)
  qed
  then show ?thesis by (simp add: ceiling_kept_def)
qed

text \<open>
  C23: The ceiling is never passed: whatever is done to an organization's monitors or its subscription,
  by a member, by the billing provider's reports or by the grace period's pass, no organization ends
  with more active monitors than its ceiling pays for unless it had as many before.
\<close>

theorem ceiling_never_passed:
  assumes "unique_monitors d" "one_subscription d"
  shows "ceiling_kept (cx_env cx) org d (account_step cx req d)"
proof -
  have one: "one_sub d" using assms(2) by (simp add: one_sub_def one_subscription_def)
  show ?thesis
  proof (cases req)
    case (LandReductions t)
    then show ?thesis by (simp add: applyScheduledReductions_def Let_def ceiling_kept_same)
  qed (simp_all only: account_step.simps create_ceiling [OF one] update_ceiling [OF one assms(1)]
    toggle_ceiling [OF one assms(1)] delete_ceiling [OF one] blocks_ceiling [OF one assms(1)]
    sync_ceiling [OF one assms(1)] grace_ceiling [OF assms(2,1)])
qed

text \<open>A free organization with twenty active monitors and a paused one, which stays paused.\<close>

definition example_full_db :: db where
  "example_full_db = example_over_db\<lparr>subscriptions := [example_subscription ''free''],
     monitors := (hd example_fleet)\<lparr>m_active := False\<rparr> # tl example_fleet\<rparr>"

definition example_resume :: account_op where
  "example_resume = UpdateMonitor (m_id (hd example_fleet)) ''o'' (only_active True)"

lemma ceiling_never_passed_witness:
  "ceiling_kept (cx_env (example_ctx 0)) ''o'' example_full_db (account_step (example_ctx 0) example_resume example_full_db) \<and>
   activeMonitorCount ''o'' (account_step (example_ctx 0) example_resume example_full_db) = 20"
proof -
  have "unique_monitors example_full_db" "one_subscription example_full_db" by code_simp+
  moreover have "activeMonitorCount ''o'' (account_step (example_ctx 0) example_resume example_full_db) = 20" by code_simp
  ultimately show ?thesis using ceiling_never_passed by blast
qed

end
