(* ===== verification/Blocks.thy ===== *)
theory Blocks
  imports Monitors
begin

text \<open>
  What the capacity blocks of a subscription promise, and that every operation that touches a
  subscription keeps it: the CHECK constraints of the table and the eligibility of the plan.
\<close>

section \<open>Well-formed blocks\<close>

definition blocks_ok :: "subscription_row \<Rightarrow> bool" where
  "blocks_ok s \<longleftrightarrow> 0 \<le> sub_blocks s \<and> sub_blocks s \<le> MAX_MONITOR_BLOCKS \<and>
     (if sub_blocks s = 0 then True else block_eligible (sub_planId s)) \<and>
     (case sub_scheduledBlocks s of None \<Rightarrow> True | Some n \<Rightarrow> 0 \<le> n \<and> n < sub_blocks s)"

definition subscriptions_ok :: "db \<Rightarrow> bool" where
  "subscriptions_ok d \<longleftrightarrow> distinct (map sub_organizationId (subscriptions d)) \<and> list_all blocks_ok (subscriptions d)"

text \<open>What the constraints read.\<close>

definition core :: "subscription_row \<Rightarrow> id \<times> string \<times> int \<times> int option" where
  "core s = (sub_organizationId s, sub_planId s, sub_blocks s, sub_scheduledBlocks s)"

lemma core_reads:
  "map sub_organizationId t = map fst (map core t)"
  "list_all blocks_ok t \<longleftrightarrow> list_all (\<lambda>(k, p, b, n). 0 \<le> b \<and> b \<le> MAX_MONITOR_BLOCKS \<and>
     (if b = 0 then True else block_eligible p) \<and> (case n of None \<Rightarrow> True | Some n \<Rightarrow> 0 \<le> n \<and> n < b)) (map core t)"
  by (simp_all add: core_def blocks_ok_def list_all_iff)

lemma subscriptions_ok_core:
  "map core (subscriptions d') = map core (subscriptions d) \<Longrightarrow> subscriptions_ok d \<Longrightarrow> subscriptions_ok d'"
  by (simp only: subscriptions_ok_def core_reads)

lemma subscriptions_ok_update:
  assumes "subscriptions d' = update_where Q f (subscriptions d)" "subscriptions_ok d"
    and f: "\<And>s. s \<in> set (subscriptions d) \<Longrightarrow> Q s \<Longrightarrow> blocks_ok s \<Longrightarrow> sub_organizationId (f s) = sub_organizationId s \<and> blocks_ok (f s)"
  shows "subscriptions_ok d'"
proof -
  have "map sub_organizationId (update_where Q f t) = map sub_organizationId t \<and> list_all blocks_ok (update_where Q f t)"
    if "list_all blocks_ok t" "set t \<subseteq> set (subscriptions d)" for t
    using that by (induction t) (auto simp: f)
  then show ?thesis using assms(1,2) by (simp add: subscriptions_ok_def)
qed

lemma subscriptions_ok_same: "subscriptions d' = subscriptions d \<Longrightarrow> subscriptions_ok d \<Longrightarrow> subscriptions_ok d'"
  by (simp add: subscriptions_ok_def)

lemma update_core: "(\<And>s. core (f s) = core s) \<Longrightarrow> map core (update_where Q f t) = map core t"
  by (induction t) simp_all

section \<open>Operations that leave them alone\<close>

lemma clock_core [simp]:
  "map core (subscriptions (snd (clearClock org d))) = map core (subscriptions d)"
  "map core (subscriptions (start_clock now sub d)) = map core (subscriptions d)"
  "map core (subscriptions (record_notice now sub k d)) = map core (subscriptions d)"
  by (simp_all add: clearClock_def start_clock_def record_notice_def Let_def update_core core_def clock_stopped_def)

lemma clear_core [simp]: "map core (subscriptions (clearIfWithinCeiling env org d)) = map core (subscriptions d)"
  by (simp add: clearIfWithinCeiling_def split: option.split)

lemma resume_core [simp]: "map core (subscriptions (snd (resumeAfterRaise cx org b a d))) = map core (subscriptions d)"
  by (simp add: resumeAfterRaise_def Let_def)

lemma pause_subscriptions [simp]: "subscriptions (snd (pause_monitors now ms d)) = subscriptions d"
  by (simp add: pause_monitors_def Let_def)

lemma grace_over_core: "map core (subscriptions (snd (grace_over send now sub name a c rd))) = map core (subscriptions (snd rd))"
  by (cases rd) (simp add: grace_over_def Let_def split_beta split: option.split)

lemma grace_row_core: "map core (subscriptions (snd (grace_row env send now x rd))) = map core (subscriptions (snd rd))"
  by (cases x; cases rd) (simp add: grace_row_def Let_def split_beta grace_over_core split: option.split)

lemma grace_core: "map core (subscriptions (snd (runCapacityGrace env send now d))) = map core (subscriptions d)"
proof -
  have "map core (subscriptions (snd (fold (grace_row env send now) xs rd))) = map core (subscriptions (snd rd))" for xs rd
    by (induction xs arbitrary: rd) (simp_all add: grace_row_core)
  then show ?thesis by (simp add: runCapacityGrace_def)
qed

section \<open>Operations that start a row\<close>

lemma getOrCreate_ok:
  assumes "subscriptions_ok d"
  shows "subscriptions_ok (snd (getOrCreateSubscription cx org d))"
proof (cases "subscription_of org d")
  case (Some t)
  with assms show ?thesis by (simp add: getOrCreateSubscription_def getSubscription_def)
next
  case None
  then have "org \<notin> sub_organizationId ` set (subscriptions d)" by (auto simp: subscription_of_def filter_empty_conv)
  with assms None show ?thesis
    by (simp add: getOrCreateSubscription_def getSubscription_def Let_def insert_subscription_def subscriptions_ok_def
      new_subscription_def blocks_ok_def MAX_MONITOR_BLOCKS_def)
qed

lemma limits_ok: "subscriptions_ok d \<Longrightarrow> subscriptions_ok (snd (getEffectiveLimits cx org d))"
  by (simp add: getEffectiveLimits_def split_beta getOrCreate_ok)

lemma interval_ok: "subscriptions_ok d \<Longrightarrow> subscriptions_ok (snd (isCheckIntervalAllowed cx org n d))"
  by (simp add: isCheckIntervalAllowed_def split_beta limits_ok)

lemma slot_ok:
  assumes "subscriptions_ok d" "\<And>e. subscriptions (snd (slot e)) = subscriptions e"
  shows "subscriptions_ok (snd (takeMonitorSlot cx org slot d))"
proof -
  have slot: "subscriptions_ok (snd (slot e))" if "subscriptions_ok e" for e
    using subscriptions_ok_same [OF assms(2) that] .
  show ?thesis
    using assms(1) getOrCreate_ok [OF assms(1)] slot
    by (simp add: takeMonitorSlot_def Let_def split_beta)
qed

lemma create_ok: "subscriptions_ok d \<Longrightarrow> subscriptions_ok (snd (create_monitor cx org i d))"
proof -
  assume "subscriptions_ok d"
  then have "subscriptions_ok (draw (snd (isCheckIntervalAllowed cx org n d)))" for n
    using subscriptions_ok_same [OF _ interval_ok, of "draw (snd (isCheckIntervalAllowed cx org n d))" cx org n d]
    by (simp add: draw_def)
  moreover have "subscriptions (snd (insert_monitor cx k org i e)) = subscriptions e" for k e
    by (simp add: insert_monitor_def Let_def draw_def)
  ultimately have "subscriptions_ok (snd (takeMonitorSlot cx org (insert_monitor cx k org i) (draw (snd (isCheckIntervalAllowed cx org n d)))))" for k n
    by (rule slot_ok)
  with interval_ok [OF \<open>subscriptions_ok d\<close>] show ?thesis
    by (simp add: create_monitor_def Let_def split_beta)
qed

lemma update_ok: "subscriptions_ok d \<Longrightarrow> subscriptions_ok (snd (update_monitor cx k org i d))"
proof (cases "find_monitor k org d")
  case None
  assume "subscriptions_ok d"
  with None show ?thesis by (simp add: update_monitor_def)
next
  case (Some m)
  assume ok: "subscriptions_ok d"
  have wr: "subscriptions (snd (write_monitor cx k org i b c e)) = subscriptions e" for b c e
    by (simp add: write_monitor_def Let_def)
  define chk where "chk = (case mi_intervalSeconds i of None \<Rightarrow> (True, d) | Some s \<Rightarrow> isCheckIntervalAllowed cx org s d)"
  have one: "subscriptions_ok (snd chk)" using ok interval_ok by (simp add: chk_def split: option.split)
  then have written: "subscriptions_ok (snd (write_monitor cx k org i b c (snd chk)))" for b c
    using subscriptions_ok_same wr by blast
  then have "subscriptions_ok (clearIfWithinCeiling (cx_env cx) org (snd (write_monitor cx k org i b c (snd chk))))" for b c
    using subscriptions_ok_core clear_core by blast
  with one written slot_ok [OF one wr] Some show ?thesis
    by (simp add: update_monitor_def chk_def [symmetric] Let_def split_beta)
qed

section \<open>Operations on the blocks\<close>

lemma plan_key: "map_of PLANS k = Some p \<Longrightarrow> plan_id p = k"
  using plans_keyed map_of_SomeD [of PLANS k p] by (auto simp: list_all_iff)

lemma setBlocks_ok:
  assumes ok: "subscriptions_ok d"
  shows "subscriptions_ok (snd (setBlocks cx org n d))"
proof -
  obtain sub d1 where s: "getOrCreateSubscription cx org d = (sub, d1)" by fastforce
  note f = getOrCreate_frame [OF s]
  have ok1: "subscriptions_ok d1" using getOrCreate_ok [OF ok, of cx org] s by simp
  let ?d2 = "d1\<lparr>subscriptions := update_where (\<lambda>s. sub_organizationId s = org) (blocks_changed cx sub n) (subscriptions d1)\<rparr>"
  have the: "t = sub" if "t \<in> set (subscriptions d1)" "sub_organizationId t = org" for t
    using ok1 subscription_of_the [of d1 t org] that f(2) by (simp add: subscriptions_ok_def one_sub_def)
  have ok2: "subscriptions_ok ?d2"
    if "\<not> n < 0" "\<not> MAX_MONITOR_BLOCKS < n" "on_some (\<lambda>p. block_eligible (plan_id p)) (map_of PLANS (sub_planId sub))"
  proof (rule subscriptions_ok_update [OF _ ok1])
    have "block_eligible (sub_planId sub)" using that(3) plan_key by (auto simp: on_some_iff)
    with that(1,2) show "sub_organizationId (blocks_changed cx sub n t) = sub_organizationId t \<and> blocks_ok (blocks_changed cx sub n t)"
      if "t \<in> set (subscriptions d1)" "sub_organizationId t = org" "blocks_ok t" for t
      using the [OF that(1,2)] that(3) by (auto simp: blocks_changed_def blocks_ok_def)
  qed simp
  have ok3: "subscriptions_ok (snd (resumeAfterRaise cx org a b ?d2))" if "subscriptions_ok ?d2" for a b
    by (rule subscriptions_ok_core [OF resume_core that])
  show ?thesis
  proof (cases "n < 0 \<or> MAX_MONITOR_BLOCKS < n \<or> \<not> on_some (\<lambda>p. block_eligible (plan_id p)) (map_of PLANS (sub_planId sub))")
    case True
    then show ?thesis using ok ok1 by (auto simp: setBlocks_def s Let_def)
  next
    case False
    with ok1 ok3 [OF ok2] show ?thesis
      by (simp add: setBlocks_def s Let_def del: on_some_iff split: option.split prod.split)
  qed
qed

lemma sync_ok:
  assumes ok: "subscriptions_ok d"
  shows "subscriptions_ok (snd (applySync cx org data held d))"
proof (cases "subscription_of org d")
  case None
  then have "org \<notin> sub_organizationId ` set (subscriptions d)" by (auto simp: subscription_of_def filter_empty_conv)
  with ok None show ?thesis
    by (simp add: applySync_def getSubscription_def Let_def insert_subscription_def subscriptions_ok_def
      new_subscription_def blocks_ok_def MAX_MONITOR_BLOCKS_def)
next
  case (Some existing)
  let ?mine = "\<lambda>s. sub_organizationId s = org \<and> (case held of None \<Rightarrow> True | Some h \<Rightarrow> heldBy h s)"
  let ?d1 = "d\<lparr>subscriptions := update_where ?mine (synced_row cx data existing) (subscriptions d)\<rparr>"
  have the: "t = existing" if "t \<in> set (subscriptions d)" "?mine t" for t
    using ok subscription_of_the [of d t org] that Some by (simp add: subscriptions_ok_def one_sub_def)
  have "subscriptions_ok ?d1"
  proof (rule subscriptions_ok_update [OF _ ok])
    show "sub_organizationId (synced_row cx data existing t) = sub_organizationId t \<and> blocks_ok (synced_row cx data existing t)"
      if "t \<in> set (subscriptions d)" "?mine t" "blocks_ok t" for t
      using the [OF that(1,2)] that(3)
      by (auto simp: synced_row_def blocks_ok_def Let_def coalesce_def split: option.splits if_splits)
  qed simp
  moreover from this have "subscriptions_ok (snd (resumeAfterRaise cx org a b ?d1))" for a b
    by (rule subscriptions_ok_core [OF resume_core])
  ultimately show ?thesis
    using Some by (simp add: applySync_def getSubscription_def Let_def split: option.split)
qed

lemma reductions_ok:
  assumes ok: "subscriptions_ok d"
  shows "subscriptions_ok (snd (applyScheduledReductions cx t d))"
proof (rule subscriptions_ok_update [OF _ ok])
  show "subscriptions (snd (applyScheduledReductions cx t d)) = update_where (reduction_due (coalesce t (cx_now cx)))
      (\<lambda>s. s\<lparr>sub_blocks := coalesce (sub_scheduledBlocks s) (sub_blocks s),
        sub_scheduledBlocks := None, sub_updatedAt := cx_now cx\<rparr>) (subscriptions d)"
    by (simp add: applyScheduledReductions_def Let_def)
qed (auto simp: blocks_ok_def coalesce_def split: option.splits if_splits)

text \<open>
  C24: The blocks of a subscription are always well formed: through any sequence of monitor changes,
  purchases, reductions, billing webhooks and grace passes, every organization has at most one
  subscription, with 0 to 40 blocks, none of them on a plan that may have none, and a scheduled
  reduction is a lower count; so no CHECK constraint of the table ever refuses a write.
\<close>

theorem blocks_well_formed:
  assumes "subscriptions_ok d"
  shows "subscriptions_ok (fold (\<lambda>(cx, req). account_step cx req) steps d)"
proof (rule fold_invariant [where I = subscriptions_ok])
  fix x d assume "subscriptions_ok d"
  then have "subscriptions_ok (account_step cx req d)" for cx req
  proof (cases req)
    case (ToggleMonitor k org)
    then show ?thesis using \<open>subscriptions_ok d\<close> update_ok by (simp add: toggleActive_def split: option.split)
  next
    case (DeleteMonitor k org)
    have "map core (subscriptions (snd (delete_monitor cx k org d))) = map core (subscriptions d)"
      by (simp add: delete_monitor_def cascade_monitor_def Let_def)
    with DeleteMonitor subscriptions_ok_core [OF _ \<open>subscriptions_ok d\<close>] show ?thesis by simp
  next
    case (GracePass send)
    then show ?thesis using subscriptions_ok_core [OF grace_core \<open>subscriptions_ok d\<close>] by simp
  qed (simp_all add: create_ok update_ok setBlocks_ok reductions_ok sync_ok)
  then show "subscriptions_ok ((\<lambda>(cx, req). account_step cx req) x d)" by (simp add: split_beta)
qed (use assms in simp_all)

text \<open>Thirty blocks, twenty of them given up at the end of the period, and a renewal after it.\<close>

definition example_block_steps :: "(ctx \<times> account_op) list" where
  "example_block_steps = [(example_ctx 0, BuyBlocks ''o'' 30), (example_ctx 1, BuyBlocks ''o'' 10),
     (example_ctx 2, LandReductions (Some 1000))]"

definition example_paying_db :: db where
  "example_paying_db = empty_db\<lparr>subscriptions := [(example_subscription ''uppity'')\<lparr>sub_currentPeriodEnd := Some 1000\<rparr>]\<rparr>"

lemma blocks_well_formed_witness:
  "subscriptions_ok (fold (\<lambda>(cx, req). account_step cx req) example_block_steps example_paying_db) \<and>
   map sub_blocks (subscriptions (fold (\<lambda>(cx, req). account_step cx req) example_block_steps example_paying_db)) = [10]"
proof -
  have "subscriptions_ok example_paying_db" by code_simp
  moreover have "map sub_blocks (subscriptions (fold (\<lambda>(cx, req). account_step cx req) example_block_steps example_paying_db)) = [10]"
    by code_simp
  ultimately show ?thesis using blocks_well_formed by blast
qed

end
