(* ===== verification/DomainNames.thy ===== *)
theory DomainNames
  imports Schema Config
begin

text \<open>
  The canonical form of a custom domain, \<open>lib/status-page.ts\<close>.

  The host a URL parses to is the platform's, a parameter.  Characters are the first 256 of Unicode.
\<close>

section \<open>The canonical form of a domain\<close>

(* src/src/lib/status-page.ts:1-2 DOMAIN_CHALLENGE_LABEL *)
definition DOMAIN_CHALLENGE_LABEL :: string where
  "DOMAIN_CHALLENGE_LABEL = ''_uppity-challenge''"

(* src/src/lib/status-page.ts:10-27 RESERVED_TLDS *)
definition RESERVED_TLDS :: "string list" where
  "RESERVED_TLDS = [''alt'', ''arpa'', ''corp'', ''example'', ''home'', ''internal'', ''intranet'',
     ''invalid'', ''lan'', ''local'', ''localhost'', ''onion'', ''private'', ''svc'', ''test'']"

definition lower_letter :: "char \<Rightarrow> bool" where
  "lower_letter c \<longleftrightarrow> 97 \<le> (of_char c :: nat) \<and> of_char c \<le> (122 :: nat)"

definition label_char :: "char \<Rightarrow> bool" where
  "label_char c \<longleftrightarrow> lower_letter c \<or> is_digit c \<or> c = CHR ''-''"

text \<open>Letters, marks and digits of Latin-1, dots and hyphens.\<close>

definition name_char :: "char \<Rightarrow> bool" where
  "name_char c \<longleftrightarrow> label_char c \<or> c = CHR ''.'' \<or> (let n = of_char c :: nat in
     65 \<le> n \<and> n \<le> 90 \<or> n \<in> {170, 178, 179, 181, 185, 186, 188, 189, 190} \<or>
     192 \<le> n \<and> n \<notin> {215, 247})"

(* src/src/lib/status-page.ts:29-29 LABEL *)
definition LABEL :: "string \<Rightarrow> bool" where
  "LABEL s \<longleftrightarrow> list_all label_char s \<and> s \<noteq> [] \<and> length s \<le> 63 \<and> hd s \<noteq> CHR ''-'' \<and> last s \<noteq> CHR ''-''"

(* src/src/lib/status-page.ts:30-30 TLD *)
definition TLD :: "string \<Rightarrow> bool" where
  "TLD s \<longleftrightarrow> (list_all lower_letter s \<and> 2 \<le> length s \<and> length s \<le> 63) \<or>
     (take 4 s = ''xn--'' \<and> (let t = drop 4 s in list_all label_char t \<and> 1 \<le> length t \<and> length t \<le> 59))"

text \<open>A text split at every occurrence of a character, as the source's \<open>split\<close>.\<close>

fun split_at :: "char \<Rightarrow> string \<Rightarrow> string list" where
  "split_at c [] = [[]]"
| "split_at c (x # s) = (if x = c then [] # split_at c s else case split_at c s of
     [] \<Rightarrow> [[x]] | w # ws \<Rightarrow> (x # w) # ws)"

definition strip_dot :: "string \<Rightarrow> string" where
  "strip_dot s = (if s \<noteq> [] \<and> last s = CHR ''.'' then butlast s else s)"

type_synonym url_host = "string \<Rightarrow> string option"

(* src/src/lib/status-page.ts:32-52 normalizeDomain *)
definition normalizeDomain :: "url_host \<Rightarrow> string \<Rightarrow> string option" where
  "normalizeDomain host input = (let name = trim input in
     if list_ex (\<lambda>c. \<not> name_char c) name then None
     else let hostname = coalesce (host (''https://'' @ name)) [];
              domain = strip_dot hostname;
              labels = split_at CHR ''.'' domain;
              tld = last labels in
       if length domain \<le> 253 \<and> 2 \<le> length labels \<and> list_all LABEL labels \<and> TLD tld \<and>
          tld \<notin> set RESERVED_TLDS then Some domain else None)"

text \<open>A port at the end: a colon and digits.\<close>

definition strip_port :: "string \<Rightarrow> string" where
  "strip_port s = (let digits = takeWhile is_digit (rev s); rest = dropWhile is_digit (rev s) in
     if digits \<noteq> [] \<and> rest \<noteq> [] \<and> hd rest = CHR '':'' then rev (tl rest) else s)"

(* src/src/lib/status-page.ts:54-57 domainOfHost *)
definition domainOfHost :: "url_host \<Rightarrow> string \<Rightarrow> string option" where
  "domainOfHost host h = normalizeDomain host (strip_port h)"

(* src/src/lib/status-page.ts:59-62 getStatusPageUrl *)
definition getStatusPageUrl :: "statusPage_row \<Rightarrow> string" where
  "getStatusPageUrl p = (case p_customDomain p of
      Some domain \<Rightarrow> if domain = [] then ''/status/'' @ p_slug p else ''https://'' @ domain
    | None \<Rightarrow> ''/status/'' @ p_slug p)"

section \<open>Canonical names stay as they are\<close>

lemma split_at_chars: "x \<in> set s \<Longrightarrow> x = c \<or> (\<exists>w\<in>set (split_at c s). x \<in> set w)"
  by (induction s) (auto split: list.split)

lemma split_at_nonempty: "split_at c s \<noteq> []"
  by (induction s) (auto split: list.split)

lemma split_at_two: "c \<in> set s \<Longrightarrow> 2 \<le> length (split_at c s)"
proof (induction s)
  case (Cons x s)
  then show ?case using split_at_nonempty [of c s] by (cases "split_at c s") auto
qed simp

lemma split_at_last: "s \<noteq> [] \<Longrightarrow> last s = c \<Longrightarrow> last (split_at c s) = []"
proof (induction s)
  case (Cons x s)
  show ?case
  proof (cases "s = []")
    case True
    with Cons.prems show ?thesis by simp
  next
    case False
    with Cons have ih: "last (split_at c s) = []" "c \<in> set s" by auto
    obtain w ws where w: "split_at c s = w # ws" using split_at_nonempty [of c s] by (cases "split_at c s") auto
    with split_at_two [OF ih(2)] have "ws \<noteq> []" by auto
    with ih(1) w show ?thesis by simp
  qed
qed simp

definition domain_form :: "string \<Rightarrow> bool" where
  "domain_form x \<longleftrightarrow> length x \<le> 253 \<and> 2 \<le> length (split_at CHR ''.'' x) \<and> list_all LABEL (split_at CHR ''.'' x) \<and>
     TLD (last (split_at CHR ''.'' x)) \<and> last (split_at CHR ''.'' x) \<notin> set RESERVED_TLDS"

lemma normalized_form: "normalizeDomain host s = Some x \<Longrightarrow> domain_form x"
  by (auto simp: normalizeDomain_def domain_form_def Let_def split: if_splits)

lemma domain_form_chars:
  assumes "domain_form x" "c \<in> set x"
  shows "label_char c \<or> c = CHR ''.''"
  using split_at_chars [OF assms(2), of "CHR ''.''"] assms(1)
  by (auto simp: domain_form_def list_all_iff LABEL_def)

lemma domain_form_last:
  assumes "domain_form x"
  shows "x \<noteq> []" "last x \<noteq> CHR ''.''"
proof -
  show "x \<noteq> []" using assms by (auto simp: domain_form_def)
  have "split_at CHR ''.'' x \<noteq> []" using assms by (auto simp: domain_form_def)
  then have "LABEL (last (split_at CHR ''.'' x))" using assms by (simp add: domain_form_def list_all_iff)
  then show "last x \<noteq> CHR ''.''" using split_at_last [OF \<open>x \<noteq> []\<close>] by (auto simp: LABEL_def)
qed

lemma label_char_codes: "label_char c \<or> c = CHR ''.'' \<Longrightarrow> \<not> is_space c \<and> c \<noteq> CHR '':'' \<and> name_char c"
  by (auto simp: label_char_def lower_letter_def is_digit_def is_space_def name_char_def)

lemma dropWhile_none: "(\<And>c. c \<in> set t \<Longrightarrow> \<not> P c) \<Longrightarrow> dropWhile P t = t"
  by (cases t) auto

lemma trim_solid: "(\<And>c. c \<in> set s \<Longrightarrow> \<not> is_space c) \<Longrightarrow> trim s = s"
  using dropWhile_none [of s is_space] dropWhile_none [of "rev s" is_space] by (simp add: trim_def)

lemma strip_port_none: "CHR '':'' \<notin> set s \<Longrightarrow> strip_port s = s"
  unfolding strip_port_def Let_def using hd_in_set set_dropWhileD by (smt (verit) set_rev)

lemma strip_port_some:
  assumes "list_all is_digit p" "p \<noteq> []"
  shows "strip_port (s @ CHR '':'' # p) = s"
proof -
  have "\<not> is_digit CHR '':''" by (simp add: is_digit_def)
  moreover have p: "is_digit c" if "c \<in> set (rev p)" for c using assms(1) that by (simp add: list_all_iff)
  note takeWhile_append2 [of "rev p" is_digit "CHR '':'' # rev s", OF p] dropWhile_append2 [of "rev p" is_digit "CHR '':'' # rev s", OF p]
  ultimately show ?thesis using assms(2)
    by (simp add: strip_port_def Let_def)
qed

text \<open>
  The canonical form of a domain is canonical: a value that went through normalization is its
  own normal form, and so is a Host header that carries it, with or without a port; the platform's
  URL parser is relied on only to leave a well-formed lower-case name alone.
\<close>

theorem normal_domain_fixed:
  assumes "\<And>y. domain_form y \<Longrightarrow> host (''https://'' @ y) = Some y" "normalizeDomain host s = Some x"
    and "list_all is_digit port" "port \<noteq> []"
  shows "normalizeDomain host x = Some x \<and> domainOfHost host x = Some x \<and>
    domainOfHost host (x @ '':'' @ port) = Some x"
proof -
  have f: "domain_form x" using normalized_form [OF assms(2)] .
  have chars: "\<not> is_space c \<and> c \<noteq> CHR '':'' \<and> name_char c" if "c \<in> set x" for c
    using domain_form_chars [OF f that] by (rule label_char_codes)
  have "trim x = x" using chars by (intro trim_solid) blast
  moreover have "\<not> list_ex (\<lambda>c. \<not> name_char c) x" using chars by (auto simp: list_ex_iff)
  moreover have "strip_dot x = x" using domain_form_last [OF f] by (simp add: strip_dot_def)
  ultimately have same: "normalizeDomain host x = Some x"
    using f assms(1) [OF f] by (simp add: normalizeDomain_def Let_def domain_form_def)
  moreover have "strip_port x = x" using chars by (intro strip_port_none) blast
  moreover have "strip_port (x @ '':'' @ port) = x" using strip_port_some [OF assms(3,4)] by simp
  ultimately show ?thesis by (simp add: domainOfHost_def)
qed

text \<open>A host that lower-cases, as the platform's does for the letters of ASCII.\<close>

definition lower_host :: url_host where
  "lower_host u = Some (lower (drop 8 u))"

lemma lower_label_char: "label_char c \<or> c = CHR ''.'' \<Longrightarrow> lower_char c = c"
  by (auto simp: label_char_def lower_letter_def is_digit_def lower_char_def)

lemma normal_domain_fixed_witness:
  "normalizeDomain lower_host '' Status.Acme.COM '' = Some ''status.acme.com'' \<and>
   domainOfHost lower_host ''status.acme.com:8443'' = Some ''status.acme.com''"
proof -
  have n: "normalizeDomain lower_host '' Status.Acme.COM '' = Some ''status.acme.com''" by code_simp
  have h: "lower_host (''https://'' @ y) = Some y" if "domain_form y" for y
    using domain_form_chars [OF that] lower_label_char by (simp add: lower_host_def lower_def map_idI)
  have "list_all is_digit ''8443''" by code_simp
  from normal_domain_fixed [OF h n this] n show ?thesis by simp
qed

end
