(* ===== verification/Domains.thy ===== *)
theory Domains
  imports Mail DomainNames
begin

text \<open>
  Custom domains of status pages, \<open>lib/server/services/status-page-domain.service.ts\<close>: claims,
  verification by DNS, and the rechecks that take a page off a domain that moved away.

  DNS is a parameter: for a name it answers with records or fails with an error code.
\<close>

section \<open>What DNS says\<close>

(* src/src/lib/server/services/status-page-domain.service.ts:19-20 RECHECK_BATCH *)
definition RECHECK_BATCH :: nat where
  "RECHECK_BATCH = 100"

(* src/src/lib/server/services/status-page-domain.service.ts:21-21 RECHECK_AFTER_MS *)
definition RECHECK_AFTER_MS :: int where
  "RECHECK_AFTER_MS = 60 * 60000"

(* src/src/lib/server/services/status-page-domain.service.ts:22-23 MAX_FAILED_CHECKS *)
definition MAX_FAILED_CHECKS :: int where
  "MAX_FAILED_CHECKS = 3"

(* src/src/lib/server/services/status-page-domain.service.ts:25-26 NOTICE_ROLES *)
definition LAPSE_NOTICE_ROLES :: "string list" where
  "LAPSE_NOTICE_ROLES = [''owner'', ''admin'']"

(* src/src/lib/server/services/status-page-domain.service.ts:33-33 VerifyResult *)
datatype verify_result = Verified | Missing | NoVerdict | Taken

text \<open>An answer is the records, or the code of an error.\<close>

record dns_lookup =
  resolveCname :: "string \<Rightarrow> string + string list"
  resolveTxt :: "string \<Rightarrow> string + string list list"

(* src/src/lib/server/services/status-page-domain.service.ts:37-45 domainTarget *)
definition domainTarget :: "url_host \<Rightarrow> env \<Rightarrow> string option" where
  "domainTarget host env = normalizeDomain host (case env ''UPPITY_STATUS_PAGE_CNAME_TARGET'' of
      None \<Rightarrow> if isSelfHosted env then coalesce (host (appUrl env)) [] else []
    | Some t \<Rightarrow> if t \<noteq> [] then t else if isSelfHosted env then coalesce (host (appUrl env)) [] else [])"

(* src/src/lib/server/services/status-page-domain.service.ts:47-47 canonical *)
definition canonical :: "string \<Rightarrow> string" where
  "canonical name = strip_dot (lower name)"

(* src/src/lib/server/services/status-page-domain.service.ts:49-57 records *)
definition dns_records :: "string + 'a list \<Rightarrow> 'a list option" where
  "dns_records answer = (case answer of Inr rs \<Rightarrow> Some rs
     | Inl code \<Rightarrow> if code = ''ENODATA'' \<or> code = ''ENOTFOUND'' then Some [] else None)"

(* src/src/lib/server/services/status-page-domain.service.ts:59-81 checkDns *)
definition checkDns :: "url_host \<Rightarrow> string \<Rightarrow> string \<Rightarrow> string \<Rightarrow> dns_lookup \<Rightarrow> verify_result" where
  "checkDns host domain token target dns = (
     if normalizeDomain host domain \<noteq> Some domain then Missing
     else let cnames = dns_records (resolveCname dns domain);
              txts = dns_records (resolveTxt dns (DOMAIN_CHALLENGE_LABEL @ ''.'' @ domain));
              routed = on_some (list_ex (\<lambda>name. canonical name = target)) cnames;
              owned = on_some (list_ex (\<lambda>chunks. concat chunks = token)) txts in
       if routed \<and> owned then Verified
       else if cnames = None \<or> txts = None then NoVerdict else Missing)"

section \<open>Claims\<close>

(* src/src/lib/server/services/status-page-domain.service.ts:83-89 findClaim *)
definition findClaim :: "id \<Rightarrow> db \<Rightarrow> statusPageDomainClaim_row option" where
  "findClaim statusPageId d = first_row (filter (\<lambda>c. dc_statusPageId c = statusPageId) (statusPageDomainClaims d))"

(* src/src/lib/server/services/status-page-domain.service.ts:91-98 heldElsewhere *)
definition heldElsewhere :: "id \<Rightarrow> string \<Rightarrow> db \<Rightarrow> bool" where
  "heldElsewhere statusPageId domain d = on_some (\<lambda>p. p_id p \<noteq> statusPageId)
     (first_row (filter (\<lambda>p. p_customDomain p = Some domain) (statusPages d)))"

definition serve :: "(statusPage_row \<Rightarrow> bool) \<Rightarrow> string option \<Rightarrow> db \<Rightarrow> db" where
  "serve which domain d = d\<lparr>statusPages :=
     update_where which (\<lambda>p. p\<lparr>p_customDomain := domain\<rparr>) (statusPages d)\<rparr>"

definition claim_fields :: "string \<Rightarrow> string \<Rightarrow> statusPageDomainClaim_row \<Rightarrow> statusPageDomainClaim_row" where
  "claim_fields domain token c = c\<lparr>dc_domain := domain, dc_token := token, dc_verifiedTarget := None,
     dc_failedChecks := 0, dc_checkedAt := None, dc_lapsedAt := None\<rparr>"

text \<open>The row written, or \<open>None\<close> for a domain another page serves.\<close>

(* src/src/lib/server/services/status-page-domain.service.ts:100-128 claimDomain *)
definition claimDomain :: "ctx \<Rightarrow> id \<Rightarrow> string \<Rightarrow> db \<Rightarrow> statusPageDomainClaim_row option \<times> db" where
  "claimDomain cx statusPageId domain d = (
     if heldElsewhere statusPageId domain d then (None, d)
     else let token = cx_nanoid cx (drawn d);
              d1 = serve (\<lambda>p. p_id p = statusPageId) None (draw d);
              mine = (\<lambda>c. dc_statusPageId c = statusPageId);
              started = claim_fields domain token \<lparr>dc_statusPageId = statusPageId, dc_domain = domain, dc_token = token,
                dc_verifiedTarget = None, dc_failedChecks = 0, dc_lapsedAt = None, dc_checkedAt = None,
                dc_createdAt = cx_now cx\<rparr>;
              d2 = d1\<lparr>statusPageDomainClaims :=
                (if list_ex mine (statusPageDomainClaims d1)
                 then update_where mine (claim_fields domain token) (statusPageDomainClaims d1)
                 else statusPageDomainClaims d1 @ [started])\<rparr> in
       (findClaim statusPageId d2, d2))"

(* src/src/lib/server/services/status-page-domain.service.ts:130-137 releaseDomain *)
definition releaseDomain :: "id \<Rightarrow> db \<Rightarrow> db" where
  "releaseDomain statusPageId d = (serve (\<lambda>p. p_id p = statusPageId) None d)\<lparr>
     statusPageDomainClaims := delete_where (\<lambda>c. dc_statusPageId c = statusPageId) (statusPageDomainClaims d)\<rparr>"

definition own_claim :: "statusPageDomainClaim_row \<Rightarrow> statusPageDomainClaim_row \<Rightarrow> bool" where
  "own_claim claim c \<longleftrightarrow> dc_statusPageId c = dc_statusPageId claim \<and> dc_token c = dc_token claim"

text \<open>
  The transaction that activates a claim.  A newer claim that replaced this one leaves it nothing to
  update, and the unique constraint on the domain rolls it back.
\<close>

(* src/src/lib/server/services/status-page-domain.service.ts:169-187 verifyClaim: transaction *)
definition activate :: "ctx \<Rightarrow> statusPageDomainClaim_row \<Rightarrow> string \<Rightarrow> db \<Rightarrow> verify_result \<times> db" where
  "activate cx claim target d = (
     if \<not> list_ex (own_claim claim) (statusPageDomainClaims d) then (NoVerdict, d)
     else if list_ex (\<lambda>p. p_customDomain p = Some (dc_domain claim) \<and> p_id p \<noteq> dc_statusPageId claim) (statusPages d)
     then (Taken, d)
     else (Verified, (serve (\<lambda>p. p_id p = dc_statusPageId claim) (Some (dc_domain claim)) d)\<lparr>
       statusPageDomainClaims := update_where (own_claim claim)
         (\<lambda>c. c\<lparr>dc_checkedAt := Some (cx_now cx), dc_verifiedTarget := Some target, dc_failedChecks := 0,
           dc_lapsedAt := None\<rparr>) (statusPageDomainClaims d)\<rparr>))"

(* src/src/lib/server/services/status-page-domain.service.ts:142-188 verifyClaim *)
definition verifyClaim ::
  "ctx \<Rightarrow> url_host \<Rightarrow> dns_lookup \<Rightarrow> statusPageDomainClaim_row \<Rightarrow> db \<Rightarrow> verify_result \<times> db" where
  "verifyClaim cx host dns claim d = (case domainTarget host (cx_env cx) of
      None \<Rightarrow> (NoVerdict, d)
    | Some target \<Rightarrow>
        let verdict = checkDns host (dc_domain claim) (dc_token claim) target dns in
        if verdict \<noteq> Verified then (verdict, d\<lparr>statusPageDomainClaims := update_where (own_claim claim)
             (\<lambda>c. c\<lparr>dc_checkedAt := Some (cx_now cx)\<rparr>) (statusPageDomainClaims d)\<rparr>)
        else if heldElsewhere (dc_statusPageId claim) (dc_domain claim) d then (Taken, d)
        else activate cx claim target d)"

section \<open>Rechecks\<close>

(* src/src/lib/server/services/status-page-domain.service.ts:190-195 recheckDue *)
definition recheckDue :: "time \<Rightarrow> statusPageDomainClaim_row \<Rightarrow> bool" where
  "recheckDue now c \<longleftrightarrow> (case dc_checkedAt c of None \<Rightarrow> True | Some t \<Rightarrow> t < now - RECHECK_AFTER_MS)"

(* src/src/lib/server/services/status-page-domain.service.ts:210-214 recheck: failedChecks *)
fun failed_after :: "verify_result \<Rightarrow> int \<Rightarrow> int" where
  "failed_after Verified n = 0"
| "failed_after Missing n = n + 1"
| "failed_after _ n = n"

definition lapse_audit :: "ctx \<Rightarrow> string \<Rightarrow> statusPage_row \<Rightarrow> db \<Rightarrow> auditLog_row" where
  "lapse_audit cx domain page d = \<lparr>au_id = cx_nanoid cx (drawn d), au_actorId = None, au_actorEmail = ''system'',
     au_action = ''status_page.domain_lapse'', au_targetType = Some ''status_page'', au_targetId = Some (p_id page),
     au_targetLabel = Some domain, au_metadata = Some (JObj [(''organizationId'', JStr (p_organizationId page))]),
     au_ipAddress = None, au_userAgent = None, au_createdAt = cx_now cx\<rparr>"

definition counted_claim :: "ctx \<Rightarrow> verify_result \<Rightarrow> statusPageDomainClaim_row \<Rightarrow> statusPageDomainClaim_row" where
  "counted_claim cx verdict c =
     c\<lparr>dc_checkedAt := Some (cx_now cx), dc_failedChecks := failed_after verdict (dc_failedChecks c)\<rparr>"

definition lapsed_claim :: "ctx \<Rightarrow> statusPageDomainClaim_row \<Rightarrow> statusPageDomainClaim_row" where
  "lapsed_claim cx c = c\<lparr>dc_lapsedAt := Some (cx_now cx)\<rparr>"

definition serves :: "statusPageDomainClaim_row \<Rightarrow> statusPage_row \<Rightarrow> bool" where
  "serves claim p \<longleftrightarrow> p_id p = dc_statusPageId claim \<and> p_customDomain p = Some (dc_domain claim)"

definition due_claim :: "time \<Rightarrow> statusPageDomainClaim_row \<Rightarrow> statusPageDomainClaim_row \<Rightarrow> bool" where
  "due_claim now claim c \<longleftrightarrow> own_claim claim c \<and> recheckDue now c"

text \<open>The write after the answer of DNS, and the page it took off its domain.\<close>

(* src/src/lib/server/services/status-page-domain.service.ts:216-246 recheck: transaction *)
definition recheck_write ::
  "ctx \<Rightarrow> time \<Rightarrow> statusPageDomainClaim_row \<Rightarrow> verify_result \<Rightarrow> db \<Rightarrow> statusPage_row option \<times> db" where
  "recheck_write cx now claim verdict d = (
     let d1 = d\<lparr>statusPageDomainClaims :=
           update_where (due_claim now claim) (counted_claim cx verdict) (statusPageDomainClaims d)\<rparr> in
     case first_row (filter (due_claim now claim) (statusPageDomainClaims d)) of
       None \<Rightarrow> (None, d1)
     | Some c \<Rightarrow>
         if dc_failedChecks (counted_claim cx verdict c) < MAX_FAILED_CHECKS then (None, d1)
         else case first_row (filter (serves claim) (statusPages d1)) of
             None \<Rightarrow> (None, d1)
           | Some page \<Rightarrow> let d2 = serve (serves claim) None d1;
                 d3 = d2\<lparr>statusPageDomainClaims :=
                   update_where (own_claim claim) (lapsed_claim cx) (statusPageDomainClaims d2)\<rparr> in
               (Some (page\<lparr>p_customDomain := None\<rparr>),
                (draw d3)\<lparr>auditLogs := auditLogs d3 @ [lapse_audit cx (dc_domain claim) page d3]\<rparr>))"

(* src/src/lib/server/services/status-page-domain.service.ts:197-247 recheck *)
definition recheck ::
  "ctx \<Rightarrow> url_host \<Rightarrow> dns_lookup \<Rightarrow> time \<Rightarrow> statusPageDomainClaim_row \<Rightarrow> db \<Rightarrow> statusPage_row option \<times> db" where
  "recheck cx host dns now claim d = recheck_write cx now claim
     (checkDns host (dc_domain claim) (dc_token claim) (coalesce (dc_verifiedTarget claim) []) dns) d"

(* src/src/lib/server/services/status-page-domain.service.ts:249-256 ownersAndAdmins *)
definition ownersAndAdmins :: "id \<Rightarrow> db \<Rightarrow> string list" where
  "ownersAndAdmins org d = map (\<lambda>(_, u). u_email u) (inner_join (\<lambda>m u. u_id u = mem_userId m)
     (filter (\<lambda>m. mem_organizationId m = org \<and> mem_role m \<in> set LAPSE_NOTICE_ROLES) (members d)) (users d))"

text \<open>Whether the notice was delivered.\<close>

type_synonym lapse_notice = "string list \<Rightarrow> string \<Rightarrow> statusPage_row \<Rightarrow> bool"

definition live_claims :: "time \<Rightarrow> db \<Rightarrow> statusPageDomainClaim_row list" where
  "live_claims now d = take RECHECK_BATCH (order_asc (\<lambda>c. case dc_checkedAt c of None \<Rightarrow> (1 :: nat, 0) | Some t \<Rightarrow> (0, t))
     (map fst (inner_join (\<lambda>c p. p_id p = dc_statusPageId c \<and> p_customDomain p = Some (dc_domain c))
       (filter (\<lambda>c. dc_verifiedTarget c \<noteq> None \<and> recheckDue now c) (statusPageDomainClaims d)) (statusPages d))))"

(* src/src/lib/server/services/status-page-domain.service.ts:261-301 recheckDomains *)
definition recheckDomains ::
  "ctx \<Rightarrow> url_host \<Rightarrow> dns_lookup \<Rightarrow> lapse_notice \<Rightarrow> db \<Rightarrow> (nat \<times> nat \<times> nat) \<times> db" where
  "recheckDomains cx host dns send d = (let claims = live_claims (cx_now cx) d in
     fold (\<lambda>claim ((checked, lapsed, unnotified), d).
       case recheck cx host dns (cx_now cx) claim d of
         (None, d1) \<Rightarrow> ((checked, lapsed, unnotified), d1)
       | (Some page, d1) \<Rightarrow>
           ((checked, Suc lapsed,
             if send (ownersAndAdmins (p_organizationId page) d1) (dc_domain claim) page then unnotified else Suc unnotified), d1))
       claims ((length claims, 0, 0), d))"

section \<open>Requests and sweeps side by side\<close>

text \<open>
  Requests and the sweep read a claim, wait for DNS, and write later, so the claims read stay around:
  \<open>seen\<close> has every claim anyone ever read.  \<open>proofs\<close> records what DNS answered when a claim was
  activated, which nothing in the program reads.
\<close>

definition ckey :: "statusPageDomainClaim_row \<Rightarrow> id \<times> string \<times> string" where
  "ckey c = (dc_statusPageId c, dc_token c, dc_domain c)"

record domain_sys =
  store :: db
  seen :: "statusPageDomainClaim_row list"
  proofs :: "((id \<times> string \<times> string) \<times> string \<times> dns_lookup) list"

definition cascade_page :: "id \<Rightarrow> db \<Rightarrow> db" where
  "cascade_page k d = d\<lparr>statusPages := delete_where (\<lambda>p. p_id p = k) (statusPages d),
     statusPageDomainClaims := delete_where (\<lambda>c. dc_statusPageId c = k) (statusPageDomainClaims d)\<rparr>"

inductive domain_step :: "url_host \<Rightarrow> (nat \<Rightarrow> id) \<Rightarrow> domain_sys \<Rightarrow> domain_sys \<Rightarrow> bool"
  for host :: url_host and nano :: "nat \<Rightarrow> id" where
  Claim: "cx_nanoid cx = nano \<Longrightarrow>
    domain_step host nano s (s\<lparr>store := snd (claimDomain cx k x (store s))\<rparr>)"
| Release: "domain_step host nano s (s\<lparr>store := releaseDomain k (store s)\<rparr>)"
| Read: "c \<in> set (statusPageDomainClaims (store s)) \<Longrightarrow> domain_step host nano s (s\<lparr>seen := c # seen s\<rparr>)"
| Miss: "c \<in> set (seen s) \<Longrightarrow> verifyClaim cx host dns c (store s) = (r, d) \<Longrightarrow> r \<noteq> Verified \<Longrightarrow>
    domain_step host nano s (s\<lparr>store := d\<rparr>)"
| Activate: "c \<in> set (seen s) \<Longrightarrow> domainTarget host (cx_env cx) = Some target \<Longrightarrow>
    checkDns host (dc_domain c) (dc_token c) target dns = Verified \<Longrightarrow> activate cx c target (store s) = (r, d) \<Longrightarrow>
    domain_step host nano s (s\<lparr>store := d, proofs := (ckey c, target, dns) # proofs s\<rparr>)"
| Recheck: "c \<in> set (seen s) \<Longrightarrow> cx_nanoid cx = nano \<Longrightarrow>
    domain_step host nano s (s\<lparr>store := snd (recheck cx host dns now c (store s))\<rparr>)"
| NewPage: "p_customDomain p = None \<Longrightarrow> p_id p \<notin> p_id ` set (statusPages (store s)) \<Longrightarrow>
    domain_step host nano s (s\<lparr>store := (store s)\<lparr>statusPages := statusPages (store s) @ [p]\<rparr>\<rparr>)"
| EditPage: "(\<And>p. p_id (f p) = p_id p) \<Longrightarrow> (\<And>p. p_customDomain (f p) = p_customDomain p) \<Longrightarrow>
    domain_step host nano s (s\<lparr>store := (store s)\<lparr>statusPages := update_where Q f (statusPages (store s))\<rparr>\<rparr>)"
| DropPage: "domain_step host nano s (s\<lparr>store := cascade_page k (store s)\<rparr>)"

inductive domain_reaches :: "url_host \<Rightarrow> (nat \<Rightarrow> id) \<Rightarrow> domain_sys \<Rightarrow> bool"
  for host :: url_host and nano :: "nat \<Rightarrow> id" where
  Start: "statusPages d = [] \<Longrightarrow> statusPageDomainClaims d = [] \<Longrightarrow>
    domain_reaches host nano \<lparr>store = d, seen = [], proofs = []\<rparr>"
| Step: "domain_reaches host nano s \<Longrightarrow> domain_step host nano s s' \<Longrightarrow> domain_reaches host nano s'"

text \<open>The keys of every claim written or read: a token is issued once, for one domain of one page.\<close>

definition known :: "domain_sys \<Rightarrow> (id \<times> string \<times> string) set" where
  "known s = ckey ` set (statusPageDomainClaims (store s)) \<union> ckey ` set (seen s)"

definition tokens_ok :: "(nat \<Rightarrow> id) \<Rightarrow> domain_sys \<Rightarrow> bool" where
  "tokens_ok nano s \<longleftrightarrow> (\<forall>(k, t, x)\<in>known s. (\<exists>n<drawn (store s). t = nano n) \<and>
     (\<forall>y. (k, t, y) \<in> known s \<longrightarrow> y = x))"

text \<open>A claim that backs the page: verified, with the answer that verified it.\<close>

definition backs :: "url_host \<Rightarrow> domain_sys \<Rightarrow> id \<Rightarrow> string \<Rightarrow> statusPageDomainClaim_row \<Rightarrow> bool" where
  "backs host s k x c \<longleftrightarrow> dc_statusPageId c = k \<and> dc_domain c = x \<and> dc_verifiedTarget c \<noteq> None \<and>
     list_ex (\<lambda>(key, target, dns). key = (k, dc_token c, x) \<and> checkDns host x (dc_token c) target dns = Verified) (proofs s)"

definition served_ok :: "url_host \<Rightarrow> domain_sys \<Rightarrow> bool" where
  "served_ok host s \<longleftrightarrow> (\<forall>p\<in>set (statusPages (store s)). \<forall>x. p_customDomain p = Some x \<longrightarrow>
     (\<exists>c\<in>set (statusPageDomainClaims (store s)). backs host s (p_id p) x c))"

definition one_server :: "db \<Rightarrow> bool" where
  "one_server d \<longleftrightarrow> (\<forall>p\<in>set (statusPages d). \<forall>q\<in>set (statusPages d).
     p_customDomain p \<noteq> None \<longrightarrow> p_customDomain p = p_customDomain q \<longrightarrow> p_id p = p_id q)"

section \<open>What a step may change\<close>

text \<open>A page keeps its domain or loses it, and a claim keeps its key and its verification.\<close>

definition served_less :: "db \<Rightarrow> db \<Rightarrow> bool" where
  "served_less d d' \<longleftrightarrow> (\<forall>p'\<in>set (statusPages d'). p_customDomain p' \<noteq> None \<longrightarrow>
     (\<exists>p\<in>set (statusPages d). p_id p = p_id p' \<and> p_customDomain p = p_customDomain p'))"

definition claims_kept :: "db \<Rightarrow> db \<Rightarrow> bool" where
  "claims_kept d d' \<longleftrightarrow> ckey ` set (statusPageDomainClaims d') \<subseteq> ckey ` set (statusPageDomainClaims d) \<and>
     (\<forall>p\<in>set (statusPages d'). p_customDomain p \<noteq> None \<longrightarrow> (\<forall>c\<in>set (statusPageDomainClaims d).
       dc_statusPageId c = p_id p \<longrightarrow> dc_verifiedTarget c \<noteq> None \<longrightarrow>
       (\<exists>c'\<in>set (statusPageDomainClaims d'). ckey c' = ckey c \<and> dc_verifiedTarget c' \<noteq> None)))"

lemma backs_key: "ckey c' = ckey c \<Longrightarrow> dc_verifiedTarget c' \<noteq> None \<Longrightarrow> backs host s k x c \<Longrightarrow> backs host s k x c'"
  by (auto simp: backs_def ckey_def)

lemma one_server_less: "served_less d d' \<Longrightarrow> one_server d \<Longrightarrow> one_server d'"
  unfolding one_server_def served_less_def by metis

lemma served_ok_less:
  assumes "served_ok host s" "served_less (store s) d'" "claims_kept (store s) d'"
  shows "served_ok host (s\<lparr>store := d'\<rparr>)"
  unfolding served_ok_def
proof (intro ballI allI impI)
  fix p' x assume p': "p' \<in> set (statusPages (store (s\<lparr>store := d'\<rparr>)))" "p_customDomain p' = Some x"
  with assms(2) obtain p where p: "p \<in> set (statusPages (store s))" "p_id p = p_id p'" "p_customDomain p = Some x"
    by (force simp: served_less_def)
  with assms(1) obtain c where c: "c \<in> set (statusPageDomainClaims (store s))" "backs host s (p_id p') x c"
    unfolding served_ok_def by metis
  then have "dc_statusPageId c = p_id p'" "dc_verifiedTarget c \<noteq> None" by (simp_all add: backs_def)
  with assms(3) p' c(1) obtain c' where c': "c' \<in> set (statusPageDomainClaims d')" "ckey c' = ckey c" "dc_verifiedTarget c' \<noteq> None"
    unfolding claims_kept_def by (metis domain_sys.select_convs(1) domain_sys.surjective domain_sys.update_convs(1) option.discI)
  from backs_key [OF c'(2,3) c(2)] have "backs host (s\<lparr>store := d'\<rparr>) (p_id p') x c'" by (simp add: backs_def)
  with c'(1) show "\<exists>c\<in>set (statusPageDomainClaims (store (s\<lparr>store := d'\<rparr>))). backs host (s\<lparr>store := d'\<rparr>) (p_id p') x c"
    by auto
qed

lemma tokens_less:
  assumes "tokens_ok nano s" "known s' \<subseteq> known s" "drawn (store s) \<le> drawn (store s')"
  shows "tokens_ok nano s'"
  unfolding tokens_ok_def
proof (intro ballI, clarify)
  fix k t x assume k: "(k, t, x) \<in> known s'"
  with assms(1,2) obtain n where "n < drawn (store s)" "t = nano n" and f: "\<forall>y. (k, t, y) \<in> known s \<longrightarrow> y = x"
    unfolding tokens_ok_def by fast
  then show "(\<exists>n<drawn (store s'). t = nano n) \<and> (\<forall>y. (k, t, y) \<in> known s' \<longrightarrow> y = x)"
    using assms(2) order_less_le_trans [OF _ assms(3)] by blast
qed

lemma known_less: "claims_kept (store s) d' \<Longrightarrow> known (s\<lparr>store := d'\<rparr>) \<subseteq> known s"
  by (auto simp: claims_kept_def known_def)

lemma serve_simps [simp]:
  "statusPageDomainClaims (serve Q v d) = statusPageDomainClaims d" "drawn (serve Q v d) = drawn d"
  "auditLogs (serve Q v d) = auditLogs d"
  by (simp_all add: serve_def)

lemma serve_none: "statusPages d' = statusPages (serve Q None d) \<Longrightarrow> served_less d d'"
  by (auto simp: served_less_def serve_def in_update_where_iff split: if_splits)

lemma serve_none_in:
  assumes "p \<in> set (statusPages (serve (\<lambda>p. p_id p = k) None d))" "p_customDomain p \<noteq> None"
  shows "p_id p \<noteq> k"
proof -
  from assms(1) have "p \<in> (\<lambda>q. if p_id q = k then q\<lparr>p_customDomain := None\<rparr> else q) ` set (statusPages d)"
    by (simp add: serve_def set_update_where)
  then obtain q where "p = (if p_id q = k then q\<lparr>p_customDomain := None\<rparr> else q)" by (rule imageE)
  with assms(2) show ?thesis by (auto split: if_splits)
qed

lemma serve_same: "statusPages d' = statusPages d \<Longrightarrow> served_less d d'"
  by (auto simp: served_less_def)

lemma ckey_parts: "ckey c = ckey c' \<Longrightarrow> dc_statusPageId c = dc_statusPageId c'"
  by (simp add: ckey_def)

lemma claims_kept_update:
  assumes "statusPageDomainClaims d' = update_where Q f (statusPageDomainClaims d)"
    and "\<And>c. ckey (f c) = ckey c" "\<And>c. dc_verifiedTarget c \<noteq> None \<Longrightarrow> dc_verifiedTarget (f c) \<noteq> None"
  shows "claims_kept d d'"
proof -
  have "ckey ` set (statusPageDomainClaims d') \<subseteq> ckey ` set (statusPageDomainClaims d)"
    unfolding assms(1) set_update_where by (auto simp: assms(2))
  moreover have "\<exists>c'\<in>set (statusPageDomainClaims d'). ckey c' = ckey c \<and> dc_verifiedTarget c' \<noteq> None"
    if "c \<in> set (statusPageDomainClaims d)" "dc_verifiedTarget c \<noteq> None" for c
    using that assms(2,3) unfolding assms(1) set_update_where
    by (intro bexI [of _ "if Q c then f c else c"]) auto
  ultimately show ?thesis unfolding claims_kept_def by blast
qed

lemma claims_kept_same: "statusPageDomainClaims d' = statusPageDomainClaims d \<Longrightarrow> claims_kept d d'"
  by (auto simp: claims_kept_def)

lemma claims_kept_delete:
  assumes "statusPageDomainClaims d' = delete_where (\<lambda>c. dc_statusPageId c = k) (statusPageDomainClaims d)"
    and "\<And>p. p \<in> set (statusPages d') \<Longrightarrow> p_customDomain p \<noteq> None \<Longrightarrow> p_id p \<noteq> k"
  shows "claims_kept d d'"
  unfolding claims_kept_def
proof (intro conjI ballI impI)
  show "ckey ` set (statusPageDomainClaims d') \<subseteq> ckey ` set (statusPageDomainClaims d)"
    by (auto simp: assms(1) delete_where_def)
next
  fix p c assume "p \<in> set (statusPages d')" "p_customDomain p \<noteq> None" "c \<in> set (statusPageDomainClaims d)"
    "dc_statusPageId c = p_id p" "dc_verifiedTarget c \<noteq> None"
  with assms(2) show "\<exists>c'\<in>set (statusPageDomainClaims d'). ckey c' = ckey c \<and> dc_verifiedTarget c' \<noteq> None"
    by (intro bexI [of _ c]) (simp_all add: assms(1) delete_where_def)
qed

text \<open>Everything but the start of a claim and its activation is of this kind.\<close>

definition quiet :: "db \<Rightarrow> db \<Rightarrow> bool" where
  "quiet d d' \<longleftrightarrow> served_less d d' \<and> claims_kept d d' \<and> drawn d \<le> drawn d'"

lemma release_quiet: "quiet d (releaseDomain k d)"
proof -
  have "served_less d (releaseDomain k d)" by (rule serve_none) (simp add: releaseDomain_def)
  moreover have "claims_kept d (releaseDomain k d)"
  proof (rule claims_kept_delete)
    fix p assume "p \<in> set (statusPages (releaseDomain k d))" "p_customDomain p \<noteq> None"
    then show "p_id p \<noteq> k" using serve_none_in [of p k d] by (simp add: releaseDomain_def)
  qed (simp add: releaseDomain_def)
  ultimately show ?thesis by (simp add: quiet_def releaseDomain_def)
qed

lemma cascade_quiet: "quiet d (cascade_page k d)"
proof -
  have "served_less d (cascade_page k d)" by (auto simp: served_less_def cascade_page_def)
  moreover have "claims_kept d (cascade_page k d)"
    by (rule claims_kept_delete) (auto simp: cascade_page_def)
  ultimately show ?thesis by (simp add: quiet_def cascade_page_def)
qed

lemma verify_quiet:
  assumes "verifyClaim cx host dns c d = (r, d')" "r \<noteq> Verified"
  shows "quiet d d'"
proof -
  have same: "quiet d d" by (simp add: quiet_def serve_same claims_kept_same)
  have checked: "quiet d (d\<lparr>statusPageDomainClaims := update_where (own_claim c)
      (\<lambda>c. c\<lparr>dc_checkedAt := Some (cx_now cx)\<rparr>) (statusPageDomainClaims d)\<rparr>)"
    unfolding quiet_def
    by (intro conjI serve_same claims_kept_update [where Q = "own_claim c" and f = "\<lambda>c. c\<lparr>dc_checkedAt := Some (cx_now cx)\<rparr>"])
      (simp_all add: ckey_def)
  have act: "d' = d" if "activate cx c target d = (r, d')" for target
    using that assms(2) by (auto simp: activate_def split: if_splits)
  show ?thesis
  proof (cases "domainTarget host (cx_env cx)")
    case None
    with assms(1) same show ?thesis by (simp add: verifyClaim_def)
  next
    case (Some target)
    with assms same checked act [of target] show ?thesis
      unfolding verifyClaim_def Let_def Some option.case by (simp only: split: if_split_asm) simp_all
  qed
qed

definition verdict_of :: "url_host \<Rightarrow> statusPageDomainClaim_row \<Rightarrow> dns_lookup \<Rightarrow> verify_result" where
  "verdict_of host c dns = checkDns host (dc_domain c) (dc_token c) (coalesce (dc_verifiedTarget c) []) dns"

lemma recheck_cases:
  fixes cx host dns now c d
  defines "d' \<equiv> snd (recheck cx host dns now c d)" and "v \<equiv> verdict_of host c dns"
  obtains (counted) "d' = d\<lparr>statusPageDomainClaims := update_where (due_claim now c) (counted_claim cx v) (statusPageDomainClaims d)\<rparr>"
      "\<And>row. first_row (filter (due_claim now c) (statusPageDomainClaims d)) = Some row \<Longrightarrow>
        dc_failedChecks (counted_claim cx v row) < MAX_FAILED_CHECKS \<or> filter (serves c) (statusPages d) = []"
  | (lapsed) row where "first_row (filter (due_claim now c) (statusPageDomainClaims d)) = Some row"
      "MAX_FAILED_CHECKS \<le> dc_failedChecks (counted_claim cx v row)"
      "statusPages d' = statusPages (serve (serves c) None d)" "drawn d' = Suc (drawn d)"
      "statusPageDomainClaims d' = update_where (own_claim c) (lapsed_claim cx)
        (update_where (due_claim now c) (counted_claim cx v) (statusPageDomainClaims d))"
proof (cases "first_row (filter (due_claim now c) (statusPageDomainClaims d))")
  case None
  show ?thesis
    using None by (intro counted) (simp_all add: d'_def v_def recheck_def recheck_write_def verdict_of_def)
next
  case row: (Some row)
  show ?thesis
  proof (cases "dc_failedChecks (counted_claim cx v row) < MAX_FAILED_CHECKS \<or> filter (serves c) (statusPages d) = []")
    case True
    show ?thesis
    proof (rule counted)
      show "d' = d\<lparr>statusPageDomainClaims := update_where (due_claim now c) (counted_claim cx v) (statusPageDomainClaims d)\<rparr>"
        using row True by (auto simp: d'_def v_def recheck_def recheck_write_def verdict_of_def Let_def)
    qed (use row True in simp)
  next
    case False
    then obtain page where page: "first_row (filter (serves c) (statusPages d)) = Some page"
      by (cases "first_row (filter (serves c) (statusPages d))") simp_all
    have "d' = (let d1 = d\<lparr>statusPageDomainClaims := update_where (due_claim now c) (counted_claim cx v) (statusPageDomainClaims d)\<rparr>;
         d2 = serve (serves c) None d1;
         d3 = d2\<lparr>statusPageDomainClaims := update_where (own_claim c) (lapsed_claim cx) (statusPageDomainClaims d2)\<rparr> in
         (draw d3)\<lparr>auditLogs := auditLogs d3 @ [lapse_audit cx (dc_domain c) page d3]\<rparr>)"
      using False row page by (simp add: d'_def v_def recheck_def recheck_write_def verdict_of_def Let_def)
    with row False show ?thesis by (intro lapsed [of row]) (simp_all add: Let_def serve_def draw_def)
  qed
qed

lemma claim_writes [simp]:
  "ckey (counted_claim cx v x) = ckey x" "dc_verifiedTarget (counted_claim cx v x) = dc_verifiedTarget x"
  "dc_statusPageId (counted_claim cx v x) = dc_statusPageId x"
  "dc_failedChecks (counted_claim cx v x) = failed_after v (dc_failedChecks x)"
  "ckey (lapsed_claim cx x) = ckey x" "dc_verifiedTarget (lapsed_claim cx x) = dc_verifiedTarget x"
  "dc_statusPageId (lapsed_claim cx x) = dc_statusPageId x" "dc_failedChecks (lapsed_claim cx x) = dc_failedChecks x"
  by (simp_all add: counted_claim_def lapsed_claim_def ckey_def)

lemma served_less_trans: "served_less d e \<Longrightarrow> served_less e f \<Longrightarrow> served_less d f"
  unfolding served_less_def by metis

lemma recheck_quiet: "quiet d (snd (recheck cx host dns now c d))"
proof (cases rule: recheck_cases [of cx host dns now c d])
  case counted
  then show ?thesis
    using claims_kept_update [of "snd (recheck cx host dns now c d)" "due_claim now c" "counted_claim cx (verdict_of host c dns)" d]
      serve_same [of "snd (recheck cx host dns now c d)" d] by (simp add: quiet_def)
next
  case (lapsed row)
  let ?d' = "snd (recheck cx host dns now c d)" and ?count = "counted_claim cx (verdict_of host c dns)"
  let ?f = "\<lambda>x. let y = (if due_claim now c x then ?count x else x) in if own_claim c y then lapsed_claim cx y else y"
  have "statusPageDomainClaims ?d' = update_where (\<lambda>_. True) ?f (statusPageDomainClaims d)"
    using lapsed(5) by (simp add: update_where_def Let_def)
  then have "claims_kept d ?d'" by (rule claims_kept_update) (simp_all add: Let_def)
  with lapsed(3,4) serve_none [of ?d' "serves c" d] show ?thesis by (simp add: quiet_def)
qed

section \<open>A domain is served only on proof\<close>

definition domains_ok :: "url_host \<Rightarrow> (nat \<Rightarrow> id) \<Rightarrow> domain_sys \<Rightarrow> bool" where
  "domains_ok host nano s \<longleftrightarrow> tokens_ok nano s \<and> served_ok host s \<and> one_server (store s)"

lemma quiet_ok:
  assumes "domains_ok host nano s" "quiet (store s) d'"
  shows "domains_ok host nano (s\<lparr>store := d'\<rparr>)"
proof -
  from assms(2) have q: "served_less (store s) d'" "claims_kept (store s) d'" "drawn (store s) \<le> drawn d'"
    by (simp_all add: quiet_def)
  then have "tokens_ok nano (s\<lparr>store := d'\<rparr>)"
    using tokens_less [OF _ known_less [OF q(2)]] assms(1) by (simp add: domains_ok_def)
  then show ?thesis using assms(1) served_ok_less [OF _ q(1,2)] one_server_less [OF q(1)]
    by (simp add: domains_ok_def)
qed

text \<open>A new claim takes its page off its domain and brings a token of its own.\<close>

lemma claim_shape:
  assumes "\<not> heldElsewhere k x d" and d': "d' = snd (claimDomain cx k x d)"
  shows "served_less d d'" "drawn d' = Suc (drawn d)"
    and "p \<in> set (statusPages d') \<Longrightarrow> p_customDomain p \<noteq> None \<Longrightarrow> p_id p \<noteq> k"
    and "ckey ` set (statusPageDomainClaims d') \<subseteq>
      insert (k, cx_nanoid cx (drawn d), x) (ckey ` set (statusPageDomainClaims d))"
    and "c \<in> set (statusPageDomainClaims d) \<Longrightarrow> dc_statusPageId c \<noteq> k \<Longrightarrow> c \<in> set (statusPageDomainClaims d')"
proof -
  let ?t = "cx_nanoid cx (drawn d)" and ?cs = "statusPageDomainClaims d" and ?mine = "\<lambda>c. dc_statusPageId c = k"
  have pages: "statusPages d' = statusPages (serve (\<lambda>p. p_id p = k) None d)"
    and drawn: "drawn d' = Suc (drawn d)"
    using assms(1) by (simp_all add: d' claimDomain_def Let_def serve_def draw_def)
  define started where "started = claim_fields x ?t \<lparr>dc_statusPageId = k, dc_domain = x, dc_token = ?t,
    dc_verifiedTarget = None, dc_failedChecks = 0, dc_lapsedAt = None, dc_checkedAt = None, dc_createdAt = cx_now cx\<rparr>"
  have st: "ckey started = (k, ?t, x)" by (simp add: started_def ckey_def claim_fields_def)
  have claims: "statusPageDomainClaims d' = (if list_ex ?mine ?cs then update_where ?mine (claim_fields x ?t) ?cs else ?cs @ [started])"
    using assms(1) by (cases "list_ex ?mine ?cs") (simp_all add: d' claimDomain_def Let_def draw_def started_def)
  show "served_less d d'" by (rule serve_none [OF pages])
  show "drawn d' = Suc (drawn d)" by (rule drawn)
  show "p_id p \<noteq> k" if "p \<in> set (statusPages d')" "p_customDomain p \<noteq> None"
    using that(1) unfolding pages by (rule serve_none_in [OF _ that(2)])
  show "ckey ` set (statusPageDomainClaims d') \<subseteq> insert (k, ?t, x) (ckey ` set ?cs)"
  proof -
    have "ckey (if ?mine q then claim_fields x ?t q else q) \<in> insert (k, ?t, x) (ckey ` set ?cs)" if "q \<in> set ?cs" for q
      using that by (simp add: ckey_def claim_fields_def)
    then have "ckey ` (\<lambda>q. if ?mine q then claim_fields x ?t q else q) ` set ?cs \<subseteq> insert (k, ?t, x) (ckey ` set ?cs)"
      by (intro subsetI) (elim imageE; simp only:)
    then show ?thesis using st by (cases "list_ex ?mine ?cs") (simp_all only: claims set_update_where if_True if_False
      set_append list.set image_Un image_insert image_empty, blast+)
  qed
  show "c \<in> set (statusPageDomainClaims d')" if "c \<in> set ?cs" "dc_statusPageId c \<noteq> k"
    using that by (auto simp: claims set_update_where image_iff intro!: bexI [of _ c])
qed

lemma claim_ok:
  assumes ok: "domains_ok host nano s" and nano: "cx_nanoid cx = nano" "inj nano"
  shows "domains_ok host nano (s\<lparr>store := snd (claimDomain cx k x (store s))\<rparr>)"
proof (cases "heldElsewhere k x (store s)")
  case True
  with ok show ?thesis by (simp add: claimDomain_def)
next
  case False
  let ?d = "store s" and ?d' = "snd (claimDomain cx k x (store s))"
  note sh = claim_shape [OF False refl, where cx = cx]
  let ?new = "(k, nano (drawn ?d), x)"
  have known: "known (s\<lparr>store := ?d'\<rparr>) \<subseteq> insert ?new (known s)"
    using sh(4) nano(1) by (auto simp: known_def)
  have old: "(\<exists>n<drawn ?d. t = nano n) \<and> (\<forall>y. (k', t, y) \<in> known s \<longrightarrow> y = x')" if "(k', t, x') \<in> known s" for k' t x'
    using ok that unfolding domains_ok_def tokens_ok_def by fast
  have fresh: "(k', nano (drawn ?d), x') \<notin> known s" for k' x'
    using old [of k' "nano (drawn ?d)" x'] injD [OF nano(2)] by blast
  have "tokens_ok nano (s\<lparr>store := ?d'\<rparr>)"
    unfolding tokens_ok_def
  proof (intro ballI, clarify, intro conjI allI impI)
    fix k' t x' assume a: "(k', t, x') \<in> known (s\<lparr>store := ?d'\<rparr>)"
    with known old [of k' t x'] show "\<exists>n<drawn (store (s\<lparr>store := ?d'\<rparr>)). t = nano n"
      by (auto simp: sh(2) intro: less_SucI)
    fix y assume "(k', t, y) \<in> known (s\<lparr>store := ?d'\<rparr>)"
    from subsetD [OF known this] have "(k', t, y) \<in> insert ?new (known s)" .
    moreover from subsetD [OF known a] have "(k', t, x') \<in> insert ?new (known s)" .
    moreover have "y = x'" if "(k', t, y) \<in> known s" "(k', t, x') \<in> known s" using old [OF that(2)] that(1) by blast
    ultimately show "y = x'" using fresh by (metis insertE prod.inject)
  qed
  moreover have "served_ok host (s\<lparr>store := ?d'\<rparr>)"
    unfolding served_ok_def
  proof (intro ballI allI impI)
    fix p' x' assume p': "p' \<in> set (statusPages (store (s\<lparr>store := ?d'\<rparr>)))" "p_customDomain p' = Some x'"
    with sh(1) obtain p where p: "p \<in> set (statusPages ?d)" "p_id p = p_id p'" "p_customDomain p = Some x'"
      by (force simp: served_less_def)
    with ok obtain c where c: "c \<in> set (statusPageDomainClaims ?d)" "backs host s (p_id p') x' c"
      unfolding domains_ok_def served_ok_def by metis
    moreover have "dc_statusPageId c \<noteq> k" using sh(3) [of p'] p' c(2) by (simp add: backs_def)
    ultimately have "c \<in> set (statusPageDomainClaims ?d')" by (intro sh(5))
    with c(2) show "\<exists>c\<in>set (statusPageDomainClaims (store (s\<lparr>store := ?d'\<rparr>))). backs host (s\<lparr>store := ?d'\<rparr>) (p_id p') x' c"
      by (auto simp: backs_def)
  qed
  ultimately show ?thesis using ok one_server_less [OF sh(1)] by (simp add: domains_ok_def)
qed

lemma activate_ok:
  assumes ok: "domains_ok host nano s" and c: "c \<in> set (seen s)"
    and dns: "checkDns host (dc_domain c) (dc_token c) target dns = Verified"
    and a: "activate cx c target (store s) = (r, d)"
  shows "domains_ok host nano (s\<lparr>store := d, proofs := (ckey c, target, dns) # proofs s\<rparr>)"
proof -
  let ?k = "dc_statusPageId c" and ?x = "dc_domain c" and ?d = "store s"
  let ?s1 = "s\<lparr>proofs := (ckey c, target, dns) # proofs s\<rparr>"
  have more: "backs host ?s1 k x q" if "backs host s k x q" for k x q using that by (simp add: backs_def)
  have "served_ok host ?s1" using ok more unfolding domains_ok_def served_ok_def by simp blast
  then have ok1: "domains_ok host nano ?s1" using ok by (simp add: domains_ok_def tokens_ok_def known_def)
  show ?thesis
  proof (cases "r = Verified")
    case False
    with a have "d = ?d" by (auto simp: activate_def split: if_splits)
    with ok1 show ?thesis by simp
  next
    case True
    define set_claim where "set_claim = (\<lambda>c :: statusPageDomainClaim_row. c\<lparr>dc_checkedAt := Some (cx_now cx),
      dc_verifiedTarget := Some target, dc_failedChecks := 0, dc_lapsedAt := None\<rparr>)"
    from True a have ex: "list_ex (own_claim c) (statusPageDomainClaims ?d)"
      and free: "\<not> list_ex (\<lambda>p. p_customDomain p = Some ?x \<and> p_id p \<noteq> ?k) (statusPages ?d)"
      and d: "d = (serve (\<lambda>p. p_id p = ?k) (Some ?x) ?d)\<lparr>statusPageDomainClaims :=
        update_where (own_claim c) set_claim (statusPageDomainClaims ?d)\<rparr>"
      by (auto simp: activate_def set_claim_def split: if_splits)
    have kept: "claims_kept ?d d"
      by (rule claims_kept_update [where Q = "own_claim c" and f = set_claim]) (simp_all add: d set_claim_def ckey_def)
    have dr: "drawn d = drawn ?d" by (simp add: d)
    have tok: "tokens_ok nano (?s1\<lparr>store := d\<rparr>)"
      using tokens_less [OF _ known_less [of ?s1 d]] kept ok1 dr by (simp add: domains_ok_def)
    obtain c0 where c0: "c0 \<in> set (statusPageDomainClaims ?d)" "own_claim c c0" using ex by (auto simp: list_ex_iff)
    have "dc_domain c0 = ?x"
    proof -
      have "ckey c \<in> known s" "ckey c0 \<in> known s" using c c0(1) by (auto simp: known_def)
      with ok c0(2) show ?thesis unfolding domains_ok_def tokens_ok_def own_claim_def ckey_def by fastforce
    qed
    with c0 have new: "backs host (?s1\<lparr>store := d\<rparr>) ?k ?x (set_claim c0)"
      using dns by (simp add: backs_def set_claim_def own_claim_def ckey_def)
    have new_in: "set_claim c0 \<in> set (statusPageDomainClaims d)"
      using c0 by (auto simp: d set_update_where image_iff intro!: bexI [of _ c0])
    have pages: "p_id p = ?k \<and> p_customDomain p = Some ?x \<or> p_id p \<noteq> ?k \<and> p \<in> set (statusPages ?d)"
      if "p \<in> set (statusPages d)" for p
      using that by (auto simp: d serve_def set_update_where split: if_splits)
    have "served_ok host (?s1\<lparr>store := d\<rparr>)"
      unfolding served_ok_def
    proof (intro ballI allI impI)
      fix p y assume p: "p \<in> set (statusPages (store (?s1\<lparr>store := d\<rparr>)))" "p_customDomain p = Some y"
      show "\<exists>c\<in>set (statusPageDomainClaims (store (?s1\<lparr>store := d\<rparr>))). backs host (?s1\<lparr>store := d\<rparr>) (p_id p) y c"
      proof (cases "p_id p = ?k")
        case True
        with pages [of p] p new new_in show ?thesis by auto
      next
        case False
        with pages [of p] p have "p \<in> set (statusPages ?d)" by simp
        with ok1 p(2) obtain q where q: "q \<in> set (statusPageDomainClaims ?d)" "backs host ?s1 (p_id p) y q"
          unfolding domains_ok_def served_ok_def by auto
        then have "q \<in> set (statusPageDomainClaims d)"
          using False by (auto simp: d set_update_where image_iff own_claim_def backs_def intro!: bexI [of _ q])
        with q(2) show ?thesis by (auto simp: backs_def)
      qed
    qed
    moreover have "one_server d"
      unfolding one_server_def
    proof (intro ballI impI)
      fix p q assume pq: "p \<in> set (statusPages d)" "q \<in> set (statusPages d)" "p_customDomain p \<noteq> None"
        "p_customDomain p = p_customDomain q"
      have alone: "p_id y = ?k" if "y \<in> set (statusPages ?d)" "p_customDomain y = Some ?x" for y
        using free that by (auto simp: list_ex_iff)
      show "p_id p = p_id q"
        using pages [OF pq(1)] pages [OF pq(2)] pq(3,4) alone ok unfolding domains_ok_def one_server_def by metis
    qed
    moreover have "s\<lparr>store := d, proofs := (ckey c, target, dns) # proofs s\<rparr> = ?s1\<lparr>store := d\<rparr>" by simp
    ultimately show ?thesis using tok by (simp only: domains_ok_def) simp
  qed
qed

lemma page_quiet:
  "p_customDomain p = None \<Longrightarrow> quiet d (d\<lparr>statusPages := statusPages d @ [p]\<rparr>)"
  "(\<And>p. p_id (f p) = p_id p) \<Longrightarrow> (\<And>p. p_customDomain (f p) = p_customDomain p) \<Longrightarrow>
    quiet d (d\<lparr>statusPages := update_where Q f (statusPages d)\<rparr>)"
  by (auto simp: quiet_def served_less_def claims_kept_same set_update_where)

lemma domain_step_ok:
  assumes "domain_step host nano s s'" "inj nano" "domains_ok host nano s"
  shows "domains_ok host nano s'"
  using assms
proof cases
  case (Read c)
  then have "known s' \<subseteq> known s" by (auto simp: known_def)
  with Read assms(3) tokens_less [of nano s s'] show ?thesis
    by (auto simp: domains_ok_def served_ok_def backs_def)
qed (simp_all add: claim_ok activate_ok quiet_ok release_quiet cascade_quiet verify_quiet recheck_quiet page_quiet)

lemma reached_ok:
  assumes "domain_reaches host nano s" "inj nano"
  shows "domains_ok host nano s"
  using assms(1)
proof induction
  case (Start d)
  then show ?case by (simp add: domains_ok_def tokens_ok_def known_def served_ok_def one_server_def)
next
  case (Step s s')
  from domain_step_ok [OF Step.hyps(2) assms(2) Step.IH] show ?case .
qed

text \<open>
  C25: Nobody serves a status page on a domain they do not control: whatever requests and sweeps run
  side by side, a page that serves on a domain has a claim on it whose token, issued for this page
  alone, DNS showed under the domain together with a CNAME to the target, and no two pages serve on
  the same domain.
\<close>

theorem domain_served_on_proof:
  assumes "domain_reaches host nano s" "inj nano" "p \<in> set (statusPages (store s))" "p_customDomain p = Some x"
  shows "list_ex (backs host s (p_id p) x) (statusPageDomainClaims (store s)) \<and>
    list_all (\<lambda>q. p_customDomain q = Some x \<longrightarrow> p_id q = p_id p) (statusPages (store s))"
proof -
  from reached_ok [OF assms(1,2)]
  have served: "served_ok host s" and one: "one_server (store s)" by (simp_all add: domains_ok_def)
  from served assms(3,4) have "list_ex (backs host s (p_id p) x) (statusPageDomainClaims (store s))"
    unfolding served_ok_def list_ex_iff by blast
  moreover have "p_id q = p_id p" if "q \<in> set (statusPages (store s))" "p_customDomain q = Some x" for q
    using one [unfolded one_server_def, rule_format, OF assms(3) that(1)] assms(4) that(2) by simp
  ultimately show ?thesis by (simp add: list_all_iff)
qed

section \<open>A domain is taken away only on three answers without it\<close>

definition one_claim :: "db \<Rightarrow> bool" where
  "one_claim d \<longleftrightarrow> distinct (map dc_statusPageId (statusPageDomainClaims d))"

text \<open>The claim of a page that serves on a domain has missed fewer rechecks than take it away.\<close>

definition calm :: "db \<Rightarrow> bool" where
  "calm d \<longleftrightarrow> (\<forall>p\<in>set (statusPages d). p_customDomain p \<noteq> None \<longrightarrow>
     (\<forall>c\<in>set (statusPageDomainClaims d). dc_statusPageId c = p_id p \<longrightarrow> dc_failedChecks c < MAX_FAILED_CHECKS))"

lemma calmI:
  assumes "calm d" "served_less d d'"
    and "\<And>p c. p \<in> set (statusPages d') \<Longrightarrow> p_customDomain p \<noteq> None \<Longrightarrow> c \<in> set (statusPageDomainClaims d') \<Longrightarrow>
      dc_statusPageId c = p_id p \<Longrightarrow> \<exists>q\<in>set (statusPageDomainClaims d). dc_statusPageId q = p_id p \<and> dc_failedChecks c \<le> dc_failedChecks q"
  shows "calm d'"
  unfolding calm_def
proof (intro ballI impI)
  fix p c assume pc: "p \<in> set (statusPages d')" "p_customDomain p \<noteq> None" "c \<in> set (statusPageDomainClaims d')" "dc_statusPageId c = p_id p"
  from assms(3) [OF pc] obtain q where q: "q \<in> set (statusPageDomainClaims d)" "dc_statusPageId q = p_id p"
    "dc_failedChecks c \<le> dc_failedChecks q" by blast
  from assms(2) pc(1,2) obtain p0 where "p0 \<in> set (statusPages d)" "p_id p0 = p_id p" "p_customDomain p0 \<noteq> None"
    unfolding served_less_def by metis
  with assms(1) q show "dc_failedChecks c < MAX_FAILED_CHECKS" unfolding calm_def by fastforce
qed

lemma calm_fewer:
  "calm d \<Longrightarrow> served_less d d' \<Longrightarrow> set (statusPageDomainClaims d') \<subseteq> set (statusPageDomainClaims d) \<Longrightarrow> calm d'"
  by (rule calmI) auto

lemma one_claim_update:
  "statusPageDomainClaims d' = update_where Q f (statusPageDomainClaims d) \<Longrightarrow>
   (\<And>c. dc_statusPageId (f c) = dc_statusPageId c) \<Longrightarrow> one_claim d \<Longrightarrow> one_claim d'"
  by (simp add: one_claim_def map_update_where)

lemma one_claim_delete:
  "statusPageDomainClaims d' = delete_where Q (statusPageDomainClaims d) \<Longrightarrow> one_claim d \<Longrightarrow> one_claim d'"
  by (simp add: one_claim_def delete_where_def distinct_map_filter)

lemma the_claim:
  "one_claim d \<Longrightarrow> c \<in> set (statusPageDomainClaims d) \<Longrightarrow> q \<in> set (statusPageDomainClaims d) \<Longrightarrow>
   dc_statusPageId c = dc_statusPageId q \<Longrightarrow> c = q"
  by (auto simp: one_claim_def distinct_map dest: inj_onD)

lemma claim_calm:
  assumes "one_claim d" "calm d"
  shows "one_claim (snd (claimDomain cx k x d)) \<and> calm (snd (claimDomain cx k x d))"
proof (cases "heldElsewhere k x d")
  case True
  with assms show ?thesis by (simp add: claimDomain_def)
next
  case False
  let ?mine = "\<lambda>c. dc_statusPageId c = k" and ?d' = "snd (claimDomain cx k x d)"
  note sh = claim_shape [OF False refl, where cx = cx]
  have f: "dc_statusPageId (claim_fields x t c) = dc_statusPageId c" for t c by (simp add: claim_fields_def)
  have others: "q \<in> set (statusPageDomainClaims d)"
    if "q \<in> set (statusPageDomainClaims ?d')" "dc_statusPageId q \<noteq> k" for q
    using False that by (cases "list_ex ?mine (statusPageDomainClaims d)")
      (auto simp: claimDomain_def Let_def draw_def in_update_where_iff f split: if_splits)
  have "calm ?d'"
    using assms(2) sh(1)
  proof (rule calmI)
    fix p c assume "p \<in> set (statusPages ?d')" "p_customDomain p \<noteq> None" "c \<in> set (statusPageDomainClaims ?d')" "dc_statusPageId c = p_id p"
    with sh(3) [of p] others [of c] show "\<exists>q\<in>set (statusPageDomainClaims d). dc_statusPageId q = p_id p \<and> dc_failedChecks c \<le> dc_failedChecks q"
      by (intro bexI [of _ c]) simp_all
  qed
  moreover have "one_claim ?d'"
  proof (cases "list_ex ?mine (statusPageDomainClaims d)")
    case True
    with False assms(1) show ?thesis by (simp add: one_claim_def claimDomain_def Let_def draw_def map_update_where f)
  next
    case none: False
    then have "k \<notin> dc_statusPageId ` set (statusPageDomainClaims d)" by (auto simp: list_ex_iff)
    with none False assms(1) show ?thesis by (simp add: one_claim_def claimDomain_def Let_def draw_def f)
  qed
  ultimately show ?thesis by simp
qed

lemma activate_calm:
  assumes "one_claim d" "calm d" and a: "activate cx c target d = (r, d')"
  shows "one_claim d' \<and> calm d'"
proof (cases "r = Verified")
  case False
  with a have "d' = d" by (auto simp: activate_def split: if_splits)
  with assms show ?thesis by simp
next
  case True
  let ?k = "dc_statusPageId c"
  define set_claim where "set_claim = (\<lambda>c :: statusPageDomainClaim_row. c\<lparr>dc_checkedAt := Some (cx_now cx),
      dc_verifiedTarget := Some target, dc_failedChecks := 0, dc_lapsedAt := None\<rparr>)"
  from True a have ex: "list_ex (own_claim c) (statusPageDomainClaims d)"
    and pages: "statusPages d' = statusPages (serve (\<lambda>p. p_id p = ?k) (Some (dc_domain c)) d)"
    and claims: "statusPageDomainClaims d' = update_where (own_claim c) set_claim (statusPageDomainClaims d)"
    by (auto simp: activate_def set_claim_def split: if_splits)
  from ex obtain c0 where c0: "c0 \<in> set (statusPageDomainClaims d)" "own_claim c c0" by (auto simp: list_ex_iff)
  have id: "dc_statusPageId (set_claim q) = dc_statusPageId q" "dc_failedChecks (set_claim q) = 0" for q
    by (simp_all add: set_claim_def)
  have "dc_failedChecks q < MAX_FAILED_CHECKS"
    if p: "p \<in> set (statusPages d')" "p_customDomain p \<noteq> None" and q: "q \<in> set (statusPageDomainClaims d')" "dc_statusPageId q = p_id p" for p q
  proof -
    obtain q0 where q0: "q0 \<in> set (statusPageDomainClaims d)" "q = (if own_claim c q0 then set_claim q0 else q0)"
      using q(1) by (auto simp: claims set_update_where)
    show ?thesis
    proof (cases "own_claim c q0")
      case True
      with q0(2) show ?thesis by (simp add: id MAX_FAILED_CHECKS_def)
    next
      case False
      then have "dc_statusPageId q0 \<noteq> ?k" using the_claim [OF assms(1) q0(1) c0(1)] c0(2) by (auto simp: own_claim_def)
      with False q0 q(2) have "p_id p \<noteq> ?k" "q = q0" by auto
      moreover from this(1) p(1) have "p \<in> set (statusPages d)"
        unfolding pages serve_def by (auto simp: set_update_where)
      ultimately show ?thesis using assms(2) p(2) q(2) q0(1) unfolding calm_def by blast
    qed
  qed
  then have "calm d'" unfolding calm_def by blast
  moreover have "one_claim d'" by (rule one_claim_update [OF claims id(1) assms(1)])
  ultimately show ?thesis by simp
qed

lemma page_of_claim:
  assumes "domains_ok host nano s" "one_claim (store s)" "c \<in> set (seen s)"
    and p: "p \<in> set (statusPages (store s))" "p_customDomain p = Some x" "p_id p = dc_statusPageId c"
    and q: "q \<in> set (statusPageDomainClaims (store s))" "own_claim c q"
  shows "serves c p"
proof -
  from assms(1) p(1,2) obtain b where b: "b \<in> set (statusPageDomainClaims (store s))" "backs host s (p_id p) x b"
    unfolding domains_ok_def served_ok_def by blast
  then have "b = q" using the_claim [OF assms(2) b(1) q(1)] p(3) q(2) by (simp add: backs_def own_claim_def)
  moreover have "ckey c \<in> known s" "ckey q \<in> known s" using assms(3) q(1) by (auto simp: known_def)
  then have "dc_domain q = dc_domain c"
    using assms(1) q(2) unfolding domains_ok_def tokens_ok_def own_claim_def ckey_def by fastforce
  ultimately show ?thesis using b(2) p by (simp add: serves_def backs_def)
qed

lemma due_is_own: "due_claim now c q \<Longrightarrow> own_claim c q"
  by (simp add: due_claim_def)

lemma first_due:
  assumes "one_claim d" "q \<in> set (statusPageDomainClaims d)" "due_claim now c q"
  shows "first_row (filter (due_claim now c) (statusPageDomainClaims d)) = Some q"
proof (cases "first_row (filter (due_claim now c) (statusPageDomainClaims d))")
  case None
  with assms(2,3) show ?thesis by (simp add: filter_empty_conv)
next
  case (Some r)
  with first_row_filter_in [OF Some] assms(2,3) the_claim [OF assms(1), of r q] show ?thesis
    by (simp add: due_claim_def own_claim_def)
qed

lemma recheck_calm:
  assumes ok: "domains_ok host nano s" "one_claim (store s)" "calm (store s)" and c: "c \<in> set (seen s)"
  shows "one_claim (snd (recheck cx host dns now c (store s))) \<and> calm (snd (recheck cx host dns now c (store s)))"
proof (cases rule: recheck_cases [of cx host dns now c "store s"])
  case counted
  let ?d' = "snd (recheck cx host dns now c (store s))" and ?v = "verdict_of host c dns"
  have "one_claim ?d'" by (rule one_claim_update [OF _ claim_writes(3) ok(2)]) (simp add: counted(1))
  moreover have "dc_failedChecks q < MAX_FAILED_CHECKS"
    if p: "p \<in> set (statusPages (store s))" "p_customDomain p = Some x"
      and q: "q \<in> set (statusPageDomainClaims ?d')" "dc_statusPageId q = p_id p" for p q x
  proof -
    obtain q0 where q0: "q0 \<in> set (statusPageDomainClaims (store s))" "q = (if due_claim now c q0 then counted_claim cx ?v q0 else q0)"
      using q(1) by (auto simp: counted(1) set_update_where)
    then have id: "dc_statusPageId q0 = p_id p" using q(2) by (simp split: if_splits)
    show ?thesis
    proof (cases "due_claim now c q0")
      case False
      with q0 id ok(3) p show ?thesis unfolding calm_def by auto
    next
      case True
      then have "serves c p"
        using page_of_claim [OF ok(1,2) c p _ q0(1)] due_is_own id by (simp add: own_claim_def)
      then have "filter (serves c) (statusPages (store s)) \<noteq> []" using p(1) by (auto simp: filter_empty_conv)
      with counted(2) [OF first_due [OF ok(2) q0(1) True]] True q0(2) show ?thesis by simp
    qed
  qed
  ultimately show ?thesis by (auto simp: calm_def counted(1))
next
  case (lapsed row)
  let ?d' = "snd (recheck cx host dns now c (store s))" and ?k = "dc_statusPageId c" and ?v = "verdict_of host c dns"
  have row: "row \<in> set (statusPageDomainClaims (store s))" "own_claim c row"
    using first_row_filter_in [OF lapsed(1)] due_is_own by blast+
  let ?counted = "(store s)\<lparr>statusPageDomainClaims :=
    update_where (due_claim now c) (counted_claim cx ?v) (statusPageDomainClaims (store s))\<rparr>"
  have "one_claim ?counted" by (rule one_claim_update [OF _ claim_writes(3) ok(2)]) simp
  then have "one_claim ?d'"
    by (rule one_claim_update [where Q = "own_claim c" and f = "lapsed_claim cx", rotated 2]) (simp_all add: lapsed(5))
  moreover have "calm ?d'"
    unfolding calm_def
  proof (intro ballI impI)
    fix p q assume p: "p \<in> set (statusPages ?d')" "p_customDomain p \<noteq> None"
      and q: "q \<in> set (statusPageDomainClaims ?d')" "dc_statusPageId q = p_id p"
    from p(1) have "p \<in> (\<lambda>y. if serves c y then y\<lparr>p_customDomain := None\<rparr> else y) ` set (statusPages (store s))"
      by (simp add: lapsed(3) serve_def set_update_where)
    then obtain p0 where p0: "p0 \<in> set (statusPages (store s))" "p = (if serves c p0 then p0\<lparr>p_customDomain := None\<rparr> else p0)"
      by (elim imageE)
    with p(2) have same: "p = p0" "\<not> serves c p" by (auto split: if_splits)
    then have "p_id p \<noteq> ?k" using page_of_claim [OF ok(1,2) c p0(1) _ _ row] p(2) by auto
    moreover obtain q0 where q0: "q0 \<in> set (statusPageDomainClaims (store s))"
      "dc_statusPageId q = dc_statusPageId q0" "own_claim c q0 \<or> q = q0"
      using q(1) by (auto simp: lapsed(5) set_update_where due_claim_def own_claim_def counted_claim_def split: if_splits)
    ultimately have "q = q0" using q(2) by (auto simp: own_claim_def)
    then show "dc_failedChecks q < MAX_FAILED_CHECKS"
      using ok(3) p0(1) p(2) q(2) q0(1) same(1) unfolding calm_def by auto
  qed
  ultimately show ?thesis by simp
qed

lemma calm_step:
  assumes "domain_step host nano s s'" "domains_ok host nano s" "one_claim (store s)" "calm (store s)"
  shows "one_claim (store s') \<and> calm (store s')"
  using assms(1)
proof cases
  case (Claim cx k x)
  then show ?thesis using claim_calm [OF assms(3,4)] by simp
next
  case (Release k)
  have "calm (releaseDomain k (store s))"
    using release_quiet [of "store s" k] by (intro calm_fewer [OF assms(4)]) (simp_all add: quiet_def releaseDomain_def)
  with Release show ?thesis using one_claim_delete [OF _ assms(3)] by (simp add: releaseDomain_def)
next
  case (Miss c cx dns r d)
  have act: "d' = store s" if "activate cx c target (store s) = (r, d')" for target d'
    using that Miss(4) by (auto simp: activate_def split: if_splits)
  let ?d = "(store s)\<lparr>statusPageDomainClaims := update_where (own_claim c)
    (\<lambda>c. c\<lparr>dc_checkedAt := Some (cx_now cx)\<rparr>) (statusPageDomainClaims (store s))\<rparr>"
  have "d = store s \<or> d = ?d"
    using Miss(3,4) act by (auto simp: verifyClaim_def Let_def split: option.splits if_splits)
  moreover have "one_claim ?d" by (rule one_claim_update [OF _ _ assms(3), where Q = "own_claim c"
    and f = "\<lambda>c. c\<lparr>dc_checkedAt := Some (cx_now cx)\<rparr>"]) simp_all
  moreover have "calm ?d"
    by (rule calmI [OF assms(4) serve_same]) (auto simp: set_update_where split: if_splits)
  ultimately show ?thesis using assms(3,4) Miss(1) by auto
next
  case (Activate c cx target dns r d)
  then show ?thesis using activate_calm [OF assms(3,4)] by simp
next
  case (Recheck c cx now dns)
  then show ?thesis using recheck_calm [OF assms(2-4)] by simp
next
  case (NewPage p)
  then show ?thesis using assms(3,4) page_quiet(1) [of p "store s"]
    by (simp add: one_claim_def quiet_def calm_fewer [of "store s"])
next
  case (EditPage f Q)
  then show ?thesis using assms(3,4) page_quiet(2) [of f "store s" Q]
    by (simp add: one_claim_def quiet_def calm_fewer [of "store s"])
next
  case (DropPage k)
  have "calm (cascade_page k (store s))"
    using cascade_quiet [of "store s" k] by (intro calm_fewer [OF assms(4)]) (simp_all add: quiet_def cascade_page_def)
  with DropPage show ?thesis using one_claim_delete [OF _ assms(3)] by (simp add: cascade_page_def)
qed (use assms in simp_all)

lemma domain_reaches_ok:
  "domain_reaches host nano s \<Longrightarrow> inj nano \<Longrightarrow> domains_ok host nano s \<and> one_claim (store s) \<and> calm (store s)"
proof (induction rule: domain_reaches.induct)
  case (Start d)
  then show ?case
    by (simp add: domains_ok_def tokens_ok_def known_def served_ok_def one_server_def one_claim_def calm_def)
next
  case (Step s s')
  then show ?case using domain_step_ok [OF Step.hyps(2)] calm_step [OF Step.hyps(2)] by blast
qed

text \<open>
  C26: A resolver failure takes no page off its domain: whatever ran before, a recheck ends a page's
  domain only when DNS answered without the records, and only for a claim that had already missed
  two rechecks since it was last found.
\<close>

theorem lapse_needs_misses:
  assumes "domain_reaches host nano s" "inj nano" "c \<in> set (seen s)"
    and "recheck cx host dns now c (store s) = (Some page, d')"
  shows "verdict_of host c dns = Missing \<and>
    list_ex (\<lambda>q. own_claim c q \<and> dc_failedChecks q = 2) (statusPageDomainClaims (store s))"
proof -
  from domain_reaches_ok [OF assms(1,2)] have ok: "domains_ok host nano s" "one_claim (store s)" "calm (store s)" by simp_all
  let ?v = "verdict_of host c dns"
  from assms(4) obtain row p where row: "first_row (filter (due_claim now c) (statusPageDomainClaims (store s))) = Some row"
    and many: "MAX_FAILED_CHECKS \<le> failed_after ?v (dc_failedChecks row)"
    and p: "first_row (filter (serves c) (statusPages (store s))) = Some p"
    by (auto simp: recheck_def recheck_write_def verdict_of_def Let_def split: option.splits if_splits)
  from row have r: "row \<in> set (statusPageDomainClaims (store s))" "own_claim c row"
    using first_row_filter_in [OF row] due_is_own by blast+
  from first_row_filter_in [OF p] have "p \<in> set (statusPages (store s))" "p_customDomain p \<noteq> None" "dc_statusPageId row = p_id p"
    using r(2) by (simp_all add: serves_def own_claim_def)
  with ok(3) r(1) have "dc_failedChecks row < MAX_FAILED_CHECKS" unfolding calm_def by blast
  with many have "?v = Missing" "dc_failedChecks row = 2" by (cases ?v; simp add: MAX_FAILED_CHECKS_def)+
  with r show ?thesis by (auto simp: list_ex_iff)
qed

text \<open>A page that verifies its domain and then finds its records gone.\<close>

definition example_page :: statusPage_row where
  "example_page = \<lparr>p_id = ''p'', p_organizationId = ''o'', p_name = ''Acme'', p_slug = ''acme'', p_description = None,
     p_isPublic = True, p_logoUrl = None, p_faviconUrl = None, p_primaryColor = None, p_customCss = None,
     p_customDomain = None, p_createdAt = 0, p_updatedAt = 0\<rparr>"

definition example_host :: url_host where
  "example_host u = Some (drop 8 u)"

definition target_ctx :: "time \<Rightarrow> ctx" where
  "target_ctx t = (example_ctx t)\<lparr>cx_env := [''UPPITY_STATUS_PAGE_CNAME_TARGET'' \<mapsto> ''pages.uppity.dev'']\<rparr>"

definition example_dns :: "bool \<Rightarrow> dns_lookup" where
  "example_dns there = \<lparr>resolveCname = (\<lambda>_. if there then Inr [''Pages.uppity.dev.''] else Inl ''ENOTFOUND''),
     resolveTxt = (\<lambda>_. if there then Inr [[''n'']] else Inl ''ENODATA'')\<rparr>"

definition claimed_sys :: domain_sys where
  "claimed_sys = (let d = empty_db\<lparr>statusPages := [example_page]\<rparr>;
     d1 = snd (claimDomain (target_ctx 0) ''p'' ''status.acme.com'' d) in
     \<lparr>store = d1, seen = [hd (statusPageDomainClaims d1)], proofs = []\<rparr>)"

definition verified_sys :: domain_sys where
  "verified_sys = (let s = claimed_sys; c = hd (seen s);
     d = snd (activate (target_ctx 1000) c ''pages.uppity.dev'' (store s)) in
     s\<lparr>store := d, proofs := (ckey c, ''pages.uppity.dev'', example_dns True) # proofs s,
       seen := hd (statusPageDomainClaims d) # seen s\<rparr>)"

definition missed_sys :: domain_sys where
  "missed_sys = (let s = verified_sys; c = hd (seen s);
     check = (\<lambda>t d. snd (recheck (target_ctx t) example_host (example_dns False) t c d)) in
     s\<lparr>store := check 12000000 (check 6000000 (store s))\<rparr>)"

definition example_nano :: "nat \<Rightarrow> id" where
  "example_nano n = replicate (Suc n) CHR ''n''"

lemma target_ctx_nano: "cx_nanoid (target_ctx t) = example_nano"
  by (simp add: target_ctx_def example_ctx_def example_nano_def fun_eq_iff)

lemma example_nano_inj: "inj example_nano"
  by (rule injI) (metis example_nano_def length_replicate nat.inject)

lemma claimed_reached: "domain_reaches example_host example_nano claimed_sys"
proof -
  let ?s0 = "\<lparr>store = empty_db, seen = [], proofs = []\<rparr>"
  let ?s1 = "?s0\<lparr>store := (store ?s0)\<lparr>statusPages := statusPages (store ?s0) @ [example_page]\<rparr>\<rparr>"
  let ?s2 = "?s1\<lparr>store := snd (claimDomain (target_ctx 0) ''p'' ''status.acme.com'' (store ?s1))\<rparr>"
  let ?s3 = "?s2\<lparr>seen := hd (statusPageDomainClaims (store ?s2)) # seen ?s2\<rparr>"
  have "domain_reaches example_host example_nano ?s0" by (rule Start) (simp_all add: empty_db_def)
  then have "domain_reaches example_host example_nano ?s1"
    by (rule Step) (rule NewPage; simp add: example_page_def empty_db_def)
  then have "domain_reaches example_host example_nano ?s2"
    by (rule Step) (rule Claim, rule target_ctx_nano)
  then have "domain_reaches example_host example_nano ?s3"
  proof (rule Step, intro Read)
    have "statusPageDomainClaims (store ?s2) \<noteq> []" by code_simp
    then show "hd (statusPageDomainClaims (store ?s2)) \<in> set (statusPageDomainClaims (store ?s2))" by (rule hd_in_set)
  qed
  moreover have "?s3 = claimed_sys" by (simp add: claimed_sys_def Let_def empty_db_def)
  ultimately show ?thesis by simp
qed

lemma verified_reached: "domain_reaches example_host example_nano verified_sys"
proof -
  let ?c = "hd (seen claimed_sys)"
  let ?a = "activate (target_ctx 1000) ?c ''pages.uppity.dev'' (store claimed_sys)"
  let ?s1 = "claimed_sys\<lparr>store := snd ?a, proofs := (ckey ?c, ''pages.uppity.dev'', example_dns True) # proofs claimed_sys\<rparr>"
  let ?s2 = "?s1\<lparr>seen := hd (statusPageDomainClaims (store ?s1)) # seen ?s1\<rparr>"
  have "domain_step example_host example_nano claimed_sys ?s1"
  proof (rule Activate [OF _ _ _ surjective_pairing])
    show "?c \<in> set (seen claimed_sys)" by (simp add: claimed_sys_def Let_def)
    show "domainTarget example_host (cx_env (target_ctx 1000)) = Some ''pages.uppity.dev''" by code_simp
    show "checkDns example_host (dc_domain ?c) (dc_token ?c) ''pages.uppity.dev'' (example_dns True) = Verified" by code_simp
  qed
  from Step [OF claimed_reached this] have "domain_reaches example_host example_nano ?s1" .
  then have "domain_reaches example_host example_nano ?s2"
  proof (rule Step, intro Read)
    have "statusPageDomainClaims (store ?s1) \<noteq> []" by code_simp
    then show "hd (statusPageDomainClaims (store ?s1)) \<in> set (statusPageDomainClaims (store ?s1))" by (rule hd_in_set)
  qed
  moreover have "?s2 = verified_sys" by (simp add: verified_sys_def Let_def)
  ultimately show ?thesis by simp
qed

lemma missed_reached: "domain_reaches example_host example_nano missed_sys"
proof -
  let ?c = "hd (seen verified_sys)"
  let ?next = "\<lambda>t s. s\<lparr>store := snd (recheck (target_ctx t) example_host (example_dns False) t ?c (store s))\<rparr>"
  have c: "?c \<in> set (seen verified_sys)" by (simp add: verified_sys_def Let_def)
  have "domain_reaches example_host example_nano (?next 6000000 verified_sys)"
    by (rule Step [OF verified_reached]) (rule Recheck [OF c target_ctx_nano])
  then have "domain_reaches example_host example_nano (?next 12000000 (?next 6000000 verified_sys))"
    by (rule Step) (rule Recheck [OF _ target_ctx_nano], use c in simp)
  then show ?thesis by (simp add: missed_sys_def Let_def)
qed

lemma domain_served_on_proof_witness:
  "list_ex (backs example_host verified_sys ''p'' ''status.acme.com'') (statusPageDomainClaims (store verified_sys))"
proof -
  have "list_ex (\<lambda>p. p_id p = ''p'' \<and> p_customDomain p = Some ''status.acme.com'') (statusPages (store verified_sys))"
    by code_simp
  then obtain p where p: "p \<in> set (statusPages (store verified_sys))" "p_id p = ''p''" "p_customDomain p = Some ''status.acme.com''"
    by (auto simp: list_ex_iff)
  from domain_served_on_proof [OF verified_reached example_nano_inj p(1,3)] p(2) show ?thesis by simp
qed

lemma lapse_needs_misses_witness:
  "verdict_of example_host (hd (seen missed_sys)) (example_dns False) = Missing \<and>
   list_ex (\<lambda>q. own_claim (hd (seen missed_sys)) q \<and> dc_failedChecks q = 2) (statusPageDomainClaims (store missed_sys))"
proof -
  let ?r = "recheck (target_ctx 18000000) example_host (example_dns False) 18000000 (hd (seen missed_sys)) (store missed_sys)"
  have "map_option p_id (fst ?r) = Some ''p''" by code_simp
  then obtain page where "?r = (Some page, snd ?r)" by (cases "fst ?r") (simp_all add: prod_eq_iff)
  moreover have "hd (seen missed_sys) \<in> set (seen missed_sys)" by (simp add: missed_sys_def verified_sys_def Let_def)
  ultimately show ?thesis using lapse_needs_misses [OF missed_reached example_nano_inj] by blast
qed

end
