(* ===== verification/StatusPages.thy ===== *)
theory StatusPages
  imports Domains Subscriptions Processor Scheduler
begin

text \<open>
  Status pages, \<open>lib/server/services/status-page.service.ts\<close>: their management, and what the public
  page shows.

  A calendar day of UTC is its number since 1970, where the source has its \<open>YYYY-MM-DD\<close> form.  A
  percentage is a rational number, where the source has a double.  The constraint of the table that
  keeps slugs unique refuses what the code's own look did not.
\<close>

section \<open>Pages\<close>

(* src/src/lib/constants/defaults.ts:79-80 DEFAULT_PRIMARY_COLOR *)
definition DEFAULT_PRIMARY_COLOR :: string where
  "DEFAULT_PRIMARY_COLOR = ''#000000''"

datatype page_error =
    PageMonitorNotFound
  | PageLimit
  | SlugTaken
  | DomainsNotSetUp
  | DomainsNotOnPlan

(* src/src/lib/server/services/status-page.service.ts:40-51 CreateStatusPageInput *)
record create_page_input =
  cp_organizationId :: id
  cp_name :: string
  cp_slug :: string
  cp_description :: "string option"
  cp_isPublic :: "bool option"
  cp_logoUrl :: "string option"
  cp_faviconUrl :: "string option"
  cp_primaryColor :: "string option"
  cp_customCss :: "string option"
  cp_monitorIds :: "id list option"

(* src/src/lib/server/services/status-page.service.ts:53-62 UpdateStatusPageInput *)
record update_page_input =
  up_name :: "string option"
  up_slug :: "string option"
  up_description :: "string option"
  up_isPublic :: "bool option"
  up_logoUrl :: "string option"
  up_faviconUrl :: "string option"
  up_primaryColor :: "string option"
  up_customCss :: "string option"

(* src/src/lib/server/services/status-page.service.ts:353-357 findById *)
definition find_page :: "id \<Rightarrow> db \<Rightarrow> statusPage_row option" where
  "find_page k d = first_row (filter (\<lambda>p. p_id p = k) (statusPages d))"

(* src/src/lib/server/services/status-page.service.ts:359-367 findBySlug *)
definition findBySlug :: "string \<Rightarrow> db \<Rightarrow> statusPage_row option" where
  "findBySlug slug d = first_row (filter (\<lambda>p. p_slug p = slug) (statusPages d))"

definition page_in_org :: "id \<Rightarrow> id \<Rightarrow> statusPage_row \<Rightarrow> bool" where
  "page_in_org k org p \<longleftrightarrow> p_id p = k \<and> p_organizationId p = org"

(* src/src/lib/server/services/status-page.service.ts:369-377 findByIdAndOrg *)
definition find_org_page :: "id \<Rightarrow> id \<Rightarrow> db \<Rightarrow> statusPage_row option" where
  "find_org_page k org d = first_row (filter (page_in_org k org) (statusPages d))"

(* src/src/lib/server/services/status-page.service.ts:379-385 findByOrganization *)
definition pages_of_org :: "id \<Rightarrow> db \<Rightarrow> statusPage_row list" where
  "pages_of_org org d = order_desc p_createdAt (filter (\<lambda>p. p_organizationId p = org) (statusPages d))"

text \<open>Links take ids in turn.\<close>

fun link_pages :: "ctx \<Rightarrow> id \<Rightarrow> id list \<Rightarrow> nat \<Rightarrow> db \<Rightarrow> db" where
  "link_pages cx page [] n d = d"
| "link_pages cx page (m # ms) n d = link_pages cx page ms (Suc n) ((draw d)\<lparr>
     statusPageMonitors := statusPageMonitors d @ [\<lparr>pm_id = cx_nanoid cx (drawn d), pm_statusPageId = page,
       pm_monitorId = m, pm_groupId = None, pm_displayName = None, pm_order = int n\<rparr>]\<rparr>)"

definition nonempty_or :: "string option \<Rightarrow> string \<Rightarrow> string" where
  "nonempty_or x y = (case x of None \<Rightarrow> y | Some s \<Rightarrow> if s = [] then y else s)"

(* src/src/lib/server/services/status-page.service.ts:303-351 create *)
definition create_page :: "ctx \<Rightarrow> create_page_input \<Rightarrow> db \<Rightarrow> (page_error + statusPage_row) \<times> db" where
  "create_page cx i d = (let org = cp_organizationId i; monitorIds = unique (coalesce (cp_monitorIds i) []) in
     if \<not> monitorsBelongToOrg d org monitorIds then (Inl PageMonitorNotFound, d)
     else let (allowed, d1) = canAddStatusPage cx org d in
       if \<not> allowed then (Inl PageLimit, d1)
       else let k = cx_nanoid cx (drawn d1); d2 = draw d1 in
         if findBySlug (cp_slug i) d2 \<noteq> None then (Inl SlugTaken, d2)
         else let page = \<lparr>p_id = k, p_organizationId = org, p_name = cp_name i, p_slug = cp_slug i,
                p_description = cp_description i, p_isPublic = coalesce (cp_isPublic i) True,
                p_logoUrl = cp_logoUrl i, p_faviconUrl = cp_faviconUrl i,
                p_primaryColor = Some (nonempty_or (cp_primaryColor i) DEFAULT_PRIMARY_COLOR),
                p_customCss = cp_customCss i, p_customDomain = None,
                p_createdAt = cx_now cx, p_updatedAt = cx_now cx\<rparr> in
           (Inr page, link_pages cx k monitorIds 0 (d2\<lparr>statusPages := statusPages d2 @ [page]\<rparr>)))"

definition page_set :: "ctx \<Rightarrow> update_page_input \<Rightarrow> statusPage_row \<Rightarrow> statusPage_row" where
  "page_set cx i p = p\<lparr>p_name := coalesce (up_name i) (p_name p), p_slug := coalesce (up_slug i) (p_slug p),
     p_description := or_kept (up_description i) (p_description p),
     p_isPublic := coalesce (up_isPublic i) (p_isPublic p), p_logoUrl := or_kept (up_logoUrl i) (p_logoUrl p),
     p_faviconUrl := or_kept (up_faviconUrl i) (p_faviconUrl p),
     p_primaryColor := or_kept (up_primaryColor i) (p_primaryColor p),
     p_customCss := or_kept (up_customCss i) (p_customCss p), p_updatedAt := cx_now cx\<rparr>"

text \<open>An empty slug is not looked up, so there the constraint of the table speaks.\<close>

(* src/src/lib/server/services/status-page.service.ts:387-415 update *)
definition update_page ::
  "ctx \<Rightarrow> id \<Rightarrow> id \<Rightarrow> update_page_input \<Rightarrow> db \<Rightarrow> (page_error + statusPage_row option) \<times> db" where
  "update_page cx k org i d = (case find_org_page k org d of
      None \<Rightarrow> (Inr None, d)
    | Some existing \<Rightarrow>
        if on_some (\<lambda>slug. slug \<noteq> p_slug existing \<and> findBySlug slug d \<noteq> None) (up_slug i) then (Inl SlugTaken, d)
        else let d1 = d\<lparr>statusPages := update_where (page_in_org k org) (page_set cx i) (statusPages d)\<rparr> in
          (Inr (find_org_page k org d1), d1))"

(* src/src/lib/server/services/status-page.service.ts:417-425 findByDomain *)
definition findByDomain :: "string \<Rightarrow> db \<Rightarrow> (string \<times> bool) option" where
  "findByDomain domain d = map_option (\<lambda>p. (p_slug p, p_isPublic p))
     (first_row (filter (\<lambda>p. p_customDomain p = Some domain) (statusPages d)))"

(* src/src/lib/server/services/status-page.service.ts:427-435 hasCustomDomain *)
definition hasCustomDomain :: "string \<Rightarrow> db \<Rightarrow> bool" where
  "hasCustomDomain slug d \<longleftrightarrow> filter (\<lambda>p. p_slug p = slug \<and> p_customDomain p \<noteq> None) (statusPages d) \<noteq> []"

text \<open>What refuses, if anything does.\<close>

(* src/src/lib/server/services/status-page.service.ts:437-445 assertCustomDomainsAllowed *)
definition assertCustomDomainsAllowed :: "ctx \<Rightarrow> url_host \<Rightarrow> id \<Rightarrow> db \<Rightarrow> page_error option \<times> db" where
  "assertCustomDomainsAllowed cx host org d = (
     if domainTarget host (cx_env cx) = None then (Some DomainsNotSetUp, d)
     else let (allowed, d1) = areCustomDomainsAllowed cx org d in
       (if allowed then None else Some DomainsNotOnPlan, d1))"

(* src/src/lib/server/services/status-page.service.ts:447-458 claimDomain *)
definition claim_page_domain ::
  "ctx \<Rightarrow> url_host \<Rightarrow> dns_lookup \<Rightarrow> id \<Rightarrow> id \<Rightarrow> string \<Rightarrow> db \<Rightarrow> (page_error + verify_result option) \<times> db" where
  "claim_page_domain cx host dns k org domain d = (
     if find_org_page k org d = None then (Inr None, d)
     else case assertCustomDomainsAllowed cx host org d of
       (Some e, d1) \<Rightarrow> (Inl e, d1)
     | (None, d1) \<Rightarrow> (case claimDomain cx k domain d1 of
           (None, d2) \<Rightarrow> (Inr (Some Taken), d2)
         | (Some claim, d2) \<Rightarrow> (let (r, d3) = verifyClaim cx host dns claim d2 in (Inr (Some r), d3))))"

(* src/src/lib/server/services/status-page.service.ts:460-468 verifyDomain *)
definition verify_page_domain ::
  "ctx \<Rightarrow> url_host \<Rightarrow> dns_lookup \<Rightarrow> id \<Rightarrow> id \<Rightarrow> db \<Rightarrow> (page_error + verify_result option) \<times> db" where
  "verify_page_domain cx host dns k org d = (
     if find_org_page k org d = None then (Inr None, d)
     else case findClaim k d of
       None \<Rightarrow> (Inr None, d)
     | Some claim \<Rightarrow> (case assertCustomDomainsAllowed cx host org d of
           (Some e, d1) \<Rightarrow> (Inl e, d1)
         | (None, d1) \<Rightarrow> (let (r, d2) = verifyClaim cx host dns claim d1 in (Inr (Some r), d2))))"

(* src/src/lib/server/services/status-page.service.ts:470-474 releaseDomain *)
definition release_page_domain :: "id \<Rightarrow> id \<Rightarrow> db \<Rightarrow> bool \<times> db" where
  "release_page_domain k org d = (if find_org_page k org d = None then (False, d) else (True, releaseDomain k d))"

text \<open>What goes with a page.\<close>

definition drop_page :: "(statusPage_row \<Rightarrow> bool) \<Rightarrow> db \<Rightarrow> db" where
  "drop_page these d = (let ids = p_id ` set (filter these (statusPages d));
       subs = ps_id ` set (filter (\<lambda>s. ps_statusPageId s \<in> ids) (statusPageSubscribers d)) in
     d\<lparr>statusPages := delete_where these (statusPages d),
       statusPageDomainClaims := delete_where (\<lambda>c. dc_statusPageId c \<in> ids) (statusPageDomainClaims d),
       statusPageGroups := delete_where (\<lambda>g. pg_statusPageId g \<in> ids) (statusPageGroups d),
       statusPageMonitors := delete_where (\<lambda>m. pm_statusPageId m \<in> ids) (statusPageMonitors d),
       statusPageSubscribers := delete_where (\<lambda>s. ps_statusPageId s \<in> ids) (statusPageSubscribers d),
       statusPageSubscriberDeliveries := delete_where (\<lambda>s. sd_subscriberId s \<in> subs) (statusPageSubscriberDeliveries d)\<rparr>)"

(* src/src/lib/server/services/status-page.service.ts:476-483 delete *)
definition delete_page :: "id \<Rightarrow> id \<Rightarrow> db \<Rightarrow> bool \<times> db" where
  "delete_page k org d = (filter (page_in_org k org) (statusPages d) \<noteq> [], drop_page (page_in_org k org) d)"

section \<open>Groups and monitors of a page\<close>

(* src/src/lib/server/services/status-page.service.ts:485-491 ownedPage *)
definition ownedPage :: "id \<Rightarrow> id \<Rightarrow> db \<Rightarrow> id set" where
  "ownedPage k org d = p_id ` set (filter (page_in_org k org) (statusPages d))"

(* src/src/lib/server/services/status-page.service.ts:64-71 CreateGroupInput *)
record create_group_input =
  cg_statusPageId :: id
  cg_organizationId :: id
  cg_name :: string
  cg_description :: "string option"
  cg_order :: "int option"
  cg_isCollapsed :: "bool option"

(* src/src/lib/server/services/status-page.service.ts:73-78 AddMonitorInput *)
record add_monitor_input =
  am_statusPageId :: id
  am_organizationId :: id
  am_monitorId :: id
  am_order :: "int option"

(* src/src/lib/server/services/status-page.service.ts:493-514 createGroup *)
definition createGroup :: "ctx \<Rightarrow> create_group_input \<Rightarrow> db \<Rightarrow> statusPageGroup_row option \<times> db" where
  "createGroup cx i d = (
     if find_org_page (cg_statusPageId i) (cg_organizationId i) d = None then (None, d)
     else let g = \<lparr>pg_id = cx_nanoid cx (drawn d), pg_statusPageId = cg_statusPageId i, pg_name = cg_name i,
            pg_description = cg_description i, pg_order = coalesce (cg_order i) 0,
            pg_isCollapsed = coalesce (cg_isCollapsed i) False\<rparr> in
       (Some g, (draw d)\<lparr>statusPageGroups := statusPageGroups d @ [g]\<rparr>))"

(* src/src/lib/server/services/status-page.service.ts:516-522 getGroups *)
definition getGroups :: "id \<Rightarrow> db \<Rightarrow> statusPageGroup_row list" where
  "getGroups page d = order_asc pg_order (filter (\<lambda>g. pg_statusPageId g = page) (statusPageGroups d))"

text \<open>The links of a deleted group stay, without a group.\<close>

(* src/src/lib/server/services/status-page.service.ts:524-540 deleteGroup *)
definition deleteGroup :: "id \<Rightarrow> id \<Rightarrow> id \<Rightarrow> db \<Rightarrow> bool \<times> db" where
  "deleteGroup page org k d = (let these = (\<lambda>g. pg_id g = k \<and> pg_statusPageId g \<in> ownedPage page org d) in
     (filter these (statusPageGroups d) \<noteq> [],
      d\<lparr>statusPageGroups := delete_where these (statusPageGroups d),
        statusPageMonitors := update_where
          (\<lambda>m. on_some (\<lambda>g. g \<in> pg_id ` set (filter these (statusPageGroups d))) (pm_groupId m))
          (\<lambda>m. m\<lparr>pm_groupId := None\<rparr>) (statusPageMonitors d)\<rparr>))"

definition link_of :: "id \<Rightarrow> id \<Rightarrow> statusPageMonitor_row \<Rightarrow> bool" where
  "link_of page m pm \<longleftrightarrow> pm_statusPageId pm = page \<and> pm_monitorId pm = m"

(* src/src/lib/server/services/status-page.service.ts:543-570 addMonitor *)
definition addMonitor :: "ctx \<Rightarrow> add_monitor_input \<Rightarrow> db \<Rightarrow> statusPageMonitor_row option \<times> db" where
  "addMonitor cx i d = (let page = am_statusPageId i; m = am_monitorId i; n = coalesce (am_order i) 0 in
     if find_org_page page (am_organizationId i) d = None \<or> \<not> monitorsBelongToOrg d (am_organizationId i) [m]
     then (None, d)
     else let d1 = (draw d)\<lparr>statusPageMonitors :=
           (if list_ex (link_of page m) (statusPageMonitors d)
            then update_where (link_of page m) (\<lambda>pm. pm\<lparr>pm_order := n\<rparr>) (statusPageMonitors d)
            else statusPageMonitors d @ [\<lparr>pm_id = cx_nanoid cx (drawn d), pm_statusPageId = page, pm_monitorId = m,
              pm_groupId = None, pm_displayName = None, pm_order = n\<rparr>])\<rparr> in
       (first_row (filter (link_of page m) (statusPageMonitors d1)), d1))"

text \<open>
  A link with its monitor and the monitor's status row.  A link to another organization's monitor is
  never shown.
\<close>

(* src/src/lib/server/services/status-page.service.ts:572-605 getMonitors *)
definition getMonitors :: "id \<Rightarrow> db \<Rightarrow> (statusPageMonitor_row \<times> monitor_row \<times> monitorStatus_row option) list" where
  "getMonitors page d = order_asc (\<lambda>(pm, m, s). pm_order pm)
     (map (\<lambda>((pm, m), p). (pm, m, statusOf d (m_id m)))
       (inner_join (\<lambda>(pm, m) p. p_id p = pm_statusPageId pm \<and> p_organizationId p = m_organizationId m)
         (inner_join (\<lambda>pm m. pm_monitorId pm = m_id m)
           (filter (\<lambda>pm. pm_statusPageId pm = page) (statusPageMonitors d)) (monitors d)) (statusPages d)))"

(* src/src/lib/server/services/status-page.service.ts:607-623 removeMonitor *)
definition removeMonitor :: "id \<Rightarrow> id \<Rightarrow> id \<Rightarrow> db \<Rightarrow> bool \<times> db" where
  "removeMonitor page org m d = (let these = (\<lambda>pm. pm_monitorId pm = m \<and> pm_statusPageId pm \<in> ownedPage page org d) in
     (filter these (statusPageMonitors d) \<noteq> [],
      d\<lparr>statusPageMonitors := delete_where these (statusPageMonitors d)\<rparr>))"

end
