(* ===== verification/PublicPages.thy ===== *)
theory PublicPages
  imports StatusPages Outages
begin

text \<open>
  What a public status page shows, \<open>lib/server/services/status-page.service.ts\<close>: the state of its
  components, their history by day, incidents and maintenance.
\<close>

section \<open>Statuses\<close>

(* src/src/lib/server/services/status-page.service.ts:135-151 PublicMonitorStatus *)
datatype component_status = CUp | CDown | CDegraded | CUnknown | CMaintenance

(* src/src/lib/server/services/status-page.service.ts:122-128 overallStatus *)
datatype overall_status =
    Operational
  | OverallDegraded
  | PartialOutage
  | MajorOutage
  | Unmonitored
  | UnderMaintenance

datatype day_status = DayUp | DayDown | DayDegraded | DayPartial | DayUnknown

fun shown_status :: "status \<Rightarrow> component_status" where
  "shown_status Up = CUp"
| "shown_status Down = CDown"
| "shown_status Degraded = CDegraded"
| "shown_status Unknown = CUnknown"

(* src/src/lib/server/services/status-page.service.ts:247-259 componentStatus *)
definition componentStatus :: "time \<Rightarrow> id set \<Rightarrow> monitor_row \<Rightarrow> monitorStatus_row option \<Rightarrow> component_status" where
  "componentStatus now underMaintenance m s = (
     if checksStopped now m then CUnknown
     else if m_id m \<in> underMaintenance then CMaintenance
     else case s of None \<Rightarrow> CUnknown | Some row \<Rightarrow> shown_status (s_status row))"

(* src/src/lib/server/services/status-page.service.ts:261-273 overallStatusOf *)
definition overallStatusOf :: "component_status list \<Rightarrow> overall_status" where
  "overallStatusOf statuses = (let number = (\<lambda>s. length (filter (\<lambda>t. t = s) statuses));
       down = number CDown; maintenance = number CMaintenance in
     if statuses \<noteq> [] \<and> down = length statuses then MajorOutage
     else if down > 0 then PartialOutage
     else if number CDegraded > 0 then OverallDegraded
     else if CUnknown \<in> set statuses then Unmonitored
     else if maintenance > 0 \<and> maintenance = length statuses then UnderMaintenance
     else Operational)"

record day_counts =
  dc_total :: nat
  dc_up :: nat
  dc_down :: nat
  dc_degraded :: nat

(* src/src/lib/server/services/status-page.service.ts:275-278 dayStatus *)
definition dayStatus :: "day_counts \<Rightarrow> day_status" where
  "dayStatus c = (if dc_down c > 0 then (if dc_up c = 0 then DayDown else DayPartial)
     else if dc_degraded c > 0 then DayDegraded else DayUp)"

section \<open>Days\<close>

definition DAY_MS :: int where
  "DAY_MS = 24 * 60 * 60 * 1000"

(* src/src/lib/server/services/status-page.service.ts:238-239 utcDay *)
definition utcDay :: "time \<Rightarrow> int" where
  "utcDay t = t div DAY_MS"

(* src/src/lib/server/services/status-page.service.ts:202-224 recentUtcDayKeys *)
definition recentUtcDayKeys :: "time \<Rightarrow> int \<Rightarrow> int list" where
  "recentUtcDayKeys now n = map (\<lambda>i. utcDay (now - int i * DAY_MS)) (rev [0..<nat n])"

text \<open>The counts of the checks of one day, or \<open>None\<close> for a day without any.\<close>

(* src/src/lib/server/services/status-page.service.ts:241-242 countStatus *)
definition countStatus :: "status \<Rightarrow> monitorCheck_row list \<Rightarrow> nat" where
  "countStatus s cs = length (filter (\<lambda>c. c_status c = s) cs)"

definition counts_of :: "monitorCheck_row list \<Rightarrow> int \<Rightarrow> day_counts option" where
  "counts_of cs day = (let today = filter (\<lambda>c. utcDay (c_checkedAt c) = day) cs in
     if today = [] then None
     else Some \<lparr>dc_total = length today, dc_up = countStatus Up today, dc_down = countStatus Down today,
       dc_degraded = countStatus Degraded today\<rparr>)"

definition percent :: "nat \<Rightarrow> nat \<Rightarrow> rat" where
  "percent up n = of_nat up / of_nat n * 100"

(* src/src/lib/server/services/status-page.service.ts:188-193 FeaturedUptimeDay *)
record day_bar =
  db_date :: int
  db_status :: day_status
  db_uptimePercent :: "rat option"

(* src/src/lib/server/services/status-page.service.ts:780-789 publicView: dailyHistory *)
definition day_bar_of :: "monitorCheck_row list \<Rightarrow> int \<Rightarrow> day_bar" where
  "day_bar_of cs day = (case counts_of cs day of
      None \<Rightarrow> \<lparr>db_date = day, db_status = DayUnknown, db_uptimePercent = None\<rparr>
    | Some c \<Rightarrow> \<lparr>db_date = day, db_status = dayStatus c, db_uptimePercent = Some (percent (dc_up c) (dc_total c))\<rparr>)"

section \<open>Maintenance\<close>

(* src/src/lib/server/services/status-page.service.ts:174-176 MaintenanceView *)
record maintenance_view =
  mv_id :: id
  mv_name :: string
  mv_description :: "string option"
  mv_startsAt :: time
  mv_endsAt :: time
  mv_affectedMonitorIds :: "id list"

(* src/src/lib/server/services/status-page.service.ts:280-294 toMaintenanceViews *)
definition toMaintenanceViews :: "(maintenanceWindow_row \<times> id) list \<Rightarrow> maintenance_view list" where
  "toMaintenanceViews rows = map (\<lambda>(k, group). let w = fst (hd group) in
     \<lparr>mv_id = w_id w, mv_name = w_name w, mv_description = w_description w, mv_startsAt = w_startsAt w,
       mv_endsAt = w_endsAt w, mv_affectedMonitorIds = map snd group\<rparr>) (group_by (\<lambda>(w, m). w_id w) rows)"

definition window_rows :: "(maintenanceWindow_row \<Rightarrow> bool) \<Rightarrow> id list \<Rightarrow> db \<Rightarrow> (maintenanceWindow_row \<times> id) list" where
  "window_rows these monitorIds d = map (\<lambda>(w, wm). (w, wm_monitorId wm))
     (filter (\<lambda>(w, wm). wm_monitorId wm \<in> set monitorIds \<and> these w)
       (inner_join (\<lambda>w wm. wm_windowId wm = w_id w) (maintenanceWindows d) (maintenanceWindowMonitors d)))"

(* src/src/lib/server/services/status-page.service.ts:625-651 getActiveMaintenanceForMonitors *)
definition getActiveMaintenance :: "id list \<Rightarrow> time \<Rightarrow> db \<Rightarrow> maintenance_view list" where
  "getActiveMaintenance monitorIds t d = order_asc mv_endsAt (toMaintenanceViews
     (window_rows (\<lambda>w. w_status w = WInProgress \<and> w_startsAt w \<le> t \<and> t \<le> w_endsAt w) monitorIds d))"

(* src/src/lib/server/services/status-page.service.ts:653-681 getUpcomingMaintenanceForMonitors *)
definition getUpcomingMaintenance :: "id list \<Rightarrow> int \<Rightarrow> time \<Rightarrow> db \<Rightarrow> maintenance_view list" where
  "getUpcomingMaintenance monitorIds withinDays t d = order_asc mv_startsAt (toMaintenanceViews
     (window_rows (\<lambda>w. w_status w = WScheduled \<and> t \<le> w_startsAt w \<and> w_startsAt w \<le> t + withinDays * DAY_MS) monitorIds d))"

(* src/src/lib/server/services/status-page.service.ts:178-186 toPublicMaintenance *)
definition toPublicMaintenance :: "maintenance_view \<Rightarrow> maintenance_view" where
  "toPublicMaintenance v = v\<lparr>mv_affectedMonitorIds := []\<rparr>"

text \<open>A window that ran over the check.\<close>

(* src/src/lib/server/services/status-page.service.ts:760-767 publicView: NOT EXISTS *)
definition in_maintenance :: "db \<Rightarrow> monitorCheck_row \<Rightarrow> bool" where
  "in_maintenance d c \<longleftrightarrow> list_ex (\<lambda>(wm, w). wm_monitorId wm = c_monitorId c \<and> w_status w \<in> {WInProgress, WCompleted} \<and>
     w_startsAt w \<le> c_checkedAt c \<and> c_checkedAt c \<le> w_endsAt w)
     (inner_join (\<lambda>wm w. w_id w = wm_windowId wm) (maintenanceWindowMonitors d) (maintenanceWindows d))"

section \<open>The public page\<close>

(* src/src/lib/server/services/status-page.service.ts:80-94 PublicIncidentData *)
record public_incident =
  pi_id :: id
  pi_title :: string
  pi_status :: incident_status
  pi_impact :: incident_impact
  pi_createdAt :: time
  pi_startedAt :: time
  pi_resolvedAt :: "time option"
  pi_updates :: "(id \<times> incident_status \<times> string \<times> time) list"

record public_monitor =
  pb_id :: id
  pb_name :: string
  pb_description :: "string option"
  pb_status :: component_status
  pb_uptimePercent90d :: "rat option"
  pb_dailyHistory :: "day_bar list"

record public_group =
  gp_id :: id
  gp_name :: string
  gp_description :: "string option"
  gp_isCollapsed :: bool
  gp_monitors :: "public_monitor list"

(* src/src/lib/server/services/status-page.service.ts:96-100 PublicStatusPage *)
record public_page =
  pp_name :: string
  pp_slug :: string
  pp_description :: "string option"
  pp_logoUrl :: "string option"
  pp_faviconUrl :: "string option"

(* src/src/lib/server/services/status-page.service.ts:112-133 PublicStatusPageData *)
record public_view =
  pv_page :: public_page
  pv_groups :: "public_group list"
  pv_ungrouped :: "public_monitor list"
  pv_overallStatus :: overall_status
  pv_activeIncidents :: "public_incident list"
  pv_resolvedIncidents :: "public_incident list"
  pv_activeMaintenance :: "maintenance_view list"
  pv_upcomingMaintenance :: "maintenance_view list"

(* src/src/lib/server/services/status-page.service.ts:102-110 toPublicPage *)
definition toPublicPage :: "statusPage_row \<Rightarrow> public_page" where
  "toPublicPage p = \<lparr>pp_name = p_name p, pp_slug = p_slug p, pp_description = p_description p,
     pp_logoUrl = p_logoUrl p, pp_faviconUrl = p_faviconUrl p\<rparr>"

definition display_name :: "statusPageMonitor_row \<Rightarrow> monitor_row \<Rightarrow> string" where
  "display_name pm m = nonempty_or (pm_displayName pm) (m_name m)"

(* src/src/lib/server/services/status-page.service.ts:226-236 incidentUpdates *)
definition updates_of :: "id \<Rightarrow> db \<Rightarrow> (id \<times> incident_status \<times> string \<times> time) list" where
  "updates_of k d = map (\<lambda>u. (iu_id u, iu_status u, iu_message u, iu_createdAt u))
     (order_desc iu_createdAt (filter (\<lambda>u. iu_incidentId u = k) (incidentUpdates d)))"

(* src/src/lib/server/services/status-page.service.ts:846-868 incidentsWithUpdates *)
definition incidentsWithUpdates :: "(incident_row \<Rightarrow> bool) \<Rightarrow> (incident_row \<Rightarrow> int) \<Rightarrow> db \<Rightarrow> public_incident list" where
  "incidentsWithUpdates these by_time d = map (\<lambda>i. \<lparr>pi_id = i_id i, pi_title = i_title i, pi_status = i_status i,
     pi_impact = i_impact i, pi_createdAt = i_createdAt i, pi_startedAt = i_startedAt i, pi_resolvedAt = i_resolvedAt i,
     pi_updates = updates_of (i_id i) d\<rparr>) (order_desc by_time (filter these (incidents d)))"

definition under_maintenance :: "id list \<Rightarrow> time \<Rightarrow> db \<Rightarrow> id set" where
  "under_maintenance monitorIds t d = set (concat (map mv_affectedMonitorIds (getActiveMaintenance monitorIds t d)))"

text \<open>The checks of the last days outside maintenance.\<close>

(* src/src/lib/server/services/status-page.service.ts:744-772 publicView: checksData *)
definition counted_checks :: "ctx \<Rightarrow> id \<Rightarrow> db \<Rightarrow> monitorCheck_row list" where
  "counted_checks cx m d = filter (\<lambda>c. c_monitorId c = m \<and>
     cx_now cx - STATUS_PAGE_HISTORY_DAYS (cx_env cx) * DAY_MS \<le> c_checkedAt c \<and> \<not> in_maintenance d c) (monitorChecks d)"

(* src/src/lib/server/services/status-page.service.ts:776-802 publicView: buildMonitorStatus *)
definition buildMonitorStatus ::
  "ctx \<Rightarrow> id set \<Rightarrow> db \<Rightarrow> statusPageMonitor_row \<times> monitor_row \<times> monitorStatus_row option \<Rightarrow> public_monitor" where
  "buildMonitorStatus cx maintained d = (\<lambda>(pm, m, s). let cs = counted_checks cx (m_id m) d in
     \<lparr>pb_id = pm_id pm, pb_name = display_name pm m, pb_description = m_description m,
       pb_status = componentStatus (cx_now cx) maintained m s,
       pb_uptimePercent90d = (if cs = [] then None else Some (percent (countStatus Up cs) (length cs))),
       pb_dailyHistory = map (day_bar_of cs) (recentUtcDayKeys (cx_now cx) (STATUS_PAGE_HISTORY_DAYS (cx_env cx)))\<rparr>)"

(* src/src/lib/server/services/status-page.service.ts:814-823 publicView: onThisPage *)
definition onThisPage :: "id \<Rightarrow> id list \<Rightarrow> db \<Rightarrow> incident_row \<Rightarrow> bool" where
  "onThisPage org monitorIds d i \<longleftrightarrow> i_organizationId i = org \<and>
     list_ex (\<lambda>im. im_incidentId im = i_id i \<and> im_monitorId im \<in> set monitorIds) (incidentMonitors d)"

(* src/src/lib/server/services/status-page.service.ts:721-844 publicView *)
definition publicView :: "ctx \<Rightarrow> statusPage_row \<Rightarrow> db \<Rightarrow> public_view" where
  "publicView cx page d = (
     let groups = getGroups (p_id page) d;
         pageMonitors = getMonitors (p_id page) d;
         since = cx_now cx - STATUS_PAGE_HISTORY_DAYS (cx_env cx) * DAY_MS;
         monitorIds = map (\<lambda>(pm, m, s). m_id m) pageMonitors;
         maintained = under_maintenance monitorIds (cx_now cx) d;
         build = buildMonitorStatus cx maintained d;
         in_group = (\<lambda>g. filter (\<lambda>(pm, m, s). pm_groupId pm = g) pageMonitors);
         on_page = onThisPage (p_organizationId page) monitorIds d in
     \<lparr>pv_page = toPublicPage page,
       pv_groups = map (\<lambda>g. \<lparr>gp_id = pg_id g, gp_name = pg_name g, gp_description = pg_description g,
         gp_isCollapsed = pg_isCollapsed g, gp_monitors = map build (in_group (Some (pg_id g)))\<rparr>) groups,
       pv_ungrouped = map build (in_group None),
       pv_overallStatus = overallStatusOf
         (map (\<lambda>(pm, m, s). componentStatus (cx_now cx) maintained m s) pageMonitors),
       pv_activeIncidents = incidentsWithUpdates (\<lambda>i. on_page i \<and> incidentActive i) i_startedAt d,
       pv_resolvedIncidents = incidentsWithUpdates (\<lambda>i. on_page i \<and> \<not> incidentActive i \<and>
         on_some (\<lambda>t. since \<le> t) (i_resolvedAt i)) (\<lambda>i. coalesce (i_resolvedAt i) 0) d,
       pv_activeMaintenance = map toPublicMaintenance (getActiveMaintenance monitorIds (cx_now cx) d),
       pv_upcomingMaintenance = map toPublicMaintenance (getUpcomingMaintenance monitorIds 7 (cx_now cx) d)\<rparr>)"

(* src/src/lib/server/services/status-page.service.ts:683-687 getPublicStatusPage *)
definition getPublicStatusPage :: "ctx \<Rightarrow> string \<Rightarrow> db \<Rightarrow> public_view option" where
  "getPublicStatusPage cx slug d = (case findBySlug slug d of
      None \<Rightarrow> None | Some page \<Rightarrow> if p_isPublic page then Some (publicView cx page d) else None)"

(* src/src/lib/server/services/status-page.service.ts:689-693 getPublicSummary *)
definition getPublicSummary :: "ctx \<Rightarrow> id \<Rightarrow> db \<Rightarrow> public_view option" where
  "getPublicSummary cx k d = (case find_page k d of
      None \<Rightarrow> None | Some page \<Rightarrow> if p_isPublic page then Some (publicView cx page d) else None)"

(* src/src/lib/server/services/status-page.service.ts:695-719 getComponentStatuses *)
definition getComponentStatuses ::
  "ctx \<Rightarrow> statusPage_row \<Rightarrow> db \<Rightarrow> overall_status \<times> (id \<times> string) list \<times> (id \<times> id \<times> string \<times> id option \<times> component_status) list" where
  "getComponentStatuses cx page d = (
     let pageMonitors = getMonitors (p_id page) d;
         maintained = under_maintenance (map (\<lambda>(pm, m, s). m_id m) pageMonitors) (cx_now cx) d;
         components = map (\<lambda>(pm, m, s). (pm_id pm, m_id m, display_name pm m, pm_groupId pm,
           componentStatus (cx_now cx) maintained m s)) pageMonitors in
     (overallStatusOf (map (\<lambda>(_, _, _, _, s). s) components),
      map (\<lambda>g. (pg_id g, pg_name g)) (getGroups (p_id page) d), components))"

(* src/src/lib/server/services/status-page.service.ts:870-928 getPublicIncident *)
definition getPublicIncident ::
  "string \<Rightarrow> id \<Rightarrow> db \<Rightarrow> (public_page \<times> public_incident \<times> (id \<times> string) list) option" where
  "getPublicIncident slug incidentId d = (case findBySlug slug d of
      None \<Rightarrow> None
    | Some page \<Rightarrow>
        if \<not> p_isPublic page then None
        else let pageMonitors = getMonitors (p_id page) d;
                 monitorIds = map (\<lambda>(pm, m, s). m_id m) pageMonitors;
                 links = filter (\<lambda>im. im_incidentId im = incidentId \<and> im_monitorId im \<in> set monitorIds) (incidentMonitors d) in
          if monitorIds = [] \<or> links = [] then None
          else case incidentsWithUpdates (\<lambda>i. i_id i = incidentId \<and> i_organizationId i = p_organizationId page) i_startedAt d of
            [] \<Rightarrow> None
          | i # _ \<Rightarrow> Some (toPublicPage page, i,
              map (\<lambda>(pm, m, s). (pm_id pm, display_name pm m))
                (filter (\<lambda>(pm, m, s). m_id m \<in> im_monitorId ` set links) pageMonitors)))"

(* src/src/lib/server/services/status-page.service.ts:195-200 FeaturedUptime *)
record featured_uptime =
  fu_slug :: string
  fu_name :: string
  fu_days :: "day_bar list"
  fu_uptimePercent :: "rat option"

text \<open>Every check of a monitor on the page, once for each link to it.\<close>

(* src/src/lib/server/services/status-page.service.ts:955-973 getFeaturedUptime: rows *)
definition featured_checks :: "ctx \<Rightarrow> statusPage_row \<Rightarrow> db \<Rightarrow> monitorCheck_row list" where
  "featured_checks cx page d = (
     let since = (utcDay (cx_now cx) - (STATUS_PAGE_HISTORY_DAYS (cx_env cx) - 1)) * DAY_MS in
     map (fst \<circ> fst) (inner_join (\<lambda>(c, pm) m. m_id m = c_monitorId c \<and> m_organizationId m = p_organizationId page)
       (inner_join (\<lambda>c pm. pm_monitorId pm = c_monitorId c \<and> pm_statusPageId pm = p_id page)
         (filter (\<lambda>c. since \<le> c_checkedAt c) (monitorChecks d)) (statusPageMonitors d)) (monitors d)))"

(* src/src/lib/server/services/status-page.service.ts:930-1007 getFeaturedUptime *)
definition getFeaturedUptime :: "ctx \<Rightarrow> string \<Rightarrow> db \<Rightarrow> featured_uptime option" where
  "getFeaturedUptime cx slug d = (case findBySlug slug d of
      None \<Rightarrow> None
    | Some page \<Rightarrow>
        if \<not> p_isPublic page then None
        else let cs = featured_checks cx page d;
                 keys = recentUtcDayKeys (cx_now cx) (STATUS_PAGE_HISTORY_DAYS (cx_env cx));
                 counted = List.map_filter (counts_of cs) keys;
                 checks = sum_list (map dc_total counted);
                 up = sum_list (map dc_up counted) in
          Some \<lparr>fu_slug = p_slug page, fu_name = p_name page, fu_days = map (day_bar_of cs) keys,
            fu_uptimePercent = (if checks > 0 then Some (percent up checks) else None)\<rparr>)"

section \<open>What a page gives away\<close>

definition shown_monitors :: "public_view \<Rightarrow> public_monitor list" where
  "shown_monitors v = pv_ungrouped v @ concat (map gp_monitors (pv_groups v))"

text \<open>A component of the page: a link of this page to a monitor of the page's organization.\<close>

definition page_component :: "db \<Rightarrow> statusPage_row \<Rightarrow> id \<Rightarrow> id \<Rightarrow> bool" where
  "page_component d p k m \<longleftrightarrow> list_ex (\<lambda>pm. pm_id pm = k \<and> pm_statusPageId pm = p_id p \<and> pm_monitorId pm = m \<and>
     list_ex (\<lambda>mo. m_id mo = m \<and> m_organizationId mo = p_organizationId p) (monitors d)) (statusPageMonitors d)"

definition page_monitor :: "db \<Rightarrow> statusPage_row \<Rightarrow> id \<Rightarrow> bool" where
  "page_monitor d p m \<longleftrightarrow> list_ex (\<lambda>pm. page_component d p (pm_id pm) m) (statusPageMonitors d)"

lemma in_getMonitors:
  assumes "(pm, m, s) \<in> set (getMonitors k d)"
  shows "pm \<in> set (statusPageMonitors d)" "pm_statusPageId pm = k" "pm_monitorId pm = m_id m" "m \<in> set (monitors d)"
    "\<exists>p\<in>set (statusPages d). p_id p = k \<and> p_organizationId p = m_organizationId m"
  using assms by (auto simp: getMonitors_def order_asc_def)

lemma page_unique:
  "distinct (map p_id (statusPages d)) \<Longrightarrow> p \<in> set (statusPages d) \<Longrightarrow> q \<in> set (statusPages d) \<Longrightarrow> p_id p = p_id q \<Longrightarrow> p = q"
  by (auto simp: distinct_map dest: inj_onD)

lemma getMonitors_component:
  assumes "distinct (map p_id (statusPages d))" "p \<in> set (statusPages d)" "(pm, m, s) \<in> set (getMonitors (p_id p) d)"
  shows "page_component d p (pm_id pm) (m_id m)"
proof -
  note g = in_getMonitors [OF assms(3)]
  from g(5) page_unique [OF assms(1) _ assms(2)] have "p_organizationId p = m_organizationId m" by blast
  with g(1-4) show ?thesis by (auto simp: page_component_def list_ex_iff)
qed

lemma getMonitors_monitor:
  assumes "distinct (map p_id (statusPages d))" "p \<in> set (statusPages d)"
    and "k \<in> set (map (\<lambda>(pm, m, s). m_id m) (getMonitors (p_id p) d))"
  shows "page_monitor d p k"
proof -
  from assms(3) obtain pm m s where m: "(pm, m, s) \<in> set (getMonitors (p_id p) d)" "k = m_id m" by auto
  with getMonitors_component [OF assms(1,2) m(1)] in_getMonitors(1) [OF m(1)] show ?thesis
    by (auto simp: page_monitor_def list_ex_iff)
qed

lemma shown_component:
  assumes "b \<in> set (shown_monitors (publicView cx p d))"
  obtains pm m s maintained where "(pm, m, s) \<in> set (getMonitors (p_id p) d)" "b = buildMonitorStatus cx maintained d (pm, m, s)"
  using assms by (auto simp: shown_monitors_def publicView_def Let_def)

lemma window_rows_monitor: "(w, k) \<in> set (window_rows these ms d) \<Longrightarrow> k \<in> set ms \<and> w \<in> set (maintenanceWindows d)"
  by (auto simp: window_rows_def)

lemma views_affect:
  assumes "v \<in> set (toMaintenanceViews rows)"
  obtains w k where "(w, k) \<in> set rows" "mv_id v = w_id w" "set (mv_affectedMonitorIds v) \<subseteq> snd ` set rows"
proof -
  from assms obtain k group where g: "(k, group) \<in> set (group_by (\<lambda>(w, m). w_id w) rows)"
    and v: "mv_id v = w_id (fst (hd group))" "mv_affectedMonitorIds v = map snd group"
    by (auto simp: toMaintenanceViews_def Let_def)
  from g have group: "k \<in> (\<lambda>(w, m). w_id w) ` set rows" "group = filter (\<lambda>x. (case x of (w, m) \<Rightarrow> w_id w) = k) rows"
    by (auto simp: in_group_by_iff)
  then obtain x where "x \<in> set group" by (auto simp: image_iff)
  then have "group \<noteq> []" by auto
  then have "hd group \<in> set rows" using hd_in_set [of group] group(2) by auto
  then show ?thesis using that [of "fst (hd group)" "snd (hd group)"] v group(2) by auto
qed

text \<open>
  C27: A public page gives away only its own: it is shown for a public page, every component on it is a
  link of that page to a monitor of the page's organization, and every incident and maintenance
  window on it belongs to, respectively covers, one of those monitors.
\<close>

theorem public_page_shows_own:
  assumes "distinct (map p_id (statusPages d))" "getPublicStatusPage cx slug d = Some v"
  shows "list_ex (\<lambda>p. p_slug p = slug \<and> p_isPublic p \<and>
      list_all (\<lambda>b. list_ex (\<lambda>m. page_component d p (pb_id b) (m_id m)) (monitors d)) (shown_monitors v) \<and>
      list_all (\<lambda>i. list_ex (\<lambda>r. i_id r = pi_id i \<and> i_organizationId r = p_organizationId p \<and>
          list_ex (\<lambda>im. im_incidentId im = i_id r \<and> page_monitor d p (im_monitorId im)) (incidentMonitors d)) (incidents d))
        (pv_activeIncidents v @ pv_resolvedIncidents v) \<and>
      list_all (\<lambda>w. list_ex (\<lambda>wm. wm_windowId wm = mv_id w \<and> page_monitor d p (wm_monitorId wm)) (maintenanceWindowMonitors d))
        (pv_activeMaintenance v @ pv_upcomingMaintenance v)) (statusPages d)"
proof -
  from assms(2) obtain p where p: "findBySlug slug d = Some p" "p_isPublic p" and v: "v = publicView cx p d"
    by (auto simp: getPublicStatusPage_def split: option.splits if_splits)
  from first_row_filter_in [OF p(1) [unfolded findBySlug_def]] have in_d: "p \<in> set (statusPages d)" "p_slug p = slug" by simp_all
  let ?ms = "map (\<lambda>(pm, m, s). m_id m) (getMonitors (p_id p) d)"
  have "list_ex (\<lambda>m. page_component d p (pb_id b) (m_id m)) (monitors d)" if "b \<in> set (shown_monitors v)" for b
  proof -
    from that v obtain pm m s maintained where b: "(pm, m, s) \<in> set (getMonitors (p_id p) d)" "b = buildMonitorStatus cx maintained d (pm, m, s)"
      using shown_component by blast
    with getMonitors_component [OF assms(1) in_d(1) b(1)] in_getMonitors(4) [OF b(1)] show ?thesis
      by (auto simp: buildMonitorStatus_def Let_def list_ex_iff)
  qed
  moreover have "list_ex (\<lambda>r. i_id r = pi_id i \<and> i_organizationId r = p_organizationId p \<and>
      list_ex (\<lambda>im. im_incidentId im = i_id r \<and> page_monitor d p (im_monitorId im)) (incidentMonitors d)) (incidents d)"
    if "i \<in> set (pv_activeIncidents v @ pv_resolvedIncidents v)" for i
  proof -
    from that v obtain r where r: "r \<in> set (incidents d)" "onThisPage (p_organizationId p) ?ms d r" "pi_id i = i_id r"
      by (auto simp: publicView_def Let_def incidentsWithUpdates_def order_desc_def)
    then show ?thesis using getMonitors_monitor [OF assms(1) in_d(1)] unfolding onThisPage_def list_ex_iff by metis
  qed
  moreover have "list_ex (\<lambda>wm. wm_windowId wm = mv_id w \<and> page_monitor d p (wm_monitorId wm)) (maintenanceWindowMonitors d)"
    if "w \<in> set (pv_activeMaintenance v @ pv_upcomingMaintenance v)" for w
  proof -
    from that v obtain these w0 where w0: "w0 \<in> set (toMaintenanceViews (window_rows these ?ms d))" "mv_id w = mv_id w0"
      by (auto simp: publicView_def Let_def getActiveMaintenance_def getUpcomingMaintenance_def order_asc_def toPublicMaintenance_def)
    from views_affect [OF w0(1)] obtain y k where y: "(y, k) \<in> set (window_rows these ?ms d)" "mv_id w0 = w_id y" by metis
    from y(1) have "list_ex (\<lambda>wm. wm_windowId wm = w_id y \<and> wm_monitorId wm = k) (maintenanceWindowMonitors d)"
      by (auto simp: window_rows_def list_ex_iff)
    moreover have "page_monitor d p k" using getMonitors_monitor [OF assms(1) in_d(1)] window_rows_monitor [OF y(1)] by blast
    ultimately show ?thesis using w0(2) y(2) by (auto simp: list_ex_iff)
  qed
  ultimately show ?thesis using in_d p(2) by (auto simp only: list_ex_iff list_all_iff)
qed

section \<open>What the history claims\<close>

text \<open>A bar claims no more than the checks of its day say.\<close>

definition bar_honest :: "day_bar \<Rightarrow> bool" where
  "bar_honest b = (case db_uptimePercent b of
      None \<Rightarrow> db_status b = DayUnknown
    | Some u \<Rightarrow> 0 \<le> u \<and> u \<le> 100 \<and> db_status b \<noteq> DayUnknown \<and>
        (if db_status b = DayDown then u = 0 else if db_status b = DayPartial then 0 < u \<and> u < 100 else True))"

lemma percent_bounds: "up \<le> n \<Longrightarrow> 0 < n \<Longrightarrow> 0 \<le> percent up n \<and> percent up n \<le> 100"
  by (simp add: percent_def divide_le_eq)

lemma percent_inside: "0 < up \<Longrightarrow> up < n \<Longrightarrow> 0 < percent up n \<and> percent up n < 100"
  by (simp add: percent_def divide_less_eq)

lemma countStatus_le: "countStatus s cs \<le> length cs"
  by (simp add: countStatus_def)

lemma countStatus_two: "s \<noteq> t \<Longrightarrow> countStatus s cs + countStatus t cs \<le> length cs"
  unfolding countStatus_def by (induction cs) auto

lemma bar_of_honest: "bar_honest (day_bar_of cs day)"
proof (cases "counts_of cs day")
  case None
  then show ?thesis by (simp add: day_bar_of_def bar_honest_def)
next
  case (Some c)
  let ?t = "filter (\<lambda>c. utcDay (c_checkedAt c) = day) cs"
  from Some have c: "?t \<noteq> []" "dc_total c = length ?t" "dc_up c = countStatus Up ?t" "dc_down c = countStatus Down ?t"
    "dc_degraded c = countStatus Degraded ?t"
    by (auto simp: counts_of_def Let_def split: if_splits)
  then have total: "0 < dc_total c" "dc_up c \<le> dc_total c" "dc_up c + dc_down c \<le> dc_total c"
    using countStatus_le [of Up ?t] countStatus_two [of Up Down ?t] by simp_all
  from Some have bar: "day_bar_of cs day = \<lparr>db_date = day, db_status = dayStatus c, db_uptimePercent = Some (percent (dc_up c) (dc_total c))\<rparr>"
    by (simp add: day_bar_of_def)
  have "dayStatus c = DayDown \<Longrightarrow> dc_up c = 0" "dayStatus c = DayPartial \<Longrightarrow> 0 < dc_up c \<and> 0 < dc_down c" "dayStatus c \<noteq> DayUnknown"
    by (auto simp: dayStatus_def split: if_splits)
  with total percent_bounds [OF total(2,1)] percent_inside [of "dc_up c" "dc_total c"] show ?thesis
    by (auto simp: bar bar_honest_def percent_def)
qed

lemma recent_days: "recentUtcDayKeys now n = map (\<lambda>i. utcDay now - int i) (rev [0..<nat n])"
proof -
  have "utcDay (now - int i * DAY_MS) = utcDay now - int i" for i
    using div_mult_self1 [of DAY_MS now "- int i"] by (simp add: utcDay_def DAY_MS_def algebra_simps)
  then show ?thesis by (simp add: recentUtcDayKeys_def)
qed


text \<open>
  A page with one component of its own and a link to a monitor of another organization; one check just
  found the monitor down, and the page shows two days.
\<close>

definition example_page_ctx :: ctx where
  "example_page_ctx = (example_ctx 90000000)\<lparr>cx_env := [''UPPITY_STATUS_PAGE_HISTORY_DAYS'' \<mapsto> ''2'']\<rparr>"

definition example_public_db :: db where
  "example_public_db = empty_db\<lparr>
     monitors := [example_monitor ''m'', (example_monitor ''b'')\<lparr>m_organizationId := ''other''\<rparr>],
     monitorStatuses := [\<lparr>s_monitorId = ''m'', s_status = Down, s_lastCheckAt = Some 90000000, s_lastStatusChange = None,
       s_consecutiveFailures = 1, s_uptimePercent24h = None, s_avgResponseTimeMs24h = None, s_updatedAt = 0\<rparr>],
     monitorChecks := [example_check ''c'' Down 90000000],
     statusPages := [example_page],
     statusPageMonitors := map (\<lambda>m. \<lparr>pm_id = ''link'' @ m, pm_statusPageId = ''p'', pm_monitorId = m, pm_groupId = None,
       pm_displayName = None, pm_order = 0\<rparr>) [''m'', ''b'']\<rparr>"

lemma shown_ids:
  "map pb_id (shown_monitors (publicView cx p d)) =
     map (pm_id \<circ> fst) (filter (\<lambda>(pm, m, s). pm_groupId pm = None) (getMonitors (p_id p) d)) @
     concat (map (\<lambda>g. map (pm_id \<circ> fst) (filter (\<lambda>(pm, m, s). pm_groupId pm = Some (pg_id g)) (getMonitors (p_id p) d)))
       (getGroups (p_id p) d))"
  by (simp add: shown_monitors_def publicView_def Let_def buildMonitorStatus_def map_concat comp_def split_beta)

lemma example_shown: "map pb_id (shown_monitors (publicView example_page_ctx example_page example_public_db)) = [''linkm'']"
  unfolding shown_ids by code_simp

lemma public_page_shows_own_witness:
  "list_ex (\<lambda>p. p_slug p = ''acme'' \<and> p_isPublic p) (statusPages example_public_db) \<and>
   map pb_id (shown_monitors (publicView example_page_ctx example_page example_public_db)) = [''linkm'']"
proof -
  have "findBySlug ''acme'' example_public_db = Some example_page" "p_isPublic example_page" by code_simp+
  then have "getPublicStatusPage example_page_ctx ''acme'' example_public_db = Some (publicView example_page_ctx example_page example_public_db)"
    by (simp add: getPublicStatusPage_def)
  moreover have "distinct (map p_id (statusPages example_public_db))" by code_simp
  ultimately have "list_ex (\<lambda>p. p_slug p = ''acme'' \<and> p_isPublic p) (statusPages example_public_db)"
    using public_page_shows_own by (intro Bex_set [THEN iffD1]) (unfold list_ex_iff, fast)
  with example_shown show ?thesis by (rule conjI [rotated])
qed


end
