(* ===== verification/Formats.thy ===== *)
theory Formats
  imports Schema Config
begin

text \<open>
  How the program writes dates, durations, percentages and slugs: \<open>lib/format.ts\<close> and the dates of
  the platform underneath it.  The formats that follow a browser's language or zone are not here.
\<close>

section \<open>Dates\<close>

text \<open>The calendar date of a day number, by the months from March.\<close>

definition civil :: "int \<Rightarrow> int \<times> int \<times> int" where
  "civil day = (let z = day + 719468; era = z div 146097; doe = z - era * 146097;
     yoe = (doe - doe div 1460 + doe div 36524 - doe div 146096) div 365;
     doy = doe - (365 * yoe + yoe div 4 - yoe div 100);
     mp = (5 * doy + 2) div 153;
     m = (if mp < 10 then mp + 3 else mp - 9) in
     (yoe + era * 400 + (if m \<le> 2 then 1 else 0), m, doy - (153 * mp + 2) div 5 + 1))"

definition pad :: "nat \<Rightarrow> int \<Rightarrow> string" where
  "pad n i = (let s = show_nat (nat i) in replicate (n - length s) CHR ''0'' @ s)"

definition show_year :: "int \<Rightarrow> string" where
  "show_year y = (if 0 \<le> y \<and> y \<le> 9999 then pad 4 y
     else if y < 0 then CHR ''-'' # pad 6 (- y) else CHR ''+'' # pad 6 y)"

definition toISOString :: "time \<Rightarrow> string" where
  "toISOString t = (let day = t div 86400000; ms = t mod 86400000; (y, m, dd) = civil day in
     show_year y @ ''-'' @ pad 2 m @ ''-'' @ pad 2 dd @ ''T'' @ pad 2 (ms div 3600000) @ '':'' @
     pad 2 (ms div 60000 mod 60) @ '':'' @ pad 2 (ms div 1000 mod 60) @ ''.'' @ pad 3 (ms mod 1000) @ ''Z'')"

definition month_name :: "int \<Rightarrow> string" where
  "month_name m = [''Jan'', ''Feb'', ''Mar'', ''Apr'', ''May'', ''Jun'', ''Jul'', ''Aug'', ''Sept'', ''Oct'', ''Nov'', ''Dec''] ! nat (m - 1)"

(* src/src/lib/format.ts:77-88 formatUtcDateTime: with its formatter *)
definition formatUtcDateTime :: "time option \<Rightarrow> string" where
  "formatUtcDateTime date = (case date of
      None \<Rightarrow> ''-''
    | Some t \<Rightarrow> let (y, m, dd) = civil (t div 86400000); ms = t mod 86400000 in
        show_int dd @ '' '' @ month_name m @ '' '' @ show_int y @ '', '' @
        pad 2 (ms div 3600000) @ '':'' @ pad 2 (ms div 60000 mod 60) @ '' UTC'')"

text \<open>The epoch, a leap day, the last day of a year and the day before the epoch.\<close>

lemma civil_examples:
  "civil 0 = (1970, 1, 1)" "civil 19782 = (2024, 2, 29)" "civil 20818 = (2026, 12, 31)" "civil (-1) = (1969, 12, 31)"
  by code_simp+

lemma show_nat_digits: "list_all is_digit (show_nat n)"
proof (induction n rule: show_nat.induct)
  case (1 n)
  have "is_digit (char_of (48 + m))" if "m < 10" for m :: nat using that by (simp add: is_digit_def)
  from this [of n] this [of "n mod 10"] 1 show ?case by (subst show_nat.simps) simp
qed

lemma pad_digits: "list_all is_digit (pad n i)"
proof -
  have "is_digit CHR ''0''" by code_simp
  with show_nat_digits show ?thesis by (auto simp: pad_def Let_def list_all_iff)
qed

section \<open>Durations and figures\<close>

definition newline :: string where
  "newline = [char_of (10 :: nat)]"

(* src/src/lib/format.ts:53-72 formatDuration *)
definition formatDuration :: "time \<Rightarrow> time \<Rightarrow> time option \<Rightarrow> string" where
  "formatDuration now startedAt resolvedAt = (
     let minutes = (coalesce resolvedAt now - startedAt) div 60000; hours = minutes div 60; days = hours div 24 in
     if days > 0 then show_int days @ ''d '' @ show_int (hours mod 24) @ ''h''
     else if hours > 0 then show_int hours @ ''h '' @ show_int (minutes mod 60) @ ''m''
     else show_int minutes @ ''m'')"

(* src/src/lib/format.ts:90-97 formatResponseTime *)
definition formatResponseTime :: "int option \<Rightarrow> string" where
  "formatResponseTime ms = (case ms of None \<Rightarrow> ''-'' | Some n \<Rightarrow> show_int n @ ''ms'')"

(* src/src/lib/format.ts:99-107 formatInterval *)
definition formatInterval :: "int \<Rightarrow> string" where
  "formatInterval seconds = (if seconds < 60 then show_int seconds @ ''s''
     else if seconds < 3600 then show_int (seconds div 60) @ ''m''
     else show_int (seconds div 3600) @ ''h'')"

text \<open>The figures are not negative, so their fraction is what the whole part leaves.\<close>

definition fixed :: "nat \<Rightarrow> int \<Rightarrow> string" where
  "fixed digits n = show_int (n div 10 ^ digits) @ (if digits = 0 then [] else CHR ''.'' # pad digits (n mod 10 ^ digits))"

(* src/src/lib/format.ts:113-118 floorPercent *)
definition floorPercent :: "rat \<Rightarrow> nat \<Rightarrow> string" where
  "floorPercent percent digits = fixed digits \<lfloor>percent * 10 ^ digits + 1 / 1000000000\<rfloor>"

(* src/src/lib/format.ts:120-123 formatUptime *)
definition formatUptime :: "rat option \<Rightarrow> string" where
  "formatUptime percent = (case percent of None \<Rightarrow> ''-'' | Some p \<Rightarrow> floorPercent p 2 @ ''%'')"

(* src/src/lib/format.ts:245-251 truncate *)
definition truncateText :: "string \<Rightarrow> nat \<Rightarrow> string" where
  "truncateText str maxLength = (if length str \<le> maxLength then str else take (maxLength - 3) str @ ''...'')"

lemma truncateText_length: "3 \<le> n \<Longrightarrow> length (truncateText s n) \<le> n"
  by (auto simp: truncateText_def)

section \<open>Slugs\<close>

definition hyphen :: char where
  "hyphen = CHR ''-''"

definition is_word_char :: "char \<Rightarrow> bool" where
  "is_word_char c \<longleftrightarrow> (97 \<le> (of_char c :: nat) \<and> of_char c \<le> (122 :: nat)) \<or> is_digit c"

text \<open>Every run of the characters a class holds becomes one hyphen.\<close>

fun hyphenate :: "(char \<Rightarrow> bool) \<Rightarrow> string \<Rightarrow> string" where
  "hyphenate P [] = []"
| "hyphenate P (c # s) = (if P c then (if s \<noteq> [] \<and> P (hd s) then hyphenate P s else hyphen # hyphenate P s)
     else c # hyphenate P s)"

definition strip :: "char \<Rightarrow> string \<Rightarrow> string" where
  "strip c s = rev (dropWhile (\<lambda>x. x = c) (rev (dropWhile (\<lambda>x. x = c) s)))"

(* src/src/lib/format.ts:1-17 generateSlug *)
definition generateSlug :: "string \<Rightarrow> string" where
  "generateSlug value = strip hyphen (hyphenate (\<lambda>c. c = hyphen) (hyphenate is_space
     (filter (\<lambda>c. is_word_char c \<or> is_space c \<or> c = hyphen) (lower (trim value)))))"

definition slug_char :: "char \<Rightarrow> bool" where
  "slug_char c \<longleftrightarrow> is_word_char c \<or> c = hyphen"

text \<open>No two hyphens in a row.\<close>

fun single_hyphens :: "string \<Rightarrow> bool" where
  "single_hyphens (a # b # s) \<longleftrightarrow> \<not> (a = hyphen \<and> b = hyphen) \<and> single_hyphens (b # s)"
| "single_hyphens _ \<longleftrightarrow> True"

definition is_slug :: "string \<Rightarrow> bool" where
  "is_slug s \<longleftrightarrow> list_all slug_char s \<and> single_hyphens s \<and> (s = [] \<or> hd s \<noteq> hyphen \<and> last s \<noteq> hyphen)"

lemma hyphenate_chars: "set (hyphenate P s) \<subseteq> insert hyphen {c \<in> set s. \<not> P c}"
  by (induction P s rule: hyphenate.induct) auto

lemma hyphenate_Nil [simp]: "hyphenate P s = [] \<longleftrightarrow> s = []"
  by (induction P s rule: hyphenate.induct) auto

lemma hd_hyphenate: "s \<noteq> [] \<Longrightarrow> hd (hyphenate (\<lambda>c. c = hyphen) s) = hd s"
  by (induction "\<lambda>c. c = hyphen" s rule: hyphenate.induct) auto

lemma hyphenate_single: "single_hyphens (hyphenate (\<lambda>c. c = hyphen) s)"
proof (induction s)
  case (Cons c s)
  show ?case
  proof (cases "s = []")
    case False
    then obtain x xs where x: "hyphenate (\<lambda>c. c = hyphen) s = x # xs" by (cases "hyphenate (\<lambda>c. c = hyphen) s") auto
    with hd_hyphenate [OF False] have "x = hd s" by simp
    with Cons x False show ?thesis by (cases "hd s = hyphen"; cases "c = hyphen") simp_all
  qed simp
qed simp

lemma hyphenate_fixed: "single_hyphens s \<Longrightarrow> hyphenate (\<lambda>c. c = hyphen) s = s"
  by (induction s rule: single_hyphens.induct) auto

lemma hyphenate_none: "list_all (\<lambda>c. \<not> P c) s \<Longrightarrow> hyphenate P s = s"
  by (induction P s rule: hyphenate.induct) auto

lemma single_tl: "single_hyphens (a # s) \<Longrightarrow> single_hyphens s"
  by (cases s) auto

lemma single_drop: "single_hyphens s \<Longrightarrow> single_hyphens (dropWhile P s)"
  by (induction s) (auto dest: single_tl)

lemma single_butlast: "single_hyphens (s @ t) \<Longrightarrow> single_hyphens s"
  by (induction s rule: single_hyphens.induct) auto

lemma strip_suffix: "\<exists>t. dropWhile (\<lambda>x. x = c) s = strip c s @ t"
proof -
  let ?r = "rev (dropWhile (\<lambda>x. x = c) s)"
  have "rev (takeWhile (\<lambda>x. x = c) ?r @ dropWhile (\<lambda>x. x = c) ?r) = rev ?r"
    unfolding takeWhile_dropWhile_id ..
  then have "dropWhile (\<lambda>x. x = c) s = strip c s @ rev (takeWhile (\<lambda>x. x = c) ?r)"
    unfolding strip_def rev_append rev_rev_ident by (rule sym)
  then show ?thesis by blast
qed

lemma strip_single: "single_hyphens s \<Longrightarrow> single_hyphens (strip c s)"
  using strip_suffix [of c s] single_drop [of s "\<lambda>x. x = c"] single_butlast by metis

lemma strip_ends: "strip c s \<noteq> [] \<Longrightarrow> hd (strip c s) \<noteq> c \<and> last (strip c s) \<noteq> c"
proof
  assume ne: "strip c s \<noteq> []"
  from strip_suffix [of c s] obtain t where t: "dropWhile (\<lambda>x. x = c) s = strip c s @ t" by blast
  with ne have "dropWhile (\<lambda>x. x = c) s \<noteq> []" by simp
  from hd_dropWhile [OF this] t ne show "hd (strip c s) \<noteq> c" by simp
  from ne have "dropWhile (\<lambda>x. x = c) (rev (dropWhile (\<lambda>x. x = c) s)) \<noteq> []" by (simp add: strip_def)
  from hd_dropWhile [OF this] show "last (strip c s) \<noteq> c" by (simp add: strip_def last_rev)
qed

lemma strip_set: "set (strip c s) \<subseteq> set s"
  by (auto simp: strip_def dest!: set_dropWhileD)

lemma strip_fixed: "s = [] \<or> hd s \<noteq> c \<and> last s \<noteq> c \<Longrightarrow> strip c s = s"
proof (cases s)
  case (Cons a t)
  assume "s = [] \<or> hd s \<noteq> c \<and> last s \<noteq> c"
  with Cons have "a \<noteq> c" "hd (rev s) \<noteq> c" "rev s \<noteq> []" by (simp_all add: hd_rev del: rev.simps)
  then have "dropWhile (\<lambda>x. x = c) s = s" "dropWhile (\<lambda>x. x = c) (rev s) = rev s"
    using Cons by (simp, cases "rev s", auto)
  then show ?thesis by (simp add: strip_def)
qed (simp add: strip_def)

lemma word_char_facts:
  "is_word_char c \<Longrightarrow> \<not> is_space c" "is_word_char c \<Longrightarrow> lower_char c = c" "\<not> is_space hyphen" "lower_char hyphen = hyphen"
  by (auto simp: is_word_char_def is_space_def is_digit_def lower_char_def hyphen_def)

lemma slug_char_facts: "slug_char c \<Longrightarrow> \<not> is_space c" "slug_char c \<Longrightarrow> lower_char c = c"
  using word_char_facts by (auto simp: slug_char_def)

lemma trim_none: "list_all (\<lambda>c. \<not> is_space c) s \<Longrightarrow> trim s = s"
proof -
  assume ok: "list_all (\<lambda>c. \<not> is_space c) s"
  have same: "list_all (\<lambda>c. \<not> is_space c) t \<Longrightarrow> dropWhile is_space t = t" for t by (cases t) auto
  from ok have "list_all (\<lambda>c. \<not> is_space c) (rev s)" by (simp add: list_all_iff)
  with same [OF ok] same have "dropWhile is_space s = s" "dropWhile is_space (rev s) = rev s" by blast+
  then show ?thesis by (simp add: trim_def)
qed

text \<open>
  Whatever is typed, its slug is one: lower-case letters, digits and hyphens, no two hyphens in a
  row and none at an end.  A slug that is slugged again stays as it is.
\<close>

theorem slug_normal: "is_slug (generateSlug s) \<and> generateSlug (generateSlug s) = generateSlug s"
proof -
  let ?kept = "filter (\<lambda>c. is_word_char c \<or> is_space c \<or> c = hyphen) (lower (trim s))"
  let ?h = "hyphenate (\<lambda>c. c = hyphen) (hyphenate is_space ?kept)"
  have "set ?h \<subseteq> {c. slug_char c}"
    using hyphenate_chars [of "\<lambda>c. c = hyphen" "hyphenate is_space ?kept"] hyphenate_chars [of is_space ?kept]
    by (auto simp: slug_char_def)
  with strip_set [of hyphen ?h] have chars: "list_all slug_char (generateSlug s)"
    by (auto simp: generateSlug_def list_all_iff)
  have single: "single_hyphens (generateSlug s)" unfolding generateSlug_def by (intro strip_single hyphenate_single)
  have ends: "generateSlug s = [] \<or> hd (generateSlug s) \<noteq> hyphen \<and> last (generateSlug s) \<noteq> hyphen"
    unfolding generateSlug_def using strip_ends by blast
  have spaces: "list_all (\<lambda>c. \<not> is_space c) (generateSlug s)"
    using chars slug_char_facts by (auto simp: list_all_iff)
  have "lower (generateSlug s) = generateSlug s"
    using chars slug_char_facts by (auto simp: lower_def list_all_iff intro: map_idI)
  moreover have "filter (\<lambda>c. is_word_char c \<or> is_space c \<or> c = hyphen) (generateSlug s) = generateSlug s"
    using chars by (auto simp: list_all_iff slug_char_def filter_id_conv)
  ultimately have "generateSlug (generateSlug s) = generateSlug s"
    unfolding generateSlug_def [of "generateSlug s"] trim_none [OF spaces]
    by (simp add: hyphenate_none [OF spaces] hyphenate_fixed [OF single] strip_fixed [OF ends])
  with chars single ends show ?thesis by (simp add: is_slug_def)
qed

end
