(* ===== verification/AuditLog.thy ===== *)
theory AuditLog
  imports Formats
begin

text \<open>
  The audit log, \<open>lib/server/services/audit.service.ts\<close>: the row every administrative action writes,
  the pages of the list, and the export as comma-separated values.

  JSON is printed as the platform prints it, on the characters and numbers of the model.
\<close>

section \<open>Writing\<close>

(* src/src/lib/server/services/audit.service.ts:13-18 Actor *)
record actor =
  ac_id :: id
  ac_email :: string
  ac_ip :: "string option"
  ac_userAgent :: "string option"

(* src/src/lib/server/services/audit.service.ts:20-26 AuditEntry *)
record audit_entry =
  ae_action :: string
  ae_targetType :: "string option"
  ae_targetId :: "string option"
  ae_targetLabel :: "string option"
  ae_metadata :: "json option"

definition audit_row :: "ctx \<Rightarrow> actor \<Rightarrow> audit_entry \<Rightarrow> db \<Rightarrow> auditLog_row" where
  "audit_row cx a e d = \<lparr>au_id = cx_nanoid cx (drawn d), au_actorId = Some (ac_id a), au_actorEmail = ac_email a,
     au_action = ae_action e, au_targetType = ae_targetType e, au_targetId = ae_targetId e,
     au_targetLabel = ae_targetLabel e, au_metadata = ae_metadata e, au_ipAddress = ac_ip a,
     au_userAgent = ac_userAgent a, au_createdAt = cx_now cx\<rparr>"

(* src/src/lib/server/services/audit.service.ts:57-86 record *)
definition audit :: "ctx \<Rightarrow> actor \<Rightarrow> audit_entry \<Rightarrow> db \<Rightarrow> db" where
  "audit cx a e d = (draw d)\<lparr>auditLogs := auditLogs d @ [audit_row cx a e d]\<rparr>"

section \<open>Reading\<close>

(* src/src/lib/constants/audit.ts:38-39 AUDIT_PAGE_SIZE *)
definition AUDIT_PAGE_SIZE :: nat where
  "AUDIT_PAGE_SIZE = 50"

(* src/src/lib/constants/audit.ts:44-45 AUDIT_EXPORT_LIMIT *)
definition AUDIT_EXPORT_LIMIT :: nat where
  "AUDIT_EXPORT_LIMIT = 50000"

(* src/src/lib/server/services/audit.service.ts:28-37 AuditFilters *)
record audit_filters =
  af_action :: "string option"
  af_actorId :: "string option"
  af_targetType :: "string option"
  af_targetId :: "string option"
  af_from :: "time option"
  af_to :: "time option"
  af_limit :: "nat option"
  af_offset :: "nat option"

text \<open>An empty filter is no filter.\<close>

definition wanted :: "string option \<Rightarrow> (string \<Rightarrow> bool) \<Rightarrow> bool" where
  "wanted f P \<longleftrightarrow> (case f of None \<Rightarrow> True | Some x \<Rightarrow> x = [] \<or> P x)"

(* src/src/lib/server/services/audit.service.ts:88-97 buildWhere *)
definition buildWhere :: "audit_filters \<Rightarrow> auditLog_row \<Rightarrow> bool" where
  "buildWhere f r \<longleftrightarrow> wanted (af_action f) (\<lambda>x. au_action r = x) \<and> wanted (af_actorId f) (\<lambda>x. au_actorId r = Some x) \<and>
     wanted (af_targetType f) (\<lambda>x. au_targetType r = Some x) \<and> wanted (af_targetId f) (\<lambda>x. au_targetId r = Some x) \<and>
     (case af_from f of None \<Rightarrow> True | Some t \<Rightarrow> t \<le> au_createdAt r) \<and>
     (case af_to f of None \<Rightarrow> True | Some t \<Rightarrow> au_createdAt r \<le> t)"

definition newest_first :: "auditLog_row list \<Rightarrow> auditLog_row list" where
  "newest_first rs = rev (order_asc (\<lambda>r. (au_createdAt r, au_id r)) rs)"

(* src/src/lib/server/services/audit.service.ts:99-116 list *)
definition audit_list :: "audit_filters \<Rightarrow> db \<Rightarrow> auditLog_row list \<times> nat" where
  "audit_list f d = (let rows = filter (buildWhere f) (auditLogs d) in
     (take (coalesce (af_limit f) AUDIT_PAGE_SIZE) (drop (coalesce (af_offset f) 0) (newest_first rows)), length rows))"

section \<open>JSON\<close>

definition hex_digit :: "nat \<Rightarrow> char" where
  "hex_digit n = (if n < 10 then char_of (48 + n) else char_of (87 + n))"

definition escape :: "char \<Rightarrow> string" where
  "escape c = (let n = of_char c :: nat in
     if n = 34 then [char_of (92 :: nat), c] else if n = 92 then [c, c]
     else if n = 8 then [char_of (92 :: nat), CHR ''b''] else if n = 9 then [char_of (92 :: nat), CHR ''t'']
     else if n = 10 then [char_of (92 :: nat), CHR ''n''] else if n = 12 then [char_of (92 :: nat), CHR ''f'']
     else if n = 13 then [char_of (92 :: nat), CHR ''r'']
     else if n < 32 then [char_of (92 :: nat), CHR ''u'', CHR ''0'', CHR ''0'', hex_digit (n div 16), hex_digit (n mod 16)]
     else [c])"

definition quote :: char where
  "quote = char_of (34 :: nat)"

definition json_string :: "string \<Rightarrow> string" where
  "json_string s = quote # concat (map escape s) @ [quote]"

fun stringify :: "json \<Rightarrow> string" where
  "stringify JNull = ''null''"
| "stringify (JBool b) = (if b then ''true'' else ''false'')"
| "stringify (JNum n) = show_int n"
| "stringify (JStr s) = json_string s"
| "stringify (JArr xs) = ''['' @ join '','' (map stringify xs) @ '']''"
| "stringify (JObj kvs) = ''{'' @ join '','' (map (\<lambda>(k, v). json_string k @ '':'' @ stringify v) kvs) @ ''}''"

section \<open>Comma-separated values\<close>

(* src/src/lib/server/services/audit.service.ts:39-40 CSV_HEADER *)
definition CSV_HEADER :: string where
  "CSV_HEADER = ''created_at,actor_email,action,target_type,target_id,target_label,ip_address,metadata''"

definition special :: "char \<Rightarrow> bool" where
  "special c \<longleftrightarrow> c = quote \<or> c = CHR '','' \<or> c = char_of (10 :: nat) \<or> c = char_of (13 :: nat)"

(* src/src/lib/server/services/audit.service.ts:42-47 csvCell *)
definition csvCell :: "string \<Rightarrow> string" where
  "csvCell raw = (if \<not> list_ex special raw then raw
     else quote # concat (map (\<lambda>c. if c = quote then [quote, quote] else [c]) raw) @ [quote])"

text \<open>What a row exports: an absent value is an empty cell.\<close>

definition export_values :: "auditLog_row \<Rightarrow> string list" where
  "export_values r = [au_actorEmail r, au_action r, coalesce (au_targetType r) [], coalesce (au_targetId r) [],
     coalesce (au_targetLabel r) [], coalesce (au_ipAddress r) [], coalesce (map_option stringify (au_metadata r)) []]"

(* src/src/lib/server/services/audit.service.ts:118-139 exportCsv *)
definition exportCsv :: "audit_filters \<Rightarrow> db \<Rightarrow> string" where
  "exportCsv f d = (let entries = fst (audit_list (f\<lparr>af_limit := Some AUDIT_EXPORT_LIMIT, af_offset := Some 0\<rparr>) d);
     rows = map (\<lambda>e. join '','' (toISOString (au_createdAt e) # map csvCell (export_values e))) entries in
     join newline (CSV_HEADER # rows) @ newline)"

section \<open>Reading an export back\<close>

text \<open>A reader of RFC 4180, the reference the export is written for.\<close>

datatype csv_state = FieldStart | Plain | Quoted | Closing

fun read_csv :: "csv_state \<Rightarrow> string \<Rightarrow> string list \<Rightarrow> string \<Rightarrow> string list list" where
  "read_csv st acc row [] = (if st = FieldStart \<and> row = [] then [] else [row @ [acc]])"
| "read_csv FieldStart acc row (c # s) = (if c = quote then read_csv Quoted [] row s
     else if c = CHR '','' then read_csv FieldStart [] (row @ [[]]) s
     else if [c] = newline then (row @ [[]]) # read_csv FieldStart [] [] s
     else read_csv Plain [c] row s)"
| "read_csv Plain acc row (c # s) = (if c = CHR '','' then read_csv FieldStart [] (row @ [acc]) s
     else if [c] = newline then (row @ [acc]) # read_csv FieldStart [] [] s
     else read_csv Plain (acc @ [c]) row s)"
| "read_csv Quoted acc row (c # s) = (if c = quote then read_csv Closing acc row s
     else read_csv Quoted (acc @ [c]) row s)"
| "read_csv Closing acc row (c # s) = (if c = quote then read_csv Quoted (acc @ [quote]) row s
     else if c = CHR '','' then read_csv FieldStart [] (row @ [acc]) s
     else if [c] = newline then (row @ [acc]) # read_csv FieldStart [] [] s
     else read_csv Plain (acc @ [c]) row s)"

text \<open>What a field leaves to read, by the character that ends it.\<close>

definition field_end :: "char \<Rightarrow> string \<Rightarrow> string list \<Rightarrow> string \<Rightarrow> string list list" where
  "field_end t acc row s = (if t = CHR '','' then read_csv FieldStart [] (row @ [acc]) s
     else (row @ [acc]) # read_csv FieldStart [] [] s)"

definition ends_field :: "char \<Rightarrow> bool" where
  "ends_field t \<longleftrightarrow> t = CHR '','' \<or> [t] = newline"

lemma quote_apart: "quote \<noteq> CHR '',''" "[quote] \<noteq> newline" "char_of (10 :: nat) \<noteq> CHR '',''"
  by code_simp+

lemma plain_chars: "\<not> special CHR ''-''" "\<not> special CHR '':''" "\<not> special CHR ''.''" "\<not> special CHR ''T''"
  "\<not> special CHR ''Z''" "\<not> special CHR ''+''"
  by code_simp+

lemma ends_not_quote: "ends_field t \<Longrightarrow> t \<noteq> quote"
  using quote_apart by (auto simp: ends_field_def)

lemma read_plain:
  "ends_field t \<Longrightarrow> \<not> list_ex special cs \<Longrightarrow> read_csv Plain acc row (cs @ t # s) = field_end t (acc @ cs) row s"
proof (induction cs arbitrary: acc)
  case Nil
  then show ?case by (auto simp: field_end_def ends_field_def)
next
  case (Cons c cs)
  then show ?case by (auto simp: special_def newline_def)
qed

lemma read_quoted:
  "ends_field t \<Longrightarrow> read_csv Quoted acc row
     (concat (map (\<lambda>c. if c = quote then [quote, quote] else [c]) raw) @ quote # t # s) = field_end t (acc @ raw) row s"
proof (induction raw arbitrary: acc)
  case Nil
  then show ?case using ends_not_quote by (auto simp: field_end_def ends_field_def)
qed simp

lemma read_cell: "ends_field t \<Longrightarrow> read_csv FieldStart [] row (csvCell raw @ t # s) = field_end t raw row s"
proof (cases "list_ex special raw")
  case True
  assume "ends_field t"
  from read_quoted [OF this, of "[]" row raw s] True show ?thesis by (simp add: csvCell_def)
next
  case False
  assume t: "ends_field t"
  show ?thesis
  proof (cases raw)
    case Nil
    with t ends_not_quote [OF t] show ?thesis by (auto simp: csvCell_def field_end_def ends_field_def)
  next
    case (Cons c cs)
    with False have "c \<noteq> quote" "c \<noteq> CHR '',''" "[c] \<noteq> newline" "\<not> list_ex special cs"
      by (auto simp: special_def newline_def)
    with Cons False read_plain [OF t, of cs "[c]" row s] show ?thesis by (simp add: csvCell_def)
  qed
qed

lemma read_row:
  "cells \<noteq> [] \<Longrightarrow> read_csv FieldStart [] row (join '','' (map csvCell cells) @ newline @ s) = (row @ cells) # read_csv FieldStart [] [] s"
proof (induction cells arbitrary: row)
  case (Cons c cells)
  have nl: "ends_field (char_of (10 :: nat))" by (simp add: ends_field_def newline_def)
  show ?case
  proof (cases cells)
    case Nil
    with read_cell [OF nl, of row c s] quote_apart show ?thesis by (simp add: newline_def field_end_def)
  next
    case (Cons x xs)
    have "ends_field CHR '',''" by (simp add: ends_field_def)
    from read_cell [OF this] Cons Cons.IH show ?thesis by (simp add: field_end_def)
  qed
qed simp

lemma read_rows:
  "list_all (\<lambda>r. r \<noteq> []) rows \<Longrightarrow> rows \<noteq> [] \<Longrightarrow>
   read_csv FieldStart [] [] (join newline (map (\<lambda>cells. join '','' (map csvCell cells)) rows) @ newline) = rows"
proof (induction rows)
  case (Cons r rows)
  show ?case
  proof (cases rows)
    case Nil
    with Cons.prems read_row [of r "[]" "[]"] show ?thesis by simp
  next
    case (Cons x xs)
    with Cons.IH Cons.prems read_row [of r "[]" "join newline (map (\<lambda>cells. join '','' (map csvCell cells)) rows) @ newline"]
    show ?thesis by simp
  qed
qed simp

lemma digits_plain: "list_all is_digit s \<Longrightarrow> \<not> list_ex special s"
  by (auto simp: list_all_iff list_ex_iff is_digit_def special_def quote_def)

lemma iso_plain: "\<not> list_ex special (toISOString t)"
proof -
  have "\<not> list_ex special (pad n i)" for n i using digits_plain [OF pad_digits] .
  then show ?thesis by (simp add: plain_chars toISOString_def Let_def split_beta show_year_def)
qed

definition header_values :: "string list" where
  "header_values = [''created_at'', ''actor_email'', ''action'', ''target_type'', ''target_id'', ''target_label'',
     ''ip_address'', ''metadata'']"

lemma header_cells: "CSV_HEADER = join '','' (map csvCell header_values)"
  by code_simp

text \<open>
  C40: An export loses nothing: a reader of comma-separated values finds in it the header and then, for
  every exported entry, newest first, exactly the values of its row, whatever commas, quotes and
  line breaks they contain.
\<close>

theorem export_reads_back:
  "read_csv FieldStart [] [] (exportCsv f d) =
     header_values # map (\<lambda>r. toISOString (au_createdAt r) # export_values r)
       (take AUDIT_EXPORT_LIMIT (newest_first (filter (buildWhere f) (auditLogs d))))"
proof -
  let ?es = "take AUDIT_EXPORT_LIMIT (newest_first (filter (buildWhere f) (auditLogs d)))"
  let ?rows = "header_values # map (\<lambda>r. toISOString (au_createdAt r) # export_values r) ?es"
  have same: "buildWhere (f\<lparr>af_limit := l, af_offset := n\<rparr>) = buildWhere f" for l n
    by (simp add: buildWhere_def fun_eq_iff)
  have iso: "csvCell (toISOString t) = toISOString t" for t by (simp add: csvCell_def iso_plain)
  have "exportCsv f d = join newline (map (\<lambda>cells. join '','' (map csvCell cells)) ?rows) @ newline"
    by (simp add: exportCsv_def audit_list_def Let_def same header_cells iso comp_def)
  then show ?thesis by (simp only:) (rule read_rows, simp_all add: list_all_iff header_values_def)
qed

section \<open>Paging\<close>

lemma pages_take: "concat (map (\<lambda>k. take n (drop (k * n) xs)) [0..<m]) = take (m * n) xs"
proof (induction m)
  case (Suc m)
  have "take (m * n) xs @ take n (drop (m * n) xs) = take (m * n + n) xs" by (simp add: take_add)
  with Suc show ?case by (simp add: add.commute)
qed simp

text \<open>
  Paging through the audit log misses and repeats nothing: the pages one after another are the
  matching rows, each once, the newest first, and every page reports their number.
\<close>

theorem pages_cover_log:
  assumes "snd (audit_list f d) \<le> m * n"
  shows "concat (map (\<lambda>k. fst (audit_list (f\<lparr>af_limit := Some n, af_offset := Some (k * n)\<rparr>) d)) [0..<m]) =
      newest_first (filter (buildWhere f) (auditLogs d)) \<and>
    sorted (rev (map (\<lambda>r. (au_createdAt r, au_id r)) (newest_first (filter (buildWhere f) (auditLogs d)))))"
proof -
  have same: "buildWhere (f\<lparr>af_limit := l, af_offset := k\<rparr>) = buildWhere f" for l k
    by (simp add: buildWhere_def fun_eq_iff)
  have "length (newest_first (filter (buildWhere f) (auditLogs d))) \<le> m * n"
    using assms by (simp add: audit_list_def Let_def newest_first_def)
  then show ?thesis
    by (simp add: audit_list_def Let_def same pages_take newest_first_def rev_map sorted_order_asc)
qed

text \<open>Two rows, one with a comma, a quote and a line break in it.\<close>

definition example_actor :: actor where
  "example_actor = \<lparr>ac_id = ''u'', ac_email = ''ops@uppity.dev'', ac_ip = None, ac_userAgent = None\<rparr>"

definition example_log_db :: db where
  "example_log_db = audit (example_ctx 2000) example_actor \<lparr>ae_action = ''user.unban'', ae_targetType = Some ''user'',
       ae_targetId = Some ''v'', ae_targetLabel = None, ae_metadata = None\<rparr>
     (audit (example_ctx 1000) example_actor \<lparr>ae_action = ''user.ban'', ae_targetType = Some ''user'', ae_targetId = Some ''v'',
       ae_targetLabel = None, ae_metadata = Some (JObj [(''reason'', JStr (''spam,'' @ [quote] @ newline))])\<rparr> empty_db)"

definition no_filter :: audit_filters where
  "no_filter = \<lparr>af_action = None, af_actorId = None, af_targetType = None, af_targetId = None, af_from = None,
     af_to = None, af_limit = None, af_offset = None\<rparr>"

lemma pages_cover_log_witness:
  "concat (map (\<lambda>k. fst (audit_list (no_filter\<lparr>af_limit := Some 1, af_offset := Some (k * 1)\<rparr>) example_log_db)) [0..<2]) =
     newest_first (filter (buildWhere no_filter) (auditLogs example_log_db)) \<and>
   map au_action (newest_first (filter (buildWhere no_filter) (auditLogs example_log_db))) = [''user.unban'', ''user.ban'']"
proof -
  have "snd (audit_list no_filter example_log_db) \<le> 2 * 1" by code_simp
  moreover have "map au_action (newest_first (filter (buildWhere no_filter) (auditLogs example_log_db))) = [''user.unban'', ''user.ban'']"
    by code_simp
  ultimately show ?thesis using pages_cover_log by blast
qed

end
