(* ===== verification/Stats.thy ===== *)
theory Stats
  imports Processor Plans Mail
begin

text \<open>
  The statistics jobs, \<open>worker/monitor/stats.ts\<close>: the daily row of a monitor, its rolling 24 hours
  and the cleanup of old check rows by the retention window of each organization's plan.

  Averages and percentiles are exact rationals rounded the way the database rounds them: away from
  zero for a numeric average, to even for the double of \<open>percentile_cont\<close>.  The percentages are
  the exact quotients, before the single precision column rounds them.
\<close>

section \<open>Rolling up checks\<close>

record roll_up =
  ru_total :: nat
  ru_successful :: nat
  ru_failed :: nat
  ru_degraded :: nat
  ru_avg :: "int option"
  ru_min :: "int option"
  ru_max :: "int option"
  ru_p95 :: "int option"

text \<open>\<open>round\<close> of a numeric that is not negative, and of a double.\<close>

definition round_half_up :: "rat \<Rightarrow> int" where
  "round_half_up q = \<lfloor>q + 1 / 2\<rfloor>"

definition round_half_even :: "rat \<Rightarrow> int" where
  "round_half_even q = (let n = \<lfloor>q\<rfloor>; f = q - of_int n in
     if f < 1 / 2 then n else if 1 / 2 < f then n + 1 else if even n then n else n + 1)"

text \<open>The mean, and \<open>percentile_cont(0.95)\<close>, which interpolates between the two values around its place.\<close>

definition mean :: "int list \<Rightarrow> rat" where
  "mean xs = of_int (sum_list xs) / of_nat (length xs)"

definition percentile_95 :: "int list \<Rightarrow> rat" where
  "percentile_95 xs = (let ys = sort xs; place = (of_nat (length xs - 1) :: rat) * 95 / 100;
     k = nat \<lfloor>place\<rfloor>; f = place - of_nat k; a = of_int (ys ! k);
     b = of_int (ys ! min (Suc k) (length xs - 1)) in
     a + f * (b - a))"

definition if_any :: "(int list \<Rightarrow> int) \<Rightarrow> int list \<Rightarrow> int option" where
  "if_any f xs = (if xs = [] then None else Some (f xs))"

text \<open>The response times that count: those of checks that were not down and have one.\<close>

definition not_down :: "monitorCheck_row \<Rightarrow> bool" where
  "not_down c \<longleftrightarrow> c_status c \<noteq> Down"

definition response_times :: "monitorCheck_row list \<Rightarrow> int list" where
  "response_times cs = List.map_filter c_responseTimeMs (filter not_down cs)"

(* src/src/worker/monitor/stats.ts:37-70 rollUpChecks *)
definition rollUpChecks :: "(monitorCheck_row \<Rightarrow> bool) \<Rightarrow> db \<Rightarrow> roll_up" where
  "rollUpChecks P d = (let cs = filter P (monitorChecks d); ms = response_times cs in
     \<lparr>ru_total = length cs, ru_successful = length (filter not_down cs),
      ru_failed = length (filter (\<lambda>c. c_status c = Down) cs),
      ru_degraded = length (filter (\<lambda>c. c_status c = Degraded) cs),
      ru_avg = if_any (\<lambda>xs. round_half_up (mean xs)) ms, ru_min = if_any (\<lambda>xs. Min (set xs)) ms,
      ru_max = if_any (\<lambda>xs. Max (set xs)) ms, ru_p95 = if_any (\<lambda>xs. round_half_even (percentile_95 xs)) ms\<rparr>)"

definition percent_of :: "nat \<Rightarrow> nat \<Rightarrow> rat" where
  "percent_of part whole = of_nat part / of_nat whole * 100"

section \<open>Daily rows\<close>

definition day_start :: "time \<Rightarrow> time" where
  "day_start t = t div DAY_MS * DAY_MS"

definition checked_between :: "id \<Rightarrow> time \<Rightarrow> time \<Rightarrow> monitorCheck_row \<Rightarrow> bool" where
  "checked_between k from til c \<longleftrightarrow> c_monitorId c = k \<and> from \<le> c_checkedAt c \<and> c_checkedAt c < til"

definition touched_day :: "time \<Rightarrow> time \<Rightarrow> incident_row \<Rightarrow> bool" where
  "touched_day from til i \<longleftrightarrow> i_startedAt i < til \<and>
     (incidentActive i \<or> from \<le> i_startedAt i \<or> on_some (\<lambda>r. from \<le> r) (i_resolvedAt i))"

definition incidents_that_day :: "id \<Rightarrow> time \<Rightarrow> time \<Rightarrow> db \<Rightarrow> nat" where
  "incidents_that_day k from til d = length (filter (\<lambda>(i, im). im_monitorId im = k \<and> touched_day from til i)
     (inner_join (\<lambda>i im. i_id i = im_incidentId im) (incidents d) (incidentMonitors d)))"

definition daily_key :: "monitorDailyStats_row \<Rightarrow> id \<times> time" where
  "daily_key s = (d_monitorId s, d_date s)"

definition daily_row :: "ctx \<Rightarrow> id \<Rightarrow> time \<Rightarrow> roll_up \<Rightarrow> nat \<Rightarrow> db \<Rightarrow> monitorDailyStats_row" where
  "daily_row cx k from r n d = \<lparr>d_id = cx_nanoid cx (drawn d), d_monitorId = k, d_date = from,
     d_totalChecks = int (ru_total r), d_successfulChecks = int (ru_successful r),
     d_failedChecks = int (ru_failed r), d_degradedChecks = int (ru_degraded r),
     d_avgResponseTimeMs = ru_avg r, d_minResponseTimeMs = ru_min r, d_maxResponseTimeMs = ru_max r,
     d_p95ResponseTimeMs = ru_p95 r, d_uptimePercent = Some (percent_of (ru_successful r) (ru_total r)),
     d_incidentCount = int n\<rparr>"

(* src/src/worker/monitor/stats.ts:72-156 aggregateDailyStats *)
definition aggregateDailyStats :: "ctx \<Rightarrow> id \<Rightarrow> time \<Rightarrow> db \<Rightarrow> db" where
  "aggregateDailyStats cx k date d = (let from = day_start date; til = from + DAY_MS;
     r = rollUpChecks (checked_between k from til) d in
     if ru_total r = 0 then d
     else let row = daily_row cx k from r (incidents_that_day k from til d) d in
       (draw d)\<lparr>monitorDailyStats := upsert daily_key (\<lambda>s. row\<lparr>d_id := d_id s\<rparr>) row (monitorDailyStats d)\<rparr>)"

(* src/src/worker/monitor/stats.ts:158-169 aggregateAllMonitorsForDate *)
definition aggregateAllMonitorsForDate :: "ctx \<Rightarrow> time \<Rightarrow> db \<Rightarrow> nat \<times> db" where
  "aggregateAllMonitorsForDate cx date d =
     (length (monitors d), fold (\<lambda>m. aggregateDailyStats cx (m_id m) date) (monitors d) d)"

(* src/src/worker/monitor/stats.ts:171-178 aggregateYesterday *)
definition aggregateYesterday :: "ctx \<Rightarrow> db \<Rightarrow> nat \<times> db" where
  "aggregateYesterday cx d = aggregateAllMonitorsForDate cx (cx_now cx - DAY_MS) d"

section \<open>The rolling day\<close>

(* src/src/worker/monitor/stats.ts:180-209 updateMonitor24hStats *)
definition updateMonitor24hStats :: "ctx \<Rightarrow> id \<Rightarrow> db \<Rightarrow> db" where
  "updateMonitor24hStats cx k d = (
     let r = rollUpChecks (\<lambda>c. c_monitorId c = k \<and> cx_now cx - DAY_MS \<le> c_checkedAt c) d in
     if ru_total r = 0 then d
     else d\<lparr>monitorStatuses := update_where (\<lambda>s. s_monitorId s = k)
       (\<lambda>s. s\<lparr>s_uptimePercent24h := Some (percent_of (ru_successful r) (ru_total r)),
          s_avgResponseTimeMs24h := ru_avg r, s_updatedAt := cx_now cx\<rparr>) (monitorStatuses d)\<rparr>)"

(* src/src/worker/monitor/stats.ts:211-225 updateAll24hStats *)
definition updateAll24hStats :: "ctx \<Rightarrow> db \<Rightarrow> nat \<times> db" where
  "updateAll24hStats cx d = (let active = filter m_active (monitors d) in
     (length active, fold (\<lambda>m. updateMonitor24hStats cx (m_id m)) active d))"

section \<open>Retention\<close>

(* src/src/worker/monitor/stats.ts:291-296 cutoffFor *)
definition cutoffFor :: "ctx \<Rightarrow> int \<Rightarrow> time" where
  "cutoffFor cx days = cx_now cx - days * DAY_MS"

(* src/src/worker/monitor/stats.ts:273-288 deleteChecksBefore *)
definition deleteChecksBefore :: "time \<Rightarrow> (id \<Rightarrow> bool) \<Rightarrow> db \<Rightarrow> nat \<times> db" where
  "deleteChecksBefore cutoff scoped d = (
     let gone = (\<lambda>c. c_checkedAt c < cutoff \<and> scoped (c_monitorId c)) in
     (length (filter gone (monitorChecks d)), d\<lparr>monitorChecks := delete_where gone (monitorChecks d)\<rparr>))"

text \<open>The plans a monitor counts under: its subscription's, or the default without one.\<close>

definition effectivePlans :: "db \<Rightarrow> monitor_row \<Rightarrow> string list" where
  "effectivePlans d m = (let subs = filter (\<lambda>s. sub_organizationId s = m_organizationId m) (subscriptions d) in
     if subs = [] then [DEFAULT_PLAN_ID] else map sub_planId subs)"

definition planFilter :: "retention_group list \<Rightarrow> retention_group \<Rightarrow> string \<Rightarrow> bool" where
  "planFilter groups g p = (
     let explicitPlanIds = concat (map rg_planIds (filter (\<lambda>g. \<not> rg_catchAll g) groups)) in
     if \<not> rg_catchAll g then p \<in> set (rg_planIds g)
     else if explicitPlanIds \<noteq> [] then p \<notin> set explicitPlanIds
     else True)"

definition scopedMonitors :: "(string \<Rightarrow> bool) \<Rightarrow> db \<Rightarrow> id \<Rightarrow> bool" where
  "scopedMonitors P d k \<longleftrightarrow> list_ex (\<lambda>m. m_id m = k \<and> list_ex P (effectivePlans d m)) (monitors d)"

definition sweep_group :: "ctx \<Rightarrow> retention_group list \<Rightarrow> retention_group \<Rightarrow> nat \<times> db \<Rightarrow> nat \<times> db" where
  "sweep_group cx groups g acc = (let (n, d) = acc;
     (k, d') = deleteChecksBefore (cutoffFor cx (rg_days g)) (scopedMonitors (planFilter groups g) d) d in
     (n + k, d'))"

(* src/src/worker/monitor/stats.ts:227-271 cleanupOldChecks *)
definition cleanupOldChecks :: "ctx \<Rightarrow> int \<Rightarrow> db \<Rightarrow> nat \<times> db" where
  "cleanupOldChecks cx fallbackDays d = (
     if isSelfHosted (cx_env cx) then deleteChecksBefore (cutoffFor cx fallbackDays) (\<lambda>_. True) d
     else let groups = retentionGroups fallbackDays in fold (sweep_group cx groups) groups (0, d))"

section \<open>What the retention groups come to\<close>

text \<open>The plan a plan id stands for: a retired id counts as the default plan.\<close>

definition plan_for :: "string \<Rightarrow> plan" where
  "plan_for p = coalesce (first_row (filter (\<lambda>q. plan_id q = p) (map snd PLANS))) FREE_PLAN"

lemma plan_for_known: "q \<in> snd ` set PLANS \<Longrightarrow> plan_for (plan_id q) = q"
proof -
  assume q: "q \<in> snd ` set PLANS"
  then have "q \<in> set (map snd PLANS)" by (simp only: set_map)
  then have "first_row (filter (\<lambda>r. plan_id r = plan_id q) (map snd PLANS)) \<noteq> None"
    unfolding first_row_filter_None by blast
  then obtain r where r: "first_row (filter (\<lambda>r. plan_id r = plan_id q) (map snd PLANS)) = Some r" by blast
  from first_row_filter_in [OF r] have "r \<in> snd ` set PLANS" "plan_id r = plan_id q" by (simp_all only: set_map)
  from plan_of_id [OF this(1) q this(2)] have "r = q" .
  with r show ?thesis by (simp add: plan_for_def)
qed

lemma plan_for_in: "plan_for p \<in> snd ` set PLANS"
proof (cases "first_row (filter (\<lambda>q. plan_id q = p) (map snd PLANS))")
  case None
  then show ?thesis using default_plan_known by (simp add: plan_for_def)
next
  case (Some q)
  then show ?thesis using first_row_filter_in [OF Some] by (simp add: plan_for_def)
qed

lemma plan_for_unknown: "p \<notin> plan_id ` snd ` set PLANS \<Longrightarrow> plan_for p = FREE_PLAN"
proof -
  assume p: "p \<notin> plan_id ` snd ` set PLANS"
  have "plan_id q \<noteq> p" if "q \<in> set (map snd PLANS)" for q
    using p that unfolding set_map by blast
  then have "filter (\<lambda>q. plan_id q = p) (map snd PLANS) = []" unfolding filter_empty_conv by blast
  then show ?thesis by (simp add: plan_for_def)
qed

text \<open>A plan id passes the filter of exactly the group of its plan's window.\<close>

lemma planFilter_iff:
  assumes g: "g \<in> set (retentionGroups f)"
  shows "planFilter (retentionGroups f) g p \<longleftrightarrow> rg_days g = effective_retention f (plan_for p)"
proof -
  let ?G = "retentionGroups f"
  have free: "FREE_PLAN \<in> snd ` set PLANS" "plan_id FREE_PLAN = DEFAULT_PLAN_ID" by (rule default_plan_known)+
  have catchall: "rg_catchAll h \<longleftrightarrow> rg_days h = effective_retention f FREE_PLAN" if "h \<in> set ?G" for h
    using plan_in_group_iff [OF that free(1)] that unfolding in_retentionGroups_iff free by (simp add: eq_commute)
  have ids: "p \<in> set (rg_planIds h) \<longleftrightarrow> p \<in> plan_id ` snd ` set PLANS \<and> effective_retention f (plan_for p) = rg_days h"
    if h: "h \<in> set ?G" for h
  proof (cases "p \<in> plan_id ` snd ` set PLANS")
    case True
    then obtain q where q: "q \<in> snd ` set PLANS" "p = plan_id q" by blast
    then show ?thesis using plan_in_group_iff [OF h q(1)] True by (simp add: plan_for_known)
  next
    case False
    from h have "set (rg_planIds h) \<subseteq> plan_id ` snd ` set PLANS" unfolding in_retentionGroups_iff by auto
    with False show ?thesis by blast
  qed
  have some: "\<exists>h\<in>set ?G. rg_days h = effective_retention f (plan_for p)"
    using group_of_plan [OF plan_for_in [of p], of f] plan_in_group_iff [OF _ plan_for_in [of p], of _ f] by metis
  show ?thesis
  proof (cases "rg_catchAll g")
    case False
    then show ?thesis using ids [OF g] catchall [OF g] plan_for_unknown [of p] by (auto simp: planFilter_def)
  next
    case True
    have "planFilter ?G g p \<longleftrightarrow> \<not> (\<exists>h\<in>set ?G. \<not> rg_catchAll h \<and> p \<in> set (rg_planIds h))"
      using True by (auto simp: planFilter_def)
    also have "\<dots> \<longleftrightarrow> effective_retention f (plan_for p) = effective_retention f FREE_PLAN"
      using ids catchall some plan_for_unknown [of p] by metis
    finally show ?thesis using catchall [OF g] True by auto
  qed
qed

lemma kept_fold:
  assumes "set gs \<subseteq> set (retentionGroups f)" "subscriptions d = subs" "monitors d = ms"
  shows "fold (sweep_group cx (retentionGroups f)) gs (n, d) = (n', d') \<Longrightarrow>
     monitorChecks d' = filter (\<lambda>c. \<not> (\<exists>g\<in>set gs. c_checkedAt c < cutoffFor cx (rg_days g) \<and>
         scopedMonitors (planFilter (retentionGroups f) g) d (c_monitorId c))) (monitorChecks d) \<and>
     n' + length (monitorChecks d') = n + length (monitorChecks d) \<and> d' = d\<lparr>monitorChecks := monitorChecks d'\<rparr>"
  using assms
proof (induction gs arbitrary: n d)
  case (Cons g gs)
  let ?scope = "scopedMonitors (planFilter (retentionGroups f) g) d"
  let ?gone = "\<lambda>c. c_checkedAt c < cutoffFor cx (rg_days g) \<and> ?scope (c_monitorId c)"
  let ?d1 = "d\<lparr>monitorChecks := delete_where ?gone (monitorChecks d)\<rparr>"
  have step: "sweep_group cx (retentionGroups f) g (n, d) = (n + length (filter ?gone (monitorChecks d)), ?d1)"
    by (simp add: sweep_group_def deleteChecksBefore_def Let_def)
  have scoped: "scopedMonitors P ?d1 = scopedMonitors P d" for P
    by (simp add: scopedMonitors_def effectivePlans_def fun_eq_iff)
  have len: "length (filter ?gone (monitorChecks d)) + length (delete_where ?gone (monitorChecks d)) = length (monitorChecks d)"
    using sum_length_filter_compl [of ?gone "monitorChecks d"] by (simp add: delete_where_def)
  from Cons.prems(1) step have rest: "fold (sweep_group cx (retentionGroups f)) gs
      (n + length (filter ?gone (monitorChecks d)), ?d1) = (n', d')" by simp
  have gone: "filter P (delete_where ?gone (monitorChecks d)) = filter (\<lambda>c. \<not> ?gone c \<and> P c) (monitorChecks d)" for P
    by (simp add: delete_where_def)
  have "set gs \<subseteq> set (retentionGroups f)" "subscriptions ?d1 = subs" "monitors ?d1 = ms" using Cons.prems(2-) by simp_all
  note IH = Cons.IH [OF rest this, unfolded scoped]
  from IH have "monitorChecks d' = filter (\<lambda>c. \<not> ?gone c \<and> \<not> (\<exists>g\<in>set gs. c_checkedAt c < cutoffFor cx (rg_days g) \<and>
         scopedMonitors (planFilter (retentionGroups f) g) d (c_monitorId c))) (monitorChecks d)"
    by (simp add: gone)
  moreover have "n' + length (monitorChecks d') = n + length (monitorChecks d)"
    using IH [THEN conjunct2, THEN conjunct1] len by simp
  moreover have "d' = d\<lparr>monitorChecks := monitorChecks d'\<rparr>" using IH [THEN conjunct2, THEN conjunct2] by simp
  ultimately show ?case by (simp only: list.set bex_simps de_Morgan_disj)
qed simp


text \<open>A check row is past its window if some plan its monitor counts under keeps it no longer.\<close>

definition expired :: "ctx \<Rightarrow> int \<Rightarrow> db \<Rightarrow> monitorCheck_row \<Rightarrow> bool" where
  "expired cx f d c \<longleftrightarrow> (if isSelfHosted (cx_env cx) then c_checkedAt c < cutoffFor cx f
     else list_ex (\<lambda>m. m_id m = c_monitorId c \<and>
       list_ex (\<lambda>p. c_checkedAt c < cutoffFor cx (effective_retention f (plan_for p))) (effectivePlans d m)) (monitors d))"

lemma group_for: "\<exists>g\<in>set (retentionGroups f). rg_days g = effective_retention f (plan_for p)"
  using group_of_plan [OF plan_for_in [of p], of f] plan_in_group_iff [OF _ plan_for_in [of p], of _ f] by metis

lemma expired_iff:
  assumes "\<not> isSelfHosted (cx_env cx)"
  shows "(\<exists>g\<in>set (retentionGroups f). c_checkedAt c < cutoffFor cx (rg_days g) \<and>
     scopedMonitors (planFilter (retentionGroups f) g) d (c_monitorId c)) \<longleftrightarrow> expired cx f d c" (is "?l \<longleftrightarrow> ?r")
proof
  assume ?l
  then obtain g m p where g: "g \<in> set (retentionGroups f)" "c_checkedAt c < cutoffFor cx (rg_days g)"
    and m: "m \<in> set (monitors d)" "m_id m = c_monitorId c" "p \<in> set (effectivePlans d m)"
    and p: "planFilter (retentionGroups f) g p"
    unfolding scopedMonitors_def list_ex_iff by blast
  from p planFilter_iff [OF g(1)] g(2) have "c_checkedAt c < cutoffFor cx (effective_retention f (plan_for p))" by simp
  with m assms show ?r unfolding expired_def list_ex_iff by auto
next
  assume ?r
  with assms obtain m p where m: "m \<in> set (monitors d)" "m_id m = c_monitorId c" "p \<in> set (effectivePlans d m)"
    and old: "c_checkedAt c < cutoffFor cx (effective_retention f (plan_for p))"
    unfolding expired_def list_ex_iff by auto
  from group_for obtain g where g: "g \<in> set (retentionGroups f)" "rg_days g = effective_retention f (plan_for p)" by blast
  with planFilter_iff [OF g(1)] have "planFilter (retentionGroups f) g p" by blast
  with m have "scopedMonitors (planFilter (retentionGroups f) g) d (c_monitorId c)"
    unfolding scopedMonitors_def list_ex_iff by blast
  with g old show ?l by (intro bexI [of _ g] conjI) simp_all
qed

lemma cleanup_by_retention_frame:
  assumes "cleanupOldChecks cx f d = (n, d')"
  shows "d' = d\<lparr>monitorChecks := monitorChecks d'\<rparr>"
proof (cases "isSelfHosted (cx_env cx)")
  case True
  with assms show ?thesis by (auto simp: cleanupOldChecks_def deleteChecksBefore_def Let_def)
next
  case False
  with assms have "fold (sweep_group cx (retentionGroups f)) (retentionGroups f) (0, d) = (n, d')"
    by (simp add: cleanupOldChecks_def Let_def)
  from kept_fold [OF subset_refl refl refl this] show ?thesis by blast
qed

text \<open>
  The cleanup deletes exactly the check rows past their window: with tenants, that of the plan
  the organization's subscription names, or of the default plan without one or with a retired
  one; self-hosted, the operator's.  It reports their number and touches no other table.
\<close>

theorem cleanup_by_retention:
  assumes "cleanupOldChecks cx f d = (n, d')"
  shows "monitorChecks d' = filter (\<lambda>c. \<not> expired cx f d c) (monitorChecks d) \<and>
    n = length (filter (expired cx f d) (monitorChecks d)) \<and> d' = d\<lparr>monitorChecks := monitorChecks d'\<rparr>"
proof (cases "isSelfHosted (cx_env cx)")
  case True
  have ex: "expired cx f d = (\<lambda>c. c_checkedAt c < cutoffFor cx f)" using True by (simp add: expired_def fun_eq_iff)
  from True assms have d': "d' = d\<lparr>monitorChecks := delete_where (expired cx f d) (monitorChecks d)\<rparr>"
    and n: "n = length (filter (expired cx f d) (monitorChecks d))"
    by (auto simp: cleanupOldChecks_def deleteChecksBefore_def ex Let_def)
  from d' have "monitorChecks d' = filter (\<lambda>c. \<not> expired cx f d c) (monitorChecks d)" by (simp add: delete_where_def)
  with d' n show ?thesis by simp
next
  case False
  with assms have "fold (sweep_group cx (retentionGroups f)) (retentionGroups f) (0, d) = (n, d')"
    by (simp add: cleanupOldChecks_def Let_def)
  note run = kept_fold [OF subset_refl refl refl this, unfolded expired_iff [OF False]]
  from run have kept: "monitorChecks d' = filter (\<lambda>c. \<not> expired cx f d c) (monitorChecks d)" by (rule conjunct1)
  from run [THEN conjunct2, THEN conjunct1] have "n + length (monitorChecks d') = length (monitorChecks d)"
    unfolding add_0 .
  with kept sum_length_filter_compl [of "expired cx f d" "monitorChecks d"]
  have "n = length (filter (expired cx f d) (monitorChecks d))" by simp
  with run kept show ?thesis by blast
qed

section \<open>What a daily row says\<close>

lemma round_between:
  assumes "of_int lo \<le> q" "q \<le> of_int hi"
  shows "lo \<le> round_half_up q \<and> round_half_up q \<le> hi" "lo \<le> round_half_even q \<and> round_half_even q \<le> hi"
proof -
  have lo: "lo \<le> \<lfloor>q\<rfloor>" using assms(1) by (simp add: le_floor_iff)
  have up: "\<lfloor>q\<rfloor> + 1 \<le> hi" if "of_int \<lfloor>q\<rfloor> < q"
    using that assms(2) by linarith
  have q: "q < of_int \<lfloor>q\<rfloor> + 1" "of_int \<lfloor>q\<rfloor> \<le> q" by linarith+
  have hi: "\<lfloor>q\<rfloor> \<le> hi" using assms(2) q by linarith
  show "lo \<le> round_half_up q \<and> round_half_up q \<le> hi"
    using assms unfolding round_half_up_def by linarith
  show "lo \<le> round_half_even q \<and> round_half_even q \<le> hi"
  proof (cases "of_int \<lfloor>q\<rfloor> < q")
    case True
    with lo hi up show ?thesis by (simp add: round_half_even_def Let_def)
  next
    case False
    with q(2) have "of_int \<lfloor>q\<rfloor> = q" by (meson le_less)
    then have "q = of_int \<lfloor>q\<rfloor>" ..
    then have "round_half_even q = \<lfloor>q\<rfloor>" by (simp add: round_half_even_def Let_def)
    with lo hi show ?thesis by simp
  qed
qed

lemma mean_between:
  assumes "xs \<noteq> []" "\<And>x. x \<in> set xs \<Longrightarrow> lo \<le> x \<and> x \<le> hi"
  shows "of_int lo \<le> mean xs" "mean xs \<le> of_int hi"
proof -
  have "lo * int (length xs) \<le> sum_list xs \<and> sum_list xs \<le> hi * int (length xs)"
    using assms(2)
  proof (induction xs)
    case (Cons x xs)
    with Cons.prems [of x] show ?case by (simp add: algebra_simps add_mono)
  qed simp
  then have "of_int (lo * int (length xs)) \<le> (of_int (sum_list xs) :: rat)" "of_int (sum_list xs) \<le> (of_int (hi * int (length xs)) :: rat)"
    by (simp_all only: of_int_le_iff)
  with assms(1) show "of_int lo \<le> mean xs" "mean xs \<le> of_int hi"
    by (simp_all add: mean_def pos_le_divide_eq pos_divide_le_eq)
qed

lemma between_two:
  fixes a b f lo hi :: rat
  assumes "0 \<le> f" "f \<le> 1" "lo \<le> a" "a \<le> hi" "lo \<le> b" "b \<le> hi"
  shows "lo \<le> a + f * (b - a) \<and> a + f * (b - a) \<le> hi"
proof -
  have split: "a + f * (b - a) = (1 - f) * a + f * b" by (simp add: algebra_simps)
  have "(1 - f) * lo + f * lo \<le> (1 - f) * a + f * b" "(1 - f) * a + f * b \<le> (1 - f) * hi + f * hi"
    using assms by (intro add_mono mult_left_mono; simp)+
  moreover have "(1 - f) * x + f * x = x" for x by (simp add: algebra_simps)
  ultimately show ?thesis using split by simp
qed

lemma percentile_between:
  assumes "xs \<noteq> []" "\<And>x. x \<in> set xs \<Longrightarrow> lo \<le> x \<and> x \<le> hi"
  shows "of_int lo \<le> percentile_95 xs \<and> percentile_95 xs \<le> of_int hi"
proof -
  define place :: rat where "place = of_nat (length xs - 1) * 95 / 100"
  define k where "k = nat \<lfloor>place\<rfloor>"
  have "0 \<le> place" by (simp add: place_def)
  then have k: "of_nat k = (of_int \<lfloor>place\<rfloor> :: rat)" by (simp add: k_def)
  have "place \<le> of_nat (length xs - 1)" by (simp add: place_def)
  with k have "(of_nat k :: rat) \<le> of_nat (length xs - 1)" by linarith
  then have "k \<le> length xs - 1" by simp
  with assms(1) have lt: "k < length (sort xs)" "min (Suc k) (length xs - 1) < length (sort xs)"
    by (cases xs; simp)+
  have at: "lo \<le> sort xs ! i \<and> sort xs ! i \<le> hi" if "i < length (sort xs)" for i
    using assms(2) [of "sort xs ! i"] nth_mem [OF that] by simp
  have "0 \<le> place - of_nat k" "place - of_nat k \<le> 1" using k by linarith+
  moreover have "percentile_95 xs = of_int (sort xs ! k) + (place - of_nat k) *
      (of_int (sort xs ! min (Suc k) (length xs - 1)) - of_int (sort xs ! k))"
    unfolding percentile_95_def Let_def place_def k_def ..
  ultimately show ?thesis using between_two [of "place - of_nat k" "of_int lo" "of_int (sort xs ! k)" "of_int hi"
      "of_int (sort xs ! min (Suc k) (length xs - 1))"] at [OF lt(1)] at [OF lt(2)] by simp
qed

text \<open>A number of a row fits between its least and its greatest.\<close>

fun ranged :: "int option \<Rightarrow> int option \<Rightarrow> int option \<Rightarrow> bool" where
  "ranged (Some lo) (Some x) (Some hi) \<longleftrightarrow> lo \<le> x \<and> x \<le> hi"
| "ranged None None None \<longleftrightarrow> True"
| "ranged _ _ _ \<longleftrightarrow> False"

definition consistent_day :: "monitorDailyStats_row \<Rightarrow> bool" where
  "consistent_day s \<longleftrightarrow> d_date s mod DAY_MS = 0 \<and> d_successfulChecks s + d_failedChecks s = d_totalChecks s \<and>
     0 < d_totalChecks s \<and> 0 \<le> d_degradedChecks s \<and> d_degradedChecks s \<le> d_successfulChecks s \<and>
     ranged (d_minResponseTimeMs s) (d_avgResponseTimeMs s) (d_maxResponseTimeMs s) \<and>
     ranged (d_minResponseTimeMs s) (d_p95ResponseTimeMs s) (d_maxResponseTimeMs s) \<and>
     on_some (\<lambda>q. 0 \<le> q \<and> q \<le> 100) (d_uptimePercent s)"

lemma roll_up_ranged:
  assumes "r = rollUpChecks P d"
  shows "ranged (ru_min r) (ru_avg r) (ru_max r) \<and> ranged (ru_min r) (ru_p95 r) (ru_max r)"
proof -
  let ?xs = "response_times (filter P (monitorChecks d))"
  have between: "Min (set ?xs) \<le> x \<and> x \<le> Max (set ?xs)" if "x \<in> set ?xs" for x using that by simp
  show ?thesis
  proof (cases "?xs = []")
    case True
    with assms show ?thesis by (simp add: rollUpChecks_def Let_def if_any_def)
  next
    case False
    note p = percentile_between [OF False between]
    from round_between(1) [OF mean_between [OF False between]] round_between(2) [OF p [THEN conjunct1] p [THEN conjunct2]] False
    show ?thesis unfolding assms by (simp add: rollUpChecks_def Let_def if_any_def)
  qed
qed

lemma roll_up_counts:
  assumes "r = rollUpChecks P d"
  shows "ru_successful r + ru_failed r = ru_total r" "ru_degraded r \<le> ru_successful r"
proof -
  have "length (filter not_down cs) + length (filter (\<lambda>c. c_status c = Down) cs) = length cs" for cs
    by (induction cs) (simp_all add: not_down_def)
  moreover have "length (filter (\<lambda>c. c_status c = Degraded) cs) \<le> length (filter not_down cs)" for cs
    by (induction cs) (simp_all add: not_down_def)
  ultimately show "ru_successful r + ru_failed r = ru_total r" "ru_degraded r \<le> ru_successful r"
    unfolding assms by (simp_all add: rollUpChecks_def Let_def del: filter_filter)
qed

lemma percent_range:
  assumes "part \<le> whole" "whole \<noteq> 0"
  shows "0 \<le> percent_of part whole \<and> percent_of part whole \<le> 100"
proof -
  have "(of_nat part :: rat) \<le> of_nat whole" "0 < (of_nat whole :: rat)" using assms by simp_all
  then show ?thesis by (simp add: percent_of_def divide_le_eq)
qed

lemma daily_row_consistent:
  assumes "r = rollUpChecks P d" "ru_total r \<noteq> 0"
  shows "consistent_day ((daily_row cx k (day_start t) r n d)\<lparr>d_id := i\<rparr>)"
    "consistent_day (daily_row cx k (day_start t) r n d)"
proof -
  note counts = roll_up_counts [OF assms(1)]
  have "ru_successful r \<le> ru_total r" using counts(1) by simp
  from percent_range [OF this assms(2)] counts assms(2) roll_up_ranged [OF assms(1)]
  show "consistent_day ((daily_row cx k (day_start t) r n d)\<lparr>d_id := i\<rparr>)"
    "consistent_day (daily_row cx k (day_start t) r n d)"
    by (simp_all add: consistent_day_def daily_row_def day_start_def)
qed

definition daily_rows_ok :: "db \<Rightarrow> bool" where
  "daily_rows_ok d \<longleftrightarrow> list_all consistent_day (monitorDailyStats d) \<and> distinct (map daily_key (monitorDailyStats d))"

lemma aggregate_ok: "daily_rows_ok d \<Longrightarrow> daily_rows_ok (aggregateDailyStats cx k t d)"
proof -
  assume ok: "daily_rows_ok d"
  let ?from = "day_start t"
  let ?r = "rollUpChecks (checked_between k ?from (?from + DAY_MS)) d"
  let ?row = "daily_row cx k ?from ?r (incidents_that_day k ?from (?from + DAY_MS) d) d"
  show ?thesis
  proof (cases "ru_total ?r = 0")
    case True
    then have "aggregateDailyStats cx k t d = d" by (simp add: aggregateDailyStats_def Let_def)
    with ok show ?thesis by simp
  next
    case False
    let ?f = "\<lambda>s. ?row\<lparr>d_id := d_id s\<rparr>"
    have table: "monitorDailyStats (aggregateDailyStats cx k t d) = upsert daily_key ?f ?row (monitorDailyStats d)"
      using False by (simp add: aggregateDailyStats_def Let_def)
    note row = daily_row_consistent [OF refl False]
    have key: "daily_key (?f s) = daily_key ?row" for s by (simp add: daily_key_def)
    have keys: "map daily_key (update_where (\<lambda>q. daily_key q = daily_key ?row) ?f ts) = map daily_key ts" for ts
      by (rule map_update_where) (simp add: key)
    have good: "list_all consistent_day (update_where P ?f ts)" if "list_all consistent_day ts" for P ts
      using that by (induction ts) (simp_all add: row)
    show ?thesis
      using ok unfolding daily_rows_ok_def table
      by (cases "daily_key ?row \<in> daily_key ` set (monitorDailyStats d)")
        (simp_all only: upsert_def if_True if_False keys good, simp_all add: row)
  qed
qed

text \<open>
  However often a day is aggregated, the daily statistics hold one row per monitor and day, and
  every row is consistent: it starts at midnight, its successful and failed checks are all its
  checks, of which there are some, its average and its 95th percentile lie between its fastest
  and its slowest response, and its uptime lies between 0 and 100 percent.
\<close>

theorem daily_rows_consistent:
  assumes "daily_rows_ok d"
  shows "daily_rows_ok (snd (aggregateAllMonitorsForDate cx date d))"
proof -
  have "daily_rows_ok e \<Longrightarrow> daily_rows_ok (fold (\<lambda>m. aggregateDailyStats cx (m_id m) date) ms e)" for ms e
    by (induction ms arbitrary: e) (simp_all add: aggregate_ok)
  with assms show ?thesis by (simp add: aggregateAllMonitorsForDate_def)
qed


section \<open>Concrete databases\<close>

definition example_row :: "id \<Rightarrow> status \<Rightarrow> int option \<Rightarrow> time \<Rightarrow> monitorCheck_row" where
  "example_row i st ms t = \<lparr>c_id = i, c_monitorId = ''m'', c_status = st, c_statusCode = Some 200, c_responseTimeMs = ms,
     c_errorMessage = None, c_dnsMs = None, c_connectMs = None, c_tlsMs = None, c_firstByteMs = None,
     c_redirectCount = None, c_sslExpiresAt = None, c_sslIssuer = None, c_checkedAt = t, c_region = None,
     c_processedAt = Some t\<rparr>"

definition example_stats_db :: db where
  "example_stats_db = empty_db\<lparr>monitors := [example_monitor ''m''],
     monitorChecks := [example_row ''a'' Up (Some 120) 1000, example_row ''b'' Down (Some 30000) 2000,
       example_row ''c'' Degraded (Some 6001) 3000, example_row ''d'' Up (Some 100) (99 * DAY_MS)]\<rparr>"

text \<open>The default plan keeps thirty days: three of the four rows are older.\<close>

lemma cleanup_by_retention_witness:
  "monitorChecks (snd (cleanupOldChecks (example_ctx (100 * DAY_MS)) 30 example_stats_db)) =
     filter (\<lambda>c. \<not> expired (example_ctx (100 * DAY_MS)) 30 example_stats_db c) (monitorChecks example_stats_db) \<and>
   map (expired (example_ctx (100 * DAY_MS)) 30 example_stats_db) (monitorChecks example_stats_db) = [True, True, True, False]"
proof -
  have "map (expired (example_ctx (100 * DAY_MS)) 30 example_stats_db) (monitorChecks example_stats_db) = [True, True, True, False]"
    by code_simp
  with cleanup_by_retention [OF prod.collapse [symmetric], of "example_ctx (100 * DAY_MS)" 30 example_stats_db]
  show ?thesis by blast
qed

lemma daily_rows_consistent_witness:
  "daily_rows_ok (snd (aggregateAllMonitorsForDate (example_ctx (2 * DAY_MS)) 5000 example_stats_db)) \<and>
   map (\<lambda>s. (d_totalChecks s, d_avgResponseTimeMs s, d_p95ResponseTimeMs s))
     (monitorDailyStats (snd (aggregateAllMonitorsForDate (example_ctx (2 * DAY_MS)) 5000 example_stats_db))) =
   [(3, Some 3061, Some 5707)]"
proof -
  have "daily_rows_ok example_stats_db" by code_simp
  from daily_rows_consistent [OF this] show ?thesis by (rule conjI) code_simp
qed

end
