(* ===== verification/Usage.thy ===== *)
theory Usage
  imports Subscriptions Mail Formats
begin

text \<open>
  What an organization uses: the limits a page shows (\<open>usage-limits.ts\<close>), the snapshots of use and of
  bought blocks (\<open>usage-snapshot.ts\<close>), and their reports to the meters of the billing provider
  (\<open>meter.service.ts\<close>).

  The provider is outside: it takes a batch of events and answers how many were new, or with nothing
  readable, or refuses it.  A report returns the events the provider took beside its result.
\<close>

section \<open>Limits on a page\<close>

(* src/src/lib/server/services/usage-limits.ts:9-39 UsageLimitsData *)
record usage_limits =
  ul_plan :: "string \<times> string"
  ul_monitors :: "int \<times> int \<times> bool"
  ul_statusPages :: "int \<times> int \<times> bool"
  ul_customDomains :: bool
  ul_channels :: "string list"
  ul_minInterval :: int
  ul_pauseAt :: "time option"
  ul_paused :: int

definition room :: "int \<Rightarrow> int \<Rightarrow> int \<times> int \<times> bool" where
  "room current limit = (current, limit, limit = -1 \<or> current < limit)"

(* src/src/lib/server/services/usage-limits.ts:41-82 getUsageLimitsData *)
definition getUsageLimitsData :: "ctx \<Rightarrow> id \<Rightarrow> db \<Rightarrow> usage_limits \<times> db" where
  "getUsageLimitsData cx org d = (
     let (plan, d1) = getOrganizationPlan cx org d; (l, d2) = getEffectiveLimits cx org d1;
         (mons, pages) = getUsage org d2; sub = getSubscription org d2 in
     (\<lparr>ul_plan = (plan_id plan, plan_name plan), ul_monitors = room mons (monitors_limit l),
       ul_statusPages = room pages (statusPages_limit l), ul_customDomains = customDomains l,
       ul_channels = channel_types l, ul_minInterval = checkIntervalSeconds l,
       ul_pauseAt = map_option pauseDate (Option.bind sub sub_overCapacitySince),
       ul_paused = int (length (filter (\<lambda>m. m_organizationId m = org \<and> m_capacityPausedAt m \<noteq> None) (monitors d2)))\<rparr>, d2))"

section \<open>Snapshots\<close>

(* src/src/lib/server/services/usage-snapshot.ts:20-27 OrganizationUsageSnapshot *)
record organization_usage =
  su_organizationId :: id
  su_polarCustomerId :: id
  su_monitors :: int
  su_statusPages :: int
  su_teamMembers :: int

(* src/src/lib/server/services/usage-snapshot.ts:136-141 OrganizationBlockSnapshot *)
record organization_blocks =
  sb_organizationId :: id
  sb_polarCustomerId :: id
  sb_blocks :: int

definition usage_row :: "db \<Rightarrow> subscription_row \<Rightarrow> id \<Rightarrow> organization_usage" where
  "usage_row d s customer = (let org = sub_organizationId s in
     \<lparr>su_organizationId = org, su_polarCustomerId = customer,
      su_monitors = activeMonitorCount org d,
      su_statusPages = int (length (filter (\<lambda>p. p_organizationId p = org) (statusPages d))),
      su_teamMembers = int (length (filter (\<lambda>m. mem_organizationId m = org) (members d)))\<rparr>)"

(* src/src/lib/server/services/usage-snapshot.ts:46-87 collectUsageSnapshots *)
definition collectUsageSnapshots :: "db \<Rightarrow> organization_usage list" where
  "collectUsageSnapshots d = List.map_filter (\<lambda>s. map_option (usage_row d s) (sub_polarCustomerId s))
     (filter (\<lambda>s. sub_planId s \<noteq> DEFAULT_PLAN_ID) (subscriptions d))"

(* src/src/lib/server/services/usage-snapshot.ts:154-193 collectBlockSnapshots *)
definition collectBlockSnapshots :: "id option \<Rightarrow> db \<Rightarrow> organization_blocks list" where
  "collectBlockSnapshots only d = List.map_filter (\<lambda>s. map_option (\<lambda>c.
       \<lparr>sb_organizationId = sub_organizationId s, sb_polarCustomerId = c, sb_blocks = sub_blocks s\<rparr>) (sub_polarCustomerId s))
     (filter (\<lambda>s. block_eligible (sub_planId s) \<and>
        (case only of None \<Rightarrow> True | Some c \<Rightarrow> c = [] \<or> sub_polarCustomerId s = Some c)) (subscriptions d))"

text \<open>A customer's totals: the organizations they span, and the summed fields.\<close>

type_synonym totals = "id \<times> nat \<times> int list"

fun add_fields :: "id \<Rightarrow> int list \<Rightarrow> totals list \<Rightarrow> totals list" where
  "add_fields c xs [] = [(c, 1, xs)]"
| "add_fields c xs ((k, n, ys) # ts) =
     (if k = c then (k, Suc n, map2 (+) ys xs) # ts else (k, n, ys) # add_fields c xs ts)"

(* src/src/lib/server/services/usage-snapshot.ts:89-118 sumFieldsByCustomer *)
definition sumFieldsByCustomer :: "(id \<times> int list) list \<Rightarrow> totals list" where
  "sumFieldsByCustomer rows = fold (\<lambda>(c, xs). add_fields c xs) rows []"

(* src/src/lib/server/services/usage-snapshot.ts:120-134 sumByCustomer *)
definition sumByCustomer :: "organization_usage list \<Rightarrow> totals list" where
  "sumByCustomer rows = sumFieldsByCustomer
     (map (\<lambda>r. (su_polarCustomerId r, [su_monitors r, su_statusPages r, su_teamMembers r])) rows)"

(* src/src/lib/server/services/usage-snapshot.ts:195-202 sumBlocksByCustomer *)
definition sumBlocksByCustomer :: "organization_blocks list \<Rightarrow> totals list" where
  "sumBlocksByCustomer rows = sumFieldsByCustomer (map (\<lambda>r. (sb_polarCustomerId r, [sb_blocks r])) rows)"

section \<open>Reports\<close>

(* src/src/lib/server/services/meter.service.ts:27-38 METER_EVENTS *)
datatype meter_event = Usage_snapshot | Usage_snapshot_org | Monitor_blocks

record ingest_event =
  ev_name :: meter_event
  ev_customer :: id
  ev_timestamp :: "string option"
  ev_numbers :: "(string \<times> int) list"
  ev_organization :: "id option"

text \<open>What the provider answers to a batch: a count, nothing readable, or a refusal.\<close>

datatype ingest_reply = Inserted nat | Unreadable | Refused

type_synonym provider = "ingest_event list \<Rightarrow> ingest_reply"

(* src/src/lib/server/services/meter.service.ts:40-41 INGEST_CHUNK_SIZE *)
definition INGEST_CHUNK_SIZE :: nat where
  "INGEST_CHUNK_SIZE = 100"

(* src/src/lib/server/services/meter.service.ts:53-53 MeterReportFailure *)
datatype meter_failure = Collect_failed | Ingest_failed

(* src/src/lib/server/services/meter.service.ts:43-51 UsageSnapshotReport *)
record usage_report =
  ur_customerSnapshots :: nat
  ur_organizationSnapshots :: nat
  ur_failure :: "meter_failure option"

(* src/src/lib/server/services/meter.service.ts:55-55 EMPTY_REPORT *)
definition EMPTY_REPORT :: usage_report where
  "EMPTY_REPORT = \<lparr>ur_customerSnapshots = 0, ur_organizationSnapshots = 0, ur_failure = None\<rparr>"

(* src/src/lib/server/services/meter.service.ts:98-105 constructor *)
definition metering_on :: "env \<Rightarrow> bool" where
  "metering_on env \<longleftrightarrow> env ''SELF_HOSTED'' \<noteq> Some ''true'' \<and> on_some (\<lambda>t. t \<noteq> []) (env ''POLAR_ACCESS_TOKEN'')"

(* src/src/lib/server/services/meter.service.ts:261-272 toIngestEvent *)
definition toIngestEvent :: "totals \<Rightarrow> ingest_event" where
  "toIngestEvent s = (let (c, n, xs) = s in \<lparr>ev_name = Usage_snapshot, ev_customer = c, ev_timestamp = None,
     ev_numbers = zip [''monitors'', ''status_pages'', ''team_members''] xs @ [(''organization_count'', int n)],
     ev_organization = None\<rparr>)"

(* src/src/lib/server/services/meter.service.ts:274-285 toOrgIngestEvent *)
definition toOrgIngestEvent :: "organization_usage \<Rightarrow> ingest_event" where
  "toOrgIngestEvent r = \<lparr>ev_name = Usage_snapshot_org, ev_customer = su_polarCustomerId r, ev_timestamp = None,
     ev_numbers = [(''monitors'', su_monitors r), (''status_pages'', su_statusPages r), (''team_members'', su_teamMembers r)],
     ev_organization = Some (su_organizationId r)\<rparr>"

(* src/src/lib/server/services/meter.service.ts:287-302 toBlocksIngestEvent *)
definition toBlocksIngestEvent :: "time option \<Rightarrow> totals \<Rightarrow> ingest_event" where
  "toBlocksIngestEvent at_time s = (let (c, n, xs) = s in \<lparr>ev_name = Monitor_blocks, ev_customer = c,
     ev_timestamp = map_option toISOString at_time,
     ev_numbers = zip [''blocks''] xs @ [(''organization_count'', int n)], ev_organization = None\<rparr>)"

text \<open>The slices of an array of the chunk size.\<close>

fun chunks :: "'a list \<Rightarrow> 'a list list" where
  "chunks [] = []"
| "chunks (x # xs) = take INGEST_CHUNK_SIZE (x # xs) # chunks (drop (INGEST_CHUNK_SIZE - 1) xs)"

text \<open>How many the provider counted, how many batches failed, and the events it took.\<close>

definition ingest_chunk :: "provider \<Rightarrow> ('a \<Rightarrow> ingest_event) \<Rightarrow> 'a list \<Rightarrow> nat \<times> nat \<times> ingest_event list \<Rightarrow> nat \<times> nat \<times> ingest_event list" where
  "ingest_chunk ingest toEvent chunk acc = (let (n, failed, sent) = acc; events = map toEvent chunk in
     case ingest events of
       Inserted k \<Rightarrow> (n + k, failed, sent @ events)
     | Unreadable \<Rightarrow> (n + length chunk, failed, sent @ events)
     | Refused \<Rightarrow> (n, Suc failed, sent))"

(* src/src/lib/server/services/meter.service.ts:219-258 ingestInChunks *)
definition ingestInChunks :: "provider \<Rightarrow> ('a \<Rightarrow> ingest_event) \<Rightarrow> 'a list \<Rightarrow> nat \<times> nat \<times> ingest_event list" where
  "ingestInChunks ingest toEvent items = fold (ingest_chunk ingest toEvent) (chunks items) (0, 0, [])"

(* src/src/lib/server/services/meter.service.ts:107-152 reportUsageSnapshots *)
definition reportUsageSnapshots :: "env \<Rightarrow> provider \<Rightarrow> bool \<Rightarrow> db \<Rightarrow> usage_report \<times> ingest_event list" where
  "reportUsageSnapshots env ingest unread d = (
     if \<not> metering_on env then (EMPTY_REPORT, [])
     else if unread then (EMPTY_REPORT\<lparr>ur_failure := Some Collect_failed\<rparr>, [])
     else let rows = collectUsageSnapshots d in
       if rows = [] then (EMPTY_REPORT, [])
       else let (n, failed, sent) = ingestInChunks ingest toIngestEvent (sumByCustomer rows);
                (n2, failed2, sent2) = ingestInChunks ingest toOrgIngestEvent rows in
         (\<lparr>ur_customerSnapshots = n, ur_organizationSnapshots = n2,
           ur_failure = (if failed + failed2 > 0 then Some Ingest_failed else None)\<rparr>, sent @ sent2))"

(* src/src/lib/server/services/meter.service.ts:201-206 raiseOpsAlert: the alert *)
definition duplicated_alert :: "totals \<Rightarrow> ops_alert" where
  "duplicated_alert s = (let (c, n, xs) = s; blocks = show_int (hd xs); orgs = show_int (int n) in
     \<lparr>al_type = Billing_blocks_duplicated, al_subject = c, al_title = ''Capacity block charges may be duplicated'',
      al_body = ''Polar customer '' @ c @ '' holds '' @ blocks @ '' capacity blocks across '' @ orgs @
        '' organizations. Polar meters per customer, so each subscription bills the combined total. See POLAR_SETUP.md.''\<rparr>)"

(* src/src/lib/server/services/meter.service.ts:186-192 organizationCount: the condition *)
definition charged_twice :: "totals \<Rightarrow> bool" where
  "charged_twice s \<longleftrightarrow> (let (_, n, xs) = s in 1 < n \<and> 0 < hd xs)"

(* src/src/lib/server/services/meter.service.ts:154-217 reportBlocks *)
definition reportBlocks ::
  "env \<Rightarrow> provider \<Rightarrow> bool \<Rightarrow> id option \<Rightarrow> time option \<Rightarrow> db \<Rightarrow> (meter_failure + nat) \<times> ingest_event list \<times> db" where
  "reportBlocks env ingest unread only at_time d = (
     if \<not> metering_on env then (Inr 0, [], d)
     else if unread then (Inl Collect_failed, [], d)
     else let rows = collectBlockSnapshots only d in
       if rows = [] then (Inr 0, [], d)
       else let snapshots = sumBlocksByCustomer rows;
                d1 = fold (\<lambda>s. raise_alert (duplicated_alert s)) (filter charged_twice snapshots) d;
                (n, failed, sent) = ingestInChunks ingest (toBlocksIngestEvent at_time) snapshots in
         (if failed > 0 then Inl Ingest_failed else Inr n, sent, d1))"

section \<open>Sums\<close>

lemma add_fields_map:
  "map_of (add_fields c xs ts) = (map_of ts)(c := Some (case map_of ts c of None \<Rightarrow> (1, xs) | Some (n, ys) \<Rightarrow> (Suc n, map2 (+) ys xs)))"
  by (induction c xs ts rule: add_fields.induct) (auto simp: fun_eq_iff)

lemma add_fields_keys: "fst ` set (add_fields c xs ts) = insert c (fst ` set ts)"
  by (induction c xs ts rule: add_fields.induct) auto

lemma add_fields_distinct: "distinct (map fst ts) \<Longrightarrow> distinct (map fst (add_fields c xs ts))"
  by (induction c xs ts rule: add_fields.induct) (auto simp: add_fields_keys)

definition rows_of :: "id \<Rightarrow> (id \<times> int list) list \<Rightarrow> int list list" where
  "rows_of c rows = map snd (filter (\<lambda>r. fst r = c) rows)"

definition column_sums :: "nat \<Rightarrow> int list list \<Rightarrow> int list" where
  "column_sums w xss = map (\<lambda>j. sum_list (map (\<lambda>xs. xs ! j) xss)) [0..<w]"

lemma column_sums_snoc:
  assumes "length xs = w"
  shows "map2 (+) (column_sums w xss) xs = column_sums w (xss @ [xs])"
  using assms by (intro nth_equalityI) (simp_all add: column_sums_def)

lemma column_sums_one: "length xs = w \<Longrightarrow> column_sums w [xs] = xs"
  by (intro nth_equalityI) (simp_all add: column_sums_def)

lemma sums_by_customer:
  assumes "list_all (\<lambda>r. length (snd r) = w) rows"
  shows "map_of (sumFieldsByCustomer rows) c =
      (if rows_of c rows = [] then None else Some (length (rows_of c rows), column_sums w (rows_of c rows)))
    \<and> distinct (map fst (sumFieldsByCustomer rows))"
  using assms
proof (induction rows arbitrary: c rule: rev_induct)
  case Nil
  then show ?case by (simp add: sumFieldsByCustomer_def rows_of_def)
next
  case (snoc r rows)
  obtain k xs where r: "r = (k, xs)" by (cases r)
  have step: "sumFieldsByCustomer (rows @ [r]) = add_fields k xs (sumFieldsByCustomer rows)"
    by (simp add: sumFieldsByCustomer_def r)
  have w: "length xs = w" "list_all (\<lambda>r. length (snd r) = w) rows" using snoc.prems r by simp_all
  note IH = snoc.IH [OF w(2)]
  show ?case
  proof (cases "c = k")
    case True
    have "rows_of c (rows @ [r]) = rows_of c rows @ [xs]" by (simp add: rows_of_def r True)
    then show ?thesis using IH [of c] w(1) True
      by (simp add: step add_fields_map add_fields_distinct column_sums_snoc column_sums_one)
  next
    case False
    then have "rows_of c (rows @ [r]) = rows_of c rows" by (simp add: rows_of_def r)
    then show ?thesis using IH [of c] False by (simp add: step add_fields_map add_fields_distinct)
  qed
qed

section \<open>Chunks\<close>

lemma chunks_all: "concat (chunks xs) = xs"
proof (induction xs rule: chunks.induct)
  case (2 x xs)
  have "take INGEST_CHUNK_SIZE (x # xs) @ drop (INGEST_CHUNK_SIZE - 1) xs = x # xs"
    by (simp add: INGEST_CHUNK_SIZE_def numeral_eq_Suc)
  with 2 show ?case by (simp del: take_Cons_numeral)
qed simp

lemma chunk_size: "c \<in> set (chunks xs) \<Longrightarrow> length c \<le> INGEST_CHUNK_SIZE"
  by (induction xs rule: chunks.induct) auto

lemma no_chunk_failed:
  "fold (ingest_chunk ingest f) cs (n, failed, sent) = (n', 0, sent') \<Longrightarrow> failed = 0 \<and> sent' = sent @ map f (concat cs)"
proof (induction cs arbitrary: n failed sent)
  case (Cons c cs)
  obtain n1 f1 s1 where st: "ingest_chunk ingest f c (n, failed, sent) = (n1, f1, s1)"
    by (cases "ingest_chunk ingest f c (n, failed, sent)") auto
  with Cons.prems Cons.IH [of n1 f1 s1] have "f1 = 0" "sent' = s1 @ map f (concat cs)" by simp_all
  with st show ?case by (cases "ingest (map f c)") (auto simp: ingest_chunk_def Let_def)
qed simp

text \<open>
  C32: When a report of the bought blocks succeeds, the billing provider has taken exactly one event
  for every customer with a subscription sold by the block, and it carries the sum of the blocks of
  all the customer's organizations and their number.
\<close>

theorem blocks_billed_in_full:
  assumes "metering_on env" "reportBlocks env ingest unread None t d = (Inr n, sent, d')"
  shows "filter (\<lambda>e. ev_customer e = c) sent =
    (let held = filter (\<lambda>s. sub_polarCustomerId s = Some c \<and> block_eligible (sub_planId s)) (subscriptions d) in
     if held = [] then []
     else [\<lparr>ev_name = Monitor_blocks, ev_customer = c, ev_timestamp = map_option toISOString t,
       ev_numbers = [(''blocks'', sum_list (map sub_blocks held)), (''organization_count'', int (length held))],
       ev_organization = None\<rparr>])"
proof -
  let ?rows = "collectBlockSnapshots None d"
  let ?pairs = "map (\<lambda>r. (sb_polarCustomerId r, [sb_blocks r])) ?rows"
  define held where "held = filter (\<lambda>s. sub_polarCustomerId s = Some c \<and> block_eligible (sub_planId s)) (subscriptions d)"
  have snaps: "filter (\<lambda>r. sb_polarCustomerId r = c) (List.map_filter (\<lambda>s. map_option (\<lambda>c.
       \<lparr>sb_organizationId = sub_organizationId s, sb_polarCustomerId = c, sb_blocks = sub_blocks s\<rparr>) (sub_polarCustomerId s))
       (filter (\<lambda>s. block_eligible (sub_planId s)) ss)) =
     map (\<lambda>s. \<lparr>sb_organizationId = sub_organizationId s, sb_polarCustomerId = c, sb_blocks = sub_blocks s\<rparr>)
       (filter (\<lambda>s. sub_polarCustomerId s = Some c \<and> block_eligible (sub_planId s)) ss)" for ss
    by (induction ss) (auto simp: map_filter_simps split: option.split)
  have rows: "rows_of c ?pairs = map (\<lambda>s. [sub_blocks s]) held"
    using snaps [of "subscriptions d"]
    by (simp add: rows_of_def filter_map comp_def collectBlockSnapshots_def held_def)
  have sums: "map_of (sumBlocksByCustomer ?rows) c = (if held = [] then None
      else Some (length held, [sum_list (map sub_blocks held)]))"
    "distinct (map fst (sumBlocksByCustomer ?rows))"
    using sums_by_customer [of 1 ?pairs c] by (auto simp: sumBlocksByCustomer_def rows column_sums_def list_all_iff comp_def)
  have all_sent: "sent = map (toBlocksIngestEvent t) (sumBlocksByCustomer ?rows)"
  proof (cases "?rows = []")
    case True
    with assms show ?thesis by (auto simp: reportBlocks_def sumBlocksByCustomer_def sumFieldsByCustomer_def split: if_splits)
  next
    case False
    obtain m failed sent' where i: "ingestInChunks ingest (toBlocksIngestEvent t) (sumBlocksByCustomer ?rows) = (m, failed, sent')"
      by (cases "ingestInChunks ingest (toBlocksIngestEvent t) (sumBlocksByCustomer ?rows)") auto
    with assms False have "failed = 0" "sent' = sent" by (auto simp: reportBlocks_def Let_def split: if_splits)
    with i no_chunk_failed [of ingest "toBlocksIngestEvent t" "chunks (sumBlocksByCustomer ?rows)" 0 0 "[]"]
    show ?thesis by (simp add: ingestInChunks_def chunks_all)
  qed
  have "filter (\<lambda>s. fst s = c) ts = (case map_of ts c of None \<Rightarrow> [] | Some v \<Rightarrow> [(c, v)])"
    if "distinct (map fst ts)" for ts :: "totals list"
    using that by (induction ts) (auto simp: filter_empty_conv map_of_eq_None_iff image_iff split: option.split)
  from this [OF sums(2)] have "filter (\<lambda>s. fst s = c) (sumBlocksByCustomer ?rows) =
      (if held = [] then [] else [(c, length held, [sum_list (map sub_blocks held)])])"
    by (simp add: sums(1))
  moreover have "filter (\<lambda>e. ev_customer e = c) (map (toBlocksIngestEvent t) ts) = map (toBlocksIngestEvent t) (filter (\<lambda>s. fst s = c) ts)" for ts
    by (induction ts) (auto simp: toBlocksIngestEvent_def)
  ultimately show ?thesis by (simp add: all_sent Let_def toBlocksIngestEvent_def flip: held_def)
qed


section \<open>The page agrees with the gate\<close>

lemma getOrCreate_again:
  "getOrCreateSubscription cx org d = (s, d1) \<Longrightarrow> getOrCreateSubscription cx org d1 = (s, d1)"
  by (auto simp: getOrCreateSubscription_def Let_def getSubscription_def subscription_of_def insert_subscription_def
      new_subscription_def split: option.splits)

text \<open>
  The page offers another monitor exactly when the gate would let it through: whether there is room
  on the page is whether taking a slot succeeds, in the hosted and the self-hosted program.
\<close>

theorem page_agrees_with_gate:
  "snd (snd (ul_monitors (fst (getUsageLimitsData cx org d)))) \<longleftrightarrow> \<not> isl (fst (takeMonitorSlot cx org slot d))"
proof (cases "isSelfHosted (cx_env cx)")
  case True
  obtain u v where "getUsage org d = (u, v)" by fastforce
  with True show ?thesis
    by (cases "slot d") (simp add: getUsageLimitsData_def getOrganizationPlan_def getEffectiveLimits_def takeMonitorSlot_def
        room_def Let_def SELF_HOSTED_LIMITS_def)
next
  case False
  obtain s d1 where s: "getOrCreateSubscription cx org d = (s, d1)" by fastforce
  note again = getOrCreate_again [OF s]
  let ?limit = "monitors_limit (applyCapacityBlocks (plan_of (sub_planId s)) (sub_blocks s))"
  have "snd (snd (ul_monitors (fst (getUsageLimitsData cx org d)))) \<longleftrightarrow> ?limit = -1 \<or> countActiveMonitors org d1 < ?limit"
    using False s again
    by (simp add: getUsageLimitsData_def getOrganizationPlan_def getEffectiveLimits_def room_def Let_def getUsage_def)
  moreover have "\<not> isl (fst (takeMonitorSlot cx org slot d)) \<longleftrightarrow> \<not> (?limit \<noteq> -1 \<and> ?limit \<le> countActiveMonitors org d1)"
    using False s by (cases "slot d1") (simp add: takeMonitorSlot_def Let_def)
  ultimately show ?thesis by auto
qed

section \<open>A concrete report\<close>

definition billed :: "id \<Rightarrow> id option \<Rightarrow> int \<Rightarrow> subscription_row" where
  "billed org customer blocks = (new_subscription (example_ctx 0) org empty_db)\<lparr>sub_planId := ''uppity'',
     sub_polarCustomerId := customer, sub_blocks := blocks\<rparr>"

definition billed_db :: db where
  "billed_db = empty_db\<lparr>subscriptions := [billed ''a'' (Some ''c'') 2, billed ''b'' (Some ''e'') 0,
     billed ''x'' None 1, billed ''d'' (Some ''c'') 3]\<rparr>"

definition metered_env :: env where
  "metered_env k = (if k = ''POLAR_ACCESS_TOKEN'' then Some ''t'' else None)"

lemma blocks_billed_in_full_witness:
  "map ev_numbers (filter (\<lambda>e. ev_customer e = ''c'') (fst (snd (reportBlocks metered_env (\<lambda>es. Inserted (length es)) False None None billed_db)))) =
     [[(''blocks'', 5), (''organization_count'', 2)]]"
proof -
  let ?r = "reportBlocks metered_env (\<lambda>es. Inserted (length es)) False None None billed_db"
  have "fst ?r = Inr 2" by code_simp
  then have r: "?r = (Inr 2, fst (snd ?r), snd (snd ?r))" by (simp add: prod_eq_iff)
  have on: "metering_on metered_env" by code_simp
  have held: "map sub_blocks (filter (\<lambda>s. sub_polarCustomerId s = Some ''c'' \<and> block_eligible (sub_planId s)) (subscriptions billed_db)) = [2, 3]"
    by code_simp
  then have "filter (\<lambda>s. sub_polarCustomerId s = Some ''c'' \<and> block_eligible (sub_planId s)) (subscriptions billed_db) \<noteq> []"
    "length (filter (\<lambda>s. sub_polarCustomerId s = Some ''c'' \<and> block_eligible (sub_planId s)) (subscriptions billed_db)) = 2"
    by (auto dest: arg_cong [where f = length])
  with blocks_billed_in_full [OF on r, of "''c''"] held show ?thesis by (simp only: Let_def if_False list.map ingest_event.simps) simp
qed

end
