(* ===== verification/OpsAlerts.thy ===== *)
theory OpsAlerts
  imports Formats Scheduler Mail
begin

text \<open>
  Alerts for the operator of the instance, \<open>lib/server/ops-alert.ts\<close>, with the cooldown of each
  subject in the database and in the memory of the process that sends, and the watchdog passes of the
  notifier that raise them, \<open>worker/notifier/watchdog.ts\<close>.

  What the outside answers is a parameter of each operation: a query comes back, or it fails or times
  out, with or without having taken effect, and each destination takes the message or does not.
\<close>

section \<open>Cooldowns\<close>

text \<open>The last send per key in a process.\<close>

type_synonym memory = "string \<Rightarrow> time option"

datatype reply = Answered | Lost (took_effect: bool)

record outside =
  ow_query :: reply
  ow_release :: reply
  ow_email :: bool
  ow_webhook :: bool

(* src/src/lib/server/ops-alert.ts:20-20 COOLDOWN_MS *)
definition COOLDOWN_MS :: "env \<Rightarrow> int" where
  "COOLDOWN_MS env = OPS_ALERT_COOLDOWN_HOURS env * 60 * 60 * 1000"

(* src/src/lib/server/ops-alert.ts:21-21 DISCORD_DESCRIPTION_MAX *)
definition DISCORD_DESCRIPTION_MAX :: nat where
  "DISCORD_DESCRIPTION_MAX = 4096"

definition alert_word :: "ops_alert_type \<Rightarrow> string" where
  "alert_word ty = (case ty of
      Monitor_dead_lettered \<Rightarrow> ''monitor_dead_lettered'' | Monitor_checks_overdue \<Rightarrow> ''monitor_checks_overdue''
    | Alert_undelivered \<Rightarrow> ''alert_undelivered'' | Unsolicited_mail_ceiling \<Rightarrow> ''unsolicited_mail_ceiling''
    | Organization_mail_blocked \<Rightarrow> ''organization_mail_blocked'' | Maintenance_job_failed \<Rightarrow> ''maintenance_job_failed''
    | Billing_blocks_duplicated \<Rightarrow> ''billing_blocks_duplicated'')"

(* src/src/lib/server/ops-alert.ts:130-130 cooldownKey *)
definition cooldownKey :: "ops_alert_type \<Rightarrow> string \<Rightarrow> string" where
  "cooldownKey ty subject = alert_word ty @ '':'' @ subject"

text \<open>The insert of \<open>claim\<close>: a row of the key that is not past its cooldown keeps its place.\<close>

definition claim_row :: "ctx \<Rightarrow> string \<Rightarrow> db \<Rightarrow> bool \<times> db" where
  "claim_row cx key d = (case first_row (filter (\<lambda>r. oa_key r = key) (opsAlertCooldowns d)) of
      None \<Rightarrow> (True, d\<lparr>opsAlertCooldowns := opsAlertCooldowns d @ [\<lparr>oa_key = key, oa_sentAt = cx_now cx\<rparr>]\<rparr>)
    | Some r \<Rightarrow> if oa_sentAt r \<le> cx_now cx - COOLDOWN_MS (cx_env cx)
        then (True, d\<lparr>opsAlertCooldowns := update_where (\<lambda>r. oa_key r = key) (\<lambda>r. r\<lparr>oa_sentAt := cx_now cx\<rparr>)
            (opsAlertCooldowns d)\<rparr>)
        else (False, d))"

(* src/src/lib/server/ops-alert.ts:64-90 claim *)
definition claim_alert :: "ctx \<Rightarrow> reply \<Rightarrow> string \<Rightarrow> memory \<times> db \<Rightarrow> bool \<times> memory \<times> db" where
  "claim_alert cx reply key w = (let (mem, d) = w in
     if on_some (\<lambda>last. cx_now cx - last < COOLDOWN_MS (cx_env cx)) (mem key) then (False, mem, d)
     else let mem1 = mem(key := Some (cx_now cx)); (claimed, d1) = claim_row cx key d in
       (case reply of
          Answered \<Rightarrow> if claimed then (True, mem1, d1) else (False, mem1(key := None), d1)
        | Lost eff \<Rightarrow> (True, mem1, if eff then d1 else d)))"

(* src/src/lib/server/ops-alert.ts:92-95 release *)
definition release_alert :: "reply \<Rightarrow> string \<Rightarrow> memory \<times> db \<Rightarrow> memory \<times> db" where
  "release_alert reply key w = (let (mem, d) = w in (mem(key := None),
     if reply = Lost False then d
     else d\<lparr>opsAlertCooldowns := delete_where (\<lambda>r. oa_key r = key) (opsAlertCooldowns d)\<rparr>))"

definition is_set :: "env \<Rightarrow> string \<Rightarrow> bool" where
  "is_set env key \<longleftrightarrow> on_some (\<lambda>v. v \<noteq> []) (env key)"

(* src/src/lib/server/ops-alert.ts:125-128 opsAlertsEnabled *)
definition opsAlertsEnabled :: "env \<Rightarrow> bool" where
  "opsAlertsEnabled env \<longleftrightarrow> is_set env ''UPPITY_OPS_ALERT_EMAIL'' \<or> is_set env ''UPPITY_OPS_ALERT_DISCORD_WEBHOOK_URL''"

text \<open>The destinations that are set, and whether each takes the message.\<close>

definition sends :: "env \<Rightarrow> outside \<Rightarrow> bool list" where
  "sends env ow = (if is_set env ''UPPITY_OPS_ALERT_EMAIL'' then [ow_email ow] else []) @
     (if is_set env ''UPPITY_OPS_ALERT_DISCORD_WEBHOOK_URL'' then [ow_webhook ow] else [])"

text \<open>The result says whether some destination took the alert.\<close>

(* src/src/lib/server/ops-alert.ts:132-163 raiseOpsAlert *)
definition raiseOpsAlert :: "ctx \<Rightarrow> outside \<Rightarrow> ops_alert \<Rightarrow> memory \<times> db \<Rightarrow> bool \<times> memory \<times> db" where
  "raiseOpsAlert cx ow alert w = (
     if \<not> opsAlertsEnabled (cx_env cx) then (False, w)
     else let key = cooldownKey (al_type alert) (al_subject alert); (claimed, w1) = claim_alert cx (ow_query ow) key w in
       if \<not> claimed then (False, w1)
       else if list_ex id (sends (cx_env cx) ow) then (True, w1)
       else (False, release_alert (ow_release ow) key w1))"

(* src/src/lib/server/ops-alert.ts:165-178 clearOpsAlert *)
definition clearOpsAlert :: "ctx \<Rightarrow> reply \<Rightarrow> ops_alert_type \<Rightarrow> string \<Rightarrow> memory \<times> db \<Rightarrow> memory \<times> db" where
  "clearOpsAlert cx reply ty subject w =
     (if \<not> opsAlertsEnabled (cx_env cx) then w else release_alert reply (cooldownKey ty subject) w)"

(* src/src/lib/server/ops-alert.ts:97-105 sendEmail *)
definition ops_email :: "ops_alert \<Rightarrow> string \<times> string" where
  "ops_email alert = (''[Uppity ops] '' @ al_title alert, al_body alert)"

text \<open>Discord takes a title and a description of limited length.\<close>

(* src/src/lib/server/ops-alert.ts:107-118 sendDiscord *)
definition ops_embed :: "ops_alert \<Rightarrow> string \<times> string" where
  "ops_embed alert = (al_title alert, truncateText (al_body alert) DISCORD_DESCRIPTION_MAX)"

lemma ops_embed_fits: "length (snd (ops_embed alert)) \<le> DISCORD_DESCRIPTION_MAX"
  by (simp add: ops_embed_def truncateText_length DISCORD_DESCRIPTION_MAX_def)

section \<open>The watchdog\<close>

(* src/src/worker/notifier/watchdog.ts:20-21 LISTED_ROWS *)
definition LISTED_ROWS :: nat where
  "LISTED_ROWS = 10"

(* src/src/worker/notifier/watchdog.ts:22-22 UNDELIVERED_WINDOW_HOURS *)
definition UNDELIVERED_WINDOW_HOURS :: int where
  "UNDELIVERED_WINDOW_HOURS = 1"

(* src/src/worker/notifier/watchdog.ts:23-24 MAIL_DOWN_ATTEMPTS *)
definition MAIL_DOWN_ATTEMPTS :: int where
  "MAIL_DOWN_ATTEMPTS = 3"

text \<open>What a pass meets: its read comes back or fails with a reason.\<close>

record pass =
  wp_failure :: "string option"
  wp_clear_unreadable :: reply
  wp_clear :: reply
  wp_raise :: outside

definition overdue_alert :: "nat \<Rightarrow> time option \<Rightarrow> ops_alert" where
  "overdue_alert overdue oldest = \<lparr>al_type = Monitor_checks_overdue, al_subject = ''scheduler'',
     al_title = ''Monitors are not being checked'',
     al_body = show_int (int overdue) @ '' active monitors are past due, the oldest since '' @ formatUtcDateTime oldest @
       ''. Check that the monitor worker is running and can reach the database.''\<rparr>"

definition unreadable_alert :: "string \<Rightarrow> ops_alert" where
  "unreadable_alert why = \<lparr>al_type = Monitor_checks_overdue, al_subject = ''database'',
     al_title = ''Cannot tell whether monitors are being checked'',
     al_body = ''The notifier worker could not read the monitor table: '' @ why\<rparr>"

(* src/src/worker/notifier/watchdog.ts:30-62 reportOverdueChecks *)
definition reportOverdueChecks :: "ctx \<Rightarrow> pass \<Rightarrow> memory \<times> db \<Rightarrow> bool \<times> memory \<times> db" where
  "reportOverdueChecks cx wp w = (case wp_failure wp of
      Some why \<Rightarrow> raiseOpsAlert cx (wp_raise wp) (unreadable_alert why) w
    | None \<Rightarrow> let (overdue, oldest) = overdueChecks (cx_now cx) (snd w);
          w1 = clearOpsAlert cx (wp_clear_unreadable wp) Monitor_checks_overdue ''database'' w in
        if overdue = 0 then (False, clearOpsAlert cx (wp_clear wp) Monitor_checks_overdue ''scheduler'' w1)
        else raiseOpsAlert cx (wp_raise wp) (overdue_alert overdue oldest) w1)"

definition listed :: "string list \<Rightarrow> nat \<Rightarrow> string list" where
  "listed lines overall = (if overall > length lines
     then lines @ [''- and '' @ show_int (int (overall - length lines)) @ '' more''] else lines)"

definition dead_letter_line :: "monitor_row \<Rightarrow> string" where
  "dead_letter_line m = ''- '' @ m_id m @ '', organization '' @ m_organizationId m @ '', since '' @
     formatUtcDateTime (m_deadLetteredAt m)"

definition dead_letter_alert :: "env \<Rightarrow> (monitor_row \<times> nat) list \<Rightarrow> monitor_row \<Rightarrow> nat \<Rightarrow> ops_alert" where
  "dead_letter_alert env rows newest overall = \<lparr>al_type = Monitor_dead_lettered,
     al_subject = m_id newest @ '':'' @ toISOString (coalesce (m_deadLetteredAt newest) 0),
     al_title = ''Dead-lettered monitors: '' @ show_int (int overall),
     al_body = join newline ([''Checks of '' @ show_int (int overall) @
         '' monitors keep failing inside Uppity, not at their targets. They keep retrying.'', [],
         ''Review them at '' @ appUrl env @ ''/admin/dead-letters'', []] @
       listed (map (dead_letter_line \<circ> fst) rows) overall)\<rparr>"

(* src/src/worker/notifier/watchdog.ts:64-101 reportDeadLetters *)
definition reportDeadLetters :: "ctx \<Rightarrow> pass \<Rightarrow> memory \<times> db \<Rightarrow> bool \<times> memory \<times> db" where
  "reportDeadLetters cx wp w = (
     if \<not> opsAlertsEnabled (cx_env cx) \<or> wp_failure wp \<noteq> None then (False, w)
     else let rows = deadLetteredMonitors (snd w) LISTED_ROWS in
       (case first_row rows of
          None \<Rightarrow> (False, w)
        | Some (newest, overall) \<Rightarrow>
            raiseOpsAlert cx (wp_raise wp) (dead_letter_alert (cx_env cx) rows newest overall) w))"

definition held_by_mail :: "ctx \<Rightarrow> notificationEvent_row \<Rightarrow> bool" where
  "held_by_mail cx e \<longleftrightarrow>
     e_status e \<in> {RetryQueued, RetrySending} \<and>
       on_some (\<lambda>q. dp_mailServerDown q \<and> MAIL_DOWN_ATTEMPTS \<le> qr_attempt q) (e_retry e) \<or>
     e_status e \<in> {EvFailed, EvPartial} \<and> e_mailServerDown e = Some True \<and>
       on_some (\<lambda>t. cx_now cx - UNDELIVERED_WINDOW_HOURS * 3600000 < t) (e_processedAt e)"

(* src/src/worker/notifier/watchdog.ts:103-130 undeliveredAlerts *)
definition undeliveredAlerts :: "ctx \<Rightarrow> nat \<Rightarrow> db \<Rightarrow> (notificationEvent_row \<times> nat) list" where
  "undeliveredAlerts cx limit d = (let rows = filter (held_by_mail cx) (notificationEvents d) in
     map (\<lambda>e. (e, length rows)) (take limit (order_desc e_createdAt rows)))"

definition undelivered_alert :: "env \<Rightarrow> (notificationEvent_row \<times> nat) list \<Rightarrow> nat \<Rightarrow> ops_alert" where
  "undelivered_alert env rows overall = \<lparr>al_type = Alert_undelivered, al_subject = ''mail_server'',
     al_title = ''Alert email failing: '' @ show_int (int overall),
     al_body = join newline ([show_int (int overall) @
         '' alert events could not get through this instance's mail server. They are still retrying, or ran out of retries in the past '' @
         show_int UNDELIVERED_WINDOW_HOURS @ '' hour. Check the SMTP password, the sender address and the relay.'', [],
         ''Review organizations at '' @ appUrl env @ ''/admin/organizations'', []] @
       listed (map (\<lambda>(e, _). ''- '' @ e_id e @ '', organization '' @ e_organizationId e) rows) overall)\<rparr>"

(* src/src/worker/notifier/watchdog.ts:132-171 reportUndeliveredAlerts *)
definition reportUndeliveredAlerts :: "ctx \<Rightarrow> pass \<Rightarrow> memory \<times> db \<Rightarrow> bool \<times> memory \<times> db" where
  "reportUndeliveredAlerts cx wp w = (
     if wp_failure wp \<noteq> None then (False, w)
     else let rows = undeliveredAlerts cx LISTED_ROWS (snd w) in
       (case first_row rows of
          None \<Rightarrow> (False, clearOpsAlert cx (wp_clear wp) Alert_undelivered ''mail_server'' w)
        | Some (_, overall) \<Rightarrow> raiseOpsAlert cx (wp_raise wp) (undelivered_alert (cx_env cx) rows overall) w))"

section \<open>The cooldown holds\<close>

text \<open>
  What the processes of an instance do one after another: each has a memory of its own and all share
  the database.  A trace keeps the deliveries and the cooldowns that were cleared.
\<close>

datatype act =
    Raise (act_process: nat) (act_now: time) outside ops_alert
  | Clear (act_process: nat) (act_now: time) reply ops_alert_type string

datatype mark = Delivered nat string time | Cleared string

fun perform :: "ctx \<Rightarrow> act \<Rightarrow> (nat \<Rightarrow> memory) \<times> db \<Rightarrow> mark list \<times> (nat \<Rightarrow> memory) \<times> db" where
  "perform cx (Raise p t ow a) (mems, d) = (let (sent, mem, d1) = raiseOpsAlert (cx\<lparr>cx_now := t\<rparr>) ow a (mems p, d) in
     (if sent then [Delivered p (cooldownKey (al_type a) (al_subject a)) t] else [], mems(p := mem), d1))"
| "perform cx (Clear p t r ty subject) (mems, d) = (let (mem, d1) = clearOpsAlert (cx\<lparr>cx_now := t\<rparr>) r ty subject (mems p, d) in
     ([Cleared (cooldownKey ty subject)], mems(p := mem), d1))"

fun perform_all :: "ctx \<Rightarrow> act list \<Rightarrow> (nat \<Rightarrow> memory) \<times> db \<Rightarrow> mark list \<times> (nat \<Rightarrow> memory) \<times> db" where
  "perform_all cx [] w = ([], w)"
| "perform_all cx (a # as) w = (let (ms, w1) = perform cx a w; (ns, w2) = perform_all cx as w1 in (ms @ ns, w2))"

definition all_answered :: "act \<Rightarrow> bool" where
  "all_answered a \<longleftrightarrow> (case a of Raise _ _ ow _ \<Rightarrow> ow_query ow = Answered | Clear _ _ _ _ _ \<Rightarrow> True)"

text \<open>The time a cooldown row was taken.\<close>

definition row_sentAt :: "string \<Rightarrow> db \<Rightarrow> time option" where
  "row_sentAt key d = map_option oa_sentAt (first_row (filter (\<lambda>r. oa_key r = key) (opsAlertCooldowns d)))"

text \<open>
  A delivery at \<open>t\<close> that still counts at \<open>u\<close>: it is in the memory of its process, or, as long as the
  database answers, in the table; or its cooldown is over.
\<close>

definition counts :: "ctx \<Rightarrow> bool \<Rightarrow> nat \<Rightarrow> string \<Rightarrow> time \<Rightarrow> time \<Rightarrow> (nat \<Rightarrow> memory) \<times> db \<Rightarrow> bool" where
  "counts cx here p key t u w \<longleftrightarrow> t + COOLDOWN_MS (cx_env cx) \<le> u \<or>
     on_some (\<lambda>s. t \<le> s) (if here then fst w p key else row_sentAt key (snd w))"

lemma row_sentAt_claimed:
  assumes "claim_row cx key d = (b, d1)"
  shows "row_sentAt key d1 = (if b then Some (cx_now cx) else row_sentAt key d)"
    "k \<noteq> key \<Longrightarrow> row_sentAt k d1 = row_sentAt k d"
    "b \<longleftrightarrow> \<not> on_some (\<lambda>s. cx_now cx - COOLDOWN_MS (cx_env cx) < s) (row_sentAt key d)"
proof -
  let ?rows = "opsAlertCooldowns d"
  let ?upd = "update_where (\<lambda>r. oa_key r = key) (\<lambda>r. r\<lparr>oa_sentAt := cx_now cx\<rparr>)"
  have upd: "filter (\<lambda>r. oa_key r = key) (?upd t) = map (\<lambda>r. r\<lparr>oa_sentAt := cx_now cx\<rparr>) (filter (\<lambda>r. oa_key r = key) t)"
    "k \<noteq> key \<Longrightarrow> filter (\<lambda>r. oa_key r = k) (?upd t) = filter (\<lambda>r. oa_key r = k) t" for t k
    by (induction t) auto
  show "row_sentAt key d1 = (if b then Some (cx_now cx) else row_sentAt key d)"
    "k \<noteq> key \<Longrightarrow> row_sentAt k d1 = row_sentAt k d"
    "b \<longleftrightarrow> \<not> on_some (\<lambda>s. cx_now cx - COOLDOWN_MS (cx_env cx) < s) (row_sentAt key d)"
    using assms by (cases "filter (\<lambda>r. oa_key r = key) ?rows";
      auto simp: claim_row_def row_sentAt_def upd split: if_splits)+
qed


lemma counts_later: "counts cx here p key t u w \<Longrightarrow> u \<le> v \<Longrightarrow> counts cx here p key t v w"
  by (auto simp: counts_def)

text \<open>What a raise leaves of another key, and of its own while the cooldown runs.\<close>

lemma claim_alert_frame:
  assumes "claim_alert cx r key (mem, d) = (b, mem', d')" "k \<noteq> key"
  shows "mem' k = mem k" "row_sentAt k d' = row_sentAt k d"
  using assms row_sentAt_claimed(2) [of cx key d _ _ k]
  by (auto simp: claim_alert_def Let_def split: prod.splits if_splits reply.splits)

lemma release_alert_frame:
  assumes "release_alert r key (mem, d) = (mem', d')" "k \<noteq> key"
  shows "mem' k = mem k" "row_sentAt k d' = row_sentAt k d"
proof -
  have "filter (\<lambda>r. oa_key r = k) (delete_where (\<lambda>r. oa_key r = key) ts) = filter (\<lambda>r. oa_key r = k) ts"
    for ts :: "opsAlertCooldown_row list"
    using assms(2) by (intro filter_delete_where) auto
  then show "mem' k = mem k" "row_sentAt k d' = row_sentAt k d"
    using assms by (auto simp: release_alert_def row_sentAt_def split: if_splits)
qed

lemma raise_frame:
  assumes "raiseOpsAlert cx ow al (mem, d) = (b, mem', d')" "k \<noteq> cooldownKey (al_type al) (al_subject al)"
  shows "mem' k = mem k" "row_sentAt k d' = row_sentAt k d"
proof -
  let ?key = "cooldownKey (al_type al) (al_subject al)"
  obtain c m1 d1 where c: "claim_alert cx (ow_query ow) ?key (mem, d) = (c, m1, d1)" by (cases "claim_alert cx (ow_query ow) ?key (mem, d)") auto
  obtain m2 d2 where r: "release_alert (ow_release ow) ?key (m1, d1) = (m2, d2)" by fastforce
  note c1 = claim_alert_frame [OF c assms(2)] note r1 = release_alert_frame [OF r assms(2)]
  from assms(1) c r have "(mem', d') \<in> {(mem, d), (m1, d1), (m2, d2)}"
    by (auto simp: raiseOpsAlert_def Let_def split: if_splits)
  with c1 r1 show "mem' k = mem k" "row_sentAt k d' = row_sentAt k d" by auto
qed

lemma raise_own_key:
  assumes "raiseOpsAlert cx ow al (mem, d) = (b, mem', d')" "k = cooldownKey (al_type al) (al_subject al)"
  shows "on_some (\<lambda>s. t \<le> s) (mem k) \<Longrightarrow> t + COOLDOWN_MS (cx_env cx) \<le> cx_now cx \<or> \<not> b \<and> mem' = mem"
    and "ow_query ow = Answered \<Longrightarrow> on_some (\<lambda>s. t \<le> s) (row_sentAt k d) \<Longrightarrow>
      t + COOLDOWN_MS (cx_env cx) \<le> cx_now cx \<or> \<not> b \<and> row_sentAt k d' = row_sentAt k d"
    and "b \<Longrightarrow> mem' k = Some (cx_now cx)"
    and "b \<Longrightarrow> ow_query ow = Answered \<Longrightarrow> row_sentAt k d' = Some (cx_now cx)"
proof -
  obtain c d1 where row: "claim_row cx k d = (c, d1)" by fastforce
  note claimed = row_sentAt_claimed [OF row]
  obtain e m1 d2 where c: "claim_alert cx (ow_query ow) k (mem, d) = (e, m1, d2)"
    by (cases "claim_alert cx (ow_query ow) k (mem, d)") auto
  have raised: "b = e \<and> mem' = m1 \<and> d' = d2 \<or> \<not> b \<and> e \<or> \<not> b \<and> mem' = mem \<and> d' = d"
    using assms(1) c unfolding raiseOpsAlert_def assms(2) [symmetric] by (auto simp: Let_def split: if_splits)
  have e: "e \<Longrightarrow> \<not> on_some (\<lambda>s. cx_now cx - s < COOLDOWN_MS (cx_env cx)) (mem k)" "e \<Longrightarrow> m1 k = Some (cx_now cx)"
    "e \<Longrightarrow> ow_query ow = Answered \<Longrightarrow> c \<and> d2 = d1" "\<not> e \<Longrightarrow> row_sentAt k d2 = row_sentAt k d"
    using c row claimed(1) by (auto simp: claim_alert_def Let_def split: if_splits reply.splits)
  have kept: "\<not> e \<Longrightarrow> m1 = mem \<or> \<not> on_some (\<lambda>s. cx_now cx - s < COOLDOWN_MS (cx_env cx)) (mem k)"
    using c row by (auto simp: claim_alert_def Let_def split: if_splits reply.splits)
  show "t + COOLDOWN_MS (cx_env cx) \<le> cx_now cx \<or> \<not> b \<and> mem' = mem" if "on_some (\<lambda>s. t \<le> s) (mem k)"
    using that raised e(1) kept by (cases e) (auto simp: on_some_iff)
  show "t + COOLDOWN_MS (cx_env cx) \<le> cx_now cx \<or> \<not> b \<and> row_sentAt k d' = row_sentAt k d"
    if "ow_query ow = Answered" "on_some (\<lambda>s. t \<le> s) (row_sentAt k d)"
    using that raised e(3) [OF _ that(1)] e(4) claimed(3) by (cases e) (auto simp: on_some_iff)
  show "mem' k = Some (cx_now cx)" if b using that raised e(2) by auto
  show "row_sentAt k d' = Some (cx_now cx)" if b "ow_query ow = Answered"
    using that raised e(3) [OF _ that(2)] claimed(1) by auto
qed

text \<open>A delivery counts from its moment on, and through every act that clears nothing.\<close>

definition watches :: "bool \<Rightarrow> act \<Rightarrow> bool" where
  "watches here a \<longleftrightarrow> here \<or> all_answered a"

lemma delivered_counts:
  assumes "perform cx a w = (ms, w')" "Delivered p k t \<in> set ms" "watches here a"
  shows "counts cx here p k t u w' \<and> t = act_now a"
proof -
  obtain mems d where w: "w = (mems, d)" by (cases w)
  from assms(1,2) w obtain ow al where a: "a = Raise p t ow al" "k = cooldownKey (al_type al) (al_subject al)"
    by (cases a) (auto simp: Let_def split: prod.splits if_splits)
  obtain b mem d1 where r: "raiseOpsAlert (cx\<lparr>cx_now := t\<rparr>) ow al (mems p, d) = (b, mem, d1)"
    by (cases "raiseOpsAlert (cx\<lparr>cx_now := t\<rparr>) ow al (mems p, d)") auto
  with assms(1,2) w a have "b" "w' = (mems(p := mem), d1)" by (auto split: if_splits)
  with raise_own_key(3,4) [OF r a(2)] assms(3) a(1) show ?thesis
    by (auto simp: counts_def watches_def all_answered_def)
qed

lemma counts_kept:
  assumes "perform cx a w = (ms, w')" "counts cx here p k t (act_now a) w" "Cleared k \<notin> set ms" "watches here a"
  shows "counts cx here p k t (act_now a) w'"
proof -
  obtain mems d where w: "w = (mems, d)" by (cases w)
  show ?thesis
  proof (cases a)
    case (Raise q u ow al)
    let ?cx = "cx\<lparr>cx_now := u\<rparr>"
    obtain b mem d1 where r: "raiseOpsAlert ?cx ow al (mems q, d) = (b, mem, d1)"
      by (cases "raiseOpsAlert ?cx ow al (mems q, d)") auto
    with assms(1) w Raise have w': "w' = (mems(q := mem), d1)" by auto
    show ?thesis
    proof (cases "k = cooldownKey (al_type al) (al_subject al)")
      case True
      from raise_own_key(1,2) [OF r True, of t] assms(2,4) w w' Raise show ?thesis
        by (auto simp: counts_def watches_def all_answered_def)
    next
      case False
      from raise_frame [OF r False] assms(2) w w' Raise show ?thesis by (auto simp: counts_def)
    qed
  next
    case (Clear q u r ty subject)
    let ?cx = "cx\<lparr>cx_now := u\<rparr>"
    obtain mem d1 where c: "clearOpsAlert ?cx r ty subject (mems q, d) = (mem, d1)" by fastforce
    with assms(1,3) w Clear have w': "w' = (mems(q := mem), d1)" "k \<noteq> cooldownKey ty subject" by auto
    from c release_alert_frame [OF _ w'(2), of r "mems q" d mem d1] have "mem k = mems q k" "row_sentAt k d1 = row_sentAt k d"
      by (auto simp: clearOpsAlert_def split: if_splits)
    with assms(2) w w' Clear show ?thesis by (auto simp: counts_def)
  qed
qed

lemma delivered_late:
  assumes "perform cx a w = (ms, w')" "counts cx here p k t (act_now a) w" "Delivered q k u \<in> set ms" "watches here a"
    and "here \<longrightarrow> q = p"
  shows "t + COOLDOWN_MS (cx_env cx) \<le> u"
proof -
  obtain mems d where w: "w = (mems, d)" by (cases w)
  from assms(1,3) w obtain ow al where a: "a = Raise q u ow al" "k = cooldownKey (al_type al) (al_subject al)"
    by (cases a) (auto simp: Let_def split: prod.splits if_splits)
  let ?cx = "cx\<lparr>cx_now := u\<rparr>"
  obtain b mem d1 where r: "raiseOpsAlert ?cx ow al (mems q, d) = (b, mem, d1)"
    by (cases "raiseOpsAlert ?cx ow al (mems q, d)") auto
  with assms(1,3) w a have b by (auto split: if_splits)
  with raise_own_key(1,2) [OF r a(2), of t] assms(2,4,5) w a(1) show ?thesis
    by (auto simp: counts_def watches_def all_answered_def split: if_splits)
qed

lemma one_mark: "perform cx a w = (ms, w') \<Longrightarrow> ms = [] \<or> (\<exists>x. ms = [x])"
  by (cases a; cases w) (auto simp: Let_def split: prod.splits if_splits)

lemma next_delivery_late:
  "perform_all cx as w = (ys @ Delivered q k u # zs, w') \<Longrightarrow> counts cx here p k t v w \<Longrightarrow>
   sorted (v # map act_now as) \<Longrightarrow> Cleared k \<notin> set ys \<Longrightarrow> list_all (watches here) as \<Longrightarrow> here \<longrightarrow> q = p \<Longrightarrow>
   t + COOLDOWN_MS (cx_env cx) \<le> u"
proof (induction as arbitrary: w ys v)
  case (Cons a as)
  obtain ms w1 where st: "perform cx a w = (ms, w1)" by (cases "perform cx a w") auto
  obtain ns w2 where rest: "perform_all cx as w1 = (ns, w2)" by (cases "perform_all cx as w1") auto
  from Cons.prems(3) counts_later [OF Cons.prems(2)] have now: "counts cx here p k t (act_now a) w" by simp
  have wa: "watches here a" and was: "list_all (watches here) as" using Cons.prems(5) by simp_all
  from Cons.prems(1) st rest have split: "ys @ Delivered q k u # zs = ms @ ns" "w' = w2" by auto
  from one_mark [OF st] show ?case
  proof
    assume e: "ms = []"
    from counts_kept [OF st now _ wa] e have "counts cx here p k t (act_now a) w1" by simp
    with Cons.IH [of w1 ys "act_now a"] rest split e Cons.prems(3,4,6) was show ?thesis by simp
  next
    assume "\<exists>x. ms = [x]"
    then obtain x where x: "ms = [x]" by blast
    show ?thesis
    proof (cases ys)
      case Nil
      with split x have "Delivered q k u \<in> set ms" by simp
      from delivered_late [OF st now this wa Cons.prems(6)] show ?thesis .
    next
      case (Cons y ys')
      with split x Cons.prems(4) have "x \<noteq> Cleared k" "ns = ys' @ Delivered q k u # zs" "Cleared k \<notin> set ys'" by auto
      with counts_kept [OF st now _ wa] x Cons.IH [of w1 ys' "act_now a"] rest split(2) Cons.prems(3,6) was
      show ?thesis by simp
    qed
  qed
qed simp

text \<open>
  C31: Between two deliveries of an alert about the same thing by one process, with no recovery
  reported in between, lies a whole cooldown, whatever the database answers or loses; and as long as
  it answers, the same holds of any two processes of the instance.
\<close>

theorem alert_cooldown_held:
  assumes "perform_all cx acts w = (xs @ Delivered p k t # ys @ Delivered q k u # zs, w')"
    and "sorted (map act_now acts)" "p = q \<or> list_all all_answered acts" "Cleared k \<notin> set ys"
  shows "t + COOLDOWN_MS (cx_env cx) \<le> u"
proof -
  let ?here = "p = q"
  have "list_all (watches ?here) acts" using assms(3) by (auto simp: watches_def list_all_iff)
  with assms(1,2) show ?thesis
  proof (induction acts arbitrary: w xs)
    case (Cons a acts)
    obtain ms w1 where st: "perform cx a w = (ms, w1)" by (cases "perform cx a w") auto
    obtain ns w2 where rest: "perform_all cx acts w1 = (ns, w2)" by (cases "perform_all cx acts w1") auto
    from Cons.prems(1) st rest have split: "xs @ Delivered p k t # ys @ Delivered q k u # zs = ms @ ns" "w' = w2" by auto
    show ?case
    proof (cases xs)
      case Nil
      show ?thesis
      proof (cases "ms = []")
        case True
        with Cons.IH [of w1 "[]"] rest split Nil Cons.prems(2,3) show ?thesis by simp
      next
        case False
        with one_mark [OF st] split Nil have m: "Delivered p k t \<in> set ms" "ns = ys @ Delivered q k u # zs" by auto
        have "watches ?here a" using Cons.prems(3) by simp
        from delivered_counts [OF st m(1) this, of t] have now: "counts cx ?here p k t t w1" "t = act_now a" by blast+
        from Cons.prems(2) now(2) have "sorted (t # map act_now acts)" by simp
        with now(1) show ?thesis using next_delivery_late [of cx acts w1 ys q k u zs w2 ?here p t t] rest m(2) Cons.prems(3) assms(4) by simp
      qed
    next
      case (Cons x xs')
      show ?thesis
      proof (cases "ms = []")
        case True
        with Cons.IH [of w1 xs] rest split Cons.prems(2,3) show ?thesis by simp
      next
        case False
        with one_mark [OF st] split Cons have "ns = xs' @ Delivered p k t # ys @ Delivered q k u # zs" by auto
        with Cons.IH [of w1 xs'] rest split Cons.prems(2,3) show ?thesis by simp
      qed
    qed
  qed simp
qed


section \<open>A new outage is told at once\<close>

lemma released_claims:
  assumes "release_alert Answered key (mem, d) = (mem', d')"
  shows "mem' key = None" "filter (\<lambda>r. oa_key r = key) (opsAlertCooldowns d') = []"
proof -
  have "filter (\<lambda>r. oa_key r = key) (delete_where (\<lambda>r. oa_key r = key) ts) = []" for ts :: "opsAlertCooldown_row list"
    by (induction ts) auto
  then show "mem' key = None" "filter (\<lambda>r. oa_key r = key) (opsAlertCooldowns d') = []"
    using assms by (auto simp: release_alert_def)
qed

lemma fresh_raise_delivers:
  assumes "opsAlertsEnabled (cx_env cx)" "mem (cooldownKey (al_type al) (al_subject al)) = None"
    and "filter (\<lambda>r. oa_key r = cooldownKey (al_type al) (al_subject al)) (opsAlertCooldowns d) = []"
    and "list_ex id (sends (cx_env cx) ow)"
  shows "fst (raiseOpsAlert cx ow al (mem, d))"
  using assms by (simp add: raiseOpsAlert_def claim_alert_def claim_row_def Let_def split: reply.split)

lemma clear_other_key:
  assumes "clearOpsAlert cx r ty subject (mem, d) = (mem', d')" "cooldownKey ty subject \<noteq> k"
  shows "mem' k = mem k" "filter (\<lambda>r. oa_key r = k) (opsAlertCooldowns d') = filter (\<lambda>r. oa_key r = k) (opsAlertCooldowns d)"
    "monitors d' = monitors d"
proof -
  have "filter (\<lambda>r. oa_key r = k) (delete_where (\<lambda>r. oa_key r = cooldownKey ty subject) ts) = filter (\<lambda>r. oa_key r = k) ts"
    for ts :: "opsAlertCooldown_row list"
    using assms(2) by (intro filter_delete_where) auto
  then show "mem' k = mem k" "filter (\<lambda>r. oa_key r = k) (opsAlertCooldowns d') = filter (\<lambda>r. oa_key r = k) (opsAlertCooldowns d)"
    "monitors d' = monitors d"
    using assms by (auto simp: clearOpsAlert_def release_alert_def split: if_splits)
qed

lemma watchdog_keys_differ:
  "cooldownKey Monitor_checks_overdue ''database'' \<noteq> cooldownKey Monitor_checks_overdue ''scheduler''"
  by (simp add: cooldownKey_def)

text \<open>
  Once a watchdog pass finds every monitor checked on time, a later pass that finds one overdue
  alerts the operator at once, however short the outage before was, if a destination takes it.
\<close>

theorem new_outage_alerts:
  assumes "opsAlertsEnabled (cx_env cx)"
    and quiet: "wp_failure wp = None" "wp_clear wp = Answered" "fst (overdueChecks (cx_now cx) d) = 0"
    and first: "reportOverdueChecks cx wp (mem, d) = (b, mem1, d1)"
    and outage: "wp_failure wp2 = None" "fst (overdueChecks t d2) \<noteq> 0" "opsAlertCooldowns d2 = opsAlertCooldowns d1"
    and "list_ex id (sends (cx_env cx) (wp_raise wp2))"
  shows "\<not> b \<and> fst (reportOverdueChecks (cx\<lparr>cx_now := t\<rparr>) wp2 (mem1, d2))"
proof -
  let ?key = "cooldownKey Monitor_checks_overdue ''scheduler''"
  obtain ma da where a: "clearOpsAlert cx (wp_clear_unreadable wp) Monitor_checks_overdue ''database'' (mem, d) = (ma, da)"
    by fastforce
  from first quiet a have b: "\<not> b" "clearOpsAlert cx Answered Monitor_checks_overdue ''scheduler'' (ma, da) = (mem1, d1)"
    by (auto simp: reportOverdueChecks_def Let_def split: prod.splits)
  with assms(1) have "release_alert Answered ?key (ma, da) = (mem1, d1)" by (simp add: clearOpsAlert_def)
  note free = released_claims [OF this]
  let ?cx = "cx\<lparr>cx_now := t\<rparr>"
  obtain n oldest where o: "overdueChecks t d2 = (n, oldest)" by fastforce
  obtain m2 d3 where c: "clearOpsAlert ?cx (wp_clear_unreadable wp2) Monitor_checks_overdue ''database'' (mem1, d2) = (m2, d3)"
    by fastforce
  note c' = clear_other_key [OF c watchdog_keys_differ]
  have key: "cooldownKey (al_type (overdue_alert n oldest)) (al_subject (overdue_alert n oldest)) = ?key"
    by (simp add: overdue_alert_def)
  have "fst (raiseOpsAlert ?cx (wp_raise wp2) (overdue_alert n oldest) (m2, d3))"
    by (rule fresh_raise_delivers, unfold key) (use assms(1,9) c' free outage(3) in simp_all)
  with outage o c b(1) show ?thesis by (simp add: reportOverdueChecks_def Let_def)
qed

section \<open>A concrete instance\<close>

definition ops_ctx :: "time \<Rightarrow> ctx" where
  "ops_ctx t = (example_ctx t)\<lparr>cx_env := (\<lambda>k. if k = ''UPPITY_OPS_ALERT_EMAIL'' then Some ''ops@uppity.dev'' else None)\<rparr>"

definition all_well :: outside where
  "all_well = \<lparr>ow_query = Answered, ow_release = Answered, ow_email = True, ow_webhook = True\<rparr>"

definition well_pass :: pass where
  "well_pass = \<lparr>wp_failure = None, wp_clear_unreadable = Answered, wp_clear = Answered, wp_raise = all_well\<rparr>"

definition hour :: int where
  "hour = 3600000"

definition example_alert :: ops_alert where
  "example_alert = \<lparr>al_type = Monitor_checks_overdue, al_subject = ''scheduler'', al_title = ''t'', al_body = ''b''\<rparr>"

text \<open>Raised hourly by two processes, the alert goes out every six hours.\<close>

definition example_acts :: "act list" where
  "example_acts = [Raise 0 0 all_well example_alert, Raise 1 (5 * hour) all_well example_alert,
     Raise 0 (6 * hour) (all_well\<lparr>ow_email := False\<rparr>) example_alert, Raise 1 (6 * hour) all_well example_alert]"

lemma alert_cooldown_held_witness:
  "fst (perform_all (ops_ctx 0) example_acts (\<lambda>_ _. None, empty_db)) =
     [Delivered 0 ''monitor_checks_overdue:scheduler'' 0, Delivered 1 ''monitor_checks_overdue:scheduler'' (6 * hour)] \<and>
   0 + COOLDOWN_MS (cx_env (ops_ctx 0)) \<le> 6 * hour"
proof -
  let ?run = "perform_all (ops_ctx 0) example_acts (\<lambda>_ _. None, empty_db)"
  let ?key = "''monitor_checks_overdue:scheduler''"
  have marks: "fst ?run = [Delivered 0 ?key 0, Delivered 1 ?key (6 * hour)]" by code_simp
  then have "?run = ([] @ Delivered 0 ?key 0 # [] @ Delivered 1 ?key (6 * hour) # [], snd ?run)" by (simp add: prod_eq_iff)
  moreover have "sorted (map act_now example_acts)" "list_all all_answered example_acts" by code_simp+
  ultimately have "0 + COOLDOWN_MS (cx_env (ops_ctx 0)) \<le> 6 * hour"
    using alert_cooldown_held [of "ops_ctx 0" example_acts "(\<lambda>_ _. None, empty_db)" "[]" 0 ?key 0 "[]" 1 "6 * hour" "[]"] by simp
  with marks show ?thesis by blast
qed

text \<open>The monitor due at zero is on time a minute later and overdue an hour later.\<close>

lemma new_outage_alerts_witness:
  "fst (reportOverdueChecks ((ops_ctx 60000)\<lparr>cx_now := hour\<rparr>) well_pass
     (snd (reportOverdueChecks (ops_ctx 60000) well_pass (\<lambda>_. None, empty_db\<lparr>monitors := [example_monitor ''m'']\<rparr>))))"
proof -
  let ?d = "empty_db\<lparr>monitors := [example_monitor ''m'']\<rparr>"
  obtain b mem1 d1 where r: "reportOverdueChecks (ops_ctx 60000) well_pass (\<lambda>_. None, ?d) = (b, mem1, d1)"
    by (cases "reportOverdueChecks (ops_ctx 60000) well_pass (\<lambda>_. None, ?d)") auto
  have "fst (overdueChecks hour d1) \<noteq> 0"
  proof -
    have "fst (overdueChecks hour (snd (snd (reportOverdueChecks (ops_ctx 60000) well_pass (\<lambda>_. None, ?d))))) = 1" by code_simp
    with r show ?thesis by simp
  qed
  moreover have "opsAlertsEnabled (cx_env (ops_ctx 60000))" "wp_failure well_pass = None" "wp_clear well_pass = Answered"
    "fst (overdueChecks (cx_now (ops_ctx 60000)) ?d) = 0" "list_ex id (sends (cx_env (ops_ctx 60000)) (wp_raise well_pass))"
    by code_simp+
  ultimately have "fst (reportOverdueChecks ((ops_ctx 60000)\<lparr>cx_now := hour\<rparr>) well_pass (mem1, d1))"
    using new_outage_alerts [OF _ _ _ _ r, of well_pass hour d1] by simp
  with r show ?thesis by simp
qed

end
