(* ===== verification/Jobs.thy ===== *)
theory Jobs
  imports Stats Usage OpsAlerts Subscribers EmailChannels MaintenanceWindows
begin

text \<open>
  The maintenance jobs of the monitor worker, \<open>worker/monitor/maintenance.ts\<close>: their table, the
  claims of a pass, and the operation of each job.

  The next slot of a cron expression comes from a package the source calls: a function from the
  expression and a time to a time, or to the message of what it throws.  What else the jobs meet
  outside is one record: the billing provider, the mail that goes out, and for each job the failure
  it may end in before it changed anything.
\<close>

section \<open>The jobs\<close>

type_synonym cron = "string \<Rightarrow> time \<Rightarrow> string + time"

text \<open>The message of an error and the reason given to the operator, which is its cause's if it has one.\<close>

type_synonym fault = "string \<times> string"

record job_world =
  jw_ingest :: provider
  jw_usage_unread :: bool
  jw_blocks_unread :: bool
  jw_send :: send_notice
  jw_fault :: "id \<Rightarrow> fault option"
  jw_finish :: "id \<Rightarrow> time"

(* src/src/worker/monitor/maintenance.ts:38-39 JOB_RETRY_MS *)
definition JOB_RETRY_MS :: int where
  "JOB_RETRY_MS = 15 * 60000"

(* src/src/lib/constants/scheduler.ts:3-22 CRON_DAILY_STATS: and the other schedules *)
definition cron_settings :: "env \<Rightarrow> (string \<times> string) list" where
  "cron_settings env = [
     (''daily'', envString env ''UPPITY_CRON_DAILY_STATS'' ''0 1 * * *''),
     (''rolling'', envString env ''UPPITY_CRON_ROLLING_STATS'' ''*/5 * * * *''),
     (''cleanup'', envString env ''UPPITY_CRON_CLEANUP'' ''0 2 * * *''),
     (''usage'', envString env ''UPPITY_CRON_USAGE_SNAPSHOT'' ''0 3 * * *''),
     (''transitions'', envString env ''UPPITY_CRON_MAINTENANCE_WINDOW_TRANSITIONS'' ''* * * * *''),
     (''grace'', envString env ''UPPITY_CRON_CAPACITY_GRACE'' ''20 * * * *'')]"

definition cron_of :: "env \<Rightarrow> string \<Rightarrow> string" where
  "cron_of env k = coalesce (map_of (cron_settings env) k) []"

text \<open>Each job's id, name and schedule.\<close>

(* src/src/worker/monitor/maintenance.ts:44-126 JOBS *)
definition JOBS :: "env \<Rightarrow> (id \<times> string \<times> string) list" where
  "JOBS env = [
     (''daily-stats'', ''Daily Stats Aggregation'', cron_of env ''daily''),
     (''rolling-stats'', ''Rolling Stats Update'', cron_of env ''rolling''),
     (''cleanup'', ''Old Check Cleanup'', cron_of env ''cleanup''),
     (''unconfirmed-subscriber-cleanup'', ''Unconfirmed Subscriber Cleanup'', cron_of env ''cleanup''),
     (''suppressed-subscriber-cleanup'', ''Suppressed Subscriber Cleanup'', cron_of env ''cleanup''),
     (''mail-record-prune'', ''Mail Record Prune'', cron_of env ''cleanup''),
     (''channel-confirmation-prune'', ''Channel Confirmation Prune'', cron_of env ''cleanup''),
     (''maintenance-window-transitions'', ''Maintenance Window Transitions'', cron_of env ''transitions''),
     (''usage-snapshot'', ''Polar Usage Snapshot'', cron_of env ''usage''),
     (''capacity-grace'', ''Over-capacity Grace Period'', cron_of env ''grace'')]"

text \<open>Whether every report got through, and the events the provider took.\<close>

(* src/src/worker/monitor/maintenance.ts:128-153 runUsageSnapshot *)
definition runUsageSnapshot :: "ctx \<Rightarrow> job_world \<Rightarrow> db \<Rightarrow> (bool \<times> ingest_event list) \<times> db" where
  "runUsageSnapshot cx jw d = (
     let (_, d1) = applyScheduledReductions cx (Some (cx_now cx)) d;
         (report, sent) = reportUsageSnapshots (cx_env cx) (jw_ingest jw) (jw_usage_unread jw) d1;
         (blocks, sent2, d2) = reportBlocks (cx_env cx) (jw_ingest jw) (jw_blocks_unread jw) None (Some (cx_now cx)) d1 in
     ((ur_failure report = None \<and> \<not> isl blocks, sent @ sent2), d2))"

definition thrown :: "string \<Rightarrow> fault" where
  "thrown msg = (msg, msg)"

(* src/src/worker/monitor/maintenance.ts:44-126 JOBS: run *)
definition run_handler :: "ctx \<Rightarrow> job_world \<Rightarrow> id \<Rightarrow> (db \<Rightarrow> fault option \<times> db) option" where
  "run_handler cx jw k = map_of [
     (''daily-stats'', \<lambda>d. (None, snd (aggregateYesterday cx d))),
     (''rolling-stats'', \<lambda>d. (None, snd (updateAll24hStats cx d))),
     (''cleanup'', \<lambda>d. (None, snd (cleanupOldChecks cx (CHECK_RETENTION_DAYS (cx_env cx)) d))),
     (''unconfirmed-subscriber-cleanup'', \<lambda>d. (None, snd (deleteExpiredUnconfirmedSubscribers cx d))),
     (''suppressed-subscriber-cleanup'', \<lambda>d. (None, snd (deleteSuppressedSubscribers cx d))),
     (''mail-record-prune'', \<lambda>d. (None, snd (pruneMailRecords cx d))),
     (''channel-confirmation-prune'', \<lambda>d. (None, snd (pruneChannelConfirmationSends cx d))),
     (''maintenance-window-transitions'', \<lambda>d. (None, snd (runStatusTransitions cx None d))),
     (''usage-snapshot'', \<lambda>d. (let ((ok, _), d1) = runUsageSnapshot cx jw d in
        (if ok then None else Some (thrown ''Polar did not receive every usage report''), d1))),
     (''capacity-grace'', \<lambda>d. (let (result, d1) = runCapacityGrace (cx_env cx) (jw_send jw) (cx_now cx) d;
          n = length (gr_failures result) in
        (if n > 0 then Some (thrown (''Capacity grace failed for '' @ show_int (int n) @ '' organizations'')) else None, d1)))] k"

text \<open>A job that fails outside ends there; otherwise its handler runs.\<close>

definition attempt_job :: "job_world \<Rightarrow> id \<Rightarrow> (db \<Rightarrow> fault option \<times> db) \<Rightarrow> db \<Rightarrow> fault option \<times> db" where
  "attempt_job jw k h d = (case jw_fault jw k of None \<Rightarrow> h d | Some f \<Rightarrow> (Some f, d))"

section \<open>Seeding and passes\<close>

text \<open>\<open>Inl\<close>: the message thrown, after the rows before were inserted.\<close>

fun seed_jobs :: "cron \<Rightarrow> time \<Rightarrow> (id \<times> string \<times> string) list \<Rightarrow> db \<Rightarrow> string option \<times> db" where
  "seed_jobs nxt now [] d = (None, d)"
| "seed_jobs nxt now ((k, name, c) # js) d = (case nxt c now of
      Inl msg \<Rightarrow> (Some msg, d)
    | Inr t \<Rightarrow> seed_jobs nxt now js (d\<lparr>maintenanceJobs := insert_new j_id
        \<lparr>j_id = k, j_name = name, j_cronExpression = c, j_nextRunAt = t, j_lastRunAt = None, j_lastError = None,
         j_enabled = Some True\<rparr> (maintenanceJobs d)\<rparr>))"

(* src/src/worker/monitor/maintenance.ts:155-173 initializeMaintenanceJobs *)
definition initializeMaintenanceJobs :: "ctx \<Rightarrow> cron \<Rightarrow> db \<Rightarrow> string option \<times> db" where
  "initializeMaintenanceJobs cx nxt d = seed_jobs nxt (cx_now cx) (JOBS (cx_env cx)) d"

definition due_job :: "time \<Rightarrow> maintenanceJob_row \<Rightarrow> bool" where
  "due_job now j \<longleftrightarrow> j_enabled j = Some True \<and> j_nextRunAt j \<le> now"

definition job_is :: "id \<Rightarrow> maintenanceJob_row \<Rightarrow> bool" where
  "job_is k r \<longleftrightarrow> j_id r = k"

(* src/src/worker/monitor/maintenance.ts:212-216 claimed *)
definition claim_job :: "time \<Rightarrow> id \<Rightarrow> time \<Rightarrow> db \<Rightarrow> bool \<times> db" where
  "claim_job now k retryAt d = (let these = (\<lambda>r. job_is k r \<and> j_nextRunAt r \<le> now) in
     (list_ex these (maintenanceJobs d),
      d\<lparr>maintenanceJobs := update_where these (\<lambda>r. r\<lparr>j_nextRunAt := retryAt\<rparr>) (maintenanceJobs d)\<rparr>))"

definition set_job :: "id \<Rightarrow> (maintenanceJob_row \<Rightarrow> maintenanceJob_row) \<Rightarrow> db \<Rightarrow> db" where
  "set_job k f d = d\<lparr>maintenanceJobs := update_where (job_is k) f (maintenanceJobs d)\<rparr>"

definition job_alert :: "maintenanceJob_row \<Rightarrow> time \<Rightarrow> string \<Rightarrow> ops_alert" where
  "job_alert j retryAt why = \<lparr>al_type = Maintenance_job_failed, al_subject = j_id j,
     al_title = ''Maintenance job failed: '' @ j_name j,
     al_body = j_id j @ '' failed and retries at '' @ toISOString retryAt @ '': '' @ why\<rparr>"

definition job_failed :: "maintenanceJob_row \<Rightarrow> time \<Rightarrow> fault \<Rightarrow> db \<Rightarrow> db" where
  "job_failed j retryAt f d = raise_alert (job_alert j retryAt (snd f))
     (set_job (j_id j) (\<lambda>r. r\<lparr>j_lastError := Some (fst f)\<rparr>) d)"

definition finish_job :: "cron \<Rightarrow> time \<Rightarrow> time \<Rightarrow> time \<Rightarrow> maintenanceJob_row \<Rightarrow> fault option \<times> db \<Rightarrow> db" where
  "finish_job nxt now retryAt finished j r = (let (err, d) = r in
     case err of
       Some f \<Rightarrow> job_failed j retryAt f d
     | None \<Rightarrow> (case nxt (j_cronExpression j) finished of
         Inl msg \<Rightarrow> job_failed j retryAt (thrown msg) d
       | Inr t \<Rightarrow> set_job (j_id j) (\<lambda>r. r\<lparr>j_lastRunAt := Some now, j_nextRunAt := t, j_lastError := None\<rparr>) d))"

text \<open>What the pass throws, the jobs it ran, and the database.\<close>

(* src/src/worker/monitor/maintenance.ts:202-252 dueJobs: one job *)
definition run_job :: "ctx \<Rightarrow> cron \<Rightarrow> job_world \<Rightarrow> maintenanceJob_row \<Rightarrow> id list \<times> db \<Rightarrow> string option \<times> id list \<times> db" where
  "run_job cx nxt jw j acc = (let (ids, d) = acc; now = cx_now cx in
     case run_handler cx jw (j_id j) of
       None \<Rightarrow> (None, ids, d)
     | Some h \<Rightarrow> (case nxt (j_cronExpression j) now of
         Inl msg \<Rightarrow> (Some msg, ids, d)
       | Inr t \<Rightarrow> let retryAt = min t (now + JOB_RETRY_MS); (claimed, d1) = claim_job now (j_id j) retryAt d in
           if \<not> claimed then (None, ids, d1)
           else (None, ids @ [j_id j], finish_job nxt now retryAt (jw_finish jw (j_id j)) j (attempt_job jw (j_id j) h d1))))"

fun run_jobs :: "ctx \<Rightarrow> cron \<Rightarrow> job_world \<Rightarrow> maintenanceJob_row list \<Rightarrow> id list \<times> db \<Rightarrow> string option \<times> id list \<times> db" where
  "run_jobs cx nxt jw [] acc = (None, acc)"
| "run_jobs cx nxt jw (j # js) acc = (case run_job cx nxt jw j acc of
      (Some msg, acc1) \<Rightarrow> (Some msg, acc1)
    | (None, acc1) \<Rightarrow> run_jobs cx nxt jw js acc1)"

(* src/src/worker/monitor/maintenance.ts:183-253 runDueMaintenanceJobs *)
definition runDueMaintenanceJobs :: "ctx \<Rightarrow> cron \<Rightarrow> job_world \<Rightarrow> db \<Rightarrow> string option \<times> id list \<times> db" where
  "runDueMaintenanceJobs cx nxt jw d = run_jobs cx nxt jw (filter (due_job (cx_now cx)) (maintenanceJobs d)) ([], d)"

section \<open>No job touches the schedule of another\<close>

lemma stats_jobs [frame_simps]:
  "maintenanceJobs (snd (aggregateYesterday cx d)) = maintenanceJobs d"
  "maintenanceJobs (snd (updateAll24hStats cx d)) = maintenanceJobs d"
  "maintenanceJobs (snd (cleanupOldChecks cx f d)) = maintenanceJobs d"
proof -
  have "maintenanceJobs (aggregateDailyStats cx k t d) = maintenanceJobs d" for k t d
    by (simp add: aggregateDailyStats_def Let_def draw_def)
  then show "maintenanceJobs (snd (aggregateYesterday cx d)) = maintenanceJobs d"
    by (simp add: aggregateYesterday_def aggregateAllMonitorsForDate_def fold_frame [where g = maintenanceJobs])
  have "maintenanceJobs (updateMonitor24hStats cx k d) = maintenanceJobs d" for k d
    by (simp add: updateMonitor24hStats_def Let_def)
  then show "maintenanceJobs (snd (updateAll24hStats cx d)) = maintenanceJobs d"
    by (simp add: updateAll24hStats_def Let_def fold_frame [where g = maintenanceJobs])
  obtain n d' where c: "cleanupOldChecks cx f d = (n, d')" by fastforce
  from arg_cong [where f = maintenanceJobs, OF cleanup_by_retention_frame [OF c]]
  show "maintenanceJobs (snd (cleanupOldChecks cx f d)) = maintenanceJobs d"
    by (simp add: c)
qed


lemma grace_jobs [frame_simps]: "maintenanceJobs (snd (runCapacityGrace env send now d)) = maintenanceJobs d"
proof -
  have clear: "maintenanceJobs (snd (clearClock org d)) = maintenanceJobs d" for org d
    by (simp add: clearClock_def Let_def)
  have over: "maintenanceJobs (snd (grace_over send now sub nm a c rd)) = maintenanceJobs (snd rd)" for sub nm a c rd
    by (cases rd) (simp add: grace_over_def start_clock_def record_notice_def pause_monitors_def Let_def
        split: option.split prod.split)
  have "maintenanceJobs (snd (grace_row env send now row rd)) = maintenanceJobs (snd rd)" for row rd
    using clear by (cases row; cases rd) (simp add: grace_row_def over Let_def case_prod_beta split: option.split)
  then have "maintenanceJobs (snd (fold (grace_row env send now) rows rd)) = maintenanceJobs (snd rd)" for rows rd
    by (intro fold_frame [where g = "\<lambda>rd. maintenanceJobs (snd rd)"])
  then show ?thesis by (simp add: runCapacityGrace_def)
qed

lemma usage_jobs [frame_simps]: "maintenanceJobs (snd (runUsageSnapshot cx jw d)) = maintenanceJobs d"
proof -
  have "maintenanceJobs (raise_alert a d) = maintenanceJobs d" for a d by (simp add: raise_alert_def)
  from fold_frame [where g = maintenanceJobs, OF this]
  have "maintenanceJobs (fold (\<lambda>s. raise_alert (duplicated_alert s)) ss d) = maintenanceJobs d" for ss d .
  then have "maintenanceJobs (snd (snd (reportBlocks env ingest u k t d))) = maintenanceJobs d" for env ingest u k t d
    by (simp add: reportBlocks_def Let_def case_prod_beta)
  then show ?thesis by (simp add: runUsageSnapshot_def applyScheduledReductions_def Let_def case_prod_beta)
qed

lemma other_jobs [frame_simps]:
  "maintenanceJobs (snd (deleteExpiredUnconfirmedSubscribers cx d)) = maintenanceJobs d"
  "maintenanceJobs (snd (deleteSuppressedSubscribers cx d)) = maintenanceJobs d"
  "maintenanceJobs (snd (pruneMailRecords cx d)) = maintenanceJobs d"
  "maintenanceJobs (snd (pruneChannelConfirmationSends cx d)) = maintenanceJobs d"
  "maintenanceJobs (snd (runStatusTransitions cx t d)) = maintenanceJobs d"
  by (simp_all add: deleteExpiredUnconfirmedSubscribers_def deleteSuppressedSubscribers_def pruneMailRecords_def
      pruneChannelConfirmationSends_def runStatusTransitions_def Let_def)

lemma handler_jobs:
  assumes "run_handler cx jw k = Some h"
  shows "maintenanceJobs (snd (attempt_job jw k h d)) = maintenanceJobs d"
proof -
  from assms have "maintenanceJobs (snd (h d)) = maintenanceJobs d"
    by (auto simp: run_handler_def frame_simps Let_def case_prod_beta split: if_splits)
  then show ?thesis by (simp add: attempt_job_def split: option.split)
qed

section \<open>A failing job stays alone\<close>

definition known_job :: "ctx \<Rightarrow> job_world \<Rightarrow> maintenanceJob_row \<Rightarrow> bool" where
  "known_job cx jw j \<longleftrightarrow> run_handler cx jw (j_id j) \<noteq> None"

text \<open>A row after its job ran: done, and due in its next slot, or failed, and due again after the retry delay.\<close>

definition job_done :: "ctx \<Rightarrow> cron \<Rightarrow> job_world \<Rightarrow> maintenanceJob_row \<Rightarrow> maintenanceJob_row \<Rightarrow> bool" where
  "job_done cx nxt jw j r \<longleftrightarrow> (\<exists>t. nxt (j_cronExpression j) (jw_finish jw (j_id j)) = Inr t \<and>
     r = j\<lparr>j_lastRunAt := Some (cx_now cx), j_nextRunAt := t, j_lastError := None\<rparr>)"

definition job_retries :: "ctx \<Rightarrow> cron \<Rightarrow> maintenanceJob_row \<Rightarrow> maintenanceJob_row \<Rightarrow> bool" where
  "job_retries cx nxt j r \<longleftrightarrow> (\<exists>t msg. nxt (j_cronExpression j) (cx_now cx) = Inr t \<and>
     r = j\<lparr>j_nextRunAt := min t (cx_now cx + JOB_RETRY_MS), j_lastError := Some msg\<rparr>)"

definition readable :: "cron \<Rightarrow> maintenanceJob_row \<Rightarrow> bool" where
  "readable nxt j \<longleftrightarrow> (\<forall>t. \<not> isl (nxt (j_cronExpression j) t))"

lemma job_runs:
  assumes "j \<in> set (maintenanceJobs d)" "distinct (map j_id (maintenanceJobs d))" "due_job (cx_now cx) j"
    and "known_job cx jw j" "readable nxt j"
  shows "\<exists>d1 f. run_job cx nxt jw j (ids, d) = (None, ids @ [j_id j], d1) \<and>
    maintenanceJobs d1 = update_where (job_is (j_id j)) f (maintenanceJobs d) \<and>
    j_id (f j) = j_id j \<and> (job_done cx nxt jw j (f j) \<or> job_retries cx nxt j (f j))"
proof -
  from assms(4) obtain h where h: "run_handler cx jw (j_id j) = Some h" by (auto simp: known_job_def)
  from assms(5) have "\<not> isl (nxt (j_cronExpression j) (cx_now cx))" "\<not> isl (nxt (j_cronExpression j) (jw_finish jw (j_id j)))"
    by (simp_all add: readable_def)
  then obtain t t2 where t: "nxt (j_cronExpression j) (cx_now cx) = Inr t" "nxt (j_cronExpression j) (jw_finish jw (j_id j)) = Inr t2"
    by (cases "nxt (j_cronExpression j) (cx_now cx)"; cases "nxt (j_cronExpression j) (jw_finish jw (j_id j))") auto
  let ?retryAt = "min t (cx_now cx + JOB_RETRY_MS)"
  let ?P = "job_is (j_id j)"
  have same: "r = j" if "r \<in> set (maintenanceJobs d)" "?P r" for r
    using that assms(1,2) by (auto simp: distinct_map job_is_def dest: inj_onD)
  let ?these = "\<lambda>r. ?P r \<and> j_nextRunAt r \<le> cx_now cx"
  let ?f = "\<lambda>r. r\<lparr>j_nextRunAt := ?retryAt\<rparr>"
  obtain d1 where d1: "claim_job (cx_now cx) (j_id j) ?retryAt d = (True, d1)"
    using assms(1,3) by (auto simp: claim_job_def Let_def list_ex_iff due_job_def job_is_def)
  have "update_where ?these ?f (maintenanceJobs d) = update_where ?P ?f (maintenanceJobs d)"
    using same assms(3) by (auto simp: update_where_def due_job_def)
  with d1 have rows1: "maintenanceJobs d1 = update_where ?P ?f (maintenanceJobs d)" by (auto simp: claim_job_def Let_def)
  obtain err d2 where a: "attempt_job jw (j_id j) h d1 = (err, d2)" by fastforce
  with handler_jobs [OF h, of d1] rows1 have rows2: "maintenanceJobs d2 = update_where ?P ?f (maintenanceJobs d)" by simp
  have twice: "update_where ?P g (update_where ?P ?f rs) = update_where ?P (\<lambda>r. g (?f r)) rs" for g rs
    by (induction rs) (auto simp: job_is_def)
  have run: "run_job cx nxt jw j (ids, d) =
      (None, ids @ [j_id j], finish_job nxt (cx_now cx) ?retryAt (jw_finish jw (j_id j)) j (err, d2))"
    by (simp add: run_job_def Let_def h t(1) d1 a)
  show ?thesis
  proof (cases err)
    case None
    let ?g = "\<lambda>r. r\<lparr>j_lastRunAt := Some (cx_now cx), j_nextRunAt := t2, j_lastError := None\<rparr>"
    have "maintenanceJobs (finish_job nxt (cx_now cx) ?retryAt (jw_finish jw (j_id j)) j (err, d2)) =
        update_where ?P (\<lambda>r. ?g (?f r)) (maintenanceJobs d)"
      by (simp add: None finish_job_def t(2) set_job_def rows2 twice)
    moreover have "job_done cx nxt jw j (?g (?f j))" using t(2) by (simp add: job_done_def)
    ultimately show ?thesis using run by (intro exI [of _ "\<lambda>r. ?g (?f r)"] exI conjI) (assumption | simp)+
  next
    case (Some e)
    let ?g = "\<lambda>r. r\<lparr>j_lastError := Some (fst e)\<rparr>"
    have "maintenanceJobs (finish_job nxt (cx_now cx) ?retryAt (jw_finish jw (j_id j)) j (err, d2)) =
        update_where ?P (\<lambda>r. ?g (?f r)) (maintenanceJobs d)"
      by (simp add: Some finish_job_def job_failed_def raise_alert_def set_job_def rows2 twice)
    moreover have "job_retries cx nxt j (?g (?f j))" using t(1) by (auto simp: job_retries_def)
    ultimately show ?thesis using run by (intro exI [of _ "\<lambda>r. ?g (?f r)"] exI conjI) (assumption | simp)+
  qed
qed

lemma unknown_skipped: "\<not> known_job cx jw j \<Longrightarrow> run_job cx nxt jw j acc = (None, acc)"
  by (cases acc) (simp add: run_job_def known_job_def Let_def)

definition job_outcome :: "ctx \<Rightarrow> cron \<Rightarrow> job_world \<Rightarrow> bool \<Rightarrow> maintenanceJob_row \<Rightarrow> maintenanceJob_row \<Rightarrow> bool" where
  "job_outcome cx nxt jw hit j r \<longleftrightarrow>
     (if hit then job_done cx nxt jw j r \<or> job_retries cx nxt j r else r = j)"

lemma jobs_run:
  assumes "distinct (map j_id (maintenanceJobs d))" "distinct (map j_id js)" "set js \<subseteq> set (maintenanceJobs d)"
    and "list_all (due_job (cx_now cx)) js" "list_all (readable nxt) js"
  shows "\<exists>d'. run_jobs cx nxt jw js (ids, d) = (None, ids @ map j_id (filter (known_job cx jw) js), d') \<and>
    list_all2 (\<lambda>j r. job_outcome cx nxt jw (j \<in> set js \<and> known_job cx jw j) j r) (maintenanceJobs d) (maintenanceJobs d')"
  using assms
proof (induction js arbitrary: d ids)
  case Nil
  then show ?case by (simp add: job_outcome_def list.rel_refl)
next
  case (Cons j js)
  show ?case
  proof (cases "known_job cx jw j")
    case False
    from Cons.IH [of d ids] Cons.prems obtain d' where
      d': "run_jobs cx nxt jw js (ids, d) = (None, ids @ map j_id (filter (known_job cx jw) js), d')"
      "list_all2 (\<lambda>j r. job_outcome cx nxt jw (j \<in> set js \<and> known_job cx jw j) j r) (maintenanceJobs d) (maintenanceJobs d')"
      by auto
    have "list_all2 (\<lambda>i r. job_outcome cx nxt jw (i \<in> set (j # js) \<and> known_job cx jw i) i r) (maintenanceJobs d) (maintenanceJobs d')"
      by (rule list.rel_mono_strong [OF d'(2)]) (use False in \<open>auto simp: job_outcome_def split: if_splits\<close>)
    with d'(1) unknown_skipped [OF False] False show ?thesis by simp
  next
    case True
    have j: "j \<in> set (maintenanceJobs d)" "due_job (cx_now cx) j" "readable nxt j" using Cons.prems by simp_all
    from job_runs [OF j(1) Cons.prems(1) j(2) True j(3), of ids] obtain d1 f where
      run: "run_job cx nxt jw j (ids, d) = (None, ids @ [j_id j], d1)" and
      rows: "maintenanceJobs d1 = update_where (job_is (j_id j)) f (maintenanceJobs d)" and
      f: "j_id (f j) = j_id j" "job_done cx nxt jw j (f j) \<or> job_retries cx nxt j (f j)" by blast
    have only: "r = j" if "r \<in> set (maintenanceJobs d)" "job_is (j_id j) r" for r
      using that j(1) Cons.prems(1) by (auto simp: distinct_map job_is_def dest: inj_onD)
    have rows': "maintenanceJobs d1 = map (\<lambda>r. if r = j then f j else r) (maintenanceJobs d)"
      unfolding rows update_where_def using only by (intro map_cong refl) (auto simp: job_is_def)
    have "map j_id (maintenanceJobs d1) = map j_id (maintenanceJobs d)"
      unfolding rows' using f(1) by simp
    then have "distinct (map j_id (maintenanceJobs d1))" using Cons.prems(1) by simp
    moreover have fresh: "j_id j \<notin> j_id ` set js" using Cons.prems(2) by simp
    then have "set js \<subseteq> set (maintenanceJobs d1)" using Cons.prems(3) unfolding rows' by force
    ultimately obtain d' where
      d': "run_jobs cx nxt jw js (ids @ [j_id j], d1) = (None, (ids @ [j_id j]) @ map j_id (filter (known_job cx jw) js), d')"
      "list_all2 (\<lambda>j r. job_outcome cx nxt jw (j \<in> set js \<and> known_job cx jw j) j r) (maintenanceJobs d1) (maintenanceJobs d')"
      using Cons.IH [of d1 "ids @ [j_id j]"] Cons.prems by auto
    have notin: "f j \<notin> set js" "j \<notin> set js" using fresh f(1) by (auto simp: image_iff)
    from d'(2) have "list_all2 (\<lambda>i r. job_outcome cx nxt jw ((if i = j then f j else i) \<in> set js \<and>
        known_job cx jw (if i = j then f j else i)) (if i = j then f j else i) r) (maintenanceJobs d) (maintenanceJobs d')"
      unfolding rows' list_all2_map1 .
    then have "list_all2 (\<lambda>i r. job_outcome cx nxt jw (i \<in> set (j # js) \<and> known_job cx jw i) i r) (maintenanceJobs d) (maintenanceJobs d')"
      by (rule list.rel_mono_strong) (use f(2) True notin in \<open>auto simp: job_outcome_def split: if_splits\<close>)
    with d'(1) run True show ?thesis by simp
  qed
qed


text \<open>
  A row whose schedule cannot be read ends the pass: the jobs after it are not reached, and as
  nothing moves it on, no later pass reaches them either.
\<close>

theorem unreadable_schedule_stops_pass:
  assumes "filter (due_job (cx_now cx)) (maintenanceJobs d) = j # js" "known_job cx jw j"
    and "nxt (j_cronExpression j) (cx_now cx) = Inl msg"
  shows "runDueMaintenanceJobs cx nxt jw d = (Some msg, [], d)"
  using assms by (auto simp: runDueMaintenanceJobs_def run_job_def known_job_def Let_def)


section \<open>A concrete pass\<close>

text \<open>Every schedule is due again a minute on; the first of three due jobs fails and the last has no handler.\<close>

definition minutely :: cron where
  "minutely c t = Inr (t + 60000)"

definition example_job :: "id \<Rightarrow> maintenanceJob_row" where
  "example_job k = \<lparr>j_id = k, j_name = k, j_cronExpression = ''* * * * *'', j_nextRunAt = 0, j_lastRunAt = None,
     j_lastError = None, j_enabled = Some True\<rparr>"

definition example_jobs_db :: db where
  "example_jobs_db = empty_db\<lparr>maintenanceJobs := [example_job ''cleanup'', example_job ''rolling-stats'', example_job ''retired'']\<rparr>"

definition example_world :: job_world where
  "example_world = \<lparr>jw_ingest = (\<lambda>_. Unreadable), jw_usage_unread = False, jw_blocks_unread = False, jw_send = (\<lambda>_ _. None),
     jw_fault = (\<lambda>k. if k = ''cleanup'' then Some (thrown ''deadlock'') else None), jw_finish = (\<lambda>_. 2000)\<rparr>"


end
