(* ===== verification/PrivateAddress.thy ===== *)
theory PrivateAddress
  imports "HOL-Library.Word" Config
begin

text \<open>
  The addresses a check may not reach, \<open>lib/server/private-address.ts\<close>.

  An address literal is what the platform reads from it: an IPv4 address as a 32-bit word, an IPv6
  address as its eight 16-bit groups, or nothing if the text is no address.  A block list compares
  leading bits, and compares an IPv4-mapped IPv6 address with the IPv4 ranges too.
\<close>

unbundle bit_operations_syntax

section \<open>Addresses\<close>

type_synonym ipv4_address = "32 word"
type_synonym group = "16 word"

datatype address = V4 ipv4_address | V6 "group list"

text \<open>The number four octets or eight groups write.\<close>

definition octets :: "nat list \<Rightarrow> nat" where
  "octets ds = fold (\<lambda>d n. n * 256 + d) ds 0"

definition hextets :: "nat list \<Rightarrow> nat" where
  "hextets gs = fold (\<lambda>g n. n * 65536 + g) gs 0"

text \<open>A range is the width of its family, its prefix and the number of leading bits that count.\<close>

definition in_subnet :: "nat \<times> nat \<times> nat \<Rightarrow> nat \<Rightarrow> bool" where
  "in_subnet r a \<longleftrightarrow> (let (width, prefix, bits) = r in a div 2 ^ (width - bits) = prefix div 2 ^ (width - bits))"

(* src/src/lib/server/private-address.ts:9-27 privateRanges *)
definition private_ranges4 :: "(nat \<times> nat \<times> nat) list" where
  "private_ranges4 = map (\<lambda>(prefix, bits). (32, octets prefix, bits))
    [([0, 0, 0, 0], 8), ([10, 0, 0, 0], 8), ([100, 64, 0, 0], 10), ([127, 0, 0, 0], 8), ([169, 254, 0, 0], 16),
     ([172, 16, 0, 0], 12), ([192, 0, 0, 0], 24), ([192, 0, 2, 0], 24), ([192, 168, 0, 0], 16), ([198, 18, 0, 0], 15),
     ([198, 51, 100, 0], 24), ([203, 0, 113, 0], 24), ([224, 0, 0, 0], 4), ([240, 0, 0, 0], 4)]"

(* src/src/lib/server/private-address.ts:28-38 privateRanges: IPv6 *)
definition private_ranges6 :: "(nat \<times> nat \<times> nat) list" where
  "private_ranges6 = map (\<lambda>(prefix, bits). (128, hextets prefix, bits))
    [([0, 0, 0, 0, 0, 0, 0, 0], 96), ([0x64, 0xff9b, 1, 0, 0, 0, 0, 0], 48), ([0x100, 0, 0, 0, 0, 0, 0, 0], 64),
     ([0x2001, 0xdb8, 0, 0, 0, 0, 0, 0], 32), ([0xfc00, 0, 0, 0, 0, 0, 0, 0], 7), ([0xfe80, 0, 0, 0, 0, 0, 0, 0], 10),
     ([0xff00, 0, 0, 0, 0, 0, 0, 0], 8)]"

definition check4 :: "ipv4_address \<Rightarrow> bool" where
  "check4 a \<longleftrightarrow> list_ex (\<lambda>r. in_subnet r (unat a)) private_ranges4"

text \<open>The dotted address of two groups.\<close>

(* src/src/lib/server/private-address.ts:54-57 ipv4 *)
definition ipv4 :: "group \<Rightarrow> group \<Rightarrow> ipv4_address" where
  "ipv4 high low = of_nat (octets [unat (drop_bit 8 high), unat (high AND 0xff), unat (drop_bit 8 low), unat (low AND 0xff)])"

definition check6 :: "group list \<Rightarrow> bool" where
  "check6 g \<longleftrightarrow> list_ex (\<lambda>r. in_subnet r (hextets (map unat g))) private_ranges6 \<or>
     take 6 g = [0, 0, 0, 0, 0, 0xffff] \<and> check4 (ipv4 (g ! 6) (g ! 7))"

(* src/src/lib/server/private-address.ts:59-71 embeddedIPv4 *)
definition embeddedIPv4 :: "group list \<Rightarrow> ipv4_address option" where
  "embeddedIPv4 g = (
     if g ! 0 = 0x64 \<and> g ! 1 = 0xff9b \<and> list_all (\<lambda>x. x = 0) (take 4 (drop 2 g)) then Some (ipv4 (g ! 6) (g ! 7))
     else if g ! 0 = 0x2002 then Some (ipv4 (g ! 1) (g ! 2))
     else if g ! 0 = 0x2001 \<and> g ! 1 = 0 then Some (ipv4 (g ! 6 XOR 0xffff) (g ! 7 XOR 0xffff))
     else None)"

text \<open>\<open>None\<close>: not an address, which throws.\<close>

(* src/src/lib/server/private-address.ts:73-81 isPrivateAddress *)
definition isPrivateAddress :: "address option \<Rightarrow> bool option" where
  "isPrivateAddress address = (case address of
      None \<Rightarrow> None
    | Some (V4 a) \<Rightarrow> Some (check4 a)
    | Some (V6 g) \<Rightarrow> Some (check6 g \<or> on_some check4 (embeddedIPv4 g)))"

(* src/src/lib/server/private-address.ts:83-86 privateTargetsAllowed *)
definition privateTargetsAllowed :: "env \<Rightarrow> bool" where
  "privateTargetsAllowed env \<longleftrightarrow> env ''UPPITY_ALLOW_PRIVATE_TARGETS'' = Some ''true''"

section \<open>Ranges as intervals\<close>

lemma in_subnet_interval:
  assumes "prefix mod 2 ^ (width - bits) = 0"
  shows "in_subnet (width, prefix, bits) a \<longleftrightarrow> prefix \<le> a \<and> a < prefix + 2 ^ (width - bits)"
proof -
  let ?n = "2 ^ (width - bits) :: nat"
  obtain k where k: "prefix = ?n * k" using assms by auto
  have "in_subnet (width, prefix, bits) a \<longleftrightarrow> a div ?n = k" by (simp add: in_subnet_def k)
  also have "\<dots> \<longleftrightarrow> ?n * k \<le> a \<and> a < ?n * k + ?n"
    by (metis add.commute div_nat_eqI dividend_less_times_div mult.commute mult_Suc_right times_div_less_eq_dividend zero_less_numeral zero_less_power)
  finally show ?thesis using k by simp
qed

definition private6 :: "nat \<Rightarrow> bool" where
  "private6 n \<longleftrightarrow> n < 2 ^ 32 \<or> (0x64ff9b0001 * 2 ^ 80 \<le> n \<and> n < 0x64ff9b0002 * 2 ^ 80) \<or>
     (0x100 * 2 ^ 112 \<le> n \<and> n < 0x100 * 2 ^ 112 + 2 ^ 64) \<or> (0x20010db8 * 2 ^ 96 \<le> n \<and> n < 0x20010db9 * 2 ^ 96) \<or>
     (0xfc * 2 ^ 120 \<le> n \<and> n < 0xfe * 2 ^ 120) \<or> (0xfe8 * 2 ^ 116 \<le> n \<and> n < 0xfec * 2 ^ 116) \<or> 0xff * 2 ^ 120 \<le> n \<and> n < 2 ^ 128"

lemma private_ranges6_iff: "list_ex (\<lambda>r. in_subnet r n) private_ranges6 \<longleftrightarrow> private6 n"
  by (simp add: private_ranges6_def in_subnet_interval hextets_def private6_def)

lemma group_bound: "unat (g :: group) < 65536"
  using unsigned_less [of g] by simp

section \<open>What a tunnel carries\<close>

text \<open>The two groups of an IPv4 address.\<close>

definition high_group :: "ipv4_address \<Rightarrow> group" where
  "high_group a = of_nat (unat a div 65536)"

definition low_group :: "ipv4_address \<Rightarrow> group" where
  "low_group a = of_nat (unat a mod 65536)"

lemma ipv4_bound: "unat (a :: ipv4_address) < 4294967296"
  using unsigned_less [of a] by simp

lemma ipv4_value: "unat (ipv4 high low) = unat high * 65536 + unat low"
proof -
  have hi: "unat (drop_bit 8 g) = unat g div 256" for g :: group by (simp only: unat_drop_bit_eq) (simp add: drop_bit_eq_div)
  have mask: "(g AND 0xff) = take_bit 8 g" for g :: group by (simp add: take_bit_eq_mask mask_eq_exp_minus_1)
  have lo: "unat (g AND 0xff) = unat g mod 256" for g :: group
    by (simp only: mask unsigned_take_bit_eq) (simp add: take_bit_eq_mod)
  have "octets [unat (drop_bit 8 high), unat (high AND 0xff), unat (drop_bit 8 low), unat (low AND 0xff)] =
      unat high * 65536 + unat low"
    unfolding hi lo octets_def by simp
  moreover have "unat high * 65536 + unat low < 4294967296" using group_bound [of high] group_bound [of low] by linarith
  moreover have "unat (of_nat n :: ipv4_address) = n" if "n < 4294967296" for n
    using that by (simp add: unat_of_nat take_bit_eq_mod)
  ultimately show ?thesis unfolding ipv4_def by (simp only:)
qed

lemma ipv4_groups: "ipv4 (high_group a) (low_group a) = a"
proof -
  have "unat (high_group a) = unat a div 65536" "unat (low_group a) = unat a mod 65536"
    using ipv4_bound [of a] by (simp_all add: high_group_def low_group_def unat_of_nat take_bit_eq_mod)
  then have "unat (ipv4 (high_group a) (low_group a)) = unat a" by (simp add: ipv4_value)
  then show ?thesis by (rule unsigned_word_eqI)
qed

lemma inverted_twice: "(NOT g) XOR 0xffff = (g :: group)" "NOT (g XOR 0xffff) = (g :: group)"
proof -
  have "(0xffff :: group) = - 1" by simp
  then show "(NOT g) XOR 0xffff = g" "NOT (g XOR 0xffff) = g" by (simp_all only: bit.xor_one_right bit.double_compl)
qed

text \<open>
  An IPv4 address is no more reachable through IPv6: mapped, behind the well-known NAT64 prefix, as
  a 6to4 address or inverted in a Teredo address, whatever the other groups are, it is private
  exactly if it is private itself.
\<close>

theorem tunnels_open_nothing:
  "isPrivateAddress (Some (V6 [0, 0, 0, 0, 0, 0xffff, high_group a, low_group a])) = isPrivateAddress (Some (V4 a)) \<and>
   isPrivateAddress (Some (V6 [0x64, 0xff9b, 0, 0, 0, 0, high_group a, low_group a])) = isPrivateAddress (Some (V4 a)) \<and>
   isPrivateAddress (Some (V6 [0x2002, high_group a, low_group a, g3, g4, g5, g6, g7])) = isPrivateAddress (Some (V4 a)) \<and>
   isPrivateAddress (Some (V6 [0x2001, 0, g2, g3, g4, g5, NOT (high_group a), NOT (low_group a)])) = isPrivateAddress (Some (V4 a))"
proof (intro conjI)
  note gb = group_bound
  have "\<not> private6 (hextets (map unat [0, 0, 0, 0, 0, 0xffff, high_group a, low_group a :: group]))"
    using gb [of "high_group a"] gb [of "low_group a"] by (simp add: hextets_def private6_def)
  then show "isPrivateAddress (Some (V6 [0, 0, 0, 0, 0, 0xffff, high_group a, low_group a])) = isPrivateAddress (Some (V4 a))"
    unfolding isPrivateAddress_def check6_def private_ranges6_iff by (simp add: embeddedIPv4_def ipv4_groups)
  have "\<not> private6 (hextets (map unat [0x64, 0xff9b, 0, 0, 0, 0, high_group a, low_group a :: group]))"
    using gb [of "high_group a"] gb [of "low_group a"] by (simp add: hextets_def private6_def)
  then show "isPrivateAddress (Some (V6 [0x64, 0xff9b, 0, 0, 0, 0, high_group a, low_group a])) = isPrivateAddress (Some (V4 a))"
    unfolding isPrivateAddress_def check6_def private_ranges6_iff by (simp add: embeddedIPv4_def ipv4_groups)
  have "\<not> private6 (hextets (map unat [0x2002, high_group a, low_group a, g3, g4, g5, g6, g7]))"
    using gb [of "high_group a"] gb [of "low_group a"] gb [of g3] gb [of g4] gb [of g5] gb [of g6] gb [of g7]
    by (simp add: hextets_def private6_def)
  then show "isPrivateAddress (Some (V6 [0x2002, high_group a, low_group a, g3, g4, g5, g6, g7])) = isPrivateAddress (Some (V4 a))"
    unfolding isPrivateAddress_def check6_def private_ranges6_iff by (simp add: embeddedIPv4_def ipv4_groups)
  have "\<not> private6 (hextets (map unat [0x2001, 0, g2, g3, g4, g5, NOT (high_group a), NOT (low_group a)]))"
    using gb [of "NOT (high_group a)"] gb [of "NOT (low_group a)"] gb [of g2] gb [of g3] gb [of g4] gb [of g5]
    by (simp add: hextets_def private6_def)
  then show "isPrivateAddress (Some (V6 [0x2001, 0, g2, g3, g4, g5, NOT (high_group a), NOT (low_group a)])) = isPrivateAddress (Some (V4 a))"
    unfolding isPrivateAddress_def check6_def private_ranges6_iff by (simp add: embeddedIPv4_def ipv4_groups inverted_twice)
qed

text \<open>The metadata service, loopback in both families, and two public addresses.\<close>

lemma address_examples:
  "isPrivateAddress (Some (V4 (of_nat (octets [169, 254, 169, 254])))) = Some True"
  "isPrivateAddress (Some (V6 [0, 0, 0, 0, 0, 0, 0, 1])) = Some True"
  "isPrivateAddress (Some (V4 (of_nat (octets [1, 1, 1, 1])))) = Some False"
  "isPrivateAddress (Some (V6 [0x2606, 0x4700, 0, 0, 0, 0, 0, 0x1111])) = Some False"
  by (simp_all add: isPrivateAddress_def check4_def check6_def private_ranges4_def private_ranges6_def in_subnet_def octets_def
      hextets_def embeddedIPv4_def)

end
