(* ===== verification/Pagination.thy ===== *)
theory Pagination
  imports Schema Config
begin

text \<open>
  Keyset pagination of the public API's lists, \<open>lib/server/api/pagination.ts\<close>, and the contract every
  list of \<open>api-read.service.ts\<close> follows: rows newest first by a timestamp and, within one, by id;
  a cursor is the id of the last row returned.
\<close>

section \<open>Pages\<close>

(* src/src/lib/server/api/pagination.ts:7-7 DEFAULT_PAGE_SIZE *)
definition DEFAULT_PAGE_SIZE :: nat where
  "DEFAULT_PAGE_SIZE = 50"

(* src/src/lib/server/api/pagination.ts:8-8 MAX_PAGE_SIZE *)
definition MAX_PAGE_SIZE :: nat where
  "MAX_PAGE_SIZE = 100"

(* src/src/lib/server/api/pagination.ts:10-14 PageRequest *)
record page_request =
  rq_limit :: nat
  rq_after :: "id option"

(* src/src/lib/server/api/pagination.ts:16-19 Page *)
record 'r page =
  pd_data :: "'r list"
  pd_nextCursor :: "id option"

text \<open>
  The parameters as read from the query, and the whole number \<open>Number\<close> makes of a text if it makes one.
  \<open>Inl\<close>: why the request is invalid.
\<close>

(* src/src/lib/server/api/pagination.ts:21-36 parsePage *)
definition parsePage :: "(string \<Rightarrow> int option) \<Rightarrow> (string \<Rightarrow> string option) \<Rightarrow> string + page_request" where
  "parsePage whole params = (
     let after = params ''cursor'';
         bad = Inl (''limit must be a whole number from 1 to '' @ show_int (int MAX_PAGE_SIZE));
         page = (\<lambda>n. if after = Some [] then Inl ''cursor must not be empty'' else Inr \<lparr>rq_limit = n, rq_after = after\<rparr>) in
     case params ''limit'' of
       None \<Rightarrow> page DEFAULT_PAGE_SIZE
     | Some raw \<Rightarrow> (case whole raw of
         None \<Rightarrow> bad
       | Some l \<Rightarrow> if l < 1 \<or> l > int MAX_PAGE_SIZE then bad else page (nat l)))"

lemma parsePage_valid:
  "parsePage whole params = Inr rq \<Longrightarrow> 1 \<le> rq_limit rq \<and> rq_limit rq \<le> MAX_PAGE_SIZE \<and> rq_after rq \<noteq> Some []"
  by (auto simp: parsePage_def Let_def DEFAULT_PAGE_SIZE_def MAX_PAGE_SIZE_def split: option.splits if_splits)

(* src/src/lib/server/api/pagination.ts:38-42 toPage *)
definition toPage :: "('r \<Rightarrow> id) \<Rightarrow> 'r list \<Rightarrow> nat \<Rightarrow> 'r page" where
  "toPage ident rows limit = \<lparr>pd_data = take limit rows,
     pd_nextCursor = (if length rows > limit \<and> take limit rows \<noteq> [] then Some (ident (last (take limit rows))) else None)\<rparr>"

text \<open>
  One page of a table: the anchor is the row the cursor names, and only rows below it follow.
  \<open>None\<close>: the cursor names no row.
\<close>

definition newest_by :: "('r \<Rightarrow> 'k::linorder) \<Rightarrow> 'r list \<Rightarrow> 'r list" where
  "newest_by key rows = rev (order_asc key rows)"

definition keyset_page :: "('r \<Rightarrow> time \<times> id) \<Rightarrow> ('r \<Rightarrow> id) \<Rightarrow> page_request \<Rightarrow> 'r list \<Rightarrow> 'r page option" where
  "keyset_page key ident rq rows = (
     let page = (\<lambda>P. Some (toPage ident (take (rq_limit rq + 1) (newest_by key (filter P rows))) (rq_limit rq))) in
     case rq_after rq of
       None \<Rightarrow> page (\<lambda>_. True)
     | Some c \<Rightarrow> if c = [] then page (\<lambda>_. True)
         else (case first_row (filter (\<lambda>r. ident r = c) rows) of
             None \<Rightarrow> None
           | Some a \<Rightarrow> page (\<lambda>r. key r < key a)))"

text \<open>A client that follows the cursors, for as many pages as it has fuel.\<close>

fun follow_pages :: "nat \<Rightarrow> (page_request \<Rightarrow> 'r page option) \<Rightarrow> nat \<Rightarrow> id option \<Rightarrow> 'r list option" where
  "follow_pages 0 get n after = None"
| "follow_pages (Suc fuel) get n after = (case get \<lparr>rq_limit = n, rq_after = after\<rparr> of
      None \<Rightarrow> None
    | Some p \<Rightarrow> (case pd_nextCursor p of
        None \<Rightarrow> Some (pd_data p)
      | Some c \<Rightarrow> map_option ((@) (pd_data p)) (follow_pages fuel get n (Some c))))"

section \<open>The contract of a list\<close>

lemma sorted_newest_by: "sorted (rev (map key (newest_by key rows)))"
  by (simp add: newest_by_def rev_map sorted_order_asc)

lemma set_newest_by [simp]: "set (newest_by key rows) = set rows"
  by (simp add: newest_by_def)

lemma length_newest_by [simp]: "length (newest_by key rows) = length rows"
  by (simp add: newest_by_def)

lemma newest_by_filter: "newest_by key (filter P rows) = filter P (newest_by key rows)"
  by (simp add: newest_by_def order_asc_def filter_sort flip: rev_filter)

locale keyset =
  fixes key :: "'r \<Rightarrow> time \<times> id"
    and ident :: "'r \<Rightarrow> id"
  assumes key_by_id: "snd (key r) = ident r"
begin

lemma strictly_newest:
  assumes "distinct (map ident rows)"
  shows "sorted_wrt (\<lambda>r s. key s < key r) (newest_by key rows)"
proof -
  have inj: "inj_on key (set rows)"
    using assms by (auto simp: inj_on_def distinct_map key_by_id [symmetric])
  have "distinct (newest_by key rows)"
    using assms by (simp add: newest_by_def distinct_map)
  then have "distinct (map key (newest_by key rows))" using inj by (simp add: distinct_map)
  with sorted_newest_by [of key rows] have "sorted_wrt (<) (rev (map key (newest_by key rows)))"
    by (simp add: strict_sorted_iff)
  then show ?thesis by (simp add: sorted_wrt_rev sorted_wrt_map)
qed

lemma rows_below:
  assumes "distinct (map ident rows)" "newest_by key rows = xs @ a # ys"
  shows "newest_by key (filter (\<lambda>r. key r < key a) rows) = ys"
proof -
  have "sorted_wrt (\<lambda>r s. key s < key r) (xs @ a # ys)" using strictly_newest [OF assms(1)] assms(2) by simp
  then have "filter (\<lambda>r. key r < key a) xs = []" "filter (\<lambda>r. key r < key a) ys = ys"
    by (auto simp: sorted_wrt_append filter_empty_conv filter_id_conv)
  then show ?thesis by (simp add: newest_by_filter assms(2))
qed

lemma page_from:
  assumes "distinct (map ident rows)" "list_all (\<lambda>r. ident r \<noteq> []) rows" "newest_by key rows = xs @ ys"
    and "after = (if xs = [] then None else Some (ident (last xs)))"
  shows "keyset_page key ident \<lparr>rq_limit = n, rq_after = after\<rparr> rows = Some (toPage ident (take (n + 1) ys) n)"
proof (cases "xs = []")
  case True
  with assms show ?thesis by (simp add: keyset_page_def)
next
  case False
  let ?a = "last xs"
  have mem: "?a \<in> set rows" using assms(3) False by (metis UnI1 last_in_set set_append set_newest_by)
  have "filter (\<lambda>r. ident r = ident ?a) rows = [?a]" by (rule filter_the_row [OF mem assms(1)])
  moreover have "newest_by key rows = butlast xs @ ?a # ys" using assms(3) False by simp
  from rows_below [OF assms(1) this] have "newest_by key (filter (\<lambda>r. key r < key ?a) rows) = ys" .
  moreover have "ident ?a \<noteq> []" using assms(2) mem by (simp add: list_all_iff)
  ultimately show ?thesis using False assms(4) by (simp add: keyset_page_def)
qed

lemma follow_from:
  assumes "distinct (map ident rows)" "list_all (\<lambda>r. ident r \<noteq> []) rows" "1 \<le> n"
  shows "newest_by key rows = xs @ ys \<Longrightarrow> length ys < fuel \<Longrightarrow>
    follow_pages fuel (\<lambda>rq. keyset_page key ident rq rows) n (if xs = [] then None else Some (ident (last xs))) = Some ys"
proof (induction fuel arbitrary: xs ys)
  case (Suc fuel)
  let ?p = "toPage ident (take (n + 1) ys) n"
  have page: "keyset_page key ident \<lparr>rq_limit = n, rq_after = (if xs = [] then None else Some (ident (last xs)))\<rparr> rows = Some ?p"
    by (rule page_from [OF assms(1,2) Suc.prems(1) refl])
  show ?case
  proof (cases "length ys \<le> n")
    case True
    then have "pd_nextCursor ?p = None" "pd_data ?p = ys" by (simp_all add: toPage_def)
    with page show ?thesis by simp
  next
    case False
    define zs where "zs = take n ys"
    have zs: "zs \<noteq> []" "ys = zs @ drop n ys" using False assms(3) by (auto simp: zs_def)
    have next_page: "pd_nextCursor ?p = Some (ident (last zs))" "pd_data ?p = zs"
      using False zs(1) by (simp_all add: toPage_def zs_def min_def)
    have "newest_by key rows = (xs @ zs) @ drop n ys" using Suc.prems(1) zs(2) by simp
    moreover have "length (drop n ys) < fuel" using Suc.prems(2) False assms(3) by simp
    ultimately have "follow_pages fuel (\<lambda>rq. keyset_page key ident rq rows) n
        (if xs @ zs = [] then None else Some (ident (last (xs @ zs)))) = Some (drop n ys)" by (rule Suc.IH)
    with zs page next_page show ?thesis by simp
  qed
qed simp

text \<open>Following the cursors from the first page gives every row once, newest first.\<close>

lemma follow_all:
  assumes "distinct (map ident rows)" "list_all (\<lambda>r. ident r \<noteq> []) rows" "1 \<le> n" "length rows < fuel"
  shows "follow_pages fuel (\<lambda>rq. keyset_page key ident rq rows) n None = Some (newest_by key rows)"
  using follow_from [OF assms(1-3), of "[]" "newest_by key rows" fuel] assms(4) by simp

end

end
