(* ===== verification/Api.thy ===== *)
theory Api
  imports Pagination PublicPages Subscriptions Scheduler Formats
begin

text \<open>
  The public API: who may call it (\<open>lib/server/api-auth.ts\<close>), what its lists and records show
  (\<open>api-read.service.ts\<close>), and the URL it shows of a monitor (\<open>api/redact.ts\<close>).

  The verification of a key is the authentication library's, and the parts of a URL are the
  platform's: both come in as functions.
\<close>

section \<open>Who may call\<close>

(* src/src/lib/constants/api.ts:3-4 API_REQUESTS_PER_MINUTE *)
definition API_REQUESTS_PER_MINUTE :: "env \<Rightarrow> int" where
  "API_REQUESTS_PER_MINUTE env = envInt env ''UPPITY_API_REQUESTS_PER_MINUTE'' 600"

(* src/src/lib/constants/api.ts:6-7 API_RATE_LIMIT_WINDOW_MS *)
definition API_RATE_LIMIT_WINDOW_MS :: int where
  "API_RATE_LIMIT_WINDOW_MS = 60000"

(* src/src/lib/constants/api.ts:9-10 API_KEYS_PER_ORGANIZATION *)
definition API_KEYS_PER_ORGANIZATION :: int where
  "API_KEYS_PER_ORGANIZATION = 10"

text \<open>What the library says of a key: nothing valid, with the wait if the key is over its rate, or the key.\<close>

(* src/src/lib/server/api-auth.ts:22-32 VerifiedKey *)
record verified_key =
  vk_id :: id
  vk_referenceId :: id
  vk_rateLimitMax :: "int option"
  vk_rateLimitTimeWindow :: "int option"

datatype key_answer = KeyValid verified_key | KeyRateLimited "int option" | KeyInvalid

text \<open>A caller of an organization with its access, or a response to send instead.\<close>

(* src/src/lib/server/api-auth.ts:16-20 ApiCaller *)
datatype api_answer =
    ApiCaller (ca_organizationId: id) (ca_keyId: id) (ca_access: api_access)
  | ApiProblem (ap_status: nat) (ap_code: string) (ap_retryAfter: "int option")

(* src/src/lib/server/api-auth.ts:40-40 READ_METHODS *)
definition READ_METHODS :: "string list" where
  "READ_METHODS = [''GET'', ''HEAD'']"

(* src/src/lib/server/api-auth.ts:44-45 KEYLESS_ROUTES *)
definition KEYLESS_ROUTES :: "string list" where
  "KEYLESS_ROUTES = [''/api/v1/status-pages/[id]/summary'']"

definition starts_with :: "string \<Rightarrow> string \<Rightarrow> bool" where
  "starts_with p s \<longleftrightarrow> take (length p) s = p"

(* src/src/lib/server/api-auth.ts:47-55 requiresApiKey *)
definition requiresApiKey :: "string option \<Rightarrow> bool" where
  "requiresApiKey routeId = (case routeId of
      None \<Rightarrow> False
    | Some r \<Rightarrow> r \<notin> set KEYLESS_ROUTES \<and> (r = ''/api/v1'' \<or> starts_with ''/api/v1/'' r))"

(* src/src/lib/server/api-auth.ts:57-59 requestsPerMinute *)
definition requestsPerMinute :: "env \<Rightarrow> plan_limits \<Rightarrow> int" where
  "requestsPerMinute env l = (if apiRequestsPerMinute l = -1 then API_REQUESTS_PER_MINUTE env else apiRequestsPerMinute l)"

text \<open>The token of a header of the form \<open>Bearer <token>\<close>, in any case.\<close>

(* src/src/lib/server/api-auth.ts:66-66 bearer *)
definition bearer :: "string option \<Rightarrow> string option" where
  "bearer header = (let h = coalesce header []; rest = drop 6 h; token = dropWhile is_space rest in
     if lower (take 6 h) = ''bearer'' \<and> rest \<noteq> [] \<and> is_space (hd rest) \<and> token \<noteq> [] \<and> \<not> list_ex is_space token
     then Some token else None)"

text \<open>The rate limit to write on the key, if the one it has is stale.\<close>

definition stale_limit :: "int \<Rightarrow> verified_key \<Rightarrow> (id \<times> int \<times> int) option" where
  "stale_limit m key = (if vk_rateLimitMax key \<noteq> Some m \<or> vk_rateLimitTimeWindow key \<noteq> Some API_RATE_LIMIT_WINDOW_MS
     then Some (vk_id key, m, API_RATE_LIMIT_WINDOW_MS) else None)"

(* src/src/lib/server/api-auth.ts:61-105 authenticateApiRequest *)
definition authenticateApiRequest ::
  "ctx \<Rightarrow> (string \<Rightarrow> key_answer) \<Rightarrow> string option \<Rightarrow> string \<Rightarrow> db \<Rightarrow> api_answer \<times> (id \<times> int \<times> int) option \<times> db" where
  "authenticateApiRequest cx verify header meth d = (case bearer header of
      None \<Rightarrow> (ApiProblem 401 ''unauthorized'' None, None, d)
    | Some token \<Rightarrow> (case verify token of
        KeyRateLimited wait \<Rightarrow> (ApiProblem 429 ''rate_limited''
            (Some (max 1 (- ((- coalesce wait API_RATE_LIMIT_WINDOW_MS) div 1000)))), None, d)
      | KeyInvalid \<Rightarrow> (ApiProblem 401 ''unauthorized'' None, None, d)
      | KeyValid key \<Rightarrow> let (l, d1) = getEffectiveLimits cx (vk_referenceId key) d;
            fix_limit = stale_limit (requestsPerMinute (cx_env cx) l) key; access = apiAccess l in
          (if access = NoApi then (ApiProblem 403 ''forbidden'' None, fix_limit, d1)
           else if access = ReadApi \<and> meth \<notin> set READ_METHODS then (ApiProblem 403 ''forbidden'' None, fix_limit, d1)
           else (ApiCaller (vk_referenceId key) (vk_id key) access, fix_limit, d1))))"

text \<open>
  The organization a key creation names: absent, a text, or anything else.  \<open>Some\<close>: why it is refused.
\<close>

datatype body_field = Absent | Text string | OtherValue

(* src/src/lib/server/api-auth.ts:107-129 refuseApiKeyCreate *)
definition refuseApiKeyCreate :: "body_field \<Rightarrow> (id \<Rightarrow> int) \<Rightarrow> string option" where
  "refuseApiKeyCreate org countKeys = (case org of
      Absent \<Rightarrow> None
    | OtherValue \<Rightarrow> Some ''organizationId must be a string''
    | Text k \<Rightarrow> if k = [] then Some ''organizationId must be a string''
        else if countKeys k < API_KEYS_PER_ORGANIZATION then None
        else Some (''An organization can hold '' @ show_int API_KEYS_PER_ORGANIZATION @
          '' API keys. Revoke one to create another.''))"

text \<open>A call is let through only as far as the organization's plan goes at that moment.\<close>

lemma caller_entitled:
  assumes "authenticateApiRequest cx verify header meth d = (ApiCaller org k access, fix_limit, d1)"
  shows "\<exists>token key l. bearer header = Some token \<and> verify token = KeyValid key \<and> org = vk_referenceId key \<and>
     fst (getEffectiveLimits cx org d) = l \<and> access = apiAccess l \<and> access \<noteq> NoApi \<and>
     (access = ReadApi \<longrightarrow> meth \<in> set READ_METHODS)"
  using assms by (auto simp: authenticateApiRequest_def Let_def split: option.splits key_answer.splits prod.splits if_splits)

section \<open>A URL without its secrets\<close>

record web_url =
  wu_username :: string
  wu_password :: string
  wu_base :: string
  wu_pathname :: string
  wu_params :: "(string \<times> string) list"
  wu_hash :: string

(* src/src/lib/server/api/redact.ts:3-4 PARAM_NAME *)
definition plain_name :: "string \<Rightarrow> bool" where
  "plain_name s \<longleftrightarrow> (let letter = (\<lambda>c. is_word_char (lower_char c) \<and> \<not> is_digit c) in
     s \<noteq> [] \<and> letter (hd s) \<and> length s \<le> 24 \<and>
     list_all (\<lambda>c. letter c \<or> is_digit c \<or> c \<in> {CHR ''_'', CHR ''.'', CHR ''-''}) (tl s))"

text \<open>Every matrix parameter of a path masked; what the text so far is in comes first.\<close>

fun mask_matrix :: "bool \<Rightarrow> string \<Rightarrow> string" where
  "mask_matrix inside [] = []"
| "mask_matrix inside (c # s) = (
     if inside then (if c = CHR ''/'' then c # mask_matrix False s else mask_matrix True s)
     else if c = CHR '';'' then '';***'' @ mask_matrix True s
     else c # mask_matrix False s)"

definition mask_param :: "string \<times> string \<Rightarrow> string \<times> string" where
  "mask_param kv = (let (k, v) = kv; bare = list_all (\<lambda>c. c = CHR ''='') v in
     (if \<not> bare \<and> plain_name k then k else ''***'', if bare then [] else ''***''))"

definition redacted :: "web_url \<Rightarrow> web_url" where
  "redacted u = u\<lparr>wu_username := [], wu_password := [], wu_hash := [],
     wu_pathname := mask_matrix False (wu_pathname u), wu_params := map mask_param (wu_params u)\<rparr>"

text \<open>The platform's reading of an http or https URL, and its writing of the parts.\<close>

(* src/src/lib/server/api/redact.ts:20-36 redactUrl *)
definition redactUrl :: "(string \<Rightarrow> web_url option) \<Rightarrow> (web_url \<Rightarrow> string) \<Rightarrow> string option \<Rightarrow> string option" where
  "redactUrl parse print raw = (case raw of
      None \<Rightarrow> None
    | Some s \<Rightarrow> map_option (\<lambda>u. print (redacted u)) (parse s))"

lemma redacted_url:
  "wu_username (redacted u) = [] \<and> wu_password (redacted u) = [] \<and> wu_hash (redacted u) = [] \<and>
   list_all (\<lambda>(k, v). (k = ''***'' \<or> plain_name k) \<and> v \<in> {[], ''***''}) (wu_params (redacted u))"
  by (auto simp: redacted_def list_all_iff mask_param_def Let_def split: if_splits)

section \<open>What the lists show\<close>

record api_monitor =
  am_id :: id
  am_name :: string
  am_description :: "string option"
  am_type :: monitor_type
  am_active :: bool
  am_pausedForCapacity :: bool
  am_status :: "status option"
  am_url :: "string option"
  am_method :: "string option"
  am_hostname :: "string option"
  am_port :: "int option"
  am_intervalSeconds :: int
  am_timeoutSeconds :: int
  am_lastCheckAt :: "time option"
  am_uptimePercent24h :: "rat option"
  am_avgResponseTimeMs24h :: "int option"
  am_createdAt :: time
  am_updatedAt :: time

text \<open>No status: the monitor is not checked.\<close>

(* src/src/lib/server/services/api-read.service.ts:95-115 monitorFields *)
definition monitor_view :: "(string \<Rightarrow> web_url option) \<Rightarrow> (web_url \<Rightarrow> string) \<Rightarrow> time \<Rightarrow> db \<Rightarrow> monitor_row \<Rightarrow> api_monitor" where
  "monitor_view parse print now d m = (let s = first_row (filter (\<lambda>s. s_monitorId s = m_id m) (monitorStatuses d)) in
     \<lparr>am_id = m_id m, am_name = m_name m, am_description = m_description m, am_type = m_type m, am_active = m_active m,
      am_pausedForCapacity = (m_capacityPausedAt m \<noteq> None),
      am_status = (if checksStopped now m then None else Some (coalesce (map_option s_status s) Unknown)),
      am_url = redactUrl parse print (m_url m),
      am_method = (if m_type m = HttpMonitor then m_method m else None),
      am_hostname = m_hostname m, am_port = m_port m, am_intervalSeconds = m_intervalSeconds m,
      am_timeoutSeconds = m_timeoutSeconds m, am_lastCheckAt = Option.bind s s_lastCheckAt,
      am_uptimePercent24h = Option.bind s s_uptimePercent24h,
      am_avgResponseTimeMs24h = Option.bind s s_avgResponseTimeMs24h,
      am_createdAt = m_createdAt m, am_updatedAt = m_updatedAt m\<rparr>)"

record api_check =
  ak_id :: id
  ak_status :: status
  ak_statusCode :: "int option"
  ak_responseTimeMs :: "int option"
  ak_errorMessage :: "string option"
  ak_sslExpiresAt :: "time option"
  ak_checkedAt :: time

(* src/src/lib/server/services/api-read.service.ts:117-125 checkFields *)
definition check_view :: "monitorCheck_row \<Rightarrow> api_check" where
  "check_view c = \<lparr>ak_id = c_id c, ak_status = c_status c, ak_statusCode = c_statusCode c,
     ak_responseTimeMs = c_responseTimeMs c, ak_errorMessage = c_errorMessage c, ak_sslExpiresAt = c_sslExpiresAt c,
     ak_checkedAt = c_checkedAt c\<rparr>"

record api_incident =
  ai_id :: id
  ai_title :: string
  ai_status :: incident_status
  ai_impact :: incident_impact
  ai_autoCreated :: bool
  ai_startedAt :: time
  ai_resolvedAt :: "time option"
  ai_createdAt :: time
  ai_updatedAt :: time

(* src/src/lib/server/services/api-read.service.ts:127-137 incidentFields *)
definition incident_view :: "incident_row \<Rightarrow> api_incident" where
  "incident_view i = \<lparr>ai_id = i_id i, ai_title = i_title i, ai_status = i_status i, ai_impact = i_impact i,
     ai_autoCreated = i_isAutoCreated i, ai_startedAt = i_startedAt i, ai_resolvedAt = i_resolvedAt i,
     ai_createdAt = i_createdAt i, ai_updatedAt = i_updatedAt i\<rparr>"

record api_page =
  ag_id :: id
  ag_name :: string
  ag_slug :: string
  ag_description :: "string option"
  ag_isPublic :: bool
  ag_customDomain :: "string option"
  ag_createdAt :: time
  ag_updatedAt :: time

(* src/src/lib/server/services/api-read.service.ts:139-148 statusPageFields *)
definition page_view :: "statusPage_row \<Rightarrow> api_page" where
  "page_view p = \<lparr>ag_id = p_id p, ag_name = p_name p, ag_slug = p_slug p, ag_description = p_description p,
     ag_isPublic = p_isPublic p, ag_customDomain = p_customDomain p, ag_createdAt = p_createdAt p,
     ag_updatedAt = p_updatedAt p\<rparr>"

definition map_page :: "('r \<Rightarrow> 's) \<Rightarrow> 'r page \<Rightarrow> 's page" where
  "map_page f p = \<lparr>pd_data = map f (pd_data p), pd_nextCursor = pd_nextCursor p\<rparr>"

(* src/src/lib/server/services/api-read.service.ts:161-183 listMonitors *)
definition listMonitors ::
  "(string \<Rightarrow> web_url option) \<Rightarrow> (web_url \<Rightarrow> string) \<Rightarrow> time \<Rightarrow> id \<Rightarrow> db \<Rightarrow> page_request \<Rightarrow> api_monitor page option" where
  "listMonitors parse print now org d rq = map_option (map_page (monitor_view parse print now d))
     (keyset_page (\<lambda>m. (m_createdAt m, m_id m)) m_id rq (filter (\<lambda>m. m_organizationId m = org) (monitors d)))"

(* src/src/lib/server/services/api-read.service.ts:185-192 getMonitor *)
definition api_getMonitor ::
  "(string \<Rightarrow> web_url option) \<Rightarrow> (web_url \<Rightarrow> string) \<Rightarrow> time \<Rightarrow> id \<Rightarrow> id \<Rightarrow> db \<Rightarrow> api_monitor option" where
  "api_getMonitor parse print now org k d = map_option (monitor_view parse print now d)
     (first_row (filter (\<lambda>m. m_id m = k \<and> m_organizationId m = org) (monitors d)))"

(* src/src/lib/server/services/api-read.service.ts:194-216 listChecks *)
definition listChecks :: "id \<Rightarrow> db \<Rightarrow> page_request \<Rightarrow> api_check page option" where
  "listChecks mid d rq = map_option (map_page check_view)
     (keyset_page (\<lambda>c. (c_checkedAt c, c_id c)) c_id rq (filter (\<lambda>c. c_monitorId c = mid) (monitorChecks d)))"

(* src/src/lib/server/services/api-read.service.ts:218-242 listIncidents *)
definition listIncidents :: "id \<Rightarrow> db \<Rightarrow> page_request \<Rightarrow> api_incident page option" where
  "listIncidents org d rq = map_option (map_page incident_view)
     (keyset_page (\<lambda>i. (i_startedAt i, i_id i)) i_id rq (filter (\<lambda>i. i_organizationId i = org) (incidents d)))"

text \<open>An incident with its updates, newest first, and its monitors of the organization.\<close>

(* src/src/lib/server/services/api-read.service.ts:244-280 getIncident *)
definition api_getIncident ::
  "id \<Rightarrow> id \<Rightarrow> db \<Rightarrow> (api_incident \<times> (id \<times> incident_status \<times> string \<times> time) list \<times> (id \<times> string) list) option" where
  "api_getIncident org k d = map_option (\<lambda>i. (incident_view i,
       map (\<lambda>u. (iu_id u, iu_status u, iu_message u, iu_createdAt u))
         (order_desc iu_createdAt (filter (\<lambda>u. iu_incidentId u = k) (incidentUpdates d))),
       map (\<lambda>m. (m_id m, m_name m)) (filter (\<lambda>m. m_organizationId m = org \<and>
         m_id m \<in> im_monitorId ` set (filter (\<lambda>im. im_incidentId im = k) (incidentMonitors d))) (monitors d))))
     (first_row (filter (\<lambda>i. i_id i = k \<and> i_organizationId i = org) (incidents d)))"

(* src/src/lib/server/services/api-read.service.ts:282-309 listStatusPages *)
definition listStatusPages :: "id \<Rightarrow> db \<Rightarrow> page_request \<Rightarrow> api_page page option" where
  "listStatusPages org d rq = map_option (map_page page_view)
     (keyset_page (\<lambda>p. (p_createdAt p, p_id p)) p_id rq (filter (\<lambda>p. p_organizationId p = org) (statusPages d)))"

(* src/src/lib/server/services/api-read.service.ts:311-327 getStatusPage *)
definition api_getStatusPage ::
  "ctx \<Rightarrow> id \<Rightarrow> id \<Rightarrow> db \<Rightarrow> (api_page \<times> overall_status \<times> (id \<times> string) list \<times> (id \<times> id \<times> string \<times> id option \<times> component_status) list) option" where
  "api_getStatusPage cx org k d = map_option (\<lambda>p. (page_view p, getComponentStatuses cx p d)) (find_org_page k org d)"

section \<open>The lists are complete\<close>

interpretation monitor_list: keyset "\<lambda>m. (m_createdAt m, m_id m)" m_id
  by unfold_locales simp

interpretation check_list: keyset "\<lambda>c. (c_checkedAt c, c_id c)" c_id
  by unfold_locales simp

interpretation incident_list: keyset "\<lambda>i. (i_startedAt i, i_id i)" i_id
  by unfold_locales simp

interpretation page_list: keyset "\<lambda>p. (p_createdAt p, p_id p)" p_id
  by unfold_locales simp

lemma follow_mapped:
  "follow_pages fuel (\<lambda>rq. map_option (map_page f) (get rq)) n after = map_option (map f) (follow_pages fuel get n after)"
proof (induction fuel arbitrary: after)
  case (Suc fuel)
  show ?case
  proof (cases "get \<lparr>rq_limit = n, rq_after = after\<rparr>")
    case (Some p)
    have parts: "pd_data (map_page f p) = map f (pd_data p)" "pd_nextCursor (map_page f p) = pd_nextCursor p"
      by (simp_all add: map_page_def)
    show ?thesis
      by (cases "pd_nextCursor p") (simp_all add: Some parts Suc.IH option.map_comp comp_def)
  qed simp
qed simp

text \<open>Ids are unique and not empty, as primary keys drawn at random are.\<close>

definition keyed :: "('r \<Rightarrow> id) \<Rightarrow> 'r list \<Rightarrow> bool" where
  "keyed ident rows \<longleftrightarrow> distinct (map ident rows) \<and> list_all (\<lambda>r. ident r \<noteq> []) rows"

lemma keyed_filter: "keyed ident rows \<Longrightarrow> distinct (map ident (filter P rows)) \<and> list_all (\<lambda>r. ident r \<noteq> []) (filter P rows)"
  by (auto simp: keyed_def distinct_map_filter list_all_iff)

text \<open>
  C39: A client of the public API that follows the cursors of a list gets every monitor, incident and
  status page of its organization, and every check of a monitor, exactly once and the newest first,
  whatever page size it asks for, and never a row of another organization.
\<close>

theorem api_lists_complete:
  assumes "keyed m_id (monitors d)" "keyed c_id (monitorChecks d)" "keyed i_id (incidents d)" "keyed p_id (statusPages d)"
    and "1 \<le> n" "length (monitors d) + length (monitorChecks d) + length (incidents d) + length (statusPages d) < fuel"
  shows "follow_pages fuel (listMonitors parse print now org d) n None = Some (map (monitor_view parse print now d)
      (newest_by (\<lambda>m. (m_createdAt m, m_id m)) (filter (\<lambda>m. m_organizationId m = org) (monitors d)))) \<and>
    follow_pages fuel (listChecks k d) n None = Some (map check_view
      (newest_by (\<lambda>c. (c_checkedAt c, c_id c)) (filter (\<lambda>c. c_monitorId c = k) (monitorChecks d)))) \<and>
    follow_pages fuel (listIncidents org d) n None = Some (map incident_view
      (newest_by (\<lambda>i. (i_startedAt i, i_id i)) (filter (\<lambda>i. i_organizationId i = org) (incidents d)))) \<and>
    follow_pages fuel (listStatusPages org d) n None = Some (map page_view
      (newest_by (\<lambda>p. (p_createdAt p, p_id p)) (filter (\<lambda>p. p_organizationId p = org) (statusPages d))))"
proof -
  show ?thesis
    unfolding listMonitors_def listChecks_def listIncidents_def listStatusPages_def follow_mapped
    using assms(5,6) keyed_filter [OF assms(1)] keyed_filter [OF assms(2)] keyed_filter [OF assms(3)] keyed_filter [OF assms(4)]
    by (simp add: monitor_list.follow_all check_list.follow_all incident_list.follow_all page_list.follow_all
        le_less_trans [OF length_filter_le])
qed

definition example_listed :: db where
  "example_listed = empty_db\<lparr>monitors := [example_monitor ''a'', (example_monitor ''c'')\<lparr>m_createdAt := 5\<rparr>,
     (example_monitor ''x'')\<lparr>m_organizationId := ''p''\<rparr>, example_monitor ''b'']\<rparr>"

lemma api_lists_complete_witness:
  "map_option (map am_id) (follow_pages 9 (listMonitors (\<lambda>_. None) (\<lambda>_. []) 0 ''o'' example_listed) 1 None) =
     Some [''c'', ''b'', ''a'']"
proof -
  have "keyed m_id (monitors example_listed)" "keyed c_id (monitorChecks example_listed)"
    "keyed i_id (incidents example_listed)" "keyed p_id (statusPages example_listed)" "1 \<le> (1::nat)"
    "length (monitors example_listed) + length (monitorChecks example_listed) + length (incidents example_listed) +
      length (statusPages example_listed) < 9"
    by code_simp+
  from api_lists_complete [where parse = "\<lambda>_. None" and print = "\<lambda>_. []" and now = 0 and org = "''o''", OF this, THEN conjunct1]
  have "map_option (map am_id) (follow_pages 9 (listMonitors (\<lambda>_. None) (\<lambda>_. []) 0 ''o'' example_listed) 1 None) =
    Some (map am_id (map (monitor_view (\<lambda>_. None) (\<lambda>_. []) 0 example_listed)
      (newest_by (\<lambda>m. (m_createdAt m, m_id m)) (filter (\<lambda>m. m_organizationId m = ''o'') (monitors example_listed)))))"
    by simp
  also have "\<dots> = Some [''c'', ''b'', ''a'']" by code_simp
  finally show ?thesis .
qed

end
