(* ===== verification/Admin.thy ===== *)
theory Admin
  imports AuditLog OpsAlerts Subscribers
begin

text \<open>
  The staff's administration of an instance, \<open>lib/server/services/admin.service.ts\<close>: organizations and
  members, dead-lettered monitors, mail switches and blocks, and the account operations it passes on
  to the authentication library, with the audit row of each.

  The library comes in as a function that answers a call with an error or without one.  An operation
  that runs in a transaction gives back the database it began with when it throws: no id it drew was
  stored, so they count as not drawn.
\<close>

section \<open>Transactions and their audit rows\<close>

text \<open>What ends an operation: a violated constraint, an update of nothing, or the library's refusal.\<close>

datatype admin_error =
    Slug_taken
  | No_values
  | No_organization
  | No_user
  | No_actor
  | Library_error string

definition transaction :: "(db \<Rightarrow> 'e + 'a \<times> db) \<Rightarrow> db \<Rightarrow> ('e + 'a) \<times> db" where
  "transaction f d = (case f d of Inl e \<Rightarrow> (Inl e, d) | Inr (x, d') \<Rightarrow> (Inr x, d'))"

definition has_user :: "id \<Rightarrow> db \<Rightarrow> bool" where
  "has_user k d \<longleftrightarrow> list_ex (\<lambda>u. u_id u = k) (users d)"

definition has_organization :: "id \<Rightarrow> db \<Rightarrow> bool" where
  "has_organization k d \<longleftrightarrow> list_ex (\<lambda>g. org_id g = k) (organizations d)"

text \<open>The row names its actor with a foreign key, so an actor whose account is gone writes none.\<close>

definition audited :: "ctx \<Rightarrow> actor \<Rightarrow> audit_entry \<Rightarrow> 'a \<Rightarrow> db \<Rightarrow> admin_error + 'a \<times> db" where
  "audited cx a e x d = (if has_user (ac_id a) d then Inr (x, audit cx a e d) else Inl No_actor)"

definition about :: "string \<Rightarrow> string \<Rightarrow> id \<Rightarrow> string option \<Rightarrow> (string \<times> json) list option \<Rightarrow> audit_entry" where
  "about action ty k label meta = \<lparr>ae_action = action, ae_targetType = Some ty, ae_targetId = Some k,
     ae_targetLabel = label, ae_metadata = map_option JObj meta\<rparr>"

section \<open>Organizations\<close>

(* src/src/lib/server/services/admin.service.ts:39-43 CreateOrganizationInput *)
record create_organization_input =
  co_name :: string
  co_slug :: string
  co_logo :: "string option"

text \<open>An absent field of the update is \<open>None\<close>; a logo can also be set to null.\<close>

(* src/src/lib/server/services/admin.service.ts:45-49 UpdateOrganizationInput *)
record update_organization_input =
  uo_name :: "string option"
  uo_slug :: "string option"
  uo_logo :: "string option option"

definition find_organization :: "id \<Rightarrow> db \<Rightarrow> organization_row option" where
  "find_organization k d = first_row (filter (\<lambda>g. org_id g = k) (organizations d))"

(* src/src/lib/server/services/admin.service.ts:157-183 createOrganization *)
definition createOrganization ::
  "ctx \<Rightarrow> actor \<Rightarrow> create_organization_input \<Rightarrow> db \<Rightarrow> (admin_error + organization_row) \<times> db" where
  "createOrganization cx a i = transaction (\<lambda>d.
     let org = \<lparr>org_id = cx_nanoid cx (drawn d), org_name = co_name i, org_slug = co_slug i,
         org_logo = (if co_logo i = Some [] then None else co_logo i), org_createdAt = cx_now cx, org_metadata = None,
         org_subscriberEmailEnabled = False\<rparr> in
     if list_ex (\<lambda>g. org_slug g = co_slug i) (organizations d) then Inl Slug_taken
     else audited cx a (about ''org.create'' ''organization'' (org_id org) (Some (org_name org))
            (Some [(''slug'', JStr (org_slug org))])) org
          ((draw d)\<lparr>organizations := organizations d @ [org]\<rparr>))"

definition changed_fields :: "update_organization_input \<Rightarrow> organization_row \<Rightarrow> string list" where
  "changed_fields i g =
     (if uo_name i \<noteq> None \<and> uo_name i \<noteq> Some (org_name g) then [''name''] else []) @
     (if uo_slug i \<noteq> None \<and> uo_slug i \<noteq> Some (org_slug g) then [''slug''] else []) @
     (if uo_logo i \<noteq> None \<and> uo_logo i \<noteq> Some (org_logo g) then [''logo''] else [])"

definition with_input :: "update_organization_input \<Rightarrow> organization_row \<Rightarrow> organization_row" where
  "with_input i g = g\<lparr>org_name := coalesce (uo_name i) (org_name g), org_slug := coalesce (uo_slug i) (org_slug g),
     org_logo := coalesce (uo_logo i) (org_logo g)\<rparr>"

(* src/src/lib/server/services/admin.service.ts:185-217 updateOrganization *)
definition updateOrganization ::
  "ctx \<Rightarrow> actor \<Rightarrow> id \<Rightarrow> update_organization_input \<Rightarrow> db \<Rightarrow> (admin_error + organization_row option) \<times> db" where
  "updateOrganization cx a k i = transaction (\<lambda>d. case find_organization k d of
      None \<Rightarrow> Inr (None, d)
    | Some existing \<Rightarrow>
        if uo_name i = None \<and> uo_slug i = None \<and> uo_logo i = None then Inl No_values
        else if list_ex (\<lambda>g. org_id g \<noteq> k \<and> Some (org_slug g) = uo_slug i) (organizations d) then Inl Slug_taken
        else let updated = with_input i existing in
          audited cx a (about ''org.update'' ''organization'' k (Some (org_name updated))
            (Some [(''changed'', JArr (map JStr (changed_fields i existing)))])) (Some updated)
          (d\<lparr>organizations := update_where (\<lambda>g. org_id g = k) (with_input i) (organizations d)\<rparr>))"

text \<open>
  What the foreign keys do when an organization goes: its own rows, the rows of its monitors,
  incidents, pages, groups, subscribers, channels, windows and events go with it, and the references
  that may be empty are emptied.
\<close>

definition forget :: "id set \<Rightarrow> id option \<Rightarrow> id option" where
  "forget gone x = (case x of None \<Rightarrow> None | Some k \<Rightarrow> if k \<in> gone then None else x)"

definition named_in :: "id set \<Rightarrow> id option \<Rightarrow> bool" where
  "named_in gone x \<longleftrightarrow> on_some (\<lambda>k. k \<in> gone) x"

definition gone_monitors :: "id \<Rightarrow> db \<Rightarrow> id set" where
  "gone_monitors k d = m_id ` set (filter (\<lambda>m. m_organizationId m = k) (monitors d))"

definition gone_incidents :: "id \<Rightarrow> db \<Rightarrow> id set" where
  "gone_incidents k d = i_id ` set (filter (\<lambda>i. i_organizationId i = k) (incidents d))"

definition gone_pages :: "id \<Rightarrow> db \<Rightarrow> id set" where
  "gone_pages k d = p_id ` set (filter (\<lambda>p. p_organizationId p = k) (statusPages d))"

definition gone_groups :: "id \<Rightarrow> db \<Rightarrow> id set" where
  "gone_groups k d = pg_id ` set (filter (\<lambda>g. pg_statusPageId g \<in> gone_pages k d) (statusPageGroups d))"

definition gone_subscribers :: "id \<Rightarrow> db \<Rightarrow> id set" where
  "gone_subscribers k d = ps_id ` set (filter (\<lambda>s. ps_statusPageId s \<in> gone_pages k d) (statusPageSubscribers d))"

definition gone_channels :: "id \<Rightarrow> db \<Rightarrow> id set" where
  "gone_channels k d = ch_id ` set (filter (\<lambda>c. ch_organizationId c = k) (notificationChannels d))"

definition gone_windows :: "id \<Rightarrow> db \<Rightarrow> id set" where
  "gone_windows k d = w_id ` set (filter (\<lambda>w. w_organizationId w = k) (maintenanceWindows d))"

definition event_goes :: "id \<Rightarrow> db \<Rightarrow> notificationEvent_row \<Rightarrow> bool" where
  "event_goes k d e \<longleftrightarrow> e_organizationId e = k \<or> named_in (gone_monitors k d) (e_monitorId e) \<or>
     named_in (gone_incidents k d) (e_incidentId e)"

definition gone_events :: "id \<Rightarrow> db \<Rightarrow> id set" where
  "gone_events k d = e_id ` set (filter (event_goes k d) (notificationEvents d))"

definition cascade_organization :: "id \<Rightarrow> db \<Rightarrow> db" where
  "cascade_organization k d = d\<lparr>organizations := delete_where (\<lambda>g. org_id g = k) (organizations d),
       members := delete_where (\<lambda>m. mem_organizationId m = k) (members d),
       invitations := delete_where (\<lambda>i. inv_organizationId i = k) (invitations d),
       monitors := delete_where (\<lambda>m. m_organizationId m = k) (monitors d),
       monitorChecks := delete_where (\<lambda>c. c_monitorId c \<in> gone_monitors k d) (monitorChecks d),
       monitorStatuses := delete_where (\<lambda>s. s_monitorId s \<in> gone_monitors k d) (monitorStatuses d),
       monitorDailyStats := delete_where (\<lambda>s. d_monitorId s \<in> gone_monitors k d) (monitorDailyStats d),
       incidents := delete_where (\<lambda>i. i_organizationId i = k) (incidents d),
       incidentMonitors := delete_where (\<lambda>im. im_incidentId im \<in> gone_incidents k d \<or> im_monitorId im \<in> gone_monitors k d) (incidentMonitors d),
       incidentUpdates := delete_where (\<lambda>u. iu_incidentId u \<in> gone_incidents k d) (incidentUpdates d),
       statusPages := delete_where (\<lambda>p. p_organizationId p = k) (statusPages d),
       statusPageDomainClaims := delete_where (\<lambda>c. dc_statusPageId c \<in> gone_pages k d) (statusPageDomainClaims d),
       statusPageGroups := delete_where (\<lambda>g. pg_statusPageId g \<in> gone_pages k d) (statusPageGroups d),
       statusPageMonitors := map (\<lambda>pm. pm\<lparr>pm_groupId := forget (gone_groups k d) (pm_groupId pm)\<rparr>)
         (delete_where (\<lambda>pm. pm_statusPageId pm \<in> gone_pages k d \<or> pm_monitorId pm \<in> gone_monitors k d) (statusPageMonitors d)),
       statusPageSubscribers := delete_where (\<lambda>s. ps_statusPageId s \<in> gone_pages k d) (statusPageSubscribers d),
       mailEvents := map (\<lambda>e. e\<lparr>me_organizationId := forget {k} (me_organizationId e)\<rparr>) (mailEvents d),
       unsolicitedMailSends := delete_where (\<lambda>s. um_organizationId s = Some k) (unsolicitedMailSends d),
       organizationMailBlocks := delete_where (\<lambda>b. mb_organizationId b = k) (organizationMailBlocks d),
       notificationChannels := delete_where (\<lambda>c. ch_organizationId c = k) (notificationChannels d),
       emailOptOuts := delete_where (\<lambda>r. oo_organizationId r = k) (emailOptOuts d),
       channelConfirmationSends := delete_where (\<lambda>s. cs_organizationId s = k) (channelConfirmationSends d),
       monitorNotificationChannels := delete_where (\<lambda>mc. mc_monitorId mc \<in> gone_monitors k d \<or> mc_channelId mc \<in> gone_channels k d)
         (monitorNotificationChannels d),
       notificationLogs := map (\<lambda>l. l\<lparr>nl_monitorId := forget (gone_monitors k d) (nl_monitorId l), nl_incidentId := forget (gone_incidents k d) (nl_incidentId l)\<rparr>)
         (delete_where (\<lambda>l. nl_channelId l \<in> gone_channels k d) (notificationLogs d)),
       notificationEvents := delete_where (event_goes k d) (notificationEvents d),
       statusPageSubscriberDeliveries := delete_where (\<lambda>s. sd_eventId s \<in> gone_events k d \<or> sd_subscriberId s \<in> gone_subscribers k d)
         (statusPageSubscriberDeliveries d),
       maintenanceWindows := delete_where (\<lambda>w. w_organizationId w = k) (maintenanceWindows d),
       maintenanceWindowMonitors := delete_where (\<lambda>wm. wm_windowId wm \<in> gone_windows k d \<or> wm_monitorId wm \<in> gone_monitors k d)
         (maintenanceWindowMonitors d),
       subscriptions := delete_where (\<lambda>s. sub_organizationId s = k) (subscriptions d)\<rparr>"

(* src/src/lib/server/services/admin.service.ts:219-246 deleteOrganization *)
definition deleteOrganization :: "ctx \<Rightarrow> actor \<Rightarrow> id \<Rightarrow> db \<Rightarrow> (admin_error + bool) \<times> db" where
  "deleteOrganization cx a k = transaction (\<lambda>d. case find_organization k d of
      None \<Rightarrow> Inr (False, d)
    | Some existing \<Rightarrow> audited cx a (about ''org.delete'' ''organization'' k (Some (org_name existing))
        (Some [(''slug'', JStr (org_slug existing)),
               (''memberCount'', JNum (int (length (filter (\<lambda>m. mem_organizationId m = k) (members d)))))]))
        True (cascade_organization k d))"

section \<open>Members\<close>

(* src/src/lib/server/services/admin.service.ts:248-274 addMemberToOrg *)
definition addMemberToOrg :: "ctx \<Rightarrow> actor \<Rightarrow> id \<Rightarrow> id \<Rightarrow> string \<Rightarrow> db \<Rightarrow> (admin_error + member_row) \<times> db" where
  "addMemberToOrg cx a org u role = transaction (\<lambda>d.
     let row = \<lparr>mem_id = cx_nanoid cx (drawn d), mem_organizationId = org, mem_userId = u, mem_role = role,
         mem_createdAt = cx_now cx\<rparr> in
     if \<not> has_organization org d then Inl No_organization
     else if \<not> has_user u d then Inl No_user
     else audited cx a (about ''org.member_add'' ''member'' (mem_id row)
            (map_option u_email (first_row (filter (\<lambda>x. u_id x = u) (users d))))
            (Some [(''orgId'', JStr org), (''userId'', JStr u), (''role'', JStr role)])) row
          ((draw d)\<lparr>members := members d @ [row]\<rparr>))"

(* src/src/lib/server/services/admin.service.ts:276-304 removeMemberFromOrg *)
definition removeMemberFromOrg :: "ctx \<Rightarrow> actor \<Rightarrow> id \<Rightarrow> db \<Rightarrow> (admin_error + bool) \<times> db" where
  "removeMemberFromOrg cx a k = transaction (\<lambda>d.
     case first_row (inner_join (\<lambda>m u. mem_userId m = u_id u) (filter (\<lambda>m. mem_id m = k) (members d)) (users d)) of
       None \<Rightarrow> Inr (False, d)
     | Some (m, u) \<Rightarrow> audited cx a (about ''org.member_remove'' ''member'' k (Some (u_email u))
           (Some [(''orgId'', JStr (mem_organizationId m)), (''userId'', JStr (mem_userId m))])) True
         (d\<lparr>members := delete_where (\<lambda>m. mem_id m = k) (members d)\<rparr>))"

section \<open>Monitors and mail\<close>

(* src/src/lib/server/services/admin.service.ts:324-348 resetDeadLetter *)
definition resetDeadLetter :: "ctx \<Rightarrow> actor \<Rightarrow> id \<Rightarrow> db \<Rightarrow> (admin_error + bool) \<times> db" where
  "resetDeadLetter cx a k = transaction (\<lambda>d.
     let stopped = (\<lambda>m. m_id m = k \<and> m_deadLetteredAt m \<noteq> None) in
     case first_row (filter stopped (monitors d)) of
       None \<Rightarrow> Inr (False, d)
     | Some row \<Rightarrow> audited cx a (about ''monitor.dead_letter_reset'' ''monitor'' k (Some (m_name row))
           (Some [(''orgId'', JStr (m_organizationId row))])) True
         (d\<lparr>monitors := update_where stopped
           (\<lambda>m. m\<lparr>m_nextCheckAt := Some (cx_now cx), m_checkBackoffUntil := None\<rparr>) (monitors d)\<rparr>))"

(* src/src/lib/server/services/admin.service.ts:363-389 setSubscriberEmail *)
definition setSubscriberEmail :: "ctx \<Rightarrow> actor \<Rightarrow> id \<Rightarrow> bool \<Rightarrow> db \<Rightarrow> (admin_error + unit) \<times> db" where
  "setSubscriberEmail cx a org enabled = transaction (\<lambda>d.
     let differs = (\<lambda>g. org_id g = org \<and> org_subscriberEmailEnabled g \<noteq> enabled) in
     if \<not> list_ex differs (organizations d) then Inr ((), d)
     else let d1 = d\<lparr>organizations := update_where differs (\<lambda>g. g\<lparr>org_subscriberEmailEnabled := enabled\<rparr>) (organizations d)\<rparr> in
       audited cx a (about ''org.subscriber_email_set'' ''organization'' org (Some org)
         (Some [(''enabled'', JBool enabled), (''confirmedSubscribers'', JNum (int (reachableSubscribers org d1)))])) () d1)"

text \<open>The cooldown of the operator alert about the block is lifted after the transaction, outside it.\<close>

(* src/src/lib/server/services/admin.service.ts:391-421 clearMailBlock *)
definition clearMailBlock :: "ctx \<Rightarrow> reply \<Rightarrow> actor \<Rightarrow> id \<Rightarrow> memory \<times> db \<Rightarrow> (admin_error + bool) \<times> memory \<times> db" where
  "clearMailBlock cx reply a org w = (let (mem, d) = w; (cleared, d1) = transaction (\<lambda>d.
       case first_row (filter (\<lambda>b. mb_organizationId b = org) (organizationMailBlocks d)) of
         None \<Rightarrow> Inr (False, d)
       | Some block \<Rightarrow> audited cx a (about ''org.mail_block_clear'' ''organization'' org (Some org)
             (Some [(''reason'', JStr (fault_word (mb_reason block)))])) True
           (d\<lparr>organizationMailBlocks := delete_where (\<lambda>b. mb_organizationId b = org) (organizationMailBlocks d),
              mailEvents := update_where (\<lambda>e. me_organizationId e = Some org) (\<lambda>e. e\<lparr>me_organizationId := None\<rparr>)
                (mailEvents d)\<rparr>)) d in
     (cleared, if cleared = Inr True then clearOpsAlert cx reply Organization_mail_blocked org (mem, d1) else (mem, d1)))"

(* src/src/lib/server/services/admin.service.ts:431-447 liftSuppression *)
definition liftSuppression :: "ctx \<Rightarrow> actor \<Rightarrow> string \<Rightarrow> db \<Rightarrow> (admin_error + bool) \<times> db" where
  "liftSuppression cx a email = transaction (\<lambda>d.
     case first_row (filter (\<lambda>s. es_email s = email) (emailSuppressions d)) of
       None \<Rightarrow> Inr (False, d)
     | Some lifted \<Rightarrow> audited cx a \<lparr>ae_action = ''mail.suppression_lift'', ae_targetType = None, ae_targetId = None,
           ae_targetLabel = Some email, ae_metadata = Some (JObj [(''reason'', JStr (fault_word (es_reason lifted)))])\<rparr> True
         (d\<lparr>emailSuppressions := delete_where (\<lambda>s. es_email s = email) (emailSuppressions d)\<rparr>))"

section \<open>Accounts, through the authentication library\<close>

(* src/src/lib/server/services/admin.service.ts:19-37 AdminAuthApi *)
datatype auth_call =
    Ban_user id "string option"
  | Unban_user id
  | Set_role id string
  | Revoke_session string
  | Revoke_sessions id
  | Impersonate_user id
  | Stop_impersonating

text \<open>The library answers a call with its refusal or without one, and the database it leaves behind.\<close>

type_synonym auth_library = "auth_call \<Rightarrow> db \<Rightarrow> string option \<times> db"

text \<open>The call comes first and is not undone, and the audit row second: a failure to write it throws.\<close>

definition mediated :: "ctx \<Rightarrow> auth_library \<Rightarrow> actor \<Rightarrow> auth_call \<Rightarrow> audit_entry \<Rightarrow> db \<Rightarrow> (admin_error + unit) \<times> db" where
  "mediated cx lib a call e d = (case lib call d of
      (Some msg, d1) \<Rightarrow> (Inl (Library_error msg), d1)
    | (None, d1) \<Rightarrow> transaction (audited cx a e ()) d1)"

definition given :: "string option \<Rightarrow> string option" where
  "given x = (if x = Some [] then None else x)"

(* src/src/lib/server/services/admin.service.ts:458-477 banUser *)
definition banUser :: "ctx \<Rightarrow> auth_library \<Rightarrow> actor \<Rightarrow> id \<Rightarrow> string \<Rightarrow> string option \<Rightarrow> db \<Rightarrow> (admin_error + unit) \<times> db" where
  "banUser cx lib a u label reason = mediated cx lib a (Ban_user u (given reason))
     (about ''user.ban'' ''user'' u (Some label)
       (Some (case given reason of None \<Rightarrow> [] | Some r \<Rightarrow> [(''reason'', JStr r)])))"

(* src/src/lib/server/services/admin.service.ts:479-493 unbanUser *)
definition unbanUser :: "ctx \<Rightarrow> auth_library \<Rightarrow> actor \<Rightarrow> id \<Rightarrow> string \<Rightarrow> db \<Rightarrow> (admin_error + unit) \<times> db" where
  "unbanUser cx lib a u label = mediated cx lib a (Unban_user u) (about ''user.unban'' ''user'' u (Some label) None)"

(* src/src/lib/server/services/admin.service.ts:495-512 setUserRole *)
definition setUserRole :: "ctx \<Rightarrow> auth_library \<Rightarrow> actor \<Rightarrow> id \<Rightarrow> string \<Rightarrow> string \<Rightarrow> string \<Rightarrow> db \<Rightarrow> (admin_error + unit) \<times> db" where
  "setUserRole cx lib a u role current label = mediated cx lib a (Set_role u role)
     (about ''user.role_change'' ''user'' u (Some label) (Some [(''from'', JStr current), (''to'', JStr role)]))"

(* src/src/lib/server/services/admin.service.ts:519-534 revokeUserSession *)
definition revokeUserSession ::
  "ctx \<Rightarrow> auth_library \<Rightarrow> actor \<Rightarrow> string \<Rightarrow> id \<Rightarrow> string option \<Rightarrow> db \<Rightarrow> (admin_error + unit) \<times> db" where
  "revokeUserSession cx lib a token u ip = mediated cx lib a (Revoke_session token)
     (about ''user.session_revoke'' ''session'' token None
       (Some ((''userId'', JStr u) # (case given ip of None \<Rightarrow> [] | Some x \<Rightarrow> [(''ipAddress'', JStr x)]))))"

text \<open>The sessions are counted before they are revoked; \<open>sessions\<close> is the library's list of them.\<close>

(* src/src/lib/server/services/admin.service.ts:536-554 revokeAllUserSessions *)
definition revokeAllUserSessions ::
  "ctx \<Rightarrow> auth_library \<Rightarrow> (id \<Rightarrow> db \<Rightarrow> string + string list) \<Rightarrow> actor \<Rightarrow> id \<Rightarrow> string \<Rightarrow> db \<Rightarrow> (admin_error + unit) \<times> db" where
  "revokeAllUserSessions cx lib sessions a u label d = (case sessions u d of
      Inl msg \<Rightarrow> (Inl (Library_error msg), d)
    | Inr ts \<Rightarrow> mediated cx lib a (Revoke_sessions u)
        (about ''user.sessions_revoke_all'' ''user'' u (Some label) (Some [(''count'', JNum (int (length ts)))])) d)"

(* src/src/lib/server/services/admin.service.ts:556-570 impersonateUser *)
definition impersonateUser :: "ctx \<Rightarrow> auth_library \<Rightarrow> actor \<Rightarrow> id \<Rightarrow> string \<Rightarrow> db \<Rightarrow> (admin_error + unit) \<times> db" where
  "impersonateUser cx lib a u label = mediated cx lib a (Impersonate_user u)
     (about ''user.impersonate_start'' ''user'' u (Some label) None)"

(* src/src/lib/server/services/admin.service.ts:572-586 stopImpersonating *)
definition stopImpersonating :: "ctx \<Rightarrow> auth_library \<Rightarrow> actor \<Rightarrow> id \<Rightarrow> string \<Rightarrow> db \<Rightarrow> (admin_error + unit) \<times> db" where
  "stopImpersonating cx lib a u label = mediated cx lib a Stop_impersonating
     (about ''user.impersonate_stop'' ''user'' u (Some label) None)"

section \<open>What staff can look up\<close>

record dashboard =
  db_totalUsers :: nat
  db_totalOrganizations :: nat
  db_totalMonitors :: nat
  db_totalIncidents :: nat
  db_recentUsers :: "user_row list"
  db_recentOrganizations :: "organization_row list"

(* src/src/lib/server/services/admin.service.ts:62-98 getDashboardStats *)
definition getDashboardStats :: "db \<Rightarrow> dashboard" where
  "getDashboardStats d = \<lparr>db_totalUsers = length (users d), db_totalOrganizations = length (organizations d),
     db_totalMonitors = length (monitors d), db_totalIncidents = length (incidents d),
     db_recentUsers = take 5 (order_desc u_createdAt (users d)),
     db_recentOrganizations = take 5 (order_desc org_createdAt (organizations d))\<rparr>"

text \<open>A pattern of the database: a percent sign is any text, an underscore any character, a backslash escapes.\<close>

fun like :: "string \<Rightarrow> string \<Rightarrow> bool" where
  "like [] s \<longleftrightarrow> s = []"
| "like (p # ps) s \<longleftrightarrow> (
     if p = CHR ''%'' then like ps s \<or> (case s of [] \<Rightarrow> False | _ # t \<Rightarrow> like (p # ps) t)
     else if p = CHR 0x5C then (case (ps, s) of (q # qs, c # t) \<Rightarrow> c = q \<and> like qs t | _ \<Rightarrow> False)
     else (case s of [] \<Rightarrow> False | c # t \<Rightarrow> (p = CHR ''_'' \<or> c = p) \<and> like ps t))"

definition ilike :: "string \<Rightarrow> string \<Rightarrow> bool" where
  "ilike s pattern \<longleftrightarrow> like (lower pattern) (lower s)"

text \<open>A member with the account behind it.\<close>

(* src/src/lib/server/services/admin.service.ts:137-149 getOrganizationMembers *)
definition getOrganizationMembers :: "id \<Rightarrow> db \<Rightarrow> (member_row \<times> id \<times> string \<times> string) list" where
  "getOrganizationMembers org d = map (\<lambda>(m, u). (m, u_id u, u_name u, u_email u))
     (order_desc (mem_createdAt \<circ> fst) (inner_join (\<lambda>m u. mem_userId m = u_id u)
       (filter (\<lambda>m. mem_organizationId m = org) (members d)) (users d)))"

(* src/src/lib/server/services/admin.service.ts:100-122 listAllOrganizations *)
definition listAllOrganizations ::
  "nat \<Rightarrow> nat \<Rightarrow> string option \<Rightarrow> db \<Rightarrow> (organization_row \<times> (member_row \<times> id \<times> string \<times> string) list) list \<times> nat" where
  "listAllOrganizations limit offset search d = (
     let found = (case given search of
           None \<Rightarrow> organizations d
         | Some x \<Rightarrow> filter (\<lambda>g. ilike (org_name g) (''%'' @ x @ ''%'') \<or> ilike (org_slug g) (''%'' @ x @ ''%'')) (organizations d)) in
     (map (\<lambda>g. (g, getOrganizationMembers (org_id g) d)) (take limit (drop offset (order_desc org_createdAt found))), length found))"

(* src/src/lib/server/services/admin.service.ts:124-135 getOrganizationById *)
definition getOrganizationById :: "id \<Rightarrow> db \<Rightarrow> (organization_row \<times> (member_row \<times> id \<times> string \<times> string) list) option" where
  "getOrganizationById k d = map_option (\<lambda>g. (g, getOrganizationMembers k d)) (find_organization k d)"

(* src/src/lib/server/services/admin.service.ts:306-322 listDeadLetterMonitors *)
definition listDeadLetterMonitors :: "db \<Rightarrow> (monitor_row \<times> string) list" where
  "listDeadLetterMonitors d = map (\<lambda>(m, g). (m, org_name g)) (order_asc (\<lambda>(m, _). coalesce (m_deadLetteredAt m) 0)
     (inner_join (\<lambda>m g. org_id g = m_organizationId m)
       (filter (\<lambda>m. m_deadLetteredAt m \<noteq> None \<and> m_active m) (monitors d)) (organizations d)))"

(* src/src/lib/server/services/admin.service.ts:350-356 getMailBlock *)
definition getMailBlock :: "id \<Rightarrow> db \<Rightarrow> organizationMailBlock_row option" where
  "getMailBlock org d = first_row (filter (\<lambda>b. mb_organizationId b = org) (organizationMailBlocks d))"

(* src/src/lib/server/services/admin.service.ts:423-429 getSuppression *)
definition getSuppression :: "string \<Rightarrow> db \<Rightarrow> emailSuppression_row option" where
  "getSuppression email d = first_row (filter (\<lambda>s. es_email s = email) (emailSuppressions d))"

(* src/src/lib/server/services/admin.service.ts:588-607 getUsersNotInOrg *)
definition getUsersNotInOrg :: "id \<Rightarrow> db \<Rightarrow> (id \<times> string \<times> string) list" where
  "getUsersNotInOrg org d = take 100 (map (\<lambda>u. (u_id u, u_name u, u_email u)) (order_asc u_name
     (filter (\<lambda>u. u_id u \<notin> mem_userId ` set (filter (\<lambda>m. mem_organizationId m = org) (members d))) (users d))))"

section \<open>Every change is audited\<close>

datatype admin_request =
    Create_organization create_organization_input
  | Update_organization id update_organization_input
  | Delete_organization id
  | Add_member id id string
  | Remove_member id
  | Reset_dead_letter id
  | Set_subscriber_email id bool
  | Clear_mail_block id
  | Lift_suppression string
  | Ban id string "string option"
  | Unban id string
  | Change_role id string string string
  | End_session string id "string option"
  | End_sessions id string
  | Impersonate id string
  | End_impersonation id string

text \<open>What a caller sees: an exception, whether there was something to change, or nothing.\<close>

datatype admin_answer = Threw admin_error | Said bool | Returned

definition answer :: "('a \<Rightarrow> admin_answer) \<Rightarrow> admin_error + 'a \<Rightarrow> admin_answer" where
  "answer f r = (case r of Inl e \<Rightarrow> Threw e | Inr x \<Rightarrow> f x)"

text \<open>What a request meets outside the database: the library, its list of sessions, the lift of a cooldown.\<close>

record admin_world =
  aw_library :: auth_library
  aw_sessions :: "id \<Rightarrow> db \<Rightarrow> string + string list"
  aw_reply :: reply

fun admin_step :: "ctx \<Rightarrow> admin_world \<Rightarrow> actor \<Rightarrow> admin_request \<Rightarrow> memory \<times> db \<Rightarrow> admin_answer \<times> memory \<times> db" where
  "admin_step cx aw a (Create_organization i) (mem, d) =
     (let (r, d') = createOrganization cx a i d in (answer (\<lambda>_. Said True) r, mem, d'))"
| "admin_step cx aw a (Update_organization k i) (mem, d) =
     (let (r, d') = updateOrganization cx a k i d in (answer (\<lambda>g. Said (g \<noteq> None)) r, mem, d'))"
| "admin_step cx aw a (Delete_organization k) (mem, d) =
     (let (r, d') = deleteOrganization cx a k d in (answer Said r, mem, d'))"
| "admin_step cx aw a (Add_member k u role) (mem, d) =
     (let (r, d') = addMemberToOrg cx a k u role d in (answer (\<lambda>_. Said True) r, mem, d'))"
| "admin_step cx aw a (Remove_member k) (mem, d) =
     (let (r, d') = removeMemberFromOrg cx a k d in (answer Said r, mem, d'))"
| "admin_step cx aw a (Reset_dead_letter k) (mem, d) =
     (let (r, d') = resetDeadLetter cx a k d in (answer Said r, mem, d'))"
| "admin_step cx aw a (Set_subscriber_email k b) (mem, d) =
     (let (r, d') = setSubscriberEmail cx a k b d in (answer (\<lambda>_. Returned) r, mem, d'))"
| "admin_step cx aw a (Clear_mail_block k) w =
     (let (r, w') = clearMailBlock cx (aw_reply aw) a k w in (answer Said r, w'))"
| "admin_step cx aw a (Lift_suppression x) (mem, d) =
     (let (r, d') = liftSuppression cx a x d in (answer Said r, mem, d'))"
| "admin_step cx aw a (Ban u label reason) (mem, d) =
     (let (r, d') = banUser cx (aw_library aw) a u label reason d in (answer (\<lambda>_. Returned) r, mem, d'))"
| "admin_step cx aw a (Unban u label) (mem, d) =
     (let (r, d') = unbanUser cx (aw_library aw) a u label d in (answer (\<lambda>_. Returned) r, mem, d'))"
| "admin_step cx aw a (Change_role u role current label) (mem, d) =
     (let (r, d') = setUserRole cx (aw_library aw) a u role current label d in (answer (\<lambda>_. Returned) r, mem, d'))"
| "admin_step cx aw a (End_session token u ip) (mem, d) =
     (let (r, d') = revokeUserSession cx (aw_library aw) a token u ip d in (answer (\<lambda>_. Returned) r, mem, d'))"
| "admin_step cx aw a (End_sessions u label) (mem, d) =
     (let (r, d') = revokeAllUserSessions cx (aw_library aw) (aw_sessions aw) a u label d in (answer (\<lambda>_. Returned) r, mem, d'))"
| "admin_step cx aw a (Impersonate u label) (mem, d) =
     (let (r, d') = impersonateUser cx (aw_library aw) a u label d in (answer (\<lambda>_. Returned) r, mem, d'))"
| "admin_step cx aw a (End_impersonation u label) (mem, d) =
     (let (r, d') = stopImpersonating cx (aw_library aw) a u label d in (answer (\<lambda>_. Returned) r, mem, d'))"

fun action_of :: "admin_request \<Rightarrow> string" where
  "action_of (Create_organization i) = ''org.create''"
| "action_of (Update_organization k i) = ''org.update''"
| "action_of (Delete_organization k) = ''org.delete''"
| "action_of (Add_member k u role) = ''org.member_add''"
| "action_of (Remove_member k) = ''org.member_remove''"
| "action_of (Reset_dead_letter k) = ''monitor.dead_letter_reset''"
| "action_of (Set_subscriber_email k b) = ''org.subscriber_email_set''"
| "action_of (Clear_mail_block k) = ''org.mail_block_clear''"
| "action_of (Lift_suppression x) = ''mail.suppression_lift''"
| "action_of (Ban u label reason) = ''user.ban''"
| "action_of (Unban u label) = ''user.unban''"
| "action_of (Change_role u role current label) = ''user.role_change''"
| "action_of (End_session token u ip) = ''user.session_revoke''"
| "action_of (End_sessions u label) = ''user.sessions_revoke_all''"
| "action_of (Impersonate u label) = ''user.impersonate_start''"
| "action_of (End_impersonation u label) = ''user.impersonate_stop''"

text \<open>The entry names what the request was about, which for a new row is the row it made.\<close>

fun names_target :: "admin_request \<Rightarrow> db \<Rightarrow> audit_entry \<Rightarrow> bool" where
  "names_target (Create_organization i) d e \<longleftrightarrow>
     (\<exists>g\<in>set (organizations d). ae_targetId e = Some (org_id g) \<and> org_name g = co_name i \<and> org_slug g = co_slug i)"
| "names_target (Add_member k u role) d e \<longleftrightarrow> (\<exists>m\<in>set (members d).
     ae_targetId e = Some (mem_id m) \<and> mem_organizationId m = k \<and> mem_userId m = u \<and> mem_role m = role)"
| "names_target (Update_organization k i) d e \<longleftrightarrow> ae_targetId e = Some k"
| "names_target (Delete_organization k) d e \<longleftrightarrow> ae_targetId e = Some k"
| "names_target (Remove_member k) d e \<longleftrightarrow> ae_targetId e = Some k"
| "names_target (Reset_dead_letter k) d e \<longleftrightarrow> ae_targetId e = Some k"
| "names_target (Set_subscriber_email k b) d e \<longleftrightarrow> ae_targetId e = Some k"
| "names_target (Clear_mail_block k) d e \<longleftrightarrow> ae_targetId e = Some k"
| "names_target (Lift_suppression x) d e \<longleftrightarrow> ae_targetLabel e = Some x"
| "names_target (Ban u label reason) d e \<longleftrightarrow> ae_targetId e = Some u"
| "names_target (Unban u label) d e \<longleftrightarrow> ae_targetId e = Some u"
| "names_target (Change_role u role current label) d e \<longleftrightarrow> ae_targetId e = Some u"
| "names_target (End_session token u ip) d e \<longleftrightarrow> ae_targetId e = Some token"
| "names_target (End_sessions u label) d e \<longleftrightarrow> ae_targetId e = Some u"
| "names_target (Impersonate u label) d e \<longleftrightarrow> ae_targetId e = Some u"
| "names_target (End_impersonation u label) d e \<longleftrightarrow> ae_targetId e = Some u"

fun calls_library :: "admin_request \<Rightarrow> bool" where
  "calls_library (Ban u label reason) = True"
| "calls_library (Unban u label) = True"
| "calls_library (Change_role u role current label) = True"
| "calls_library (End_session token u ip) = True"
| "calls_library (End_sessions u label) = True"
| "calls_library (Impersonate u label) = True"
| "calls_library (End_impersonation u label) = True"
| "calls_library r = False"

definition audit_added :: "ctx \<Rightarrow> actor \<Rightarrow> admin_request \<Rightarrow> db \<Rightarrow> db \<Rightarrow> bool" where
  "audit_added cx a r d d' \<longleftrightarrow> (\<exists>e d1. auditLogs d' = auditLogs d @ [audit_row cx a e d1] \<and>
     ae_action e = action_of r \<and> names_target r d' e)"

lemma audit_tables [simp]:
  "auditLogs (audit cx a e d) = auditLogs d @ [audit_row cx a e d]"
  "organizations (audit cx a e d) = organizations d"
  "members (audit cx a e d) = members d"
  "opsAlertCooldowns (audit cx a e d) = opsAlertCooldowns d"
  by (simp_all add: audit_def draw_def)

lemma audit_addedI:
  "auditLogs d1 = auditLogs d \<Longrightarrow> ae_action e = action_of r \<Longrightarrow> names_target r (audit cx a e d1) e \<Longrightarrow>
   audit_added cx a r d (audit cx a e d1)"
  unfolding audit_added_def by auto

lemma about_simps [simp]:
  "ae_action (about action ty k label meta) = action"
  "ae_targetId (about action ty k label meta) = Some k"
  by (simp_all add: about_def)

text \<open>A transaction that writes its audit row last either threw, or changed nothing, or wrote it.\<close>

lemmas transaction_defs = transaction_def audited_def Let_def

lemma organization_ops_audited:
  "createOrganization cx a i d = (r, d') \<Longrightarrow> d' = d \<and> isl r \<or> \<not> isl r \<and> audit_added cx a (Create_organization i) d d'"
  "updateOrganization cx a k j d = (s, d') \<Longrightarrow>
     d' = d \<and> (isl s \<or> s = Inr None) \<or> (\<exists>g. s = Inr (Some g)) \<and> audit_added cx a (Update_organization k j) d d'"
  "deleteOrganization cx a k d = (b, d') \<Longrightarrow>
     d' = d \<and> b \<noteq> Inr True \<or> b = Inr True \<and> audit_added cx a (Delete_organization k) d d'"
  by (auto simp: createOrganization_def updateOrganization_def deleteOrganization_def cascade_organization_def draw_def
      transaction_defs intro!: audit_addedI split: if_splits option.splits)

lemma member_ops_audited:
  "addMemberToOrg cx a k u role d = (r, d') \<Longrightarrow> d' = d \<and> isl r \<or> \<not> isl r \<and> audit_added cx a (Add_member k u role) d d'"
  "removeMemberFromOrg cx a k d = (b, d') \<Longrightarrow>
     d' = d \<and> b \<noteq> Inr True \<or> b = Inr True \<and> audit_added cx a (Remove_member k) d d'"
  by (auto simp: addMemberToOrg_def removeMemberFromOrg_def draw_def transaction_defs intro!: audit_addedI
      split: if_splits option.splits)

lemma monitor_and_mail_ops_audited:
  "resetDeadLetter cx a k d = (b, d') \<Longrightarrow> d' = d \<and> b \<noteq> Inr True \<or> b = Inr True \<and> audit_added cx a (Reset_dead_letter k) d d'"
  "setSubscriberEmail cx a k on d = (u, d') \<Longrightarrow> d' = d \<or> u = Inr () \<and> audit_added cx a (Set_subscriber_email k on) d d'"
  "liftSuppression cx a x d = (b, d') \<Longrightarrow> d' = d \<and> b \<noteq> Inr True \<or> b = Inr True \<and> audit_added cx a (Lift_suppression x) d d'"
  by (auto simp: resetDeadLetter_def setSubscriberEmail_def liftSuppression_def transaction_defs intro!: audit_addedI
      split: if_splits option.splits)

lemma clear_block_audited:
  assumes "clearMailBlock cx reply a k (mem, d) = (b, mem', d')"
  shows "d' = d \<and> mem' = mem \<and> b \<noteq> Inr True \<or> b = Inr True \<and> audit_added cx a (Clear_mail_block k) d d'"
proof -
  have lift: "auditLogs (snd (clearOpsAlert cx reply ty s (mem, d1))) = auditLogs d1" for ty s d1
    by (simp add: clearOpsAlert_def release_alert_def)
  have lifted: "audit_added cx a (Clear_mail_block k) d d2"
    if "clearOpsAlert cx reply ty s (mem, d1) = (mem2, d2)" "audit_added cx a (Clear_mail_block k) d d1" for ty s d1 mem2 d2
    using that lift [of ty s d1] by (auto simp: audit_added_def)
  show ?thesis
    using assms by (auto simp: clearMailBlock_def transaction_defs split: if_splits option.splits
        elim!: lifted intro!: audit_addedI)
qed

lemma mediated_audited:
  assumes "\<And>c e. auditLogs (snd (lib c e)) = auditLogs e" "mediated cx lib a c e d = (u, d')"
  shows "u = Inr () \<and> (\<exists>d1. auditLogs d' = auditLogs d @ [audit_row cx a e d1]) \<or> isl u \<and> auditLogs d' = auditLogs d"
proof -
  obtain f d1 where l: "lib c d = (f, d1)" by (cases "lib c d")
  with assms(1) [of c d] have "auditLogs d1 = auditLogs d" by simp
  with assms(2) l show ?thesis by (auto simp: mediated_def transaction_defs split: if_splits option.splits)
qed

lemma audit_addedI':
  "auditLogs d' = auditLogs d @ [audit_row cx a e d1] \<Longrightarrow> ae_action e = action_of r \<Longrightarrow> names_target r d' e \<Longrightarrow>
   audit_added cx a r d d'"
  unfolding audit_added_def by blast

lemma own_step_audited:
  assumes "\<not> calls_library r" "admin_step cx aw a r (mem, d) = (ans, mem', d')"
  shows "d' = d \<and> mem' = mem \<and> ans \<noteq> Said True \<or> (\<forall>e. ans \<noteq> Threw e) \<and> audit_added cx a r d d'"
  using assms
  by (cases r) (auto simp: answer_def split: prod.splits sum.splits
      dest!: organization_ops_audited member_ops_audited monitor_and_mail_ops_audited clear_block_audited)

lemma library_step_audited:
  assumes "\<And>c e. auditLogs (snd (aw_library aw c e)) = auditLogs e"
    and "calls_library r" "admin_step cx aw a r (mem, d) = (ans, mem', d')"
  shows "(\<forall>e. ans \<noteq> Threw e) \<and> audit_added cx a r d d' \<or> (\<exists>e. ans = Threw e) \<and> auditLogs d' = auditLogs d"
  using assms(2,3)
  by (cases r) (auto dest!: mediated_audited [where lib = "aw_library aw", OF assms(1)] intro!: audit_addedI' simp: answer_def banUser_def unbanUser_def setUserRole_def revokeUserSession_def revokeAllUserSessions_def
      impersonateUser_def stopImpersonating_def split: prod.splits sum.splits)

text \<open>
  C33: No change by staff goes unrecorded.  With a library that leaves the audit log alone, every request
  of an actor ends in one of three ways: it changed nothing and reports no success; or exactly one
  row was added to the audit log, with the actor, the action and what it was about; or the request
  was one for the library, nothing was recorded, and the caller sees an exception.
\<close>

theorem every_change_audited:
  assumes "\<And>c e. auditLogs (snd (aw_library aw c e)) = auditLogs e"
    and "admin_step cx aw a r (mem, d) = (ans, mem', d')"
  shows "\<not> calls_library r \<and> d' = d \<and> mem' = mem \<and> ans \<noteq> Said True \<or>
    (\<forall>e. ans \<noteq> Threw e) \<and> audit_added cx a r d d' \<or>
    calls_library r \<and> (\<exists>e. ans = Threw e) \<and> auditLogs d' = auditLogs d"
proof -
  show ?thesis
  proof (cases "calls_library r")
    case True
    with library_step_audited [OF assms(1) _ assms(2)] show ?thesis by blast
  next
    case False
    with own_step_audited [OF _ assms(2)] show ?thesis by blast
  qed
qed

section \<open>An organization goes as a whole\<close>

text \<open>
  Every foreign key of the tables: a reference names a row that is there, and one that may be empty
  names such a row or none.
\<close>

definition refers :: "('r \<Rightarrow> id) \<Rightarrow> 'r list \<Rightarrow> ('p \<Rightarrow> id) \<Rightarrow> 'p list \<Rightarrow> bool" where
  "refers f rs g ps \<longleftrightarrow> list_all (\<lambda>r. f r \<in> g ` set ps) rs"

definition may_refer :: "('r \<Rightarrow> id option) \<Rightarrow> 'r list \<Rightarrow> ('p \<Rightarrow> id) \<Rightarrow> 'p list \<Rightarrow> bool" where
  "may_refer f rs g ps \<longleftrightarrow> list_all (\<lambda>r. case f r of None \<Rightarrow> True | Some k \<Rightarrow> k \<in> g ` set ps) rs"

definition monitor_refs :: "db \<Rightarrow> bool" where
  "monitor_refs d \<longleftrightarrow> refers m_organizationId (monitors d) org_id (organizations d) \<and>
     refers c_monitorId (monitorChecks d) m_id (monitors d) \<and>
     refers s_monitorId (monitorStatuses d) m_id (monitors d) \<and>
     refers d_monitorId (monitorDailyStats d) m_id (monitors d)"

definition incident_refs :: "db \<Rightarrow> bool" where
  "incident_refs d \<longleftrightarrow> refers i_organizationId (incidents d) org_id (organizations d) \<and>
     may_refer i_createdBy (incidents d) u_id (users d) \<and>
     refers im_incidentId (incidentMonitors d) i_id (incidents d) \<and>
     refers im_monitorId (incidentMonitors d) m_id (monitors d) \<and>
     refers iu_incidentId (incidentUpdates d) i_id (incidents d) \<and>
     may_refer iu_createdBy (incidentUpdates d) u_id (users d)"

definition page_refs :: "db \<Rightarrow> bool" where
  "page_refs d \<longleftrightarrow> refers p_organizationId (statusPages d) org_id (organizations d) \<and>
     refers dc_statusPageId (statusPageDomainClaims d) p_id (statusPages d) \<and>
     refers pg_statusPageId (statusPageGroups d) p_id (statusPages d) \<and>
     refers pm_statusPageId (statusPageMonitors d) p_id (statusPages d) \<and>
     refers pm_monitorId (statusPageMonitors d) m_id (monitors d) \<and>
     may_refer pm_groupId (statusPageMonitors d) pg_id (statusPageGroups d) \<and>
     refers ps_statusPageId (statusPageSubscribers d) p_id (statusPages d)"

definition mail_refs :: "db \<Rightarrow> bool" where
  "mail_refs d \<longleftrightarrow> may_refer me_organizationId (mailEvents d) org_id (organizations d) \<and>
     may_refer um_organizationId (unsolicitedMailSends d) org_id (organizations d) \<and>
     refers mb_organizationId (organizationMailBlocks d) org_id (organizations d) \<and>
     refers oo_organizationId (emailOptOuts d) org_id (organizations d) \<and>
     refers cs_organizationId (channelConfirmationSends d) org_id (organizations d)"

definition channel_refs :: "db \<Rightarrow> bool" where
  "channel_refs d \<longleftrightarrow> refers ch_organizationId (notificationChannels d) org_id (organizations d) \<and>
     refers mc_monitorId (monitorNotificationChannels d) m_id (monitors d) \<and>
     refers mc_channelId (monitorNotificationChannels d) ch_id (notificationChannels d) \<and>
     refers nl_channelId (notificationLogs d) ch_id (notificationChannels d) \<and>
     may_refer nl_monitorId (notificationLogs d) m_id (monitors d) \<and>
     may_refer nl_incidentId (notificationLogs d) i_id (incidents d)"

definition event_refs :: "db \<Rightarrow> bool" where
  "event_refs d \<longleftrightarrow> refers e_organizationId (notificationEvents d) org_id (organizations d) \<and>
     may_refer e_monitorId (notificationEvents d) m_id (monitors d) \<and>
     may_refer e_incidentId (notificationEvents d) i_id (incidents d) \<and>
     refers sd_eventId (statusPageSubscriberDeliveries d) e_id (notificationEvents d) \<and>
     refers sd_subscriberId (statusPageSubscriberDeliveries d) ps_id (statusPageSubscribers d)"

definition window_refs :: "db \<Rightarrow> bool" where
  "window_refs d \<longleftrightarrow> refers w_organizationId (maintenanceWindows d) org_id (organizations d) \<and>
     may_refer w_createdBy (maintenanceWindows d) u_id (users d) \<and>
     refers wm_windowId (maintenanceWindowMonitors d) w_id (maintenanceWindows d) \<and>
     refers wm_monitorId (maintenanceWindowMonitors d) m_id (monitors d)"

definition account_refs :: "db \<Rightarrow> bool" where
  "account_refs d \<longleftrightarrow> refers sub_organizationId (subscriptions d) org_id (organizations d) \<and>
     refers mem_organizationId (members d) org_id (organizations d) \<and>
     refers mem_userId (members d) u_id (users d) \<and>
     refers inv_organizationId (invitations d) org_id (organizations d) \<and>
     refers inv_inviterId (invitations d) u_id (users d) \<and>
     may_refer au_actorId (auditLogs d) u_id (users d)"

definition refs_ok :: "db \<Rightarrow> bool" where
  "refs_ok d \<longleftrightarrow> monitor_refs d \<and> incident_refs d \<and> page_refs d \<and> mail_refs d \<and> channel_refs d \<and> event_refs d \<and>
     window_refs d \<and> account_refs d"

text \<open>A reference survives if its row goes whenever the row it names does.\<close>

lemma refers_deleted:
  "refers f rs g ps \<Longrightarrow> (\<And>r. \<not> Q r \<Longrightarrow> f r \<notin> g ` set (filter P ps)) \<Longrightarrow> refers f (delete_where Q rs) g (delete_where P ps)"
  by (auto simp: refers_def list_all_iff image_iff) metis

lemma users_referred:
  "refers f rs u_id (users d) \<Longrightarrow> refers f (delete_where Q rs) u_id (users d)"
  "may_refer h rs u_id (users d) \<Longrightarrow> may_refer h (delete_where Q rs) u_id (users d)"
  by (auto simp: refers_def may_refer_def list_all_iff)

lemma may_refer_deleted:
  assumes "may_refer f rs g ps" "\<And>r k. \<not> Q r \<Longrightarrow> f r = Some k \<Longrightarrow> k \<notin> g ` set (filter P ps)"
  shows "may_refer f (delete_where Q rs) g (delete_where P ps)"
proof -
  have "k \<in> g ` set (delete_where P ps)" if r: "r \<in> set rs" "\<not> Q r" and k: "f r = Some k" for r k
  proof -
    from assms(1) r(1) k have "k \<in> g ` set ps" by (fastforce simp: may_refer_def list_all_iff)
    with assms(2) [OF r(2) k] show ?thesis by auto
  qed
  then show ?thesis by (auto simp: may_refer_def list_all_iff split: option.split)
qed

lemma may_refer_forgotten:
  assumes "may_refer f rs g ps" "\<And>r. f' (h r) = forget (g ` set (filter P ps)) (f r)"
  shows "may_refer f' (map h (delete_where Q rs)) g (delete_where P ps)"
proof -
  have "k \<in> g ` set (delete_where P ps)" if r: "r \<in> set rs" and k: "f' (h r) = Some k" for r k
  proof -
    from k assms(2) [of r] have f: "f r = Some k" "k \<notin> g ` set (filter P ps)"
      by (auto simp: forget_def split: option.splits if_splits)
    from assms(1) r f(1) have "k \<in> g ` set ps" by (fastforce simp: may_refer_def list_all_iff)
    with f(2) show ?thesis by auto
  qed
  then show ?thesis by (auto simp: may_refer_def list_all_iff split: option.split)
qed

lemma may_refer_organization:
  assumes "may_refer f rs org_id gs" "\<And>r. f (h r) = forget {k} (f r)"
  shows "may_refer f (map h rs) org_id (delete_where (\<lambda>g. org_id g = k) gs)"
  using assms by (fastforce simp: may_refer_def list_all_iff forget_def split: option.splits if_splits)

lemma refers_mapped: "refers f rs g ps \<Longrightarrow> (\<And>r. f (h r) = f r) \<Longrightarrow> refers f (map h rs) g ps"
  by (auto simp: refers_def list_all_iff)

lemmas ref_defs = monitor_refs_def incident_refs_def page_refs_def mail_refs_def channel_refs_def event_refs_def
  window_refs_def account_refs_def

lemmas ref_rules = refers_deleted users_referred may_refer_deleted refers_mapped may_refer_forgotten

lemma cascade_refs:
  assumes "refs_ok d"
  shows "refs_ok (cascade_organization k d)"
proof -
  from assms have old: "monitor_refs d" "incident_refs d" "page_refs d" "mail_refs d"
      "channel_refs d" "event_refs d" "window_refs d" "account_refs d"
    by (simp_all add: refs_ok_def)
  note casc = cascade_organization_def ref_defs
  note gone = gone_monitors_def gone_incidents_def gone_pages_def gone_groups_def gone_subscribers_def gone_channels_def
    gone_windows_def gone_events_def
  have "monitor_refs (cascade_organization k d)"
    using old(1) by (simp add: casc) (intro conjI ref_rules; auto simp: gone)
  moreover have "incident_refs (cascade_organization k d)"
    using old(2) by (simp add: casc) (intro conjI ref_rules; auto simp: gone)
  moreover have "page_refs (cascade_organization k d)"
    using old(3) by (simp add: casc) (intro conjI ref_rules; auto simp: gone)
  moreover have "mail_refs (cascade_organization k d)"
    using old(4) by (simp add: casc) (intro conjI may_refer_organization ref_rules; auto simp: gone)
  moreover have "channel_refs (cascade_organization k d)"
    using old(5) by (simp add: casc) (intro conjI ref_rules; auto simp: gone)
  moreover have "event_refs (cascade_organization k d)"
    using old(6) by (simp add: casc) (intro conjI ref_rules; auto simp: gone event_goes_def named_in_def)
  moreover have "window_refs (cascade_organization k d)"
    using old(7) by (simp add: casc) (intro conjI ref_rules; auto simp: gone)
  moreover have "account_refs (cascade_organization k d)"
    using old(8) by (simp add: casc) (intro conjI ref_rules; auto simp: gone)
  ultimately show ?thesis by (simp add: refs_ok_def)
qed

lemma may_refer_append: "may_refer f (rs @ [r]) g ps \<longleftrightarrow> may_refer f rs g ps \<and> (\<forall>k. f r = Some k \<longrightarrow> k \<in> g ` set ps)"
  by (auto simp: may_refer_def split: option.split)

lemma has_user_iff: "has_user k d \<longleftrightarrow> k \<in> u_id ` set (users d)"
  by (auto simp: has_user_def list_ex_iff)

lemma audit_refs: "has_user (ac_id a) d \<Longrightarrow> refs_ok d \<Longrightarrow> refs_ok (audit cx a e d)"
  by (simp add: refs_ok_def ref_defs audit_def draw_def audit_row_def may_refer_append has_user_iff)


section \<open>Concrete requests\<close>

definition example_staff :: actor where
  "example_staff = \<lparr>ac_id = ''s'', ac_email = ''staff@uppity.test'', ac_ip = None, ac_userAgent = None\<rparr>"

definition example_account :: "id \<Rightarrow> user_row" where
  "example_account k = \<lparr>u_id = k, u_name = k, u_email = k @ ''@uppity.test'', u_emailVerified = True, u_image = None,
     u_createdAt = 0, u_updatedAt = 0, u_role = None, u_banned = None, u_banReason = None, u_banExpires = None\<rparr>"

definition example_tenant :: "id \<Rightarrow> organization_row" where
  "example_tenant k = \<lparr>org_id = k, org_name = k, org_slug = k, org_logo = None, org_createdAt = 0, org_metadata = None,
     org_subscriberEmailEnabled = False\<rparr>"

text \<open>Two organizations with a monitor each, and a check of either monitor.\<close>

definition example_admin_db :: db where
  "example_admin_db = empty_db\<lparr>users := [example_account ''s''], organizations := [example_tenant ''o'', example_tenant ''p''],
     monitors := [example_monitor ''m'', (example_monitor ''n'')\<lparr>m_organizationId := ''p''\<rparr>],
     members := [\<lparr>mem_id = ''x'', mem_organizationId = ''o'', mem_userId = ''s'', mem_role = ''owner'', mem_createdAt = 0\<rparr>]\<rparr>"


lemma every_change_audited_witness:
  "let (ans, mem, d') = admin_step (example_ctx 5) \<lparr>aw_library = (\<lambda>_ d. (None, d)), aw_sessions = (\<lambda>_ _. Inr []), aw_reply = Answered\<rparr>
     example_staff (Ban ''x'' ''x'' None) ((\<lambda>_. None), example_admin_db) in
   ans = Returned \<and> audit_added (example_ctx 5) example_staff (Ban ''x'' ''x'' None) example_admin_db d'"
proof -
  let ?aw = "\<lparr>aw_library = (\<lambda>_ d. (None, d)), aw_sessions = (\<lambda>_ _. Inr []), aw_reply = Answered\<rparr>"
  let ?r = "admin_step (example_ctx 5) ?aw example_staff (Ban ''x'' ''x'' None) ((\<lambda>_. None), example_admin_db)"
  obtain ans mem d' where r: "?r = (ans, mem, d')" by (cases ?r) auto
  have "fst ?r = Returned" by code_simp
  with r have ans: "ans = Returned" by simp
  have "auditLogs (snd (aw_library ?aw c e)) = auditLogs e" for c e by simp
  from every_change_audited [OF this r] ans
  have "audit_added (example_ctx 5) example_staff (Ban ''x'' ''x'' None) example_admin_db d'" by simp
  with r ans show ?thesis by simp
qed

end
