(* ===== verification/Gates.thy ===== *)
theory Gates
  imports Domains StatusPages Subscriptions OpsAlerts AuditLog "HOL-Library.AList"
begin

text \<open>
  What stands before the handlers: the counter of attempts (\<open>lib/server/rate-limit.ts\<close>), the gate of the
  staff routes (\<open>admin-gate.ts\<close>), the rules for billing requests (\<open>billing-authorization.ts\<close>,
  \<open>polar-subscription.ts\<close>), and what a request's host may reach (\<open>status-host.ts\<close>).
\<close>

section \<open>Counting attempts\<close>

(* src/src/lib/server/rate-limit.ts:1-2 SWEEP_THRESHOLD *)
definition SWEEP_THRESHOLD :: nat where
  "SWEEP_THRESHOLD = 10000"

text \<open>The windows held: for a key, the attempts counted and when it starts over.\<close>

type_synonym windows = "(string \<times> nat \<times> time) list"

(* src/src/lib/server/rate-limit.ts:4-27 RateLimiter *)
record rate_limiter =
  rl_max :: nat
  rl_windowMs :: int

(* src/src/lib/server/rate-limit.ts:13-26 attempt *)
definition attempt :: "rate_limiter \<Rightarrow> string \<Rightarrow> time \<Rightarrow> windows \<Rightarrow> bool \<times> windows" where
  "attempt rl key now ws = (
     let fresh = (let kept = (if length ws \<ge> SWEEP_THRESHOLD then filter (\<lambda>(_, _, resetAt). \<not> resetAt \<le> now) ws else ws) in
           (True, AList.update key (1, now + rl_windowMs rl) kept)) in
     case map_of ws key of
       None \<Rightarrow> fresh
     | Some (n, resetAt) \<Rightarrow> if resetAt > now then (n + 1 \<le> rl_max rl, AList.update key (n + 1, resetAt) ws) else fresh)"

text \<open>The attempts a limiter lets through, of those made in this order.\<close>

fun let_through :: "rate_limiter \<Rightarrow> (string \<times> time) list \<Rightarrow> windows \<Rightarrow> (string \<times> time) list" where
  "let_through rl [] ws = []"
| "let_through rl ((key, now) # as) ws = (let (ok, ws') = attempt rl key now ws in
     (if ok then [(key, now)] else []) @ let_through rl as ws')"

text \<open>The window of a key that still counts at a moment.\<close>

definition live :: "windows \<Rightarrow> string \<Rightarrow> time \<Rightarrow> (nat \<times> time) option" where
  "live ws key now = (case map_of ws key of None \<Rightarrow> None | Some (n, r) \<Rightarrow> if now < r then Some (n, r) else None)"

lemma map_of_filter_rows:
  "distinct (map fst ws) \<Longrightarrow> map_of (filter P ws) k = (case map_of ws k of None \<Rightarrow> None | Some v \<Rightarrow> if P (k, v) then Some v else None)"
proof (induction ws)
  case (Cons x ws)
  obtain k' v where x: "x = (k', v)" by (cases x)
  have "k \<notin> fst ` set ws \<Longrightarrow> map_of ws k = None" by (simp add: map_of_eq_None_iff)
  with Cons x show ?case by (auto split: option.splits)
qed simp

lemma distinct_sweep: "distinct (map fst ws) \<Longrightarrow> distinct (map fst (filter P ws))"
  by (induction ws) auto

lemma attempt_distinct: "distinct (map fst ws) \<Longrightarrow> distinct (map fst (snd (attempt rl key now ws)))"
  by (auto simp: attempt_def Let_def distinct_sweep intro!: distinct_update split: option.split)

text \<open>An attempt moves the window of its own key and no other.\<close>

lemma live_kept:
  assumes "distinct (map fst ws)" "now \<le> t"
  shows "live (filter (\<lambda>(_, _, resetAt). \<not> resetAt \<le> now) ws) k t = live ws k t"
  using assms by (auto simp: live_def map_of_filter_rows split: option.split)

lemma live_update: "live (AList.update key (n, r) ws) k t = (if k = key then if t < r then Some (n, r) else None else live ws k t)"
  by (simp add: live_def update_conv')

lemma attempt_live:
  assumes "distinct (map fst ws)" "attempt rl key now ws = (ok, ws')" "now \<le> t"
  shows "ok = (case live ws key now of None \<Rightarrow> True | Some (n, r) \<Rightarrow> n + 1 \<le> rl_max rl)"
    and "live ws' k t = (if k = key then
       (case live ws key now of
          None \<Rightarrow> if t < now + rl_windowMs rl then Some (1, now + rl_windowMs rl) else None
        | Some (n, r) \<Rightarrow> if t < r then Some (n + 1, r) else None)
       else live ws k t)"
proof -
  have "ok = (case live ws key now of None \<Rightarrow> True | Some (n, r) \<Rightarrow> n + 1 \<le> rl_max rl) \<and>
    live ws' k t = (if k = key then
       (case live ws key now of
          None \<Rightarrow> if t < now + rl_windowMs rl then Some (1, now + rl_windowMs rl) else None
        | Some (n, r) \<Rightarrow> if t < r then Some (n + 1, r) else None)
       else live ws k t)"
  proof (cases "live ws key now")
    case None
    with assms(2) have "ok" "ws' = AList.update key (1, now + rl_windowMs rl)
        (if length ws \<ge> SWEEP_THRESHOLD then filter (\<lambda>(_, _, resetAt). \<not> resetAt \<le> now) ws else ws)"
      by (auto simp: attempt_def live_def Let_def split: option.splits if_splits)
    with None live_kept [OF assms(1,3)] show ?thesis by (simp add: live_update)
  next
    case (Some w)
    then obtain n r where w: "w = (n, r)" "map_of ws key = Some (n, r)" "now < r"
      by (auto simp: live_def split: option.splits if_splits)
    with assms(2) have "ok = (n + 1 \<le> rl_max rl)" "ws' = AList.update key (n + 1, r) ws" by (simp_all add: attempt_def Let_def)
    with Some w(1) show ?thesis by (simp add: live_update)
  qed
  then show "ok = (case live ws key now of None \<Rightarrow> True | Some (n, r) \<Rightarrow> n + 1 \<le> rl_max rl)"
    and "live ws' k t = (if k = key then
       (case live ws key now of
          None \<Rightarrow> if t < now + rl_windowMs rl then Some (1, now + rl_windowMs rl) else None
        | Some (n, r) \<Rightarrow> if t < r then Some (n + 1, r) else None)
       else live ws k t)"
    by blast+
qed

text \<open>What may still be let through of one key within a span, from a moment on.\<close>

definition budget :: "nat \<Rightarrow> time \<Rightarrow> time \<Rightarrow> time \<Rightarrow> (nat \<times> time) option \<Rightarrow> nat" where
  "budget m lo hi now st = (if hi \<le> now then 0 else case st of
      None \<Rightarrow> if lo \<le> now then m else 2 * m
    | Some (n, r) \<Rightarrow> if hi \<le> r then m - n else if lo \<le> r then m + (m - n) else 2 * m)"

lemma budget_later:
  assumes "now \<le> t" "1 \<le> m"
  shows "budget m lo hi t (live ws key t) \<le> budget m lo hi now (live ws key now)"
  using assms by (auto simp: budget_def live_def split: option.splits)

definition counted :: "string \<Rightarrow> time \<Rightarrow> time \<Rightarrow> string \<times> time \<Rightarrow> bool" where
  "counted key lo hi = (\<lambda>(k, t). k = key \<and> lo \<le> t \<and> t < hi)"

lemma within_budget:
  assumes "1 \<le> rl_max rl" "0 < rl_windowMs rl" "hi \<le> lo + rl_windowMs rl"
  shows "distinct (map fst ws) \<Longrightarrow> sorted (now # map snd as) \<Longrightarrow>
    length (filter (counted key lo hi) (let_through rl as ws)) \<le> budget (rl_max rl) lo hi now (live ws key now)"
proof (induction as arbitrary: ws now)
  case (Cons a as)
  obtain k t where a: "a = (k, t)" by (cases a)
  obtain ok ws' where at: "attempt rl k t ws = (ok, ws')" by (cases "attempt rl k t ws") auto
  note st = attempt_live [OF Cons.prems(1) at order_refl]
  have "distinct (map fst ws')" using attempt_distinct [OF Cons.prems(1), of rl k t] at by simp
  moreover have "sorted (t # map snd as)" using Cons.prems(2) a by simp
  ultimately have IH: "length (filter (counted key lo hi) (let_through rl as ws')) \<le> budget (rl_max rl) lo hi t (live ws' key t)"
    by (rule Cons.IH)
  have t: "now \<le> t" using Cons.prems(2) a by simp
  have "length (filter (counted key lo hi) (let_through rl (a # as) ws)) =
      (if ok \<and> counted key lo hi a then 1 else 0) + length (filter (counted key lo hi) (let_through rl as ws'))"
    by (simp add: a at)
  also have "\<dots> \<le> (if ok \<and> counted key lo hi a then 1 else 0) + budget (rl_max rl) lo hi t (live ws' key t)" using IH by simp
  also have "\<dots> \<le> budget (rl_max rl) lo hi t (live ws key t)"
  proof (cases "live ws k t")
    case None
    with st assms show ?thesis by (auto simp: a counted_def budget_def split: option.splits)
  next
    case (Some w)
    then obtain n r where w: "w = (n, r)" "t < r" by (auto simp: live_def split: option.splits if_splits)
    with Some st assms show ?thesis by (auto simp: a counted_def budget_def split: option.splits)
  qed
  also have "\<dots> \<le> budget (rl_max rl) lo hi now (live ws key now)" by (rule budget_later [OF t assms(1)])
  finally show ?case .
qed simp

lemma own_attempts:
  assumes "distinct (map fst ws)" "distinct (map fst vs)" "sorted (now # map snd as)"
    and "\<And>t. now \<le> t \<Longrightarrow> live ws key t = live vs key t"
  shows "let_through rl (filter (\<lambda>(k, _). k = key) as) vs = filter (\<lambda>(k, _). k = key) (let_through rl as ws)"
  using assms
proof (induction as arbitrary: ws vs now)
  case (Cons a as)
  obtain k t where a: "a = (k, t)" by (cases a)
  obtain ok ws' where at: "attempt rl k t ws = (ok, ws')" by (cases "attempt rl k t ws") auto
  obtain ok' vs' where at': "attempt rl k t vs = (ok', vs')" by (cases "attempt rl k t vs") auto
  note d = attempt_distinct [OF Cons.prems(1), of rl k t, unfolded at snd_conv]
    attempt_distinct [OF Cons.prems(2), of rl k t, unfolded at' snd_conv]
  note st = attempt_live [OF Cons.prems(1) at] attempt_live [OF Cons.prems(2) at']
  have t: "now \<le> t" "sorted (t # map snd as)" using Cons.prems(3) a by auto
  show ?case
  proof (cases "k = key")
    case True
    have same: "live ws key t = live vs key t" using Cons.prems(4) t(1) .
    have "live ws' key u = live vs' key u" if "t \<le> u" for u
      using st(2,4) [OF that] same True by simp
    from Cons.IH [OF d t(2) this] show ?thesis
      using st(1,3) [OF order_refl] same True at at' by (simp add: a)
  next
    case False
    have "live ws' key u = live vs key u" if "t \<le> u" for u
      using st(2) [OF that, of key] False Cons.prems(4) [of u] that t(1) by simp
    from Cons.IH [OF d(1) Cons.prems(2) t(2) this] show ?thesis using False by (simp add: a at)
  qed
qed simp

text \<open>
  C37: A limiter lets no key make more than twice its allowance within any span as long as its window,
  and whether an attempt is let through depends on the attempts of that key alone, however many other
  keys come and go.
\<close>

theorem attempts_limited:
  assumes "1 \<le> rl_max rl" "0 < rl_windowMs rl" "sorted (map snd as)" "hi \<le> lo + rl_windowMs rl"
  shows "length (filter (counted key lo hi) (let_through rl as [])) \<le> 2 * rl_max rl \<and>
    let_through rl (filter (\<lambda>(k, _). k = key) as) [] = filter (\<lambda>(k, _). k = key) (let_through rl as [])"
proof -
  let ?now = "case as of [] \<Rightarrow> 0 | a # _ \<Rightarrow> snd a"
  have s: "sorted (?now # map snd as)" using assms(3) by (cases as) auto
  have "length (filter (counted key lo hi) (let_through rl as [])) \<le> budget (rl_max rl) lo hi ?now None"
    using within_budget [OF assms(1,2,4) _ s, of "[]" key] by (simp add: live_def)
  moreover have "budget (rl_max rl) lo hi ?now None \<le> 2 * rl_max rl" by (simp add: budget_def)
  ultimately show ?thesis using own_attempts [OF _ _ s, of "[]" "[]" key rl] by simp
qed

lemma attempts_limited_witness:
  "length (filter (counted ''a'' 5 15) (let_through \<lparr>rl_max = 2, rl_windowMs = 10\<rparr>
     [(''a'', 0), (''a'', 6), (''b'', 7), (''a'', 8), (''a'', 10), (''a'', 11), (''a'', 12)] [])) = 3"
proof -
  let ?as = "[(''a'', 0), (''a'', 6), (''b'', 7), (''a'', 8), (''a'', 10), (''a'', 11), (''a'', 12)] :: (string \<times> time) list"
  have "length (filter (counted ''a'' 5 15) (let_through \<lparr>rl_max = 2, rl_windowMs = 10\<rparr> ?as [])) \<le> 4"
    using attempts_limited [of "\<lparr>rl_max = 2, rl_windowMs = 10\<rparr>" ?as 15 5 "''a''"] by simp
  moreover have "length (filter (counted ''a'' 5 15) (let_through \<lparr>rl_max = 2, rl_windowMs = 10\<rparr> ?as [])) = 3" by code_simp
  ultimately show ?thesis by simp
qed

section \<open>Who may manage\<close>

(* src/src/lib/server/organization-role.ts:6-6 MANAGER_ROLES *)
definition MANAGER_ROLES :: "string list" where
  "MANAGER_ROLES = [''owner'', ''admin'']"

(* src/src/lib/server/organization-role.ts:8-15 canManage *)
definition canManage :: "id \<Rightarrow> id \<Rightarrow> db \<Rightarrow> bool" where
  "canManage org u d = (case first_row (filter (\<lambda>m. mem_organizationId m = org \<and> mem_userId m = u) (members d)) of
      None \<Rightarrow> False
    | Some m \<Rightarrow> mem_role m \<in> set MANAGER_ROLES)"

lemma managers_bill: "canManage org u d = canManageBilling org u d"
  by (simp add: canManage_def canManageBilling_def memberRole_def MANAGER_ROLES_def BILLING_ROLES_def split: option.split)

(* src/src/lib/server/admin-gate.ts:4-4 LOGIN_ROUTE *)
definition LOGIN_ROUTE :: string where
  "LOGIN_ROUTE = ''/(admin)/admin/login''"

definition begins :: "string \<Rightarrow> string \<Rightarrow> bool" where
  "begins p s \<longleftrightarrow> take (length p) s = p"

datatype gate_answer = Admitted | ToLogin | Forbidden

(* src/src/lib/server/admin-gate.ts:6-22 handleAdminGate *)
definition handleAdminGate :: "string option \<Rightarrow> string option \<Rightarrow> string \<Rightarrow> gate_answer" where
  "handleAdminGate route role meth = (
     if on_some (\<lambda>r. begins ''/(admin)/'' r \<and> r \<noteq> LOGIN_ROUTE) route \<and> role \<noteq> Some ''admin''
     then (if meth = ''GET'' then ToLogin else Forbidden)
     else Admitted)"

section \<open>Billing requests\<close>

text \<open>A member of an object of the request; absent in anything that is not one.\<close>

(* src/src/lib/server/billing-authorization.ts:25-27 field *)
definition field :: "json option \<Rightarrow> string \<Rightarrow> json option" where
  "field source key = (case source of Some (JObj kvs) \<Rightarrow> map_of kvs key | _ \<Rightarrow> None)"

(* src/src/lib/server/billing-authorization.ts:12-17 BillingRequest *)
record billing_request =
  br_path :: string
  br_userId :: "id option"
  br_body :: "json option"
  br_query :: "json option"

(* src/src/lib/server/billing-authorization.ts:19-23 BILLING_PATHS *)
definition BILLING_PATHS :: "string list" where
  "BILLING_PATHS = [''/checkout'', ''/customer/subscriptions/list'']"

(* src/src/lib/server/billing-authorization.ts:65-75 refuseUnlessManager *)
definition refuseUnlessManager :: "id \<Rightarrow> id option \<Rightarrow> (id \<Rightarrow> id \<Rightarrow> bool) \<Rightarrow> string option" where
  "refuseUnlessManager org user manages = (case user of
      None \<Rightarrow> Some ''You must be signed in''
    | Some u \<Rightarrow> if u = [] then Some ''You must be signed in''
        else if manages org u then None
        else Some ''Only owners and admins can manage billing for this organization'')"

(* src/src/lib/server/billing-authorization.ts:29-63 refuseBillingRequest *)
definition refuseBillingRequest :: "billing_request \<Rightarrow> (id \<Rightarrow> id \<Rightarrow> bool) \<Rightarrow> string option" where
  "refuseBillingRequest r manages = (
     if br_path r = ''/checkout'' then
       (if field (br_body r) ''organization_id'' \<noteq> None then Some ''Checkout by organization_id is not supported''
        else if field (field (br_body r) ''metadata'') ''referenceId'' \<noteq> None then Some ''Set the organization with reference_id''
        else case field (br_body r) ''reference_id'' of
            Some (JStr org) \<Rightarrow> if org = [] then Some ''A checkout needs an organization''
              else refuseUnlessManager org (br_userId r) manages
          | _ \<Rightarrow> Some ''A checkout needs an organization'')
     else if br_path r = ''/customer/subscriptions/list'' then
       (case field (br_query r) ''reference_id'' of
            None \<Rightarrow> None
          | Some (JStr org) \<Rightarrow> refuseUnlessManager org (br_userId r) manages
          | Some _ \<Rightarrow> Some ''Invalid organization'')
     else None)"

text \<open>A checkout that goes through is for one organization, by someone who manages it.\<close>

lemma checkout_by_manager:
  assumes "refuseBillingRequest r manages = None" "br_path r = ''/checkout''"
  obtains org u where "field (br_body r) ''reference_id'' = Some (JStr org)" "org \<noteq> []" "br_userId r = Some u"
    "manages org u" "field (br_body r) ''organization_id'' = None" "field (field (br_body r) ''metadata'') ''referenceId'' = None"
  using assms
  by (auto simp: refuseBillingRequest_def refuseUnlessManager_def split: if_splits option.splits json.splits)

text \<open>The checkout's subscription if the checkout was for this organization.\<close>

(* src/src/lib/server/polar-subscription.ts:28-31 CheckoutOutcome *)
record checkout_outcome =
  ck_subscription_id :: "id option"
  ck_metadata :: "(string \<times> json) list"

(* src/src/lib/server/polar-subscription.ts:33-48 subscriptionFromCheckout *)
definition subscriptionFromCheckout :: "checkout_outcome \<Rightarrow> id \<Rightarrow> id option" where
  "subscriptionFromCheckout ck org = (case ck_subscription_id ck of
      None \<Rightarrow> None
    | Some k \<Rightarrow> if k = [] \<or> map_of (ck_metadata ck) ''referenceId'' \<noteq> Some (JStr org) then None else Some k)"

text \<open>
  The provider's answers for a checkout and a subscription: the latter as the data to sync and the
  account that pays.  The result says whether a subscription was applied.
\<close>

(* src/src/lib/server/polar-subscription.ts:50-76 syncCheckout *)
definition syncCheckout ::
  "ctx \<Rightarrow> (id \<Rightarrow> checkout_outcome) \<Rightarrow> (id \<Rightarrow> polar_sync \<times> id option) \<Rightarrow> id \<Rightarrow> id \<Rightarrow> db \<Rightarrow> bool \<times> db" where
  "syncCheckout cx checkout_of snapshot_of k org d = (case subscriptionFromCheckout (checkout_of k) org of
      None \<Rightarrow> (False, d)
    | Some sub \<Rightarrow> let (data, payer) = snapshot_of sub in
        if \<not> on_some (\<lambda>u. u \<noteq> [] \<and> canManageBilling org u d) payer then (False, d)
        else (True, snd (syncFromPolar cx org data d)))"

section \<open>What a host may reach\<close>

definition host_of_url :: "url_host \<Rightarrow> string \<Rightarrow> string list" where
  "host_of_url host u = (case host (trim u) of None \<Rightarrow> [] | Some h \<Rightarrow> [lower h])"

(* src/src/lib/server/status-host.ts:10-17 APP_HOSTS *)
definition APP_HOSTS :: "url_host \<Rightarrow> env \<Rightarrow> string list" where
  "APP_HOSTS host env = concat (map (host_of_url host)
     ([appUrl env, coalesce (env ''ORIGIN'') []] @ split_at CHR '','' (coalesce (env ''BETTER_AUTH_TRUSTED_ORIGINS'') [])))"

(* src/src/lib/server/status-host.ts:19-19 PAGE_ROUTE *)
definition PAGE_ROUTE :: string where
  "PAGE_ROUTE = ''/(public)/status/[slug]''"

(* src/src/lib/server/status-host.ts:21-22 CUSTOM_DOMAIN_ROUTES *)
definition CUSTOM_DOMAIN_ROUTES :: "string list" where
  "CUSTOM_DOMAIN_ROUTES = [PAGE_ROUTE, PAGE_ROUTE @ ''/incidents/[incidentId]'']"

(* src/src/lib/server/status-host.ts:24-25 HEALTH_ROUTE *)
definition HEALTH_ROUTE :: string where
  "HEALTH_ROUTE = ''/api/health''"

record web_request =
  wr_route :: "string option"
  wr_hostHeader :: "string option"
  wr_urlHost :: string
  wr_pathname :: string
  wr_slug :: "string option"
  wr_isRemote :: bool
  wr_rewrittenOrigin :: bool

text \<open>
  The application answers, with the session of the request; or the page of a domain does, without one;
  or the gate answers itself.
\<close>

datatype host_answer = AppAnswers | PageAnswers | NotFound | CrossSite | ToPage string

definition requested_domain :: "url_host \<Rightarrow> env \<Rightarrow> web_request \<Rightarrow> string option" where
  "requested_domain host env r = domainOfHost host
     (if is_set env ''ORIGIN'' then coalesce (wr_hostHeader r) [] else wr_urlHost r)"

definition external_host :: "url_host \<Rightarrow> env \<Rightarrow> web_request \<Rightarrow> bool" where
  "external_host host env r \<longleftrightarrow> on_some (\<lambda>x. x \<notin> set (APP_HOSTS host env)) (requested_domain host env r)"

definition page_route :: "string option \<Rightarrow> bool" where
  "page_route route \<longleftrightarrow> on_some (begins PAGE_ROUTE) route"

(* src/src/lib/server/status-host.ts:32-80 handleStatusHost *)
definition handleStatusHost :: "url_host \<Rightarrow> env \<Rightarrow> web_request \<Rightarrow> db \<Rightarrow> host_answer" where
  "handleStatusHost host env r d = (
     if wr_route r = Some HEALTH_ROUTE then AppAnswers
     else let external = external_host host env r;
              page = (if external then findByDomain (coalesce (requested_domain host env r) []) d else None) in
       case page of
         None \<Rightarrow>
           if wr_rewrittenOrigin r then CrossSite
           else if external \<and> page_route (wr_route r) \<and> on_some (\<lambda>s. hasCustomDomain s d) (wr_slug r) then NotFound
           else AppAnswers
       | Some (slug, isPublic) \<Rightarrow>
           if \<not> isPublic \<or> wr_isRemote r then NotFound
           else if wr_pathname r = ''/'' then ToPage slug
           else if coalesce (wr_route r) [] \<notin> set CUSTOM_DOMAIN_ROUTES \<or> wr_slug r \<noteq> Some slug then NotFound
           else PageAnswers)"


definition example_web_request :: web_request where
  "example_web_request = \<lparr>wr_route = Some PAGE_ROUTE, wr_hostHeader = Some ''status.acme.com'', wr_urlHost = ''status.acme.com'',
     wr_pathname = ''/status/acme'', wr_slug = Some ''acme'', wr_isRemote = False, wr_rewrittenOrigin = False\<rparr>"


end
