(* ===== verification/Channels.thy ===== *)
theory Channels
  imports EmailChannels Subscriptions Dispatch MaintenanceWindows
begin

text \<open>
  Notification channels and what they are attached to: \<open>notification-channel.service.ts\<close>, which saves a
  channel and starts the confirmation of an address, and \<open>monitor-channel.service.ts\<close>, which links
  monitors and channels.

  The host of a URL is the platform's.  A channel's config has every key of every type, absent where
  the type has none.
\<close>

section \<open>Saving a channel\<close>

datatype channel_error =
    ChannelTypeNotAvailable
  | EmailVerificationRequired
  | AddressRefused mail_refusal
  | TooManyUnconfirmed

(* src/src/lib/server/services/notification-channel.service.ts:31-32 sameAddress *)
definition sameAddress :: "string option \<Rightarrow> string option \<Rightarrow> bool" where
  "sameAddress a b \<longleftrightarrow> (case (a, b) of (Some x, Some y) \<Rightarrow> lower x = lower y | _ \<Rightarrow> False)"

text \<open>Whether a member may point a channel at the address.\<close>

(* src/src/lib/server/services/notification-channel.service.ts:34-41 assertMaySend *)
definition may_send :: "requester \<Rightarrow> string option \<Rightarrow> bool" where
  "may_send who address \<longleftrightarrow> by_emailVerified who \<or> sameAddress address (Some (by_email who))"

(* src/src/lib/server/services/notification-channel.service.ts:43-51 CreateChannelInput *)
record create_channel_input =
  cc_organizationId :: id
  cc_requester :: requester
  cc_name :: string
  cc_type :: channel_type
  cc_config :: channel_config
  cc_enabled :: "bool option"

(* src/src/lib/server/services/notification-channel.service.ts:53-57 UpdateChannelInput *)
record update_channel_input =
  uch_name :: "string option"
  uch_config :: "channel_config option"
  uch_enabled :: "bool option"

(* src/src/lib/server/services/notification-channel.service.ts:99-116 recipientFor *)
definition channel_recipient :: "ctx \<Rightarrow> int \<Rightarrow> int \<Rightarrow> id \<Rightarrow> string option \<Rightarrow> db \<Rightarrow> (channel_error + recipient_fields) \<times> db" where
  "channel_recipient cx limit cap org email d = (
     let address = coalesce email []; (r, d1) = recipientFor cx org address d in
     if rf_unsubscribedAt r \<noteq> None then (Inr r, d1)
     else (case mailRefusal cx limit org address d1 of
         (Some m, d2) \<Rightarrow> (Inl (AddressRefused m), d2)
       | (None, d2) \<Rightarrow> if wouldCap cx cap org address d2 then (Inl TooManyUnconfirmed, d2) else (Inr r, d2)))"

definition with_recipient :: "recipient_fields option \<Rightarrow> notificationChannel_row \<Rightarrow> notificationChannel_row" where
  "with_recipient r c = (case r of None \<Rightarrow> c
    | Some f \<Rightarrow> c\<lparr>ch_token := Some (rf_token f), ch_confirmationSentAt := rf_confirmationSentAt f,
        ch_verifiedAt := rf_verifiedAt f, ch_unsubscribedAt := rf_unsubscribedAt f, ch_reaskedAt := rf_reaskedAt f\<rparr>)"

text \<open>A view leaves out the token.\<close>

(* src/src/lib/server/services/notification-channel.service.ts:18-19 ChannelView *)
definition channel_view :: "notificationChannel_row \<Rightarrow> notificationChannel_row" where
  "channel_view c = c\<lparr>ch_token := None\<rparr>"

text \<open>The confirmation is queued, or its failure is logged and the channel stays unconfirmed.\<close>

(* src/src/lib/server/services/notification-channel.service.ts:118-132 queueConfirmation *)
definition queue_or_log :: "ctx \<Rightarrow> int \<Rightarrow> int \<Rightarrow> bool \<Rightarrow> id \<Rightarrow> id \<Rightarrow> requester \<Rightarrow> db \<Rightarrow> db" where
  "queue_or_log cx limit cap fails k org who d = (if fails then d else queueConfirmation cx limit cap k org who d)"

definition new_channel :: "ctx \<Rightarrow> create_channel_input \<Rightarrow> recipient_fields option \<Rightarrow> db \<Rightarrow> notificationChannel_row" where
  "new_channel cx i r d = with_recipient r \<lparr>ch_id = cx_nanoid cx (drawn d), ch_organizationId = cc_organizationId i,
     ch_name = cc_name i, ch_type = cc_type i, ch_config = cc_config i, ch_enabled = coalesce (cc_enabled i) True,
     ch_token = None, ch_confirmationSentAt = None, ch_verifiedAt = None, ch_unsubscribedAt = None, ch_reaskedAt = None,
     ch_createdAt = cx_now cx, ch_updatedAt = cx_now cx\<rparr>"

(* src/src/lib/server/services/notification-channel.service.ts:60-97 create *)
definition create_channel ::
  "ctx \<Rightarrow> int \<Rightarrow> int \<Rightarrow> bool \<Rightarrow> create_channel_input \<Rightarrow> db \<Rightarrow> (channel_error + notificationChannel_row) \<times> db" where
  "create_channel cx limit cap fails i d = (
     let org = cc_organizationId i; email = cfg_email (cc_config i); mails = (cc_type i = EmailChannel);
         (allowed, d1) = isNotificationChannelAllowed cx org (channel_word (cc_type i)) d in
     if \<not> allowed then (Inl ChannelTypeNotAvailable, d1)
     else if mails \<and> \<not> may_send (cc_requester i) email then (Inl EmailVerificationRequired, d1)
     else let (r, d2) = (if mails then (let (q, e) = channel_recipient cx limit cap org email d1 in (map_sum id Some q, e))
                else (Inr None, d1)) in
       (case r of
          Inl e \<Rightarrow> (Inl e, d2)
        | Inr f \<Rightarrow> let c = new_channel cx i f d2;
              d3 = (draw d2)\<lparr>notificationChannels := notificationChannels d2 @ [c]\<rparr> in
            (Inr (channel_view c),
             if mails \<and> ch_unsubscribedAt c = None then queue_or_log cx limit cap fails (ch_id c) org (cc_requester i) d3 else d3)))"

definition find_channel :: "id \<Rightarrow> id \<Rightarrow> db \<Rightarrow> notificationChannel_row option" where
  "find_channel k org d = first_row (filter (\<lambda>c. ch_id c = k \<and> ch_organizationId c = org) (notificationChannels d))"

(* src/src/lib/server/services/notification-channel.service.ts:134-144 findByIdAndOrg *)
definition findChannel :: "id \<Rightarrow> id \<Rightarrow> db \<Rightarrow> notificationChannel_row option" where
  "findChannel k org d = map_option channel_view (find_channel k org d)"

text \<open>A channel with whether its address bounced or complained.\<close>

(* src/src/lib/server/services/notification-channel.service.ts:146-158 findByOrganization *)
definition findChannels :: "id \<Rightarrow> db \<Rightarrow> (notificationChannel_row \<times> bool) list" where
  "findChannels org d = map (\<lambda>c. (channel_view c, ch_id c \<in> suppressedChannelIds org d))
     (order_desc ch_createdAt (filter (\<lambda>c. ch_organizationId c = org) (notificationChannels d)))"

definition with_channel_input :: "ctx \<Rightarrow> update_channel_input \<Rightarrow> recipient_fields option \<Rightarrow> notificationChannel_row \<Rightarrow> notificationChannel_row" where
  "with_channel_input cx i r c = (with_recipient r (c\<lparr>ch_name := coalesce (uch_name i) (ch_name c),
     ch_config := coalesce (uch_config i) (ch_config c), ch_enabled := coalesce (uch_enabled i) (ch_enabled c)\<rparr>))
     \<lparr>ch_updatedAt := cx_now cx\<rparr>"

(* src/src/lib/server/services/notification-channel.service.ts:160-191 update *)
definition update_channel ::
  "ctx \<Rightarrow> int \<Rightarrow> int \<Rightarrow> bool \<Rightarrow> id \<Rightarrow> id \<Rightarrow> update_channel_input \<Rightarrow> requester option \<Rightarrow> db \<Rightarrow>
     (channel_error + notificationChannel_row option) \<times> db" where
  "update_channel cx limit cap fails k org i who d = (
     let existing = (if uch_config i = None then None else findChannel k org d);
         email = Option.bind (uch_config i) cfg_email;
         readdressed = on_some (\<lambda>c. ch_type c = EmailChannel \<and> \<not> sameAddress (cfg_email (ch_config c)) email) existing in
     if readdressed \<and> on_some (\<lambda>b. \<not> may_send b email) who then (Inl EmailVerificationRequired, d)
     else let (r, d1) = (if readdressed then (let (q, e) = channel_recipient cx limit cap org email d in (map_sum id Some q, e))
                else (Inr None, d)) in
       (case r of
          Inl e \<Rightarrow> (Inl e, d1)
        | Inr f \<Rightarrow> let d2 = d1\<lparr>notificationChannels := update_where (\<lambda>c. ch_id c = k \<and> ch_organizationId c = org)
                (with_channel_input cx i f) (notificationChannels d1)\<rparr> in
            (case find_channel k org d2 of
               None \<Rightarrow> (Inr None, d2)
             | Some c \<Rightarrow> (Inr (Some (channel_view c)),
                 case who of
                   Some b \<Rightarrow> if readdressed \<and> ch_unsubscribedAt c = None then queue_or_log cx limit cap fails k org b d2 else d2
                 | None \<Rightarrow> d2))))"

text \<open>The channel's links and log rows go with it.\<close>

(* src/src/lib/server/services/notification-channel.service.ts:193-202 delete *)
definition delete_channel :: "id \<Rightarrow> id \<Rightarrow> db \<Rightarrow> bool \<times> db" where
  "delete_channel k org d = (case find_channel k org d of
      None \<Rightarrow> (False, d)
    | Some _ \<Rightarrow> (True, d\<lparr>notificationChannels := delete_where (\<lambda>c. ch_id c = k \<and> ch_organizationId c = org) (notificationChannels d),
         monitorNotificationChannels := delete_where (\<lambda>l. mc_channelId l = k) (monitorNotificationChannels d),
         notificationLogs := delete_where (\<lambda>l. nl_channelId l = k) (notificationLogs d)\<rparr>))"

(* src/src/lib/server/services/notification-channel.service.ts:204-211 toggleEnabled *)
definition toggleEnabled :: "ctx \<Rightarrow> int \<Rightarrow> int \<Rightarrow> id \<Rightarrow> id \<Rightarrow> db \<Rightarrow> (channel_error + notificationChannel_row option) \<times> db" where
  "toggleEnabled cx limit cap k org d = (case findChannel k org d of
      None \<Rightarrow> (Inr None, d)
    | Some c \<Rightarrow> update_channel cx limit cap False k org
        \<lparr>uch_name = None, uch_config = None, uch_enabled = Some (\<not> ch_enabled c)\<rparr> None d)"

section \<open>Attaching channels to monitors\<close>

(* src/src/lib/schemas/monitor.ts:28-28 MonitorChannelLink *)
record channel_link =
  cl_channelId :: id
  cl_notifyOnDown :: bool
  cl_notifyOnUp :: bool
  cl_notifyOnDegraded :: bool
  cl_notifyOnSslExpiry :: bool

(* src/src/lib/schemas/monitor.ts:30-39 defaultChannelLink *)
definition defaultChannelLink :: "id \<Rightarrow> channel_link" where
  "defaultChannelLink k = \<lparr>cl_channelId = k, cl_notifyOnDown = True, cl_notifyOnUp = True, cl_notifyOnDegraded = False,
     cl_notifyOnSslExpiry = True\<rparr>"

text \<open>What of a destination may be shown: the webhook URLs of Slack and Discord are credentials.\<close>

(* src/src/lib/server/services/monitor-channel.service.ts:22-40 destinationOf *)
definition destinationOf_channel :: "(string \<Rightarrow> string option) \<Rightarrow> channel_type \<Rightarrow> channel_config \<Rightarrow> string option" where
  "destinationOf_channel host ty c = (case ty of
      EmailChannel \<Rightarrow> cfg_email c
    | SlackChannel \<Rightarrow> (case cfg_channel c of None \<Rightarrow> None | Some x \<Rightarrow> if x = [] then None else Some (CHR ''#'' # x))
    | WebhookChannel \<Rightarrow> Option.bind (cfg_url c) host
    | DiscordChannel \<Rightarrow> None)"

(* src/src/lib/server/services/monitor-channel.service.ts:42-60 channelsBelongToOrg *)
definition channelsBelongToOrg :: "db \<Rightarrow> id \<Rightarrow> id list \<Rightarrow> bool" where
  "channelsBelongToOrg d org channelIds = (let uniq = unique channelIds in
     if uniq = [] then True
     else length (filter (\<lambda>c. ch_organizationId c = org \<and> ch_id c \<in> set uniq) (notificationChannels d)) = length uniq)"

(* src/src/lib/notifications.ts:34-46 ChannelOption *)
record channel_option =
  op_id :: id
  op_name :: string
  op_type :: channel_type
  op_enabled :: bool
  op_confirmed :: bool
  op_unsubscribed :: bool
  op_destination :: "string option"

(* src/src/lib/server/services/monitor-channel.service.ts:66-84 options *)
definition channel_options :: "(string \<Rightarrow> string option) \<Rightarrow> id \<Rightarrow> db \<Rightarrow> channel_option list" where
  "channel_options host org d = map (\<lambda>c. \<lparr>op_id = ch_id c, op_name = ch_name c, op_type = ch_type c, op_enabled = ch_enabled c,
       op_confirmed = channelConfirmed c, op_unsubscribed = (ch_unsubscribedAt c \<noteq> None),
       op_destination = destinationOf_channel host (ch_type c) (ch_config c)\<rparr>)
     (order_asc ch_name (filter (\<lambda>c. ch_organizationId c = org) (notificationChannels d)))"

(* src/src/lib/server/services/monitor-channel.service.ts:86-89 defaultsFor *)
definition defaultsFor :: "channel_option list \<Rightarrow> channel_link list" where
  "defaultsFor ops = map (\<lambda>c. defaultChannelLink (op_id c)) (filter op_enabled ops)"

definition own_links :: "id \<Rightarrow> id \<Rightarrow> db \<Rightarrow> (monitorNotificationChannel_row \<times> notificationChannel_row) list" where
  "own_links m org d = order_asc (\<lambda>(_, c). ch_name c) (inner_join (\<lambda>l c. ch_id c = mc_channelId l \<and> ch_organizationId c = org)
     (filter (\<lambda>l. mc_monitorId l = m) (monitorNotificationChannels d)) (notificationChannels d))"

definition link_of :: "monitorNotificationChannel_row \<Rightarrow> channel_link" where
  "link_of l = \<lparr>cl_channelId = mc_channelId l, cl_notifyOnDown = mc_notifyOnDown l, cl_notifyOnUp = mc_notifyOnUp l,
     cl_notifyOnDegraded = mc_notifyOnDegraded l, cl_notifyOnSslExpiry = mc_notifyOnSslExpiry l\<rparr>"

(* src/src/lib/server/services/monitor-channel.service.ts:91-112 list *)
definition list_links :: "id \<Rightarrow> id \<Rightarrow> db \<Rightarrow> channel_link list" where
  "list_links m org d = map (\<lambda>(l, _). link_of l) (own_links m org d)"

text \<open>A link with the name, the type and the state of its channel: enabled, confirmed, unsubscribed.\<close>

(* src/src/lib/server/services/monitor-channel.service.ts:114-141 summary *)
definition summary_links :: "id \<Rightarrow> id \<Rightarrow> db \<Rightarrow> (channel_link \<times> string \<times> channel_type \<times> bool \<times> bool \<times> bool) list" where
  "summary_links m org d = map (\<lambda>(l, c). (link_of l, ch_name c, ch_type c, ch_enabled c, channelConfirmed c, ch_unsubscribedAt c \<noteq> None))
     (own_links m org d)"

(* src/src/lib/server/services/monitor-channel.service.ts:143-156 monitorsFor *)
definition monitorsFor :: "id \<Rightarrow> id \<Rightarrow> db \<Rightarrow> id list" where
  "monitorsFor k org d = map (\<lambda>(l, _). mc_monitorId l) (inner_join (\<lambda>l m. m_id m = mc_monitorId l \<and> m_organizationId m = org)
     (filter (\<lambda>l. mc_channelId l = k) (monitorNotificationChannels d)) (monitors d))"

definition link_row :: "id \<Rightarrow> channel_link \<Rightarrow> monitorNotificationChannel_row" where
  "link_row m c = \<lparr>mc_monitorId = m, mc_channelId = cl_channelId c, mc_notifyOnDown = cl_notifyOnDown c, mc_notifyOnUp = cl_notifyOnUp c,
     mc_notifyOnDegraded = cl_notifyOnDegraded c, mc_notifyOnSslExpiry = cl_notifyOnSslExpiry c\<rparr>"

text \<open>Of several links to one channel the last counts, in the place of the first.\<close>

definition by_channel :: "channel_link list \<Rightarrow> channel_link list" where
  "by_channel links = List.map_filter (map_of (map (\<lambda>c. (cl_channelId c, c)) (rev links))) (unique (map cl_channelId links))"

(* src/src/lib/server/services/monitor-channel.service.ts:158-197 replace *)
definition replace_links :: "id \<Rightarrow> id \<Rightarrow> channel_link list \<Rightarrow> db \<Rightarrow> bool \<times> db" where
  "replace_links m org links d = (
     if filter (\<lambda>x. m_id x = m \<and> m_organizationId x = org) (monitors d) = [] then (False, d)
     else if \<not> channelsBelongToOrg d org (map cl_channelId (by_channel links)) then (False, d)
     else (True, d\<lparr>monitorNotificationChannels := delete_where (\<lambda>l. mc_monitorId l = m) (monitorNotificationChannels d) @
       map (link_row m) (by_channel links)\<rparr>))"

definition link_key :: "monitorNotificationChannel_row \<Rightarrow> id \<times> id" where
  "link_key l = (mc_monitorId l, mc_channelId l)"

(* src/src/lib/server/services/monitor-channel.service.ts:199-236 setMonitors *)
definition setMonitors :: "id \<Rightarrow> id \<Rightarrow> id list \<Rightarrow> db \<Rightarrow> bool \<times> db" where
  "setMonitors k org monitorIds d = (let uniq = unique monitorIds in
     if \<not> channelsBelongToOrg d org [k] then (False, d)
     else if \<not> monitorsBelongToOrg d org uniq then (False, d)
     else let kept = delete_where (\<lambda>l. mc_channelId l = k \<and> (uniq = [] \<or> mc_monitorId l \<notin> set uniq)) (monitorNotificationChannels d) in
       (True, d\<lparr>monitorNotificationChannels := fold (\<lambda>m. insert_new link_key (link_row m (defaultChannelLink k))) uniq kept\<rparr>))"

section \<open>Links stay inside an organization\<close>

definition links_inside :: "db \<Rightarrow> bool" where
  "links_inside d \<longleftrightarrow> list_all (\<lambda>l. list_ex (\<lambda>m. m_id m = mc_monitorId l \<and>
     list_ex (\<lambda>c. ch_id c = mc_channelId l \<and> ch_organizationId c = m_organizationId m) (notificationChannels d)) (monitors d))
     (monitorNotificationChannels d)"

lemma all_found:
  assumes "distinct (map f rs)" "distinct ks"
  shows "length (filter (\<lambda>r. P r \<and> f r \<in> set ks) rs) = length ks \<longleftrightarrow> (\<forall>k\<in>set ks. \<exists>r\<in>set rs. f r = k \<and> P r)"
proof -
  let ?F = "filter (\<lambda>r. P r \<and> f r \<in> set ks) rs"
  have "distinct (map f ?F)" using assms(1) by (simp add: distinct_map_filter)
  then have "card (set (map f ?F)) = length (map f ?F)" by (rule distinct_card)
  then have "length ?F = card (f ` set ?F)" by (simp only: set_map length_map)
  moreover have "length ks = card (set ks)" using assms(2) by (simp add: distinct_card)
  moreover have "f ` set ?F \<subseteq> set ks" by auto
  from card_subset_eq [OF finite_set this] have "card (f ` set ?F) = card (set ks) \<longleftrightarrow> f ` set ?F = set ks"
    by (intro iffI) simp_all
  ultimately have "length ?F = length ks \<longleftrightarrow> f ` set ?F = set ks" by simp
  also have "\<dots> \<longleftrightarrow> (\<forall>k\<in>set ks. k \<in> f ` set ?F)" by auto
  also have "\<dots> \<longleftrightarrow> (\<forall>k\<in>set ks. \<exists>r\<in>set rs. f r = k \<and> P r)" by (intro ball_cong refl) auto
  finally show ?thesis .
qed

lemma channels_owned:
  assumes "distinct (map ch_id (notificationChannels d))"
  shows "channelsBelongToOrg d org ks \<longleftrightarrow> (\<forall>k\<in>set ks. \<exists>c\<in>set (notificationChannels d). ch_id c = k \<and> ch_organizationId c = org)"
  using all_found [OF assms, of "unique ks" "\<lambda>c. ch_organizationId c = org"] by (auto simp: channelsBelongToOrg_def Let_def)

lemma monitors_owned:
  assumes "distinct (map m_id (monitors d))"
  shows "monitorsBelongToOrg d org ks \<longleftrightarrow> (\<forall>k\<in>set ks. \<exists>m\<in>set (monitors d). m_id m = k \<and> m_organizationId m = org)"
  using all_found [OF assms, of "unique ks" "\<lambda>m. m_organizationId m = org"] by (auto simp: monitorsBelongToOrg_def Let_def)

lemma links_inside_iff:
  "links_inside d \<longleftrightarrow> (\<forall>l\<in>set (monitorNotificationChannels d). \<exists>m\<in>set (monitors d). m_id m = mc_monitorId l \<and>
     (\<exists>c\<in>set (notificationChannels d). ch_id c = mc_channelId l \<and> ch_organizationId c = m_organizationId m))"
  by (simp add: links_inside_def list_all_iff list_ex_iff)

lemma links_inside_more:
  assumes "links_inside d" "monitors d' = monitors d" "notificationChannels d' = notificationChannels d"
    and new: "\<And>l. l \<in> set (monitorNotificationChannels d') \<Longrightarrow> l \<notin> set (monitorNotificationChannels d) \<Longrightarrow>
      (\<exists>m\<in>set (monitors d). m_id m = mc_monitorId l \<and> m_organizationId m = org) \<and>
      (\<exists>c\<in>set (notificationChannels d). ch_id c = mc_channelId l \<and> ch_organizationId c = org)"
  shows "links_inside d'"
  unfolding links_inside_iff assms(2,3)
proof
  fix l assume l: "l \<in> set (monitorNotificationChannels d')"
  show "\<exists>m\<in>set (monitors d). m_id m = mc_monitorId l \<and>
     (\<exists>c\<in>set (notificationChannels d). ch_id c = mc_channelId l \<and> ch_organizationId c = m_organizationId m)"
  proof (cases "l \<in> set (monitorNotificationChannels d)")
    case True
    with assms(1) show ?thesis by (simp add: links_inside_iff)
  next
    case False
    from new [OF l False] obtain m c where m: "m \<in> set (monitors d)" "m_id m = mc_monitorId l" "m_organizationId m = org"
      and c: "c \<in> set (notificationChannels d)" "ch_id c = mc_channelId l" "ch_organizationId c = org" by blast
    then show ?thesis by (intro bexI [OF _ m(1)] conjI bexI [OF _ c(1)]) simp_all
  qed
qed

lemma last_link:
  assumes "k \<in> cl_channelId ` set links"
  obtains c where "map_of (map (\<lambda>c. (cl_channelId c, c)) (rev links)) k = Some c" "cl_channelId c = k"
proof -
  let ?m = "map_of (map (\<lambda>c. (cl_channelId c, c)) (rev links))"
  have "?m k \<noteq> None" using assms by (auto simp: map_of_eq_None_iff image_iff)
  then obtain c where c: "?m k = Some c" by blast
  with map_of_SomeD [OF c] have "cl_channelId c = k" by auto
  with c that show ?thesis by blast
qed

lemma by_channel_keys: "map cl_channelId (by_channel links) = unique (map cl_channelId links)"
proof -
  let ?m = "map_of (map (\<lambda>c. (cl_channelId c, c)) (rev links))"
  have "map cl_channelId (List.map_filter ?m ks) = ks" if "set ks \<subseteq> cl_channelId ` set links" for ks
    using that
  proof (induction ks)
    case (Cons k ks)
    then obtain c where "?m k = Some c" "cl_channelId c = k" using last_link [of k links] by auto
    with Cons show ?case by (simp add: List.map_filter_def)
  qed (simp add: List.map_filter_def)
  then show ?thesis by (simp add: by_channel_def)
qed

text \<open>What the list of a monitor shows are its links, where links stay inside.\<close>

lemma set_list_links:
  assumes "distinct (map ch_id (notificationChannels d))"
  shows "set (list_links m org d) = link_of ` {l \<in> set (monitorNotificationChannels d). mc_monitorId l = m \<and>
     (\<exists>c\<in>set (notificationChannels d). ch_id c = mc_channelId l \<and> ch_organizationId c = org)}"
  by (force simp: list_links_def own_links_def order_asc_def image_iff)

lemma link_row_simps [simp]:
  "link_of (link_row m c) = c"
  "mc_monitorId (link_row m c) = m"
  "mc_channelId (link_row m c) = cl_channelId c"
  by (simp_all add: link_of_def link_row_def)

text \<open>
  Replacing the channels of a monitor does what it says or nothing.  It is refused, and nothing is
  written, exactly if the monitor or some channel is not the organization's; otherwise the monitor's
  list is afterwards the links given, the last of several to one channel, the lists of all other
  monitors are as they were, and no link joins two organizations if none did.
\<close>

theorem replaced_links_listed:
  assumes "distinct (map ch_id (notificationChannels d))" "distinct (map m_id (monitors d))"
    and "replace_links m org links d = (ok, d')"
  shows "(ok \<longleftrightarrow> list_ex (\<lambda>x. m_id x = m \<and> m_organizationId x = org) (monitors d) \<and>
      list_all (\<lambda>k. list_ex (\<lambda>c. ch_id c = cl_channelId k \<and> ch_organizationId c = org) (notificationChannels d)) links) \<and>
    (\<not> ok \<longrightarrow> d' = d) \<and>
    (ok \<longrightarrow> set (list_links m org d') = set (by_channel links) \<and>
      (m' \<noteq> m \<longrightarrow> set (list_links m' org' d') = set (list_links m' org' d))) \<and>
    (links_inside d \<longrightarrow> links_inside d')"
proof -
  have keys: "cl_channelId ` set (by_channel links) = cl_channelId ` set links"
    using arg_cong [OF by_channel_keys [of links], of set] by simp
  let ?own = "\<forall>k\<in>cl_channelId ` set links. \<exists>c\<in>set (notificationChannels d). ch_id c = k \<and> ch_organizationId c = org"
  have owned: "channelsBelongToOrg d org (map cl_channelId (by_channel links)) \<longleftrightarrow> ?own"
    by (simp only: channels_owned [OF assms(1)] set_map keys)
  have mon: "filter (\<lambda>x. m_id x = m \<and> m_organizationId x = org) (monitors d) = [] \<longleftrightarrow>
      \<not> (\<exists>x\<in>set (monitors d). m_id x = m \<and> m_organizationId x = org)" by (auto simp: filter_empty_conv)
  have done_iff: "ok \<longleftrightarrow> (\<exists>x\<in>set (monitors d). m_id x = m \<and> m_organizationId x = org) \<and> ?own"
    using assms(3) by (auto simp: replace_links_def mon owned split: if_splits)
  show ?thesis
  proof (cases ok)
    case False
    with assms(3) have "d' = d" by (auto simp: replace_links_def split: if_splits)
    with False done_iff show ?thesis by (auto simp: list_ex_iff list_all_iff)
  next
    case True
    with assms(3) have d': "d' = d\<lparr>monitorNotificationChannels := delete_where (\<lambda>l. mc_monitorId l = m) (monitorNotificationChannels d) @
        map (link_row m) (by_channel links)\<rparr>" by (auto simp: replace_links_def split: if_splits)
    from True done_iff have own: ?own and there: "\<exists>x\<in>set (monitors d). m_id x = m \<and> m_organizationId x = org" by simp_all
    have own': "\<exists>c'\<in>set (notificationChannels d). ch_id c' = cl_channelId c \<and> ch_organizationId c' = org" if "c \<in> set (by_channel links)" for c
      using own that keys by (metis imageI)
    have ids: "distinct (map ch_id (notificationChannels d'))" using assms(1) by (simp add: d')
    have "set (list_links m org d') = set (by_channel links)"
    proof -
      have "{l \<in> set (monitorNotificationChannels d'). mc_monitorId l = m \<and>
          (\<exists>c\<in>set (notificationChannels d'). ch_id c = mc_channelId l \<and> ch_organizationId c = org)} = link_row m ` set (by_channel links)"
        using own' by (auto simp: d')
      then show ?thesis by (simp only: set_list_links [OF ids] image_image link_row_simps image_ident)
    qed
    moreover have "set (list_links m' org' d') = set (list_links m' org' d)" if "m' \<noteq> m"
      unfolding set_list_links [OF ids] set_list_links [OF assms(1)] using that by (intro arg_cong [where f = "(`) link_of"]) (auto simp: d')
    moreover have "links_inside d'" if "links_inside d"
      using that there own' by (intro links_inside_more [of d d' org]) (auto simp: d')
    ultimately show ?thesis using True done_iff by (auto simp: list_ex_iff list_all_iff)
  qed
qed

text \<open>Choosing the monitors of a channel makes them the ones it is attached to.\<close>

lemma insert_all_keys:
  "link_key ` set (fold (\<lambda>m. insert_new link_key (link_row m c)) ms t) = link_key ` set t \<union> (\<lambda>m. (m, cl_channelId c)) ` set ms"
proof (induction ms arbitrary: t)
  case (Cons m ms)
  have "link_key (link_row m c) = (m, cl_channelId c)" by (simp add: link_key_def)
  with Cons [of "insert_new link_key (link_row m c) t"] insert_new_keys [of link_key "link_row m c" t] show ?case by auto
qed simp

lemma monitors_attached:
  assumes "distinct (map m_id (monitors d))" "setMonitors k org ids d = (True, d')"
  shows "set (monitorsFor k org d') = set ids"
proof -
  let ?kept = "delete_where (\<lambda>l. mc_channelId l = k \<and> (unique ids = [] \<or> mc_monitorId l \<notin> set (unique ids))) (monitorNotificationChannels d)"
  from assms(2) have own: "monitorsBelongToOrg d org (unique ids)"
    and d': "d' = d\<lparr>monitorNotificationChannels := fold (\<lambda>m. insert_new link_key (link_row m (defaultChannelLink k))) (unique ids) ?kept\<rparr>"
    by (auto simp: setMonitors_def Let_def split: if_splits)
  have "link_key ` set (monitorNotificationChannels d') = link_key ` set ?kept \<union> (\<lambda>m. (m, k)) ` set ids"
    unfolding d' using insert_all_keys [of "defaultChannelLink k" "unique ids" ?kept] by (simp add: defaultChannelLink_def)
  then have "(m, k) \<in> link_key ` set (monitorNotificationChannels d') \<longleftrightarrow> m \<in> set ids" for m
    by (auto simp: link_key_def)
  moreover have "m \<in> set (monitorsFor k org d') \<longleftrightarrow> (m, k) \<in> link_key ` set (monitorNotificationChannels d') \<and>
      (\<exists>x\<in>set (monitors d). m_id x = m \<and> m_organizationId x = org)" for m
    by (force simp: monitorsFor_def link_key_def d' image_iff)
  ultimately show ?thesis using own by (auto simp: monitors_owned [OF assms(1)])
qed

definition example_webhook_channel :: "id \<Rightarrow> notificationChannel_row" where
  "example_webhook_channel k = \<lparr>ch_id = k, ch_organizationId = ''o'', ch_name = k, ch_type = WebhookChannel,
     ch_config = \<lparr>cfg_email = None, cfg_webhookUrl = None, cfg_channel = None, cfg_discordWebhookUrl = None,
       cfg_url = Some ''https://hooks.test'', cfg_method = None, cfg_headers = None, cfg_bodyTemplate = None\<rparr>,
     ch_enabled = True, ch_token = None, ch_confirmationSentAt = None, ch_verifiedAt = None, ch_unsubscribedAt = None,
     ch_reaskedAt = None, ch_createdAt = 0, ch_updatedAt = 0\<rparr>"

definition example_channel_db :: db where
  "example_channel_db = empty_db\<lparr>monitors := [example_monitor ''m''],
     notificationChannels := [example_webhook_channel ''a'', example_webhook_channel ''b''],
     monitorNotificationChannels := [link_row ''m'' (defaultChannelLink ''a'')]\<rparr>"

lemma replaced_links_listed_witness:
  "let (ok, d') = replace_links ''m'' ''o'' [defaultChannelLink ''b''] example_channel_db in
   ok \<and> set (list_links ''m'' ''o'' d') = {defaultChannelLink ''b''} \<and> links_inside d'"
proof -
  let ?r = "replace_links ''m'' ''o'' [defaultChannelLink ''b''] example_channel_db"
  have ids: "distinct (map ch_id (notificationChannels example_channel_db))" "distinct (map m_id (monitors example_channel_db))"
    by code_simp+
  have inside: "links_inside example_channel_db" "fst ?r" "by_channel [defaultChannelLink ''b''] = [defaultChannelLink ''b'']" by code_simp+
  obtain d' where r: "?r = (True, d')" using inside(2) by (cases ?r) auto
  from replaced_links_listed [OF ids r] inside(1,3) show ?thesis unfolding r Let_def prod.case by simp
qed

end
