(* ===== verification/Invitations.thy ===== *)
theory Invitations
  imports EmailChannels
begin

text \<open>
  Team invitations, \<open>lib/server/services/invitation.service.ts\<close>: their email to an address that never
  agreed to mail, what a reader learns of one, and the acceptance under a lock.

  The mail transport is a function that says whether a send succeeds, if there is one, and the
  acceptance itself is the authentication library's.
\<close>

section \<open>Delivery\<close>

(* src/src/lib/server/services/invitation.service.ts:13-21 DeliveryOutcome *)
datatype delivery_outcome =
    InvitationSent
  | NoMail
  | Unverified
  | OptedOut
  | TooSoon
  | Capped
  | SendFailed
  | MailRefused mail_refusal

text \<open>The invitation, the address and the inviter's address.\<close>

type_synonym transport = "id \<Rightarrow> string \<Rightarrow> string \<Rightarrow> bool"

definition slot_refusal :: "slot_claim \<Rightarrow> delivery_outcome + id" where
  "slot_refusal c = (case c of
      Slot k \<Rightarrow> Inr k
    | SlotTooSoon t \<Rightarrow> Inl TooSoon
    | SlotRefused r \<Rightarrow> (case r of ResendRefused m \<Rightarrow> Inl (MailRefused m) | _ \<Rightarrow> Inl Capped))"

(* src/src/lib/server/services/invitation.service.ts:59-77 attempt *)
definition attempt_invitation ::
  "ctx \<Rightarrow> int \<Rightarrow> int \<Rightarrow> transport option \<Rightarrow> invitation_row \<Rightarrow> requester \<Rightarrow> db \<Rightarrow> delivery_outcome \<times> db" where
  "attempt_invitation cx limit cap send i inviter d = (case send of
      None \<Rightarrow> (NoMail, d)
    | Some mail \<Rightarrow> if \<not> by_emailVerified inviter then (Unverified, d)
        else (case claimInvitationSend cx limit cap (inv_organizationId i) (inv_email i) d of
            (InvitationOptedOut, d1) \<Rightarrow> (OptedOut, d1)
          | (InvitationTooSoon, d1) \<Rightarrow> (TooSoon, d1)
          | (InvitationSlot c, d1) \<Rightarrow> (case slot_refusal c of
                Inl refused \<Rightarrow> (refused, d1)
              | Inr sendId \<Rightarrow> if mail (inv_id i) (inv_email i) (by_email inviter) then (InvitationSent, d1)
                  else (SendFailed, releaseSend sendId d1))))"

(* src/src/lib/server/services/invitation.service.ts:44-57 deliver *)
definition deliver_invitation ::
  "ctx \<Rightarrow> int \<Rightarrow> int \<Rightarrow> transport option \<Rightarrow> invitation_row \<Rightarrow> requester \<Rightarrow> db \<Rightarrow> delivery_outcome \<times> db" where
  "deliver_invitation cx limit cap send i inviter d = (
     let (outcome, d1) = attempt_invitation cx limit cap send i inviter d in
     (outcome, if outcome \<noteq> InvitationSent then d1\<lparr>invitations := delete_where (\<lambda>r. inv_id r = inv_id i) (invitations d1)\<rparr> else d1))"

section \<open>Reading\<close>

(* src/src/lib/server/services/invitation.service.ts:23-28 InvitationSummary *)
record invitation_summary =
  is_id :: id
  is_organizationName :: string
  is_invitedBy :: "string option"

(* src/src/lib/server/services/invitation.service.ts:30-32 InvitationView *)
datatype invitation_view = ViewInvalid | ViewOtherAccount | ViewUnverified | ViewPending invitation_summary

text \<open>A live invitation: its organization and the account of its inviter, who is still a member.\<close>

definition sent_by_member :: "invitation_row \<Rightarrow> member_row \<Rightarrow> bool" where
  "sent_by_member i m \<longleftrightarrow> mem_userId m = inv_inviterId i \<and> mem_organizationId m = inv_organizationId i"

definition live_invitation :: "time \<Rightarrow> invitation_row \<Rightarrow> bool" where
  "live_invitation now i \<longleftrightarrow> inv_status i = ''pending'' \<and> inv_expiresAt i > now"

(* src/src/lib/server/services/invitation.service.ts:117-142 pending *)
definition pending_invitations ::
  "ctx \<Rightarrow> (invitation_row \<Rightarrow> bool) \<Rightarrow> db \<Rightarrow> (invitation_row \<times> organization_row \<times> user_row) list" where
  "pending_invitations cx match d = map (\<lambda>(((i, g), u), _). (i, g, u))
     (inner_join (\<lambda>((i, _), _) m. sent_by_member i m)
       (inner_join (\<lambda>(i, _) u. u_id u = inv_inviterId i)
         (inner_join (\<lambda>i g. org_id g = inv_organizationId i)
           (filter (\<lambda>i. match i \<and> live_invitation (cx_now cx) i) (invitations d)) (organizations d)) (users d)) (members d))"

(* src/src/lib/server/services/invitation.service.ts:145-156 summarize *)
definition summarize_invitation :: "invitation_row \<times> organization_row \<times> user_row \<Rightarrow> invitation_summary" where
  "summarize_invitation r = (let (i, g, u) = r in \<lparr>is_id = inv_id i, is_organizationName = org_name g,
     is_invitedBy = (if u_emailVerified u then Some (u_email u) else None)\<rparr>)"

(* src/src/lib/server/services/invitation.service.ts:98-108 viewFor *)
definition viewFor :: "ctx \<Rightarrow> id \<Rightarrow> requester \<Rightarrow> db \<Rightarrow> invitation_view" where
  "viewFor cx k reader d = (case first_row (pending_invitations cx (\<lambda>i. inv_id i = k) d) of
      None \<Rightarrow> ViewInvalid
    | Some r \<Rightarrow> if lower (inv_email (fst r)) \<noteq> lower (by_email reader) then ViewOtherAccount
        else if \<not> by_emailVerified reader then ViewUnverified
        else ViewPending (summarize_invitation r))"

(* src/src/lib/server/services/invitation.service.ts:110-115 pendingFor *)
definition pendingFor :: "ctx \<Rightarrow> requester \<Rightarrow> db \<Rightarrow> invitation_summary list" where
  "pendingFor cx reader d = (if \<not> by_emailVerified reader then []
     else map summarize_invitation (pending_invitations cx (\<lambda>i. lower (inv_email i) = lower (by_email reader)) d))"

section \<open>Acceptance\<close>

datatype accept_answer = InvitationNotFound | AcceptInProgress | AcceptThrew string | AcceptDone

text \<open>
  \<open>locked\<close> says whether the lock of the organization's seats was free; \<open>run\<close> is the acceptance, which
  commits on its own and may throw.
\<close>

(* src/src/lib/server/services/invitation.service.ts:79-96 accept *)
definition accept_invitation ::
  "ctx \<Rightarrow> id \<Rightarrow> (id \<Rightarrow> bool) \<Rightarrow> (db \<Rightarrow> string option \<times> db) \<Rightarrow> db \<Rightarrow> accept_answer \<times> db" where
  "accept_invitation cx k locked run d = (case first_row (pending_invitations cx (\<lambda>i. inv_id i = k) d) of
      None \<Rightarrow> (InvitationNotFound, d)
    | Some (i, _) \<Rightarrow> if \<not> locked (inv_organizationId i) then (AcceptInProgress, d)
        else (case run d of (Some msg, d1) \<Rightarrow> (AcceptThrew msg, d1) | (None, d1) \<Rightarrow> (AcceptDone, d1)))"

section \<open>The properties\<close>

lemma slot_refusal_sent: "slot_refusal c \<noteq> Inl InvitationSent"
  by (auto simp: slot_refusal_def split: slot_claim.split resend_result.split)

lemma pending_in:
  "(i, g, u) \<in> set (pending_invitations cx match d) \<longleftrightarrow> i \<in> set (invitations d) \<and> match i \<and> live_invitation (cx_now cx) i \<and>
     g \<in> set (organizations d) \<and> org_id g = inv_organizationId i \<and> u \<in> set (users d) \<and> u_id u = inv_inviterId i \<and>
     (\<exists>m\<in>set (members d). sent_by_member i m)"
  by (auto simp: pending_invitations_def set_inner_join image_iff Bex_def)

lemma row_by_key: "distinct (map f rs) \<Longrightarrow> a \<in> set rs \<Longrightarrow> b \<in> set rs \<Longrightarrow> f a = f b \<Longrightarrow> a = b"
  by (auto simp: distinct_map inj_on_def)

lemma one_pending_row:
  assumes "distinct (map inv_id (invitations d))" "distinct (map org_id (organizations d))" "distinct (map u_id (users d))"
    and "r \<in> set (pending_invitations cx P d)" "r' \<in> set (pending_invitations cx Q d)" "inv_id (fst r) = inv_id (fst r')"
  shows "r = r'"
proof -
  obtain i g u i' g' u' where r: "r = (i, g, u)" "r' = (i', g', u')" by (cases r; cases r') auto
  note mem = assms(4,5) [unfolded r pending_in]
  have i: "i = i'" using row_by_key [OF assms(1), of i i'] mem assms(6) r by simp
  then have "g = g'" "u = u'" using row_by_key [OF assms(2), of g g'] row_by_key [OF assms(3), of u u'] mem by simp_all
  with i r show ?thesis by simp
qed

text \<open>
  The list of a reader's invitations and the page of each agree: an invitation is in the list exactly
  if its page shows it, with the same content; and it is shown only to a verified account with the
  invited address, while the invitation is pending and its sender still a member.
\<close>

theorem list_agrees_with_page:
  assumes "distinct (map inv_id (invitations d))" "distinct (map org_id (organizations d))" "distinct (map u_id (users d))"
  shows "(s \<in> set (pendingFor cx reader d) \<longleftrightarrow> viewFor cx (is_id s) reader d = ViewPending s) \<and>
    (viewFor cx k reader d = ViewPending s \<longrightarrow> by_emailVerified reader \<and> list_ex (\<lambda>i. inv_id i = k \<and>
      lower (inv_email i) = lower (by_email reader) \<and> live_invitation (cx_now cx) i \<and> list_ex (sent_by_member i) (members d)) (invitations d))"
proof -
  let ?P = "\<lambda>i. lower (inv_email i) = lower (by_email reader)"
  have shown: "\<exists>r. r \<in> set (pending_invitations cx (\<lambda>i. inv_id i = k) d) \<and> ?P (fst r) \<and> by_emailVerified reader \<and> t = summarize_invitation r"
    if "viewFor cx k reader d = ViewPending t" for k t
    using that first_row_in by (fastforce simp: viewFor_def split: option.splits if_splits)
  have key: "is_id (summarize_invitation r) = inv_id (fst r)" for r by (cases r) (simp add: summarize_invitation_def)
  have "s \<in> set (pendingFor cx reader d) \<longleftrightarrow> viewFor cx (is_id s) reader d = ViewPending s"
  proof
    assume "s \<in> set (pendingFor cx reader d)"
    then obtain r where r: "r \<in> set (pending_invitations cx ?P d)" "s = summarize_invitation r" and v: "by_emailVerified reader"
      by (auto simp: pendingFor_def split: if_splits)
    obtain i g u where c: "r = (i, g, u)" by (cases r)
    have "r \<in> set (pending_invitations cx (\<lambda>i. inv_id i = is_id s) d)" "?P i"
      using r by (simp_all add: c pending_in summarize_invitation_def)
    then obtain q where q: "first_row (pending_invitations cx (\<lambda>i. inv_id i = is_id s) d) = Some q"
      by (cases "pending_invitations cx (\<lambda>i. inv_id i = is_id s) d") auto
    obtain i' g' u' where qc: "q = (i', g', u')" by (cases q)
    have "inv_id (fst q) = is_id s" using first_row_in [OF q] by (simp only: qc pending_in fst_conv)
    with one_pending_row [OF assms first_row_in [OF q] r(1)] have "q = r" using r(2) by (simp add: key)
    with q v r(2) \<open>?P i\<close> show "viewFor cx (is_id s) reader d = ViewPending s" by (simp add: viewFor_def c)
  next
    assume "viewFor cx (is_id s) reader d = ViewPending s"
    from shown [OF this] obtain r where r: "r \<in> set (pending_invitations cx (\<lambda>i. inv_id i = is_id s) d)" "?P (fst r)"
      "by_emailVerified reader" "s = summarize_invitation r" by blast
    obtain i g u where c: "r = (i, g, u)" by (cases r)
    have "r \<in> set (pending_invitations cx ?P d)" using r(1,2) by (simp add: c pending_in)
    with r(3,4) show "s \<in> set (pendingFor cx reader d)" by (simp add: pendingFor_def)
  qed
  moreover have "by_emailVerified reader \<and> list_ex (\<lambda>i. inv_id i = k \<and> ?P i \<and> live_invitation (cx_now cx) i \<and>
      list_ex (sent_by_member i) (members d)) (invitations d)" if v: "viewFor cx k reader d = ViewPending s"
  proof -
    from shown [OF v] obtain r where r: "r \<in> set (pending_invitations cx (\<lambda>i. inv_id i = k) d)" "?P (fst r)"
      "by_emailVerified reader" by blast
    obtain i g u where c: "r = (i, g, u)" by (cases r)
    from r(1) have i: "i \<in> set (invitations d)" "inv_id i = k" "live_invitation (cx_now cx) i" "list_ex (sent_by_member i) (members d)"
      by (auto simp: c pending_in list_ex_iff)
    with r(2,3) show ?thesis by (auto simp: c list_ex_iff)
  qed
  ultimately show ?thesis by blast
qed

text \<open>An invitation nobody received holds no seat.\<close>

lemma undelivered_gone:
  assumes "deliver_invitation cx limit cap send i inviter d = (outcome, d')" "outcome \<noteq> InvitationSent"
  shows "\<forall>r\<in>set (invitations d'). inv_id r \<noteq> inv_id i"
  using assms by (auto simp: deliver_invitation_def Let_def split: prod.splits)

definition example_invited :: db where
  "example_invited = empty_db\<lparr>
     organizations := [\<lparr>org_id = ''o'', org_name = ''Acme'', org_slug = ''acme'', org_logo = None, org_createdAt = 0,
       org_metadata = None, org_subscriberEmailEnabled = False\<rparr>],
     users := [\<lparr>u_id = ''u'', u_name = ''U'', u_email = ''u@b.c'', u_emailVerified = True, u_image = None, u_createdAt = 0,
       u_updatedAt = 0, u_role = None, u_banned = None, u_banReason = None, u_banExpires = None\<rparr>],
     members := [\<lparr>mem_id = ''m'', mem_organizationId = ''o'', mem_userId = ''u'', mem_role = ''owner'', mem_createdAt = 0\<rparr>],
     invitations := [\<lparr>inv_id = ''i'', inv_organizationId = ''o'', inv_email = ''A@b.c'', inv_role = Some ''member'',
       inv_status = ''pending'', inv_expiresAt = 100, inv_createdAt = 0, inv_inviterId = ''u''\<rparr>]\<rparr>"

lemma list_agrees_with_page_witness:
  "\<lparr>is_id = ''i'', is_organizationName = ''Acme'', is_invitedBy = Some ''u@b.c''\<rparr> \<in>
     set (pendingFor (example_ctx 5) \<lparr>by_email = ''a@B.c'', by_emailVerified = True\<rparr> example_invited)"
proof -
  let ?s = "\<lparr>is_id = ''i'', is_organizationName = ''Acme'', is_invitedBy = Some ''u@b.c''\<rparr>"
  let ?reader = "\<lparr>by_email = ''a@B.c'', by_emailVerified = True\<rparr>"
  have "distinct (map inv_id (invitations example_invited))" "distinct (map org_id (organizations example_invited))"
    "distinct (map u_id (users example_invited))"
    by code_simp+
  from list_agrees_with_page [OF this, where s = ?s and cx = "example_ctx 5" and reader = ?reader]
  have same: "?s \<in> set (pendingFor (example_ctx 5) ?reader example_invited) \<longleftrightarrow>
      viewFor (example_ctx 5) (is_id ?s) ?reader example_invited = ViewPending ?s" by blast
  have "viewFor (example_ctx 5) (is_id ?s) ?reader example_invited = ViewPending ?s" by code_simp
  with same show ?thesis by blast
qed

end
