(* ===== verification/AuthHooks.thy ===== *)
theory AuthHooks
  imports Invitations Gates Api Admin
begin

text \<open>
  What the program adds to its authentication and billing libraries, \<open>lib/server/auth.ts\<close>: the webhooks of
  the billing provider, the checks before the library's endpoints, the organization of a new account,
  and the hooks around invitations; and the check of a challenge, \<open>turnstile.ts\<close>.

  The libraries call these functions; what they do in between is not modelled.
\<close>

section \<open>Subscriptions as the provider describes them\<close>

text \<open>The metadata's reference is the organization; the external id of the customer is an account.\<close>

record polar_subscription =
  pol_id :: id
  pol_customer_id :: id
  pol_external_id :: "id option"
  pol_product_id :: "string option"
  pol_product :: "string option"
  pol_status :: string
  pol_recurring_interval :: billing_interval
  pol_current_period_start :: "time option"
  pol_current_period_end :: "time option"
  pol_referenceId :: "id option"

text \<open>A product's environment variable, its plan and the slug it is sold under.\<close>

(* src/src/lib/server/auth.ts:68-80 POLAR_PRODUCTS *)
definition POLAR_PRODUCTS :: "env \<Rightarrow> (string option \<times> string \<times> string option) list" where
  "POLAR_PRODUCTS env = [
     (env ''POLAR_PRODUCT_FREE'', ''free'', None),
     (env ''POLAR_PRODUCT_UPPITY_MONTHLY'', ''uppity'', Some ''uppity-monthly''),
     (env ''POLAR_PRODUCT_UPPITY_ANNUAL'', ''uppity'', Some ''uppity-annual''),
     (env ''POLAR_PRODUCT_DEDICATED_MONTHLY'', ''dedicated'', Some ''dedicated-monthly''),
     (env ''POLAR_PRODUCT_DEDICATED_ANNUAL'', ''dedicated'', Some ''dedicated-annual'')]"

text \<open>Of two variables with one product the later counts.\<close>

(* src/src/lib/server/auth.ts:82-85 POLAR_PRODUCT_TO_PLAN *)
definition POLAR_PRODUCT_TO_PLAN :: "env \<Rightarrow> string \<Rightarrow> string option" where
  "POLAR_PRODUCT_TO_PLAN env = map_of (rev (List.map_filter (\<lambda>(p, plan, _). map_option (\<lambda>k. (k, plan)) (given p)) (POLAR_PRODUCTS env)))"

(* src/src/lib/server/auth.ts:87-99 mapPolarStatus: with its table *)
definition mapPolarStatus :: "string \<Rightarrow> subscription_status" where
  "mapPolarStatus s = (
     if s = ''canceled'' then SubCanceled
     else if s = ''past_due'' \<or> s = ''unpaid'' then SubPastDue
     else if s = ''trialing'' then SubTrialing
     else SubActive)"

(* src/src/lib/server/auth.ts:101-104 heldBy *)
definition held_of :: "polar_subscription \<Rightarrow> held_polar" where
  "held_of sub = \<lparr>hp_polarSubscriptionId = pol_id sub, hp_polarCustomerId = pol_customer_id sub\<rparr>"

(* src/src/lib/server/auth.ts:106-124 getPlanFromSubscription *)
definition getPlanFromSubscription :: "env \<Rightarrow> polar_subscription \<Rightarrow> string" where
  "getPlanFromSubscription env sub = (case given (or_kept (pol_product_id sub) (pol_product sub)) of
      None \<Rightarrow> ''uppity''
    | Some k \<Rightarrow> coalesce (POLAR_PRODUCT_TO_PLAN env k) ''uppity'')"

(* src/src/lib/server/auth.ts:126-145 snapshotFrom *)
definition snapshotFrom :: "env \<Rightarrow> polar_subscription \<Rightarrow> polar_sync" where
  "snapshotFrom env sub = \<lparr>py_planId = getPlanFromSubscription env sub, py_status = mapPolarStatus (pol_status sub),
     py_polarCustomerId = None, py_polarSubscriptionId = None, py_billingInterval = Some (Some (pol_recurring_interval sub)),
     py_currentPeriodStart = pol_current_period_start sub, py_currentPeriodEnd = pol_current_period_end sub\<rparr>"

section \<open>Webhooks\<close>

datatype polar_event =
    Subscription_created polar_subscription
  | Subscription_updated polar_subscription
  | Subscription_canceled polar_subscription
  | Subscription_revoked polar_subscription
  | Order_paid "id option"
  | Customer_state_changed

datatype declined = WithoutReference | NotByManager | NotBilledThrough

text \<open>An event is applied, or declined with a reason; a subscription that vanished meanwhile throws.\<close>

datatype webhook_answer = Applied | Declined declined | WebhookThrew

(* src/src/lib/server/auth.ts:222-246 polarOrgHandler *)
definition polarOrgHandler :: "id option \<Rightarrow> (id \<Rightarrow> db \<Rightarrow> webhook_answer \<times> db) \<Rightarrow> db \<Rightarrow> webhook_answer \<times> db" where
  "polarOrgHandler ref run d = (case given ref of None \<Rightarrow> (Declined WithoutReference, d) | Some org \<Rightarrow> run org d)"

(* src/src/lib/server/auth.ts:462-480 onSubscriptionCreated *)
definition onSubscriptionCreated :: "ctx \<Rightarrow> polar_subscription \<Rightarrow> id \<Rightarrow> db \<Rightarrow> webhook_answer \<times> db" where
  "onSubscriptionCreated cx sub org d = (
     if \<not> on_some (\<lambda>u. u \<noteq> [] \<and> canManageBilling org u d) (pol_external_id sub) then (Declined NotByManager, d)
     else (case syncFromPolar cx org ((snapshotFrom (cx_env cx) sub)\<lparr>py_polarCustomerId := Some (pol_customer_id sub),
               py_polarSubscriptionId := Some (pol_id sub)\<rparr>) d of
         (None, d1) \<Rightarrow> (WebhookThrew, d)
       | (Some _, d1) \<Rightarrow> (Applied, d1)))"

definition if_held :: "subscription_row option \<times> db \<Rightarrow> webhook_answer \<times> db" where
  "if_held r = (if fst r = None then Declined NotBilledThrough else Applied, snd r)"

(* src/src/lib/server/auth.ts:460-562 webhooks *)
definition handle_webhook :: "ctx \<Rightarrow> polar_event \<Rightarrow> db \<Rightarrow> webhook_answer \<times> db" where
  "handle_webhook cx ev d = (let env = cx_env cx in case ev of
      Subscription_created sub \<Rightarrow> polarOrgHandler (pol_referenceId sub) (onSubscriptionCreated cx sub) d
    | Subscription_updated sub \<Rightarrow> polarOrgHandler (pol_referenceId sub)
        (\<lambda>org d. if_held (syncHeldFromPolar cx org (held_of sub) (snapshotFrom env sub) d)) d
    | Subscription_canceled sub \<Rightarrow> polarOrgHandler (pol_referenceId sub)
        (\<lambda>org d. if_held (syncHeldFromPolar cx org (held_of sub) ((snapshotFrom env sub)\<lparr>py_status := SubCanceled\<rparr>) d)) d
    | Subscription_revoked sub \<Rightarrow> polarOrgHandler (pol_referenceId sub)
        (\<lambda>org d. if_held (downgradeHeldToFree cx org (held_of sub) d)) d
    | Order_paid ref \<Rightarrow> polarOrgHandler ref (\<lambda>_ d. (Applied, d)) d
    | Customer_state_changed \<Rightarrow> (Applied, d))"

section \<open>Before the library's endpoints\<close>

text \<open>
  What the challenge's service says of a token: whether it passed, its action and the host it came from;
  nothing if it cannot answer.
\<close>

record siteverify =
  sv_success :: bool
  sv_action :: "string option"
  sv_hostname :: "string option"

(* src/src/lib/server/turnstile.ts:8-8 TOKEN_MAX_LENGTH *)
definition TOKEN_MAX_LENGTH :: nat where
  "TOKEN_MAX_LENGTH = 2048"

(* src/src/lib/server/turnstile.ts:9-10 MAX_PENDING *)
definition MAX_PENDING :: nat where
  "MAX_PENDING = 256"

text \<open>\<open>pending\<close> is the number of outbound calls under way.\<close>

(* src/src/lib/server/turnstile.ts:34-89 verifyTurnstile *)
definition verifyTurnstile ::
  "url_host \<Rightarrow> env \<Rightarrow> nat \<Rightarrow> (string \<Rightarrow> siteverify option) \<Rightarrow> string option \<Rightarrow> string \<Rightarrow> string option \<Rightarrow> bool" where
  "verifyTurnstile host env pending verify token action customDomain = (
     let siteKey = given (env ''TURNSTILE_SITE_KEY''); secret = given (env ''TURNSTILE_SECRET_KEY'') in
     if siteKey = None \<and> secret = None then True
     else if siteKey = None \<or> secret = None then False
     else (case given token of
         None \<Rightarrow> False
       | Some t \<Rightarrow> if length t > TOKEN_MAX_LENGTH \<or> pending \<ge> MAX_PENDING then False
           else (case verify t of
               None \<Rightarrow> False
             | Some r \<Rightarrow> sv_success r \<and> sv_action r = Some action \<and> host (appUrl env) \<noteq> None \<and>
                 (sv_hostname r = host (appUrl env) \<or> (given customDomain \<noteq> None \<and> sv_hostname r = customDomain)))))"

(* src/src/lib/server/auth.ts:183-187 TURNSTILE_ACTIONS *)
definition TURNSTILE_ACTIONS :: "(string \<times> string) list" where
  "TURNSTILE_ACTIONS = [(''/sign-up/email'', ''signup''), (''/request-password-reset'', ''password-reset'')]"

record auth_request =
  ar_path :: string
  ar_body :: "json option"
  ar_query :: "json option"
  ar_token :: "string option"
  ar_userId :: "id option"
  ar_overHttp :: bool

datatype auth_refusal =
    ChallengeFailed
  | SignInToResend
  | CancelAndSendNew
  | AcceptFromPage
  | KeyRefused string
  | BillingRefused string

text \<open>
  The check before every endpoint: \<open>None\<close> lets it through.  \<open>passes\<close> is the check of the challenge and
  \<open>countKeys\<close> counts an organization's keys.
\<close>

definition truthy :: "json option \<Rightarrow> bool" where
  "truthy x \<longleftrightarrow> (case x of
      None \<Rightarrow> False
    | Some JNull \<Rightarrow> False
    | Some (JBool b) \<Rightarrow> b
    | Some (JNum n) \<Rightarrow> n \<noteq> 0
    | Some (JStr s) \<Rightarrow> s \<noteq> []
    | Some (JArr xs) \<Rightarrow> True
    | Some (JObj kvs) \<Rightarrow> True)"

definition body_field_of :: "json option \<Rightarrow> body_field" where
  "body_field_of x = (case x of None \<Rightarrow> Absent | Some (JStr s) \<Rightarrow> Text s | Some _ \<Rightarrow> OtherValue)"

(* src/src/lib/server/auth.ts:362-396 before *)
definition before_hook :: "(string option \<Rightarrow> string \<Rightarrow> bool) \<Rightarrow> (id \<Rightarrow> int) \<Rightarrow> auth_request \<Rightarrow> db \<Rightarrow> auth_refusal option" where
  "before_hook passes countKeys r d = (
     if on_some (\<lambda>action. \<not> passes (ar_token r) action) (map_of TURNSTILE_ACTIONS (ar_path r)) then Some ChallengeFailed
     else if ar_path r = ''/send-verification-email'' \<and> ar_userId r = None then Some SignInToResend
     else if ar_path r = ''/organization/invite-member'' \<and> truthy (field (ar_body r) ''resend'') then Some CancelAndSendNew
     else if ar_path r = ''/organization/accept-invitation'' \<and> ar_overHttp r then Some AcceptFromPage
     else if ar_path r = ''/api-key/create'' then
       map_option KeyRefused (refuseApiKeyCreate (body_field_of (field (ar_body r) ''organizationId'')) countKeys)
     else if ar_path r \<notin> set BILLING_PATHS then None
     else map_option BillingRefused (refuseBillingRequest
       \<lparr>br_path = ar_path r, br_userId = ar_userId r, br_body = ar_body r, br_query = ar_query r\<rparr>
       (\<lambda>org u. canManageBilling org u d)))"

section \<open>Accounts and invitations\<close>

(* src/src/lib/constants/auth.ts:18-19 ORGANIZATION_CREATOR_ROLE *)
definition ORGANIZATION_CREATOR_ROLE :: string where
  "ORGANIZATION_CREATOR_ROLE = ''owner''"

text \<open>
  Runs of other characters become one hyphen, and none is left at either end.
\<close>

fun hyphen_runs :: "bool \<Rightarrow> string \<Rightarrow> string" where
  "hyphen_runs inside [] = []"
| "hyphen_runs inside (c # s) = (
     if is_word_char c then c # hyphen_runs False s
     else if inside then hyphen_runs True s
     else CHR ''-'' # hyphen_runs True s)"

definition strip_hyphens :: "string \<Rightarrow> string" where
  "strip_hyphens s = (let t = (if s \<noteq> [] \<and> hd s = CHR ''-'' then tl s else s) in
     if t \<noteq> [] \<and> last t = CHR ''-'' then butlast t else t)"

text \<open>\<open>suffix\<close> is the short random id the slug ends with.\<close>

(* src/src/lib/server/auth.ts:401-437 after *)
definition after_user_created :: "ctx \<Rightarrow> string \<Rightarrow> user_row \<Rightarrow> db \<Rightarrow> db" where
  "after_user_created cx suffix u d = (
     let org = \<lparr>org_id = cx_nanoid cx (drawn d), org_name = u_name u @ [CHR 0x27] @ ''s Organization'',
           org_slug = strip_hyphens (hyphen_runs False (lower (u_name u))) @ ''-'' @ suffix, org_logo = None,
           org_createdAt = cx_now cx, org_metadata = None, org_subscriberEmailEnabled = False\<rparr>;
         d1 = (draw d)\<lparr>organizations := organizations d @ [org]\<rparr>;
         m = \<lparr>mem_id = cx_nanoid cx (drawn d1), mem_organizationId = org_id org, mem_userId = u_id u,
           mem_role = ORGANIZATION_CREATOR_ROLE, mem_createdAt = cx_now cx\<rparr>;
         d2 = (draw d1)\<lparr>members := members d1 @ [m]\<rparr> in
     insert_subscription (new_subscription cx (org_id org) d2) d2)"

(* src/src/lib/server/auth.ts:156-160 organizationRoles *)
definition organizationRoles :: "string list" where
  "organizationRoles = [''owner'', ''admin'', ''member'']"

datatype invite_refusal = ChooseOneRole | MemberLimit int | NotSent delivery_outcome

(* src/src/lib/server/auth.ts:580-597 beforeCreateInvitation *)
definition beforeCreateInvitation :: "ctx \<Rightarrow> id \<Rightarrow> string \<Rightarrow> db \<Rightarrow> invite_refusal option \<times> db" where
  "beforeCreateInvitation cx org role d = (
     if role \<notin> set organizationRoles then (Some ChooseOneRole, d)
     else let ((used, limit, canInvite), d1) = getMemberCapacity cx org d in
       (if canInvite then None else Some (MemberLimit limit), d1))"

(* src/src/lib/server/auth.ts:598-603 afterCreateInvitation *)
definition afterCreateInvitation ::
  "ctx \<Rightarrow> int \<Rightarrow> int \<Rightarrow> transport option \<Rightarrow> invitation_row \<Rightarrow> requester \<Rightarrow> db \<Rightarrow> invite_refusal option \<times> db" where
  "afterCreateInvitation cx limit cap send i inviter d = (
     let (outcome, d1) = deliver_invitation cx limit cap send i inviter d in
     (if outcome = InvitationSent then None else Some (NotSent outcome), d1))"

text \<open>A failure to free the slot is logged.\<close>

(* src/src/lib/server/auth.ts:604-617 afterAcceptInvitation *)
definition afterAcceptInvitation :: "ctx \<Rightarrow> bool \<Rightarrow> invitation_row \<Rightarrow> db \<Rightarrow> db" where
  "afterAcceptInvitation cx fails i d = (if fails then d else markInvitationAccepted cx (inv_organizationId i) (inv_email i) d)"

text \<open>Only the account itself may verify its address.  A failure to confirm its channels is logged.\<close>

(* src/src/lib/server/auth.ts:334-341 beforeEmailVerification *)
definition beforeEmailVerification :: "id option \<Rightarrow> id \<Rightarrow> bool" where
  "beforeEmailVerification session u \<longleftrightarrow> session = Some u"

(* src/src/lib/server/auth.ts:342-351 afterEmailVerification *)
definition afterEmailVerification :: "ctx \<Rightarrow> bool \<Rightarrow> string \<Rightarrow> db \<Rightarrow> db" where
  "afterEmailVerification cx fails email d = (if fails then d else confirmMemberAddress cx email d)"

section \<open>Who pays for an organization\<close>

definition pays :: "subscription_row \<Rightarrow> id \<times> string \<times> subscription_status \<times> id option \<times> id option" where
  "pays s = (sub_organizationId s, sub_planId s, sub_status s, sub_polarSubscriptionId s, sub_polarCustomerId s)"

lemma update_pays: "(\<And>s. pays (f s) = pays s) \<Longrightarrow> map pays (update_where P f t) = map pays t"
  by (rule map_update_where)

lemma resume_pays: "pays ` set (subscriptions (snd (resumeAfterRaise cx org b a d))) = pays ` set (subscriptions d)"
proof -
  have "map pays (subscriptions (snd (clearClock k e))) = map pays (subscriptions e)" for k e
    by (simp add: clearClock_def Let_def update_pays pays_def clock_stopped_def)
  then have "map pays (subscriptions (clearIfWithinCeiling env k e)) = map pays (subscriptions e)" for env k e
    by (simp add: clearIfWithinCeiling_def split: option.split)
  then have "map pays (subscriptions (snd (resumeAfterRaise cx org b a d))) = map pays (subscriptions d)"
    by (simp add: resumeAfterRaise_def Let_def)
  from arg_cong [OF this, of set] show ?thesis by simp
qed

lemma resume_others:
  "filter (\<lambda>s. sub_organizationId s \<noteq> org) (subscriptions (snd (resumeAfterRaise cx org b a d))) =
   filter (\<lambda>s. sub_organizationId s \<noteq> org) (subscriptions d)"
proof -
  have "filter (\<lambda>s. sub_organizationId s \<noteq> org) (subscriptions (snd (clearClock org e))) =
      filter (\<lambda>s. sub_organizationId s \<noteq> org) (subscriptions e)" for e
    by (auto simp: clearClock_def Let_def clock_stopped_def intro!: filter_update_where)
  then have "filter (\<lambda>s. sub_organizationId s \<noteq> org) (subscriptions (clearIfWithinCeiling env org e)) =
      filter (\<lambda>s. sub_organizationId s \<noteq> org) (subscriptions e)" for env e
    by (simp add: clearIfWithinCeiling_def split: option.split)
  then show ?thesis by (simp add: resumeAfterRaise_def Let_def)
qed

lemma synced_fields:
  "sub_organizationId (synced_row cx data existing s) = sub_organizationId s"
  "sub_polarSubscriptionId (synced_row cx data existing s) = or_kept (py_polarSubscriptionId data) (sub_polarSubscriptionId existing)"
  by (simp_all add: synced_row_def Let_def)

lemma sync_rows:
  assumes "applySync cx org data hp d = (r, d')"
  shows "filter (\<lambda>s. sub_organizationId s \<noteq> org) (subscriptions d') = filter (\<lambda>s. sub_organizationId s \<noteq> org) (subscriptions d) \<and>
    (subscriptions d' = subscriptions d \<or>
     getSubscription org d = None \<and> hp = None \<and> (\<exists>s. subscriptions d' = subscriptions d @ [s] \<and>
       sub_organizationId s = org \<and> sub_polarSubscriptionId s = py_polarSubscriptionId data) \<or>
     (\<exists>existing. getSubscription org d = Some existing \<and> pays ` set (subscriptions d') =
       pays ` set (update_where (\<lambda>s. sub_organizationId s = org \<and> (case hp of None \<Rightarrow> True | Some h \<Rightarrow> heldBy h s))
         (synced_row cx data existing) (subscriptions d))))"
proof (cases "getSubscription org d")
  case None
  with assms show ?thesis
    by (auto simp: applySync_def Let_def insert_subscription_def draw_def new_subscription_def split: if_splits)
next
  case (Some existing)
  let ?mine = "\<lambda>s. sub_organizationId s = org \<and> (case hp of None \<Rightarrow> True | Some h \<Rightarrow> heldBy h s)"
  let ?d1 = "d\<lparr>subscriptions := update_where ?mine (synced_row cx data existing) (subscriptions d)\<rparr>"
  have "snd (applySync cx org data hp d) = ?d1 \<or> (\<exists>b a. snd (applySync cx org data hp d) = snd (resumeAfterRaise cx org b a ?d1))"
  proof (cases "first_row (filter ?mine (subscriptions d))")
    case None
    with Some show ?thesis by (simp only: applySync_def option.case Let_def snd_conv) simp
  next
    case (Some row)
    have "snd (applySync cx org data hp d) = snd (resumeAfterRaise cx org (ceilingOf (cx_env cx) existing)
        (ceilingOf (cx_env cx) (synced_row cx data existing row)) ?d1)"
      by (simp only: applySync_def \<open>getSubscription org d = Some existing\<close> Some option.case Let_def snd_conv)
    then show ?thesis by (intro disjI2 exI)
  qed
  then have d': "d' = ?d1 \<or> (\<exists>b a. d' = snd (resumeAfterRaise cx org b a ?d1))" using assms by simp
  have "filter (\<lambda>s. sub_organizationId s \<noteq> org) (subscriptions ?d1) = filter (\<lambda>s. sub_organizationId s \<noteq> org) (subscriptions d)"
    by (auto simp: synced_fields intro!: filter_update_where)
  moreover have "pays ` set (subscriptions d') = pays ` set (subscriptions ?d1)" 
    using d' by (elim disjE exE) (simp_all only: resume_pays)
  moreover have "filter (\<lambda>s. sub_organizationId s \<noteq> org) (subscriptions d') = filter (\<lambda>s. sub_organizationId s \<noteq> org) (subscriptions ?d1)"
    using d' by (elim disjE exE) (simp_all only: resume_others)
  ultimately show ?thesis using Some by simp
qed

text \<open>The event's subscription.\<close>

fun concerns :: "polar_event \<Rightarrow> polar_subscription option" where
  "concerns (Subscription_created sub) = Some sub"
| "concerns (Subscription_updated sub) = Some sub"
| "concerns (Subscription_canceled sub) = Some sub"
| "concerns (Subscription_revoked sub) = Some sub"
| "concerns (Order_paid ref) = None"
| "concerns Customer_state_changed = None"

lemma org_handler: "polarOrgHandler ref run d = (ans, d') \<Longrightarrow> d' \<noteq> d \<Longrightarrow> \<exists>org. ref = Some org \<and> run org d = (ans, d')"
  by (cases ref) (auto simp: polarOrgHandler_def given_def split: if_splits)

lemma if_held_db: "if_held r = (ans, d') \<Longrightarrow> d' = snd r"
  by (simp add: if_held_def)

definition attached_by_manager :: "polar_event \<Rightarrow> polar_subscription \<Rightarrow> subscription_row \<Rightarrow> db \<Rightarrow> bool" where
  "attached_by_manager ev sub s d \<longleftrightarrow> ev = Subscription_created sub \<and>
     on_some (\<lambda>u. canManageBilling (sub_organizationId s) u d) (pol_external_id sub) \<and> sub_polarSubscriptionId s = Some (pol_id sub)"

definition held_before :: "polar_subscription \<Rightarrow> subscription_row \<Rightarrow> db \<Rightarrow> bool" where
  "held_before sub s d \<longleftrightarrow> list_ex (\<lambda>old. sub_organizationId old = sub_organizationId s \<and> heldBy (held_of sub) old \<and>
     sub_polarSubscriptionId s = sub_polarSubscriptionId old) (subscriptions d)"

lemma sync_changes:
  assumes "applySync cx org data hp d = (r, d')" "one_subscription d"
    and s': "s' \<in> set (subscriptions d')" "pays s' \<notin> pays ` set (subscriptions d)"
  shows "sub_organizationId s' = org \<and>
    (py_polarSubscriptionId data \<noteq> None \<longrightarrow> sub_polarSubscriptionId s' = py_polarSubscriptionId data) \<and>
    (\<forall>h. hp = Some h \<longrightarrow> py_polarSubscriptionId data = None \<longrightarrow> (\<exists>old\<in>set (subscriptions d). sub_organizationId old = org \<and>
      heldBy h old \<and> sub_polarSubscriptionId s' = sub_polarSubscriptionId old))"
proof -
  from s' have "subscriptions d' \<noteq> subscriptions d" by auto
  with sync_rows [OF assms(1)] consider
      s where "hp = None" "subscriptions d' = subscriptions d @ [s]" "sub_organizationId s = org" "sub_polarSubscriptionId s = py_polarSubscriptionId data"
    | existing where "getSubscription org d = Some existing" "pays ` set (subscriptions d') =
       pays ` set (update_where (\<lambda>s. sub_organizationId s = org \<and> (case hp of None \<Rightarrow> True | Some h \<Rightarrow> heldBy h s))
         (synced_row cx data existing) (subscriptions d))" by blast
  then show ?thesis
  proof cases
    case 1
    with s' have "s' = s" by auto
    with 1 show ?thesis by simp
  next
    case 2
    from s'(1) 2(2) obtain q where q: "q \<in> set (update_where (\<lambda>s. sub_organizationId s = org \<and>
        (case hp of None \<Rightarrow> True | Some h \<Rightarrow> heldBy h s)) (synced_row cx data existing) (subscriptions d))" "pays s' = pays q" by blast
    with s'(2) obtain old where old: "old \<in> set (subscriptions d)" "sub_organizationId old = org"
      "case hp of None \<Rightarrow> True | Some h \<Rightarrow> heldBy h old" "pays s' = pays (synced_row cx data existing old)"
      by (auto simp: set_update_where split: if_splits)
    from 2(1) have "existing \<in> set (subscriptions d)" "sub_organizationId existing = org"
      using first_row_filter_in by (fastforce simp: getSubscription_def subscription_of_def)+
    with old assms(2) have "existing = old" by (auto simp: one_subscription_def distinct_map dest: inj_onD)
    with old show ?thesis by (auto simp: pays_def synced_fields or_kept_def split: option.splits)
  qed
qed

text \<open>A webhook that changes anything syncs the organization it refers to with the event's data.\<close>

lemma held_sync:
  assumes "polarOrgHandler (pol_referenceId sub) (\<lambda>org d. if_held (applySync cx org data (Some (held_of sub)) d)) d = (ans, d')" "d' \<noteq> d"
  shows "\<exists>org. pol_referenceId sub = Some org \<and> d' = snd (applySync cx org data (Some (held_of sub)) d)"
  using org_handler [OF assms] if_held_db by blast

lemma webhook_syncs:
  assumes "handle_webhook cx ev d = (ans, d')" and changed: "d' \<noteq> d"
  obtains sub org data hp where "concerns ev = Some sub" "pol_referenceId sub = Some org" "d' = snd (applySync cx org data hp d)"
    "hp = None \<and> ev = Subscription_created sub \<and> py_polarSubscriptionId data = Some (pol_id sub) \<and>
        on_some (\<lambda>u. canManageBilling org u d) (pol_external_id sub) \<or>
      hp = Some (held_of sub) \<and> py_polarSubscriptionId data = None"
proof (cases ev)
  case (Subscription_created sub)
  with assms(1) have "polarOrgHandler (pol_referenceId sub) (onSubscriptionCreated cx sub) d = (ans, d')"
    by (simp add: handle_webhook_def Let_def)
  from org_handler [OF this changed] obtain org
    where org: "pol_referenceId sub = Some org" "onSubscriptionCreated cx sub org d = (ans, d')" by blast
  let ?data = "(snapshotFrom (cx_env cx) sub)\<lparr>py_polarCustomerId := Some (pol_customer_id sub), py_polarSubscriptionId := Some (pol_id sub)\<rparr>"
  from org(2) changed have "on_some (\<lambda>u. u \<noteq> [] \<and> canManageBilling org u d) (pol_external_id sub)" "d' = snd (applySync cx org ?data None d)"
    by (auto simp: onSubscriptionCreated_def syncFromPolar_def split: if_splits option.splits prod.splits)
  with org(1) Subscription_created show ?thesis using that [of sub org ?data None]
    by (auto simp: on_some_iff)
next
  case (Subscription_updated sub)
  from Subscription_updated assms(1) have "polarOrgHandler (pol_referenceId sub)
      (\<lambda>org d. if_held (applySync cx org (snapshotFrom (cx_env cx) sub) (Some (held_of sub)) d)) d = (ans, d')"
    by (simp add: handle_webhook_def Let_def syncHeldFromPolar_def)
  from held_sync [OF this changed] obtain org where org: "pol_referenceId sub = Some org"
    "d' = snd (applySync cx org (snapshotFrom (cx_env cx) sub) (Some (held_of sub)) d)" by blast
  show ?thesis by (rule that [of sub org "snapshotFrom (cx_env cx) sub" "Some (held_of sub)"])
      (use Subscription_updated org in \<open>simp_all add: snapshotFrom_def FREE_SYNC_def\<close>)
next
  case (Subscription_canceled sub)
  from Subscription_canceled assms(1) have "polarOrgHandler (pol_referenceId sub) (\<lambda>org d. if_held (applySync cx org
      ((snapshotFrom (cx_env cx) sub)\<lparr>py_status := SubCanceled\<rparr>) (Some (held_of sub)) d)) d = (ans, d')"
    by (simp add: handle_webhook_def Let_def syncHeldFromPolar_def)
  from held_sync [OF this changed] obtain org where org: "pol_referenceId sub = Some org"
    "d' = snd (applySync cx org ((snapshotFrom (cx_env cx) sub)\<lparr>py_status := SubCanceled\<rparr>) (Some (held_of sub)) d)" by blast
  show ?thesis by (rule that [of sub org "(snapshotFrom (cx_env cx) sub)\<lparr>py_status := SubCanceled\<rparr>" "Some (held_of sub)"])
      (use Subscription_canceled org in \<open>simp_all add: snapshotFrom_def FREE_SYNC_def\<close>)
next
  case (Subscription_revoked sub)
  from Subscription_revoked assms(1) have "polarOrgHandler (pol_referenceId sub)
      (\<lambda>org d. if_held (applySync cx org FREE_SYNC (Some (held_of sub)) d)) d = (ans, d')"
    by (simp add: handle_webhook_def Let_def downgradeHeldToFree_def)
  from held_sync [OF this changed] obtain org where org: "pol_referenceId sub = Some org"
    "d' = snd (applySync cx org FREE_SYNC (Some (held_of sub)) d)" by blast
  show ?thesis by (rule that [of sub org FREE_SYNC "Some (held_of sub)"])
      (use Subscription_revoked org in \<open>simp_all add: snapshotFrom_def FREE_SYNC_def\<close>)
next
  case (Order_paid ref)
  with assms(1) org_handler [OF _ changed] changed show ?thesis by (auto simp: handle_webhook_def Let_def)
qed (use assms(1) changed in \<open>simp add: handle_webhook_def\<close>)

text \<open>
  C35: Who is billed for an organization changes only through the billing of those who manage it.  A webhook
  leaves the subscriptions of every organization but the one it refers to as they were; and it changes
  that one's plan, status or provider only if it attaches a subscription an owner or admin pays for, or
  is about the subscription the organization holds, which it then still holds.
\<close>

theorem billing_follows_its_payer:
  assumes "handle_webhook cx ev d = (ans, d')" "one_subscription d" "s' \<in> set (subscriptions d')" "s' \<notin> set (subscriptions d)"
  shows "(\<exists>sub. concerns ev = Some sub \<and> pol_referenceId sub = Some (sub_organizationId s') \<and>
      (pays s' \<in> pays ` set (subscriptions d) \<or> attached_by_manager ev sub s' d \<or> held_before sub s' d)) \<and>
    filter (\<lambda>s. sub_organizationId s \<noteq> sub_organizationId s') (subscriptions d') =
      filter (\<lambda>s. sub_organizationId s \<noteq> sub_organizationId s') (subscriptions d)"
proof -
  have changed: "d' \<noteq> d" using assms(3,4) by auto
  obtain sub org data hp where sub: "concerns ev = Some sub" "pol_referenceId sub = Some org"
    and sync: "d' = snd (applySync cx org data hp d)"
    and data: "hp = None \<and> ev = Subscription_created sub \<and> py_polarSubscriptionId data = Some (pol_id sub) \<and>
        on_some (\<lambda>u. canManageBilling org u d) (pol_external_id sub) \<or>
      hp = Some (held_of sub) \<and> py_polarSubscriptionId data = None"
    by (rule webhook_syncs [OF assms(1) changed])
  obtain r where sync': "applySync cx org data hp d = (r, d')" using sync by (cases "applySync cx org data hp d") auto
  note others = sync_rows [OF sync', THEN conjunct1]
  have org: "sub_organizationId s' = org"
  proof (rule ccontr)
    assume "sub_organizationId s' \<noteq> org"
    with assms(3) have "s' \<in> set (filter (\<lambda>s. sub_organizationId s \<noteq> org) (subscriptions d'))" by simp
    with others assms(4) show False by simp
  qed
  show ?thesis
  proof (cases "pays s' \<in> pays ` set (subscriptions d)")
    case True
    with sub org others show ?thesis by auto
  next
    case False
    note ch = sync_changes [OF sync' assms(2,3) False]
    from data ch org have "attached_by_manager ev sub s' d \<or> held_before sub s' d"
      by (auto simp: attached_by_manager_def held_before_def list_ex_iff)
    with sub org others show ?thesis by auto
  qed
qed

definition example_polar :: polar_subscription where
  "example_polar = \<lparr>pol_id = ''ps'', pol_customer_id = ''pc'', pol_external_id = Some ''s'', pol_product_id = None, pol_product = None,
     pol_status = ''active'', pol_recurring_interval = BillMonth, pol_current_period_start = Some 0,
     pol_current_period_end = Some 100, pol_referenceId = Some ''o''\<rparr>"

lemma billing_follows_its_payer_witness:
  "let (ans, d') = handle_webhook (example_ctx 5) (Subscription_created example_polar) example_admin_db in
   ans = Applied \<and> list_ex (\<lambda>s. attached_by_manager (Subscription_created example_polar) example_polar s example_admin_db) (subscriptions d')"
proof -
  let ?ev = "Subscription_created example_polar"
  let ?r = "handle_webhook (example_ctx 5) ?ev example_admin_db"
  obtain ans d' where r: "?r = (ans, d')" by (cases ?r)
  have ok: "fst ?r = Applied" "map sub_polarSubscriptionId (subscriptions (snd ?r)) = [Some ''ps'']" "one_subscription example_admin_db"
    "subscriptions example_admin_db = []"
    by code_simp+
  then obtain s where s: "s \<in> set (subscriptions d')" "s \<notin> set (subscriptions example_admin_db)" using r by auto
  from billing_follows_its_payer [OF r ok(3) s] ok(4)
  have "attached_by_manager ?ev example_polar s example_admin_db" by (auto simp: held_before_def)
  with s ok(1) r show ?thesis by (auto simp: list_ex_iff)
qed

end
