(* ===== verification/ResponseHistory.thy ===== *)
theory ResponseHistory
  imports Stats PublicPages
begin

text \<open>
  The response times of a monitor by day, \<open>response-history.service.ts\<close>: past days from the nightly
  rollup, the rest rolled up from the checks on read.  At least one day is asked for.
\<close>

section \<open>The history\<close>

(* src/src/lib/server/services/response-history.service.ts:7-13 ResponseDay *)
record response_day =
  rd_date :: int
  rd_avgMs :: "int option"
  rd_p95Ms :: "int option"
  rd_status :: day_status

(* src/src/lib/server/services/response-history.service.ts:15-23 DayCounts *)
record day_roll =
  dy_date :: int
  dy_total :: int
  dy_successful :: int
  dy_failed :: int
  dy_degraded :: int
  dy_avgMs :: "int option"
  dy_p95Ms :: "int option"

definition rolled_day :: "monitorDailyStats_row \<Rightarrow> day_roll" where
  "rolled_day s = \<lparr>dy_date = utcDay (d_date s), dy_total = d_totalChecks s, dy_successful = d_successfulChecks s,
     dy_failed = d_failedChecks s, dy_degraded = d_degradedChecks s, dy_avgMs = d_avgResponseTimeMs s, dy_p95Ms = d_p95ResponseTimeMs s\<rparr>"

definition roll_of :: "int \<Rightarrow> roll_up \<Rightarrow> day_roll" where
  "roll_of day r = \<lparr>dy_date = day, dy_total = int (ru_total r), dy_successful = int (ru_successful r), dy_failed = int (ru_failed r),
     dy_degraded = int (ru_degraded r), dy_avgMs = ru_avg r, dy_p95Ms = ru_p95 r\<rparr>"

definition since_day :: "id \<Rightarrow> time \<Rightarrow> int \<Rightarrow> monitorCheck_row \<Rightarrow> bool" where
  "since_day k since day c \<longleftrightarrow> c_monitorId c = k \<and> since \<le> c_checkedAt c \<and> utcDay (c_checkedAt c) = day"

text \<open>One group per day that has a check.\<close>

definition live_days :: "id \<Rightarrow> time \<Rightarrow> db \<Rightarrow> day_roll list" where
  "live_days k since d = map (\<lambda>day. roll_of day (rollUpChecks (since_day k since day) d))
     (unique (map (\<lambda>c. utcDay (c_checkedAt c)) (filter (\<lambda>c. c_monitorId c = k \<and> since \<le> c_checkedAt c) (monitorChecks d))))"

definition response_day_of :: "int \<Rightarrow> day_roll option \<Rightarrow> response_day" where
  "response_day_of day r = (case r of
      None \<Rightarrow> \<lparr>rd_date = day, rd_avgMs = None, rd_p95Ms = None, rd_status = DayUnknown\<rparr>
    | Some x \<Rightarrow> if dy_total x = 0 then \<lparr>rd_date = day, rd_avgMs = None, rd_p95Ms = None, rd_status = DayUnknown\<rparr>
        else \<lparr>rd_date = day, rd_avgMs = dy_avgMs x, rd_p95Ms = dy_p95Ms x,
          rd_status = dayStatus \<lparr>dc_total = nat (dy_total x), dc_up = nat (dy_successful x - dy_degraded x),
            dc_down = nat (dy_failed x), dc_degraded = nat (dy_degraded x)\<rparr>\<rparr>)"

definition live_since :: "id \<Rightarrow> time \<Rightarrow> db \<Rightarrow> time" where
  "live_since k since d = (case map d_date (filter (\<lambda>s. d_monitorId s = k) (monitorDailyStats d)) of
      [] \<Rightarrow> since
    | t # ts \<Rightarrow> let latest = Max (set (t # ts)) in if since \<le> latest then latest + 86400000 else since)"

(* src/src/lib/server/services/response-history.service.ts:31-97 daily *)
definition response_history :: "id \<Rightarrow> int \<Rightarrow> time \<Rightarrow> db \<Rightarrow> response_day list" where
  "response_history k days now d = (
     let keys = recentUtcDayKeys now days; since = hd keys * 86400000;
         rolledUp = map rolled_day (filter (\<lambda>s. d_monitorId s = k \<and> since \<le> d_date s) (monitorDailyStats d));
         live = live_days k (live_since k since d) d;
         byDate = map_of (rev (map (\<lambda>x. (dy_date x, x)) (rolledUp @ live))) in
     map (\<lambda>day. response_day_of day (byDate day)) keys)"

section \<open>The rollup does not show\<close>

text \<open>The history rolled up from the checks alone.\<close>

definition checks_of_day :: "id \<Rightarrow> int \<Rightarrow> monitorCheck_row \<Rightarrow> bool" where
  "checks_of_day k day c \<longleftrightarrow> c_monitorId c = k \<and> utcDay (c_checkedAt c) = day"

definition plain_history :: "id \<Rightarrow> int \<Rightarrow> time \<Rightarrow> db \<Rightarrow> response_day list" where
  "plain_history k days now d = map (\<lambda>day. response_day_of day (Some (roll_of day (rollUpChecks (checks_of_day k day) d))))
     (recentUtcDayKeys now days)"

text \<open>
  The rollup is in step: a row is that of its day's checks, one per day, and every day up to the last
  row's that has a check has a row.
\<close>

definition rollup_in_step :: "id \<Rightarrow> db \<Rightarrow> bool" where
  "rollup_in_step k d \<longleftrightarrow> list_all (\<lambda>s. d_monitorId s = k \<longrightarrow> d_date s = utcDay (d_date s) * 86400000 \<and>
       rolled_day s = roll_of (utcDay (d_date s)) (rollUpChecks (checks_of_day k (utcDay (d_date s))) d)) (monitorDailyStats d) \<and>
     list_all (\<lambda>c. c_monitorId c = k \<longrightarrow>
       list_all (\<lambda>s. d_monitorId s = k \<longrightarrow> utcDay (d_date s) < utcDay (c_checkedAt c)) (monitorDailyStats d) \<or>
       list_ex (\<lambda>s. d_monitorId s = k \<and> utcDay (d_date s) = utcDay (c_checkedAt c)) (monitorDailyStats d)) (monitorChecks d)"

lemma live_entry:
  "x \<in> set (live_days k since d) \<Longrightarrow> x = roll_of (dy_date x) (rollUpChecks (since_day k since (dy_date x)) d)"
  by (auto simp: live_days_def roll_of_def)

lemma rollup_cong: "(\<And>c. c \<in> set (monitorChecks d) \<Longrightarrow> P c = Q c) \<Longrightarrow> rollUpChecks P d = rollUpChecks Q d"
proof -
  assume "\<And>c. c \<in> set (monitorChecks d) \<Longrightarrow> P c = Q c"
  then have "filter P (monitorChecks d) = filter Q (monitorChecks d)" by (rule filter_cong [OF refl])
  then show ?thesis by (simp only: rollUpChecks_def)
qed

lemma rollup_of_none: "(\<And>c. c \<in> set (monitorChecks d) \<Longrightarrow> \<not> P c) \<Longrightarrow> ru_total (rollUpChecks P d) = 0"
  by (simp add: rollUpChecks_def Let_def)

lemma in_step_row:
  assumes "rollup_in_step k d" "s \<in> set (monitorDailyStats d)" "d_monitorId s = k"
  shows "d_date s = utcDay (d_date s) * 86400000"
    "rolled_day s = roll_of (utcDay (d_date s)) (rollUpChecks (checks_of_day k (utcDay (d_date s))) d)"
  using assms by (simp_all add: rollup_in_step_def list_all_iff)

lemma in_step_check:
  assumes "rollup_in_step k d" "c \<in> set (monitorChecks d)" "c_monitorId c = k"
  obtains "\<And>s. s \<in> set (monitorDailyStats d) \<Longrightarrow> d_monitorId s = k \<Longrightarrow> utcDay (d_date s) < utcDay (c_checkedAt c)"
  | s where "s \<in> set (monitorDailyStats d)" "d_monitorId s = k" "utcDay (d_date s) = utcDay (c_checkedAt c)"
  using assms unfolding rollup_in_step_def list_all_iff list_ex_iff by blast

lemma only_else: "v = (if a then s else if b then m else s) \<Longrightarrow> v \<noteq> s \<Longrightarrow> \<not> a \<and> v = m"
  by (simp split: if_splits)

text \<open>The live part begins at the first day asked for or on the day after the newest row.\<close>

lemma live_since_cases:
  assumes "rollup_in_step k d"
  obtains "live_since k since d = since"
  | s where "s \<in> set (monitorDailyStats d)" "d_monitorId s = k"
      "live_since k since d = (utcDay (d_date s) + 1) * 86400000"
proof (cases "live_since k since d = since")
  case False
  let ?ds = "map d_date (filter (\<lambda>s. d_monitorId s = k) (monitorDailyStats d))"
  have l0: "live_since k since d = (if ?ds = [] then since else if since \<le> Max (set ?ds) then Max (set ?ds) + 86400000 else since)"
    by (cases ?ds) (simp_all only: live_since_def Let_def list.simps if_False if_True simp_thms)
  have ne: "?ds \<noteq> []" and l: "live_since k since d = Max (set ?ds) + 86400000"
    by (rule conjunct1 [OF only_else [OF l0 False]], rule conjunct2 [OF only_else [OF l0 False]])
  from ne have "Max (set ?ds) \<in> set ?ds" by (intro Max_in) (simp_all only: set_empty List.finite_set not_False_eq_True)
  then obtain s where s: "s \<in> set (monitorDailyStats d)" "d_monitorId s = k" "Max (set ?ds) = d_date s"
    unfolding set_map by (elim imageE) auto
  have "d_date s = utcDay (d_date s) * 86400000" by (rule in_step_row [OF assms s(1,2)])
  with l s(3) have "live_since k since d = (utcDay (d_date s) + 1) * 86400000" by simp
  with s(1,2) show thesis by (rule that(2))
qed (rule that(1))

lemma utcDay_le: "L * 86400000 \<le> t \<longleftrightarrow> L \<le> utcDay t"
proof -
  have "t = t div 86400000 * 86400000 + t mod 86400000" "0 \<le> t mod 86400000" "t mod 86400000 < 86400000" by simp_all
  then have "L * 86400000 \<le> t \<longleftrightarrow> L \<le> t div 86400000" by linarith
  then show ?thesis by (simp add: utcDay_def DAY_MS_def)
qed

lemma roll_date [simp]: "dy_date (roll_of day r) = day"
  by (simp add: roll_of_def)

lemma live_entry_of:
  "x \<in> set (live_days k since d) \<Longrightarrow> \<exists>c :: monitorCheck_row. since \<le> c_checkedAt c \<and>
     x = roll_of (utcDay (c_checkedAt c)) (rollUpChecks (since_day k since (utcDay (c_checkedAt c))) d)"
proof -
  assume "x \<in> set (live_days k since d)"
  then obtain c where "x = roll_of (utcDay (c_checkedAt c)) (rollUpChecks (since_day k since (utcDay (c_checkedAt c))) d)"
    "c \<in> set (filter (\<lambda>c. c_monitorId c = k \<and> since \<le> c_checkedAt c) (monitorChecks d))"
    unfolding live_days_def set_map set_unique by (elim imageE) simp
  then show ?thesis by (intro exI [of _ c]) simp
qed

lemma rolled_date [simp]: "dy_date (rolled_day s) = utcDay (d_date s)"
  by (simp add: rolled_day_def)

lemma live_dated: "x \<in> set (live_days k since d) \<Longrightarrow> \<exists>c :: monitorCheck_row. since \<le> c_checkedAt c \<and> dy_date x = utcDay (c_checkedAt c)"
  by (drule live_entry_of) (elim exE conjE, intro exI conjI, assumption, simp)

lemma live_day:
  assumes "rollup_in_step k d" and x: "x \<in> set (live_days k (live_since k (f * 86400000) d) d)"
  shows "x = roll_of (dy_date x) (rollUpChecks (checks_of_day k (dy_date x)) d)"
proof -
  let ?l = "live_since k (f * 86400000) d"
  obtain L where L: "?l = L * 86400000" using assms(1) by (rule live_since_cases [where since = "f * 86400000"]) blast+
  obtain c :: monitorCheck_row where c: "?l \<le> c_checkedAt c" "dy_date x = utcDay (c_checkedAt c)"
    using live_dated [OF x] by blast
  then have "L \<le> dy_date x" by (simp add: L utcDay_le)
  then have "rollUpChecks (since_day k ?l (dy_date x)) d = rollUpChecks (checks_of_day k (dy_date x)) d"
    by (intro rollup_cong) (auto simp: since_day_def checks_of_day_def L utcDay_le)
  with live_entry [OF x] show ?thesis by simp
qed

lemma checked_day_entered:
  assumes r: "rollup_in_step k d" and c: "c \<in> set (monitorChecks d)" "checks_of_day k day c" and f: "f \<le> day"
  shows "day \<in> dy_date ` set (map rolled_day (filter (\<lambda>s. d_monitorId s = k \<and> f * 86400000 \<le> d_date s) (monitorDailyStats d)) @
    live_days k (live_since k (f * 86400000) d) d)"
proof -
  from c have k: "c_monitorId c = k" and day: "utcDay (c_checkedAt c) = day" by (simp_all add: checks_of_day_def)
  show ?thesis
  proof (rule in_step_check [OF r c(1) k])
    fix s assume s: "s \<in> set (monitorDailyStats d)" "d_monitorId s = k" "utcDay (d_date s) = utcDay (c_checkedAt c)"
    then have "f * 86400000 \<le> d_date s" using f day by (simp add: utcDay_le)
    with s day have "rolled_day s \<in> set (map rolled_day (filter (\<lambda>s. d_monitorId s = k \<and> f * 86400000 \<le> d_date s) (monitorDailyStats d)))"
      "dy_date (rolled_day s) = day" by simp_all
    then show ?thesis unfolding set_append by blast
  next
    assume later: "\<And>s. s \<in> set (monitorDailyStats d) \<Longrightarrow> d_monitorId s = k \<Longrightarrow> utcDay (d_date s) < utcDay (c_checkedAt c)"
    have "live_since k (f * 86400000) d \<le> c_checkedAt c"
    proof (rule live_since_cases [OF r, where since = "f * 86400000"])
      assume "live_since k (f * 86400000) d = f * 86400000"
      then show ?thesis using f day by (simp add: utcDay_le)
    next
      fix s assume s: "s \<in> set (monitorDailyStats d)" "d_monitorId s = k"
        and e: "live_since k (f * 86400000) d = (utcDay (d_date s) + 1) * 86400000"
      show ?thesis using later [OF s] unfolding e utcDay_le by simp
    qed
    with c(1) k have "c \<in> set (filter (\<lambda>c. c_monitorId c = k \<and> live_since k (f * 86400000) d \<le> c_checkedAt c) (monitorChecks d))"
      by simp
    then have "day \<in> dy_date ` set (live_days k (live_since k (f * 86400000) d) d)"
      unfolding live_days_def set_map set_unique image_image roll_date day [symmetric] by (rule imageI)
    then show ?thesis unfolding set_append image_Un by (rule UnI2)
  qed
qed

text \<open>
  C38: The rollup does not show: as long as the nightly rows are in step with the checks, every day of
  the history is what its raw checks alone give.
\<close>

theorem rollup_does_not_show:
  assumes r: "rollup_in_step k d" and n: "1 \<le> days"
  shows "response_history k days now d = plain_history k days now d"
proof -
  let ?f = "hd (recentUtcDayKeys now days)"
  let ?rows = "map rolled_day (filter (\<lambda>s. d_monitorId s = k \<and> ?f * 86400000 \<le> d_date s) (monitorDailyStats d))"
  let ?es = "?rows @ live_days k (live_since k (?f * 86400000) d) d"
  let ?byDate = "map_of (rev (map (\<lambda>x. (dy_date x, x)) ?es))"
  have entry: "x = roll_of (dy_date x) (rollUpChecks (checks_of_day k (dy_date x)) d)" if "x \<in> set ?es" for x
  proof (cases "x \<in> set ?rows")
    case True
    then obtain s where s: "s \<in> set (monitorDailyStats d)" "d_monitorId s = k" "x = rolled_day s" by auto
    then show ?thesis using in_step_row(2) [OF r s(1,2)] by (simp add: rolled_day_def)
  next
    case False with that show ?thesis using live_day [OF r] by simp
  qed
  have "response_day_of day (?byDate day) = response_day_of day (Some (roll_of day (rollUpChecks (checks_of_day k day) d)))"
    if day: "?f \<le> day" for day
  proof (cases "?byDate day")
    case (Some x)
    then have "x \<in> set ?es" "dy_date x = day" by (auto dest!: map_of_SomeD)
    then show ?thesis unfolding Some using entry [of x] by simp
  next
    case None
    then have no:
      "day \<notin> dy_date ` set ?es" 
      by (simp only: map_of_eq_None_iff set_rev set_map image_image fst_conv not_False_eq_True)
    have "\<not> checks_of_day k day c" if "c \<in> set (monitorChecks d)" for c
      using checked_day_entered [OF r that _ day] no by blast
    then have "ru_total (rollUpChecks (checks_of_day k day) d) = 0" by (rule rollup_of_none)
    then show ?thesis unfolding None by (simp add: response_day_of_def roll_of_def)
  qed
  moreover have "?f \<le> day" if "day \<in> set (recentUtcDayKeys now days)" for day
    using that n by (auto simp: recent_days hd_map hd_rev)
  ultimately show ?thesis by (simp only: response_history_def plain_history_def Let_def) (simp cong: map_cong)
qed

text \<open>Three days of a monitor, the first of them aggregated, seen on the third.\<close>

definition example_seen_db :: db where
  "example_seen_db = snd (aggregateAllMonitorsForDate (example_ctx (2 * DAY_MS)) 5000
     (example_stats_db\<lparr>monitorChecks := monitorChecks example_stats_db @ [example_row ''e'' Up (Some 80) (2 * DAY_MS)]\<rparr>))"

lemma rollup_does_not_show_witness:
  "response_history ''m'' 3 (2 * DAY_MS) example_seen_db = plain_history ''m'' 3 (2 * DAY_MS) example_seen_db \<and>
   map rd_p95Ms (response_history ''m'' 3 (2 * DAY_MS) example_seen_db) = [Some 5707, None, Some 80]"
proof -
  have "rollup_in_step ''m'' example_seen_db" by code_simp
  from rollup_does_not_show [OF this] show ?thesis by (rule conjI) (simp, code_simp)
qed

end
