(* ===== verification/Dial.thy ===== *)
theory Dial
  imports PrivateAddress Probe
begin

text \<open>
  Connections for checks and webhooks, \<open>lib/server/tcp.ts\<close>: one lookup, the refusal of private
  addresses, the connection and the judgement of a certificate, and the words for what failed.

  The resolver, the sockets, the TLS library and the clock are a parameter: what each answers once it is
  asked.  Whatever waits can be cut short by the timeout.
\<close>

section \<open>Errors\<close>

text \<open>
  What can be thrown: the two errors of the program, one of the platform with its code if it has a text
  one and whether an argument check raised it, several at once, and the reason of the timeout.
\<close>

(* src/src/lib/server/tcp.ts:28-34 ProbeError, BlockedTargetError *)
datatype js_error =
    ProbeError string
  | BlockedTargetError string
  | PlatformError "string option" bool
  | AggregateError "js_error list"
  | TimeoutReason

(* src/src/lib/server/tcp.ts:17-18 Phase *)
datatype phase = PhaseDns | PhaseConnect | PhaseTls | PhaseResponse | PhaseBody

(* src/src/lib/server/tcp.ts:20-26 PHASE_WORDS *)
fun PHASE_WORDS :: "phase \<Rightarrow> string" where
  "PHASE_WORDS PhaseDns = ''looking up the host name''"
| "PHASE_WORDS PhaseConnect = ''connecting''"
| "PHASE_WORDS PhaseTls = ''in the TLS handshake''"
| "PHASE_WORDS PhaseResponse = ''waiting for the response''"
| "PHASE_WORDS PhaseBody = ''reading the response body''"

(* src/src/lib/server/tcp.ts:68-74 errorCode *)
fun errorCode :: "js_error \<Rightarrow> string option" where
  "errorCode (AggregateError []) = None"
| "errorCode (AggregateError (e # es)) = errorCode e"
| "errorCode (PlatformError code arg) = code"
| "errorCode (ProbeError msg) = None"
| "errorCode (BlockedTargetError msg) = None"
| "errorCode TimeoutReason = None"

(* src/src/lib/server/tcp.ts:76-87 dnsError *)
definition dnsError :: "string \<Rightarrow> js_error \<Rightarrow> js_error" where
  "dnsError host e = (
     if errorCode e = Some ''ENOTFOUND'' then ProbeError (''DNS lookup failed: '' @ host @ '' does not exist'')
     else if errorCode e = Some ''ENODATA'' then ProbeError (''DNS lookup failed: '' @ host @ '' has no address records'')
     else if errorCode e = Some ''EAI_AGAIN'' then ProbeError (''DNS lookup failed: no answer for '' @ host)
     else ProbeError (''DNS lookup failed for '' @ host))"

text \<open>An empty code reads as none.\<close>

definition code_suffix :: "string option \<Rightarrow> string" where
  "code_suffix code = (case code of None \<Rightarrow> [] | Some c \<Rightarrow> if c = [] then [] else '' ('' @ c @ '')'')"

(* src/src/lib/server/tcp.ts:89-105 socketError *)
definition socketError :: "string \<Rightarrow> int \<Rightarrow> js_error \<Rightarrow> js_error" where
  "socketError host port e = (let code = errorCode e; place = host @ '':'' @ show_int port in
     if code = Some ''ECONNREFUSED'' then ProbeError (''Connection refused by '' @ place)
     else if code = Some ''ECONNRESET'' then ProbeError (''Connection reset by '' @ host)
     else if code = Some ''ETIMEDOUT'' then ProbeError (''Connection to '' @ place @ '' timed out'')
     else if code = Some ''EHOSTUNREACH'' \<or> code = Some ''ENETUNREACH'' then ProbeError (host @ '' is unreachable'')
     else ProbeError (''Connection to '' @ place @ '' failed'' @ code_suffix code))"

section \<open>Certificates\<close>

(* src/src/lib/server/tcp.ts:107-127 certificateError *)
definition certificateError :: "string \<Rightarrow> string \<Rightarrow> js_error" where
  "certificateError code host = (
     if code = ''CERT_HAS_EXPIRED'' then ProbeError ''TLS certificate has expired''
     else if code = ''CERT_NOT_YET_VALID'' then ProbeError ''TLS certificate is not valid yet''
     else if code = ''CERT_REVOKED'' then ProbeError ''TLS certificate has been revoked''
     else if code \<in> set [''DEPTH_ZERO_SELF_SIGNED_CERT'', ''SELF_SIGNED_CERT_IN_CHAIN'']
       then ProbeError ''TLS certificate is self-signed and not trusted''
     else if code \<in> set [''UNABLE_TO_GET_ISSUER_CERT'', ''UNABLE_TO_GET_ISSUER_CERT_LOCALLY'', ''UNABLE_TO_VERIFY_LEAF_SIGNATURE'']
       then ProbeError ''TLS certificate is not trusted: its issuer is unknown''
     else if code = ''ERR_TLS_CERT_ALTNAME_INVALID'' then ProbeError (''TLS certificate is not valid for '' @ host)
     else ProbeError (''TLS certificate is not trusted ('' @ code @ '')''))"

text \<open>A certificate as the platform reads it, and what a finished handshake shows of the peer.\<close>

record x509 =
  x_issuer :: string
  x_subject :: string
  x_verifies_own :: bool
  x_validFrom :: time
  x_validTo :: time
  x_checkIP :: "string \<Rightarrow> bool"
  x_checkHost :: "string \<Rightarrow> bool"

text \<open>A field of a distinguished name: one value, or a list if it is repeated.\<close>

datatype name_field = One string | Many "string list"

record handshake =
  hs_authorized :: bool
  hs_authorizationError :: string
  hs_cert :: "x509 option"
  hs_valid_to :: "time option"
  hs_issuer_O :: "name_field option"
  hs_issuer_CN :: "name_field option"
  hs_now :: time

(* src/src/lib/server/tcp.ts:129-149 certificateProblem *)
definition certificateProblem :: "(string \<Rightarrow> address option) \<Rightarrow> handshake \<Rightarrow> string \<Rightarrow> bool \<Rightarrow> js_error option" where
  "certificateProblem addr hs host acceptSelfSigned = (
     if hs_authorized hs then None
     else let refused = certificateError (hs_authorizationError hs) host in
       case hs_cert hs of
         None \<Rightarrow> Some refused
       | Some c \<Rightarrow>
           if acceptSelfSigned \<and> x_issuer c = x_subject c \<and> x_verifies_own c then
             if hs_now hs < x_validFrom c then Some (certificateError ''CERT_NOT_YET_VALID'' host)
             else if hs_now hs > x_validTo c then Some (certificateError ''CERT_HAS_EXPIRED'' host)
             else if (if addr host \<noteq> None then x_checkIP c host else x_checkHost c host) then None
             else Some (certificateError ''ERR_TLS_CERT_ALTNAME_INVALID'' host)
           else Some refused)"

(* src/src/lib/server/tcp.ts:151-154 firstValue *)
definition firstValue :: "name_field option \<Rightarrow> string option" where
  "firstValue f = (case f of None \<Rightarrow> None | Some (One s) \<Rightarrow> Some s | Some (Many []) \<Rightarrow> None | Some (Many (s # ss)) \<Rightarrow> Some s)"

text \<open>The expiry and the issuer: its organization, or its common name where that is empty.\<close>

(* src/src/lib/server/tcp.ts:156-163 describeCertificate *)
definition describeCertificate :: "handshake \<Rightarrow> (time \<times> string option) option" where
  "describeCertificate hs = (case hs_valid_to hs of
      None \<Rightarrow> None
    | Some t \<Rightarrow> Some (t, case firstValue (hs_issuer_O hs) of
        None \<Rightarrow> firstValue (hs_issuer_CN hs)
      | Some org \<Rightarrow> if org = [] then firstValue (hs_issuer_CN hs) else Some org))"

section \<open>Dialing\<close>

text \<open>What a wait ends in: the answer, an error, or the timeout.\<close>

datatype 'a waited = Answer 'a | Failure js_error | TimedOut

text \<open>
  The outside of one dial: how the platform reads an address literal, the resolver's answer and how long
  it took, the error an argument check raises for a port before anything is connected, the addresses a connection is tried at, how it and the handshake end, and two moments of the
  timeout: before the start, and right after another failure.
\<close>

record net =
  nt_addr :: "string \<Rightarrow> address option"
  nt_lookup :: "string \<Rightarrow> string list waited"
  nt_lookupMs :: int
  nt_refused :: "int \<Rightarrow> js_error option"
  nt_tries :: "string \<Rightarrow> int \<Rightarrow> string list \<Rightarrow> string list"
  nt_connect :: "string \<Rightarrow> int \<Rightarrow> string list \<Rightarrow> int waited"
  nt_secure :: "string option \<Rightarrow> (int \<times> handshake) waited"
  nt_over_before :: bool
  nt_over_after :: bool

(* src/src/lib/server/tcp.ts:41-49 Dialed *)
record dialed =
  dd_dnsMs :: "int option"
  dd_connectMs :: int
  dd_tlsMs :: "int option"
  dd_cert :: "(time \<times> string option) option"

(* src/src/lib/server/tcp.ts:165-179 resolveHost *)
definition resolveHost :: "net \<Rightarrow> string \<Rightarrow> js_error + string list \<times> int option" where
  "resolveHost nt host = (
     if nt_addr nt host \<noteq> None then Inr ([host], None)
     else case nt_lookup nt host of
         Answer addresses \<Rightarrow> Inr (addresses, Some (nt_lookupMs nt))
       | Failure e \<Rightarrow> Inl (dnsError host e)
       | TimedOut \<Rightarrow> Inl TimeoutReason)"

text \<open>The first private address; one that is no address throws before a later one is looked at.\<close>

fun find_private :: "net \<Rightarrow> string list \<Rightarrow> js_error + string option" where
  "find_private nt [] = Inr None"
| "find_private nt (a # as) = (case isPrivateAddress (nt_addr nt a) of
      None \<Rightarrow> Inl (PlatformError None True)
    | Some True \<Rightarrow> Inr (Some a)
    | Some False \<Rightarrow> find_private nt as)"

(* src/src/lib/server/tcp.ts:196-205 dial: refuse private addresses *)
definition refuse_private :: "env \<Rightarrow> net \<Rightarrow> string \<Rightarrow> string list \<Rightarrow> js_error option" where
  "refuse_private env nt host addresses = (
     if privateTargetsAllowed env then None
     else case find_private nt addresses of
         Inl e \<Rightarrow> Some e
       | Inr None \<Rightarrow> None
       | Inr (Some a) \<Rightarrow> Some (BlockedTargetError (
           if a = host then ''Blocked: '' @ host @ '' is a private address''
           else ''Blocked: '' @ host @ '' resolves to a private address'')))"

text \<open>How a dial ends, the phase it was in, the names it had looked up and the addresses it tried.\<close>

record dial_trip =
  dt_outcome :: "js_error + dialed"
  dt_phase :: phase
  dt_lookups :: "string list"
  dt_tried :: "string list"

definition stopped :: "js_error \<Rightarrow> phase \<Rightarrow> string list \<Rightarrow> string list \<Rightarrow> dial_trip" where
  "stopped e ph looked tried = \<lparr>dt_outcome = Inl e, dt_phase = ph, dt_lookups = looked, dt_tried = tried\<rparr>"

text \<open>An address is not named to the server.\<close>

definition servername :: "net \<Rightarrow> string \<Rightarrow> string option" where
  "servername nt host = (if nt_addr nt host \<noteq> None then None else Some host)"

text \<open>After the connection: with TLS, the handshake and the certificate.\<close>

(* src/src/lib/server/tcp.ts:252-271 dial: after the connection *)
definition secure :: "net \<Rightarrow> string \<Rightarrow> bool option \<Rightarrow> int option \<Rightarrow> int \<Rightarrow> string list \<Rightarrow> string list \<Rightarrow> dial_trip" where
  "secure nt host tlsOptions dnsMs connectMs looked tried = (case tlsOptions of
      None \<Rightarrow> \<lparr>dt_outcome = Inr \<lparr>dd_dnsMs = dnsMs, dd_connectMs = connectMs, dd_tlsMs = None, dd_cert = None\<rparr>,
        dt_phase = PhaseConnect, dt_lookups = looked, dt_tried = tried\<rparr>
    | Some acceptSelfSigned \<Rightarrow> (case nt_secure nt (servername nt host) of
          TimedOut \<Rightarrow> stopped TimeoutReason PhaseTls looked tried
        | Failure e \<Rightarrow> stopped (ProbeError (''TLS handshake with '' @ host @ '' failed'' @ code_suffix (errorCode e))) PhaseTls looked tried
        | Answer (ms, hs) \<Rightarrow> (case certificateProblem (nt_addr nt) hs host acceptSelfSigned of
              Some problem \<Rightarrow> stopped problem PhaseTls looked tried
            | None \<Rightarrow> \<lparr>dt_outcome = Inr \<lparr>dd_dnsMs = dnsMs, dd_connectMs = connectMs, dd_tlsMs = Some ms,
                  dd_cert = describeCertificate hs\<rparr>,
                dt_phase = PhaseTls, dt_lookups = looked, dt_tried = tried\<rparr>)))"

(* src/src/lib/server/tcp.ts:181-272 dial *)
definition dial :: "env \<Rightarrow> net \<Rightarrow> string \<Rightarrow> int \<Rightarrow> bool option \<Rightarrow> dial_trip" where
  "dial env nt host port tlsOptions = (
     if nt_over_before nt then stopped TimeoutReason PhaseDns [] []
     else let looked = (if nt_addr nt host \<noteq> None then [] else [host]) in
       case resolveHost nt host of
         Inl e \<Rightarrow> stopped e PhaseDns looked []
       | Inr (addresses, dnsMs) \<Rightarrow>
           (case refuse_private env nt host addresses of
              Some e \<Rightarrow> stopped e PhaseDns looked []
            | None \<Rightarrow> (case nt_refused nt port of
                  Some e \<Rightarrow> stopped e PhaseConnect looked []
                | None \<Rightarrow> let tried = nt_tries nt host port addresses in
                    (case nt_connect nt host port addresses of
                       TimedOut \<Rightarrow> stopped TimeoutReason PhaseConnect looked tried
                     | Failure e \<Rightarrow> stopped (socketError host port e) PhaseConnect looked tried
                     | Answer connectMs \<Rightarrow> secure nt host tlsOptions dnsMs connectMs looked tried))))"

section \<open>What a failure says\<close>

definition is_probe_error :: "js_error \<Rightarrow> bool" where
  "is_probe_error e \<longleftrightarrow> (case e of ProbeError _ \<Rightarrow> True | BlockedTargetError _ \<Rightarrow> True | _ \<Rightarrow> False)"

(* src/src/lib/server/tcp.ts:274-285 failureMessage *)
definition failureMessage :: "js_error \<Rightarrow> bool \<Rightarrow> phase \<Rightarrow> int \<Rightarrow> string" where
  "failureMessage e aborted ph timeoutSeconds = (
     if aborted then ''Timed out after '' @ show_int timeoutSeconds @ ''s '' @ PHASE_WORDS ph
     else case e of
         ProbeError msg \<Rightarrow> msg
       | BlockedTargetError msg \<Rightarrow> msg
       | _ \<Rightarrow> ''Check failed'' @ code_suffix (errorCode e))"

(* src/src/lib/server/tcp.ts:287-296 checkerFault *)
definition checkerFault :: "js_error \<Rightarrow> bool \<Rightarrow> js_error option" where
  "checkerFault e aborted = (
     if aborted \<or> is_probe_error e then None
     else if errorCode e \<noteq> None \<and> (case e of PlatformError _ arg \<Rightarrow> \<not> arg | _ \<Rightarrow> True) then None
     else Some e)"

text \<open>
  \<open>None\<close>: the connection opened.  The timeout is in whole seconds, as the caller's is.
\<close>

(* src/src/lib/server/tcp.ts:300-319 probeTcp *)
definition probeTcp :: "env \<Rightarrow> net \<Rightarrow> string \<Rightarrow> int \<Rightarrow> int \<Rightarrow> (string \<times> js_error option) option" where
  "probeTcp env nt host port timeoutMs = (let t = dial env nt host port None in
     case dt_outcome t of
       Inr _ \<Rightarrow> None
     | Inl e \<Rightarrow> let aborted = (e = TimeoutReason \<or> nt_over_after nt) in
         Some (failureMessage e aborted (dt_phase t) (timeoutMs div 1000), checkerFault e aborted))"

text \<open>The dial as the TCP check of the runner sees it, which takes the time of the whole probe.\<close>

definition tcp_dial :: "env \<Rightarrow> net \<Rightarrow> (js_error \<Rightarrow> string) \<Rightarrow> int \<Rightarrow> string \<Rightarrow> int \<Rightarrow> int \<Rightarrow> dial_result" where
  "tcp_dial env nt text ms host port timeoutMs = (case probeTcp env nt host port timeoutMs of
      None \<Rightarrow> \<lparr>dl_error = None, dl_fault = None, dl_ms = ms\<rparr>
    | Some (msg, fault) \<Rightarrow> \<lparr>dl_error = Some msg, dl_fault = map_option text fault, dl_ms = ms\<rparr>)"

section \<open>What a dial reaches\<close>

definition public_address :: "net \<Rightarrow> string \<Rightarrow> bool" where
  "public_address nt a \<longleftrightarrow> isPrivateAddress (nt_addr nt a) = Some False"

lemma find_private_none: "find_private nt as = Inr None \<Longrightarrow> list_all (public_address nt) as"
  by (induction as) (simp_all add: public_address_def split: option.splits bool.splits)

text \<open>A peer the platform trusts, or one with a certificate of its own that is in date and made out to the host.\<close>

definition trusted_peer :: "(string \<Rightarrow> address option) \<Rightarrow> handshake \<Rightarrow> string \<Rightarrow> bool \<Rightarrow> bool" where
  "trusted_peer addr hs host acceptSelfSigned \<longleftrightarrow> hs_authorized hs \<or> acceptSelfSigned \<and>
     on_some (\<lambda>c. x_issuer c = x_subject c \<and> x_verifies_own c \<and> x_validFrom c \<le> hs_now hs \<and> hs_now hs \<le> x_validTo c \<and>
       (if addr host \<noteq> None then x_checkIP c host else x_checkHost c host)) (hs_cert hs)"

lemma accepted_peer: "certificateProblem addr hs host accept = None \<longleftrightarrow> trusted_peer addr hs host accept"
  by (cases "hs_cert hs") (auto simp: certificateProblem_def trusted_peer_def Let_def not_less)

lemma stopped_simps [simp]:
  "dt_outcome (stopped e ph looked tried) = Inl e" "dt_phase (stopped e ph looked tried) = ph"
  "dt_lookups (stopped e ph looked tried) = looked" "dt_tried (stopped e ph looked tried) = tried"
  by (simp_all add: stopped_def)

lemma secure_trip:
  "dt_lookups (secure nt host tls dnsMs ms looked tried) = looked" "dt_tried (secure nt host tls dnsMs ms looked tried) = tried"
  by (simp_all add: secure_def split: option.split waited.split)

lemma secure_peer:
  assumes "dt_outcome (secure nt host (Some accept) dnsMs ms looked tried) = Inr d"
  shows "\<exists>ms hs. nt_secure nt (servername nt host) = Answer (ms, hs) \<and> trusted_peer (nt_addr nt) hs host accept"
  using assms
  by (cases "nt_secure nt (servername nt host)") (auto simp: secure_def accepted_peer [symmetric] split: prod.splits option.splits)

lemma dial_outcome:
  assumes "dial env nt host port tls = t"
  shows "length (dt_lookups t) \<le> 1"
    "dt_tried t = [] \<or> (\<exists>addresses ms. resolveHost nt host = Inr (addresses, ms) \<and> refuse_private env nt host addresses = None \<and>
       dt_tried t = nt_tries nt host port addresses)"
    "\<And>d. dt_outcome t = Inr d \<Longrightarrow> \<exists>dnsMs ms looked tried. t = secure nt host tls dnsMs ms looked tried"
proof -
  show "length (dt_lookups t) \<le> 1"
    by (simp add: assms [symmetric] dial_def Let_def secure_trip split: sum.split option.split waited.split)
  show "dt_tried t = [] \<or> (\<exists>addresses ms. resolveHost nt host = Inr (addresses, ms) \<and> refuse_private env nt host addresses = None \<and>
       dt_tried t = nt_tries nt host port addresses)"
    by (simp add: assms [symmetric] dial_def Let_def secure_trip split: sum.split option.split waited.split)
  show "\<exists>dnsMs ms looked tried. t = secure nt host tls dnsMs ms looked tried" if inr: "dt_outcome t = Inr d" for d
  proof -
    have before: "\<not> nt_over_before nt" using inr assms by (auto simp: dial_def)
    then obtain addresses dnsMs where r: "resolveHost nt host = Inr (addresses, dnsMs)"
      using inr assms by (cases "resolveHost nt host") (auto simp: dial_def Let_def)
    have f: "refuse_private env nt host addresses = None"
      using inr assms before r by (cases "refuse_private env nt host addresses") (auto simp: dial_def Let_def)
    have g: "nt_refused nt port = None" using inr assms before r f by (cases "nt_refused nt port") (auto simp: dial_def Let_def)
    obtain ms where "nt_connect nt host port addresses = Answer ms"
      using inr assms before r f g by (cases "nt_connect nt host port addresses") (auto simp: dial_def Let_def)
    with assms before r f g show ?thesis by (auto simp: dial_def Let_def)
  qed
qed

text \<open>
  C12: A dial reaches no private address and no impostor.  With a network library that connects only to the
  addresses it is handed, and unless the operator allows it, every address a connection is tried at is a
  public one, whatever the resolver answers and however often the name changes what it stands for, for one
  lookup is made at most; and a TLS connection is handed out only if the platform trusts the peer, or the
  monitor accepts certificates that sign themselves and this one does, is in date and names the host.
\<close>

theorem dial_stays_public:
  assumes "\<And>addresses. set (nt_tries nt host port addresses) \<subseteq> set addresses" "dial env nt host port tls = t"
  shows "(\<not> privateTargetsAllowed env \<longrightarrow> list_all (public_address nt) (dt_tried t)) \<and> length (dt_lookups t) \<le> 1 \<and>
    (\<forall>d accept. dt_outcome t = Inr d \<and> tls = Some accept \<longrightarrow>
      (\<exists>ms hs. nt_secure nt (servername nt host) = Answer (ms, hs) \<and>
        trusted_peer (nt_addr nt) hs host accept))"
proof (intro conjI allI impI)
  assume forbidden: "\<not> privateTargetsAllowed env"
  from dial_outcome(2) [OF assms(2)] show "list_all (public_address nt) (dt_tried t)"
  proof (elim disjE exE conjE)
    fix addresses ms assume "refuse_private env nt host addresses = None" "dt_tried t = nt_tries nt host port addresses"
    moreover from this(1) forbidden have "list_all (public_address nt) addresses"
      by (intro find_private_none) (simp add: refuse_private_def split: sum.splits option.splits)
    ultimately show ?thesis using assms(1) [of addresses] unfolding list_all_iff by auto
  qed simp
next
  show "length (dt_lookups t) \<le> 1" by (rule dial_outcome(1) [OF assms(2)])
next
  fix d accept assume a: "dt_outcome t = Inr d \<and> tls = Some accept"
  then obtain dnsMs ms looked tried where "t = secure nt host tls dnsMs ms looked tried"
    using dial_outcome(3) [OF assms(2)] by blast
  with a secure_peer show "\<exists>ms hs. nt_secure nt (servername nt host) = Answer (ms, hs) \<and> trusted_peer (nt_addr nt) hs host accept"
    by blast
qed

text \<open>
  The checker is blamed only for its own faults: an argument check of the platform that refuses the port,
  or an answer of the resolver that is no address.  Whatever the target does has the target's message.
\<close>

lemma find_private_fault: "find_private nt as = Inl e \<Longrightarrow> e = PlatformError None True"
  by (induction as) (simp_all split: option.splits bool.splits)

lemma faults_are_own:
  assumes "probeTcp env nt host port timeoutMs = Some (msg, Some e)"
  shows "nt_refused nt port = Some e \<or> e = PlatformError None True"
proof -
  let ?t = "dial env nt host port None"
  from assms have e: "dt_outcome ?t = Inl e" "\<not> is_probe_error e" "e \<noteq> TimeoutReason"
    by (auto simp: probeTcp_def Let_def checkerFault_def split: sum.splits if_splits)
  have words: "is_probe_error (dnsError h x)" "is_probe_error (socketError h p x)" for h p x
    by (simp_all add: dnsError_def socketError_def is_probe_error_def Let_def)
  show ?thesis
    using e words unfolding dial_def Let_def resolveHost_def refuse_private_def
    by (auto simp: secure_def is_probe_error_def simp del: find_private.simps dest: find_private_fault split: if_splits sum.splits option.splits waited.splits prod.splits)
qed

section \<open>A name that turns private\<close>

definition example_net :: net where
  "example_net = \<lparr>nt_addr = (\<lambda>a. if a = ''1.1.1.1'' then Some (V4 (of_nat (octets [1, 1, 1, 1]))) else if a = ''10.0.0.1'' then Some (V4 (of_nat (octets [10, 0, 0, 1]))) else None),
     nt_lookup = (\<lambda>h. if h = ''a.b'' then Answer [''1.1.1.1''] else Answer [''1.1.1.1'', ''10.0.0.1'']), nt_lookupMs = 2,
     nt_refused = (\<lambda>p. None), nt_tries = (\<lambda>h p as. as), nt_connect = (\<lambda>h p as. Answer 5),
     nt_secure = (\<lambda>name. Answer (7, \<lparr>hs_authorized = False, hs_authorizationError = ''DEPTH_ZERO_SELF_SIGNED_CERT'',
       hs_cert = Some \<lparr>x_issuer = ''CN=a'', x_subject = ''CN=a'', x_verifies_own = True, x_validFrom = 0, x_validTo = 100,
         x_checkIP = (\<lambda>h. False), x_checkHost = (\<lambda>h. h = ''a.b'')\<rparr>,
       hs_valid_to = Some 100, hs_issuer_O = Some (Many []), hs_issuer_CN = Some (One ''a''), hs_now = 50\<rparr>)),
     nt_over_before = False, nt_over_after = False\<rparr>"

lemma example_addresses:
  "isPrivateAddress (nt_addr example_net ''1.1.1.1'') = Some False" "isPrivateAddress (nt_addr example_net ''10.0.0.1'') = Some True"
  by (simp_all add: example_net_def isPrivateAddress_def check4_def private_ranges4_def in_subnet_def octets_def)

lemma example_answers:
  "nt_addr example_net ''a.b'' = None" "nt_addr example_net ''c.d'' = None"
  "nt_lookup example_net ''a.b'' = Answer [''1.1.1.1'']" "nt_lookup example_net ''c.d'' = Answer [''1.1.1.1'', ''10.0.0.1'']"
  "\<not> nt_over_before example_net" "nt_lookupMs example_net = 2" "nt_refused example_net p = None"
  "nt_tries example_net h p as = as" "nt_connect example_net h p as = Answer 5" "\<not> nt_over_after example_net"
  by (simp_all add: example_net_def)

lemma example_dials:
  "dt_tried (dial (\<lambda>_. None) example_net ''a.b'' 443 (Some True)) = [''1.1.1.1'']"
  "dt_outcome (dial (\<lambda>_. None) example_net ''a.b'' 443 (Some True)) =
     Inr \<lparr>dd_dnsMs = Some 2, dd_connectMs = 5, dd_tlsMs = Some 7, dd_cert = Some (100, Some ''a'')\<rparr>"
  "dt_outcome (dial (\<lambda>_. None) example_net ''a.b'' 443 (Some False)) = Inl (ProbeError ''TLS certificate is self-signed and not trusted'')"
  "probeTcp (\<lambda>_. None) example_net ''c.d'' 80 1000 = Some (''Blocked: c.d resolves to a private address'', None)"
  by (simp_all add: dial_def probeTcp_def resolveHost_def refuse_private_def privateTargetsAllowed_def example_addresses example_answers Let_def
      secure_def servername_def failureMessage_def checkerFault_def is_probe_error_def)
    (simp_all add: example_net_def certificateProblem_def certificateError_def describeCertificate_def firstValue_def)

lemma dial_stays_public_witness:
  "list_all (public_address example_net) (dt_tried (dial (\<lambda>_. None) example_net ''a.b'' 443 (Some True))) \<and>
   dt_tried (dial (\<lambda>_. None) example_net ''a.b'' 443 (Some True)) = [''1.1.1.1'']"
proof -
  have tries: "set (nt_tries example_net ''a.b'' 443 addresses) \<subseteq> set addresses" for addresses
    by (simp add: example_net_def)
  have "\<not> privateTargetsAllowed (\<lambda>_. None)" by (simp add: privateTargetsAllowed_def)
  with dial_stays_public [OF tries refl, of "\<lambda>_. None" "Some True"] example_dials(1) show ?thesis by blast
qed

end
