(* ===== verification/Messages.thy ===== *)
theory Messages
  imports Delivery Dial Formats
begin

text \<open>
  What the providers of a channel send and what they make of the answer: the content of a message
  (\<open>notifications/message.ts\<close>), its form for Slack and Discord (\<open>slack.ts\<close>, \<open>discord.ts\<close>), the body of a
  webhook with its template (\<open>webhook.ts\<close>), and the request (\<open>http.ts\<close>).

  The sign a title opens with is an emoji, which a character of HOL cannot be; it is a parameter.  So
  are the reading of a JSON text, the answer to a request and the sending of an email.
\<close>

section \<open>Content\<close>

(* src/src/lib/server/notifications/message.ts:5-13 NotificationMessage *)
record notification_message =
  ms_title :: string
  ms_color :: nat
  ms_fields :: "(string \<times> string) list"
  ms_details :: "(string \<times> string) list"

(* src/src/lib/server/notifications/message.ts:15-15 RED *)
definition RED :: nat where
  "RED = 0xdc2626"
(* src/src/lib/server/notifications/message.ts:16-16 GREEN *)
definition GREEN :: nat where
  "GREEN = 0x16a34a"
(* src/src/lib/server/notifications/message.ts:17-17 YELLOW *)
definition YELLOW :: nat where
  "YELLOW = 0xeab308"
(* src/src/lib/server/notifications/message.ts:18-18 ORANGE *)
definition ORANGE :: nat where
  "ORANGE = 0xf97316"
(* src/src/lib/server/notifications/message.ts:19-19 AMBER *)
definition AMBER :: nat where
  "AMBER = 0xf59e0b"
(* src/src/lib/server/notifications/message.ts:20-20 GRAY *)
definition GRAY :: nat where
  "GRAY = 0xa1a1a1"

definition impact_word :: "incident_impact \<Rightarrow> string" where
  "impact_word i = (case i of NoImpact \<Rightarrow> ''none'' | Minor \<Rightarrow> ''minor'' | Major \<Rightarrow> ''major'' | Critical \<Rightarrow> ''critical'')"

(* src/src/lib/server/notifications/message.ts:22-22 inMinutes *)
definition inMinutes :: "int \<Rightarrow> string" where
  "inMinutes n = show_int n @ '' '' @ (if n = 1 then ''minute'' else ''minutes'')"

(* src/src/lib/server/notifications/message.ts:24-28 lateNotice *)
definition lateNotice :: "late_delivery \<Rightarrow> string" where
  "lateNotice l = (let delay = ''This message is '' @ inMinutes (ld_minutes l) @
       '' late because earlier delivery attempts failed.'' in
     case given (ld_now l) of
       None \<Rightarrow> delay
     | Some s \<Rightarrow> delay @ '' It describes an earlier state: the status is now '' @ s @ ''.'')"

definition apostrophe :: string where
  "apostrophe = [char_of (39 :: nat)]"

text \<open>A text that is missing or empty.\<close>

definition on_given :: "('a \<Rightarrow> string) \<Rightarrow> 'a option \<Rightarrow> string option" where
  "on_given f x = given (map_option f x)"

definition minutes_up :: "int \<Rightarrow> int" where
  "minutes_up s = - ((- s) div 60)"

text \<open>The message of an event on time.\<close>

(* src/src/lib/server/notifications/message.ts:30-123 describeNotification: messages *)
definition prompt_message :: "(notificationType \<Rightarrow> string) \<Rightarrow> notification_payload \<Rightarrow> notification_message" where
  "prompt_message sign p = (
     let name = coalesce (on_given nm_name (np_monitor p)) ''Unknown Monitor'';
         incident = (case np_incident p of None \<Rightarrow> ''Unknown Incident'' | Some i \<Rightarrow> i_title i);
         impact = (case np_incident p of None \<Rightarrow> ''Unknown'' | Some i \<Rightarrow> impact_word (i_impact i));
         incident_status = (\<lambda>other. case np_incident p of None \<Rightarrow> other | Some i \<Rightarrow> incident_word (i_status i));
         url = (case Option.bind (np_monitor p) (\<lambda>m. given (nm_url m)) of None \<Rightarrow> [] | Some u \<Rightarrow> [(''URL'', u)]);
         (settleSeconds, reminderSeconds) = coalesce (np_flap p) (0, 0);
         settle = inMinutes (minutes_up settleSeconds); reminder = inMinutes (minutes_up reminderSeconds);
         message = (\<lambda>title color fields details. \<lparr>ms_title = sign (np_type p) @ '' '' @ title, ms_color = color,
           ms_fields = fields, ms_details = details\<rparr>) in
     case np_type p of
       Monitor_down \<Rightarrow> message (''Monitor Down: '' @ name) RED [(''Status'', ''Down'')]
         ((case given (np_errorMessage p) of None \<Rightarrow> [] | Some err \<Rightarrow> [(''Error'', err)]) @ url)
     | Monitor_up \<Rightarrow> message (''Monitor Recovered: '' @ name) GREEN
         [(''Status'', ''Recovered''), (''Previous Status'', case np_previousStatus p of None \<Rightarrow> ''Down'' | Some s \<Rightarrow> status_word s)] url
     | Monitor_degraded \<Rightarrow> message (''Monitor Degraded: '' @ name) YELLOW [(''Status'', ''Degraded (high response time)'')] url
     | Monitor_checks_stopped \<Rightarrow> message (''Monitor Not Being Checked: '' @ name) GRAY [(''Status'', ''Not being checked'')]
         ([(''Reason'', ''Uppity failed to run this monitor'' @ apostrophe @ ''s checks. It keeps retrying and will tell you when checks resume. The status shown until then is not current.'')] @ url)
     | Monitor_checks_resumed \<Rightarrow> message (''Monitor Checks Resumed: '' @ name) GREEN [(''Status'', ''Being checked again'')] url
     | Monitor_flapping \<Rightarrow> message (''Monitor Flapping: '' @ name) ORANGE
         [(''Status'', ''Flapping''), (''Last Check'', case np_status p of None \<Rightarrow> ''Unknown'' | Some s \<Rightarrow> status_word (s_status s))]
         ([(''Reason'', ''This monitor keeps going down and recovering, so its status alerts are on hold. You get one alert when it stays down for '' @
           settle @ '' or goes '' @ settle @ '' without going down, and a reminder every '' @ reminder @ '' until then.'')] @ url)
     | Ssl_expiry_warning \<Rightarrow> message (''SSL Certificate Expiring: '' @ name) ORANGE
         [(''Days Remaining'', case np_sslDaysRemaining p of None \<Rightarrow> ''undefined'' | Some n \<Rightarrow> show_int n)] url
     | Incident_created \<Rightarrow> message (''Incident Created: '' @ incident) RED
         [(''Impact'', impact), (''Status'', incident_status ''Investigating'')] []
     | Incident_updated \<Rightarrow> message (''Incident Update: '' @ incident) AMBER
         [(''Status'', incident_status ''Unknown''), (''Impact'', impact)]
         (case given (np_updateMessage p) of None \<Rightarrow> [] | Some u \<Rightarrow> [(''Update'', u)])
     | Incident_resolved \<Rightarrow> message (''Incident Resolved: '' @ incident) GREEN [] [])"

(* src/src/lib/server/notifications/message.ts:125-134 describeNotification: late *)
definition describeNotification :: "(notificationType \<Rightarrow> string) \<Rightarrow> notification_payload \<Rightarrow> notification_message" where
  "describeNotification sign p = (let message = prompt_message sign p in
     case np_late p of
       None \<Rightarrow> message
     | Some l \<Rightarrow> \<lparr>ms_title = ''Delayed'' @ (case given (ld_now l) of None \<Rightarrow> [] | Some s \<Rightarrow> '', now '' @ s) @ '': '' @ ms_title message,
         ms_color = (if given (ld_now l) \<noteq> None then GRAY else ms_color message),
         ms_fields = ms_fields message, ms_details = (''Delivery'', lateNotice l) # ms_details message\<rparr>)"

section \<open>The request\<close>

(* src/src/lib/server/notifications/http.ts:6-6 CONNECT_TIMEOUT_MS *)
definition CONNECT_TIMEOUT_MS :: int where
  "CONNECT_TIMEOUT_MS = 10000"

(* src/src/lib/server/notifications/http.ts:7-8 DELIVERY_TIMEOUT_MS *)
definition DELIVERY_TIMEOUT_MS :: int where
  "DELIVERY_TIMEOUT_MS = 30000"

(* src/src/lib/server/notifications/http.ts:9-9 ERROR_BODY_MAX_BYTES *)
definition ERROR_BODY_MAX_BYTES :: nat where
  "ERROR_BODY_MAX_BYTES = 512"

text \<open>Every connection of a delivery, each hop of a redirect included.\<close>

(* src/src/lib/server/notifications/http.ts:11-40 connect *)
definition delivery_connect :: "env \<Rightarrow> net \<Rightarrow> string \<Rightarrow> int option \<Rightarrow> bool \<Rightarrow> dial_trip" where
  "delivery_connect env nt hostname port https =
     dial env nt hostname (number_or port (if https then 443 else 80)) (if https then Some False else None)"

record post =
  po_url :: string
  po_method :: string
  po_headers :: "string \<Rightarrow> string option"
  po_body :: json

text \<open>What comes back: a status and the body, an error with its message and its cause, or a thrown value that is no error.\<close>

datatype fetched =
    Response int string
  | FetchError string "js_error option"
  | NoError

(* src/src/lib/server/notifications/http.ts:42-44 isTransientStatus *)
definition isTransientStatus :: "int \<Rightarrow> bool" where
  "isTransientStatus status \<longleftrightarrow> status \<ge> 500 \<or> status = 408 \<or> status = 425 \<or> status = 429"

(* src/src/lib/server/notifications/http.ts:46-54 failure *)
definition delivery_failure :: "string \<Rightarrow> fetched \<Rightarrow> notification_result" where
  "delivery_failure label f = (case f of
      FetchError msg (Some (ProbeError m)) \<Rightarrow> \<lparr>nr_success = False, nr_errorMessage = Some m, nr_transient = True, nr_mailServerDown = False\<rparr>
    | FetchError msg (Some (BlockedTargetError m)) \<Rightarrow> \<lparr>nr_success = False, nr_errorMessage = Some m, nr_transient = False, nr_mailServerDown = False\<rparr>
    | FetchError msg _ \<Rightarrow> \<lparr>nr_success = False, nr_errorMessage = Some msg, nr_transient = True, nr_mailServerDown = False\<rparr>
    | _ \<Rightarrow> \<lparr>nr_success = False, nr_errorMessage = Some (''Failed to send '' @ label @ '' notification''), nr_transient = True,
        nr_mailServerDown = False\<rparr>)"

(* src/src/lib/server/notifications/http.ts:69-100 postJson *)
definition postJson ::
  "(post \<Rightarrow> fetched) \<Rightarrow> string \<Rightarrow> json \<Rightarrow> string \<Rightarrow> string option \<Rightarrow> (string \<times> string) list \<Rightarrow> notification_result" where
  "postJson fetch url body label meth headers = (
     case fetch \<lparr>po_url = url, po_method = coalesce (given meth) ''POST'',
         po_headers = [''Content-Type'' \<mapsto> ''application/json''] ++ map_of (rev headers), po_body = body\<rparr> of
       Response status text \<Rightarrow>
         if 200 \<le> status \<and> status \<le> 299 then \<lparr>nr_success = True, nr_errorMessage = None, nr_transient = False, nr_mailServerDown = False\<rparr>
         else \<lparr>nr_success = False, nr_errorMessage = Some (label @ '' error: '' @ show_int status @ '' - '' @ take ERROR_BODY_MAX_BYTES text),
           nr_transient = isTransientStatus status, nr_mailServerDown = False\<rparr>
     | other \<Rightarrow> delivery_failure label other)"

section \<open>Slack and Discord\<close>

text \<open>The digits of a number to the base of sixteen.\<close>

definition hex_digit :: "nat \<Rightarrow> char" where
  "hex_digit n = char_of (if n < 10 then 48 + n else 87 + n)"

fun show_hex :: "nat \<Rightarrow> string" where
  "show_hex n = (if n < 16 then [hex_digit n] else show_hex (n div 16) @ [hex_digit (n mod 16)])"

declare show_hex.simps [simp del]

definition color_text :: "nat \<Rightarrow> string" where
  "color_text c = (let h = show_hex c in CHR ''#'' # replicate (6 - length h) CHR ''0'' @ h)"

(* src/src/lib/server/notifications/slack.ts:6-7 mrkdwn *)
definition mrkdwn :: "string \<Rightarrow> nat \<Rightarrow> json" where
  "mrkdwn text limit = JObj [(''type'', JStr ''mrkdwn''), (''text'', JStr (truncateText text limit))]"

definition slack_time :: "time \<Rightarrow> string" where
  "slack_time t = ''<!date^'' @ show_int (t div 1000) @ ''^{date_short_pretty} {time}|'' @ formatUtcDateTime (Some t) @ ''>''"

(* src/src/lib/server/notifications/slack.ts:17-29 sendSlack: blocks *)
definition slack_blocks :: "notification_message \<Rightarrow> time \<Rightarrow> json list" where
  "slack_blocks m t =
     [JObj [(''type'', JStr ''header''),
        (''text'', JObj [(''type'', JStr ''plain_text''), (''text'', JStr (truncateText (ms_title m) 150)), (''emoji'', JBool True)])],
      JObj [(''type'', JStr ''section''),
        (''fields'', JArr (map (\<lambda>(label, v). mrkdwn (''*'' @ label @ '':*'' @ newline @ v) 2000) (ms_fields m @ [(''Time'', slack_time t)])))]] @
     map (\<lambda>(label, v). JObj [(''type'', JStr ''section''), (''text'', mrkdwn (''*'' @ label @ '':* '' @ v) 3000)]) (ms_details m)"

(* src/src/lib/server/notifications/slack.ts:9-39 sendSlack *)
definition sendSlack ::
  "(notificationType \<Rightarrow> string) \<Rightarrow> (post \<Rightarrow> fetched) \<Rightarrow> string \<Rightarrow> string option \<Rightarrow> notification_payload \<Rightarrow> notification_result" where
  "sendSlack sign fetch webhookUrl channel p = (let m = describeNotification sign p in
     postJson fetch webhookUrl (JObj (
       (case channel of None \<Rightarrow> [] | Some c \<Rightarrow> [(''channel'', JStr c)]) @
       [(''attachments'', JArr [JObj [(''color'', JStr (color_text (ms_color m))),
          (''blocks'', JArr (slack_blocks m (np_timestamp p)))]])])) ''Slack API'' None [])"

(* src/src/lib/server/notifications/discord.ts:6-11 field *)
definition discord_field :: "string \<Rightarrow> string \<Rightarrow> bool \<Rightarrow> json" where
  "discord_field name v inline = JObj [(''name'', JStr (truncateText name 256)), (''value'', JStr (truncateText v 1024)),
     (''inline'', JBool inline)]"

(* src/src/lib/server/notifications/discord.ts:19-28 sendDiscord: embed *)
definition discord_embed :: "notification_message \<Rightarrow> time \<Rightarrow> json" where
  "discord_embed m t = JObj [(''title'', JStr (truncateText (ms_title m) 256)), (''color'', JNum (int (ms_color m))),
     (''fields'', JArr (map (\<lambda>(name, v). discord_field name v True) (ms_fields m) @
        [discord_field ''Time'' (formatUtcDateTime (Some t)) True] @
        map (\<lambda>(name, v). discord_field name v False) (ms_details m))),
     (''timestamp'', JStr (toISOString t))]"

(* src/src/lib/server/notifications/discord.ts:13-31 sendDiscord *)
definition sendDiscord ::
  "(notificationType \<Rightarrow> string) \<Rightarrow> (post \<Rightarrow> fetched) \<Rightarrow> string \<Rightarrow> notification_payload \<Rightarrow> notification_result" where
  "sendDiscord sign fetch url p = postJson fetch url
     (JObj [(''embeds'', JArr [discord_embed (describeNotification sign p) (np_timestamp p)])]) ''Discord API'' None []"

section \<open>Webhooks\<close>

text \<open>The words of an event type and of a monitor type.\<close>

definition notification_word :: "notificationType \<Rightarrow> string" where
  "notification_word t = (case t of Monitor_down \<Rightarrow> ''monitor_down'' | Monitor_up \<Rightarrow> ''monitor_up''
     | Monitor_degraded \<Rightarrow> ''monitor_degraded'' | Monitor_checks_stopped \<Rightarrow> ''monitor_checks_stopped''
     | Monitor_checks_resumed \<Rightarrow> ''monitor_checks_resumed'' | Monitor_flapping \<Rightarrow> ''monitor_flapping''
     | Incident_created \<Rightarrow> ''incident_created'' | Incident_updated \<Rightarrow> ''incident_updated''
     | Incident_resolved \<Rightarrow> ''incident_resolved'' | Ssl_expiry_warning \<Rightarrow> ''ssl_expiry_warning'')"

definition monitor_word :: "monitor_type \<Rightarrow> string" where
  "monitor_word t = (case t of HttpMonitor \<Rightarrow> ''http'' | TcpMonitor \<Rightarrow> ''tcp'' | PushMonitor \<Rightarrow> ''push'' | OtherMonitor s \<Rightarrow> s)"

definition json_or_null :: "('a \<Rightarrow> json) \<Rightarrow> 'a option \<Rightarrow> json" where
  "json_or_null f x = (case x of None \<Rightarrow> JNull | Some y \<Rightarrow> f y)"

text \<open>A key whose value is missing is left out of the text.\<close>

definition entry :: "string \<Rightarrow> ('a \<Rightarrow> json) \<Rightarrow> 'a option \<Rightarrow> (string \<times> json) list" where
  "entry k f x = (case x of None \<Rightarrow> [] | Some y \<Rightarrow> [(k, f y)])"

(* src/src/lib/server/notifications/webhook.ts:27-59 formatBody: default body *)
definition default_body :: "notification_payload \<Rightarrow> json" where
  "default_body p = JObj (
     [(''type'', JStr (notification_word (np_type p))), (''timestamp'', JStr (toISOString (np_timestamp p))),
      (''monitor'', json_or_null (\<lambda>m. JObj [(''id'', JStr (nm_id m)), (''name'', JStr (nm_name m)), (''type'', JStr (monitor_word (nm_type m))),
         (''url'', json_or_null JStr (nm_url m)), (''hostname'', json_or_null JStr (nm_hostname m)), (''port'', json_or_null JNum (nm_port m))])
        (np_monitor p)),
      (''status'', json_or_null (\<lambda>s. JObj [(''status'', JStr (status_word (s_status s))),
         (''lastCheckAt'', json_or_null (\<lambda>t. JStr (toISOString t)) (s_lastCheckAt s)),
         (''consecutiveFailures'', JNum (s_consecutiveFailures s))]) (np_status p)),
      (''incident'', json_or_null (\<lambda>i. JObj [(''id'', JStr (i_id i)), (''title'', JStr (i_title i)),
         (''status'', JStr (incident_word (i_status i))), (''impact'', JStr (impact_word (i_impact i)))]) (np_incident p))] @
     entry ''previousStatus'' (\<lambda>s. JStr (status_word s)) (np_previousStatus p) @
     entry ''errorMessage'' JStr (np_errorMessage p) @ entry ''updateMessage'' JStr (np_updateMessage p) @
     entry ''sslDaysRemaining'' JNum (np_sslDaysRemaining p))"

(* src/src/lib/server/notifications/webhook.ts:62-78 templateVars *)
definition templateVars :: "notification_payload \<Rightarrow> (string \<times> string) list" where
  "templateVars p = (let text = (\<lambda>x. coalesce x []) in
     [(''monitor.name'', text (map_option nm_name (np_monitor p))),
      (''monitor.url'', text (Option.bind (np_monitor p) nm_url)),
      (''monitor.id'', text (map_option nm_id (np_monitor p))),
      (''type'', notification_word (np_type p)),
      (''status'', text (map_option (\<lambda>s. status_word (s_status s)) (np_status p))),
      (''timestamp'', toISOString (np_timestamp p)),
      (''errorMessage'', text (np_errorMessage p)),
      (''updateMessage'', text (np_updateMessage p)),
      (''previousStatus'', text (map_option status_word (np_previousStatus p))),
      (''sslDaysRemaining'', case np_sslDaysRemaining p of None \<Rightarrow> [] | Some n \<Rightarrow> if n = 0 then [] else show_int n),
      (''incident.title'', text (map_option i_title (np_incident p))),
      (''incident.status'', text (map_option (\<lambda>i. incident_word (i_status i)) (np_incident p))),
      (''incident.impact'', text (map_option (\<lambda>i. impact_word (i_impact i)) (np_incident p)))])"

definition name_char :: "char \<Rightarrow> bool" where
  "name_char c \<longleftrightarrow> (let n = of_char c :: nat in 97 \<le> n \<and> n \<le> 122 \<or> 65 \<le> n \<and> n \<le> 90) \<or> is_digit c \<or> c \<in> set ''_.''"

text \<open>A name in double braces at the front of a text, and what follows it.\<close>

definition placeholder :: "string \<Rightarrow> (string \<times> string) option" where
  "placeholder s = (let name = takeWhile name_char (drop 2 s); rest = dropWhile name_char (drop 2 s) in
     if take 2 s = ''{{'' \<and> name \<noteq> [] \<and> take 2 rest = ''}}'' then Some (name, drop 2 rest) else None)"

lemma placeholder_shorter: "placeholder s = Some (name, rest) \<Longrightarrow> length rest < length s"
proof -
  assume "placeholder s = Some (name, rest)"
  then have "take 2 s = ''{{''" "rest = drop 2 (dropWhile name_char (drop 2 s))"
    by (simp_all add: placeholder_def Let_def split: if_splits)
  then show ?thesis using length_dropWhile_le [of name_char "drop 2 s"] by (cases s) (auto simp: less_Suc_eq_le)
qed

function fill :: "(string \<times> string) list \<Rightarrow> string \<Rightarrow> string" where
  "fill vars [] = []"
| "fill vars (c # s) = (case placeholder (c # s) of
      None \<Rightarrow> c # fill vars s
    | Some (name, rest) \<Rightarrow> (case map_of vars name of
          None \<Rightarrow> take (length (c # s) - length rest) (c # s)
        | Some v \<Rightarrow> v) @ fill vars rest)"
  by pat_completeness auto
termination by (relation "measure (\<lambda>(vars, s). length s)") (auto dest: placeholder_shorter)

text \<open>The strings of a JSON value, not its keys.\<close>

(* src/src/lib/server/notifications/webhook.ts:80-96 interpolate *)
fun interpolate :: "json \<Rightarrow> (string \<times> string) list \<Rightarrow> json" where
  "interpolate (JStr s) vars = JStr (fill vars s)"
| "interpolate (JArr xs) vars = JArr (map (\<lambda>x. interpolate x vars) xs)"
| "interpolate (JObj es) vars = JObj (map (\<lambda>(k, v). (k, interpolate v vars)) es)"
| "interpolate JNull vars = JNull"
| "interpolate (JBool b) vars = JBool b"
| "interpolate (JNum n) vars = JNum n"

(* src/src/lib/server/notifications/webhook.ts:18-25 formatBody: template *)
definition formatBody :: "(string \<Rightarrow> json option) \<Rightarrow> channel_config \<Rightarrow> notification_payload \<Rightarrow> json" where
  "formatBody parse g p = (case Option.bind (given (cfg_bodyTemplate g)) parse of
      Some template \<Rightarrow> interpolate template (templateVars p)
    | None \<Rightarrow> default_body p)"

(* src/src/lib/server/notifications/webhook.ts:11-16 sendWebhook *)
definition sendWebhook ::
  "(string \<Rightarrow> json option) \<Rightarrow> (post \<Rightarrow> fetched) \<Rightarrow> string \<Rightarrow> channel_config \<Rightarrow> notification_payload \<Rightarrow> notification_result" where
  "sendWebhook parse fetch url g p =
     postJson fetch url (formatBody parse g p) ''Webhook'' (cfg_method g) (coalesce (cfg_headers g) [])"

text \<open>The providers as the dispatch knows them; an email is sent by the mail guard, a parameter here.\<close>

definition provider ::
  "(notificationType \<Rightarrow> string) \<Rightarrow> (string \<Rightarrow> json option) \<Rightarrow> (post \<Rightarrow> fetched) \<Rightarrow>
   (string \<Rightarrow> string \<Rightarrow> notification_payload \<Rightarrow> notification_result) \<Rightarrow> destination \<Rightarrow> notification_payload \<Rightarrow> string + notification_result" where
  "provider sign parse fetch mail dest p = Inr (case dest of
      ToEmail email token \<Rightarrow> mail email token p
    | ToSlack url channel \<Rightarrow> sendSlack sign fetch url channel p
    | ToDiscord url \<Rightarrow> sendDiscord sign fetch url p
    | ToWebhook url g \<Rightarrow> sendWebhook parse fetch url g p)"

section \<open>Within the limits\<close>

text \<open>A text with between one and so many characters.\<close>

definition fits :: "nat \<Rightarrow> json \<Rightarrow> bool" where
  "fits n j \<longleftrightarrow> (case j of JStr s \<Rightarrow> s \<noteq> [] \<and> length s \<le> n | _ \<Rightarrow> False)"

definition part :: "string \<Rightarrow> json \<Rightarrow> json option" where
  "part k j = (case j of JObj es \<Rightarrow> map_of es k | _ \<Rightarrow> None)"

definition items :: "json option \<Rightarrow> json list" where
  "items j = (case j of Some (JArr xs) \<Rightarrow> xs | _ \<Rightarrow> [])"

text \<open>What Discord takes as an embed: a title of 256 and 25 fields with names of 256 and values of 1024.\<close>

definition discord_takes :: "json \<Rightarrow> bool" where
  "discord_takes e \<longleftrightarrow> on_some (fits 256) (part ''title'' e) \<and> length (items (part ''fields'' e)) \<le> 25 \<and>
     list_all (\<lambda>f. on_some (fits 256) (part ''name'' f) \<and> on_some (fits 1024) (part ''value'' f)) (items (part ''fields'' e))"

text \<open>
  What Slack takes as blocks: 50 of them, a header of 150, a section with a text of 3000 or at most ten
  fields of 2000.
\<close>

definition slack_block_ok :: "json \<Rightarrow> bool" where
  "slack_block_ok b \<longleftrightarrow>
     part ''type'' b = Some (JStr ''header'') \<and> on_some (\<lambda>t. on_some (fits 150) (part ''text'' t)) (part ''text'' b) \<or>
     part ''type'' b = Some (JStr ''section'') \<and>
       (on_some (\<lambda>t. on_some (fits 3000) (part ''text'' t)) (part ''text'' b) \<or>
        items (part ''fields'' b) \<noteq> [] \<and> length (items (part ''fields'' b)) \<le> 10 \<and>
        list_all (\<lambda>t. on_some (fits 2000) (part ''text'' t)) (items (part ''fields'' b)))"

definition slack_takes :: "json list \<Rightarrow> bool" where
  "slack_takes bs \<longleftrightarrow> length bs \<le> 50 \<and> list_all slack_block_ok bs"

lemma fits_truncated: "4 \<le> n \<Longrightarrow> s \<noteq> [] \<Longrightarrow> fits n (JStr (truncateText s n))"
  using truncateText_length [of n s] by (auto simp: fits_def truncateText_def)

lemma given_some [simp]: "given x = Some s \<Longrightarrow> s \<noteq> []"
  by (simp add: given_def split: option.splits if_splits)

lemma bind_given [simp]: "Option.bind x (\<lambda>y. given (f y)) = Some s \<Longrightarrow> s \<noteq> []"
  by (cases x) simp_all

lemma words_given:
  "status_word st \<noteq> []" "impact_word im \<noteq> []" "incident_word inc \<noteq> []" "show_int k \<noteq> []"
proof -
  have "show_nat m \<noteq> []" for m by (subst show_nat.simps) simp
  then show "show_int k \<noteq> []" by (simp add: show_int_def)
qed (simp_all add: status_word_def impact_word_def incident_word_def split: status.split incident_impact.split incident_status.split)

text \<open>A message has a title, at most two fields and at most three details, all with a label and a value.\<close>

definition pairs_given :: "(string \<times> string) list \<Rightarrow> bool" where
  "pairs_given ps \<longleftrightarrow> list_all (\<lambda>(label, v). label \<noteq> [] \<and> v \<noteq> []) ps"

definition message_ok :: "nat \<Rightarrow> notification_message \<Rightarrow> bool" where
  "message_ok n m \<longleftrightarrow> ms_title m \<noteq> [] \<and> length (ms_fields m) \<le> 2 \<and> length (ms_details m) \<le> n \<and>
     pairs_given (ms_fields m) \<and> pairs_given (ms_details m)"

lemma prompt_message_ok: "message_ok 2 (prompt_message sign p)"
  by (simp add: prompt_message_def message_ok_def pairs_given_def Let_def split_beta words_given split: notificationType.split option.split)

lemma message_described: "message_ok 3 (describeNotification sign p)"
proof (cases "np_late p")
  case None
  with prompt_message_ok [of sign p] show ?thesis by (simp add: describeNotification_def message_ok_def)
next
  case (Some l)
  with prompt_message_ok [of sign p] show ?thesis
    by (simp add: describeNotification_def message_ok_def pairs_given_def Let_def lateNotice_def split: option.split)
qed

text \<open>
  C0: No message is lost for its length.  Whatever a monitor, an incident or an error says, the embed sent
  to Discord and the blocks sent to Slack stay within the limits past which the whole message is refused,
  and no title, name or value in them is empty.
\<close>

theorem messages_fit:
  "discord_takes (discord_embed (describeNotification sign p) t) \<and> slack_takes (slack_blocks (describeNotification sign p) t)"
proof -
  let ?m = "describeNotification sign p"
  have m: "ms_title ?m \<noteq> []" "length (ms_fields ?m) \<le> 2" "length (ms_details ?m) \<le> 3"
    "pairs_given (ms_fields ?m)" "pairs_given (ms_details ?m)"
    using message_described [of sign p] by (simp_all add: message_ok_def)
  have time: "formatUtcDateTime (Some t) \<noteq> []" by (simp add: formatUtcDateTime_def Let_def split_beta words_given)
  have field: "on_some (fits 256) (part ''name'' (discord_field k v b)) \<and> on_some (fits 1024) (part ''value'' (discord_field k v b))"
    if "k \<noteq> []" "v \<noteq> []" for k v b using that by (simp add: discord_field_def part_def fits_truncated)
  have "discord_takes (discord_embed ?m t)"
    using m time field unfolding discord_takes_def discord_embed_def pairs_given_def
    by (auto simp: part_def items_def fits_truncated list_all_iff split_beta)
  moreover have "on_some (fits n) (part ''text'' (mrkdwn x n))" if "x \<noteq> []" "4 \<le> n" for x n
    using that by (simp add: mrkdwn_def part_def fits_truncated)
  then have "slack_takes (slack_blocks ?m t)"
    using m unfolding slack_takes_def slack_blocks_def slack_block_ok_def
    by (auto simp: part_def items_def fits_truncated list_all_iff split_beta)
  ultimately show ?thesis ..
qed

section \<open>Templates\<close>

text \<open>A JSON value without its texts.\<close>

fun skeleton :: "json \<Rightarrow> json" where
  "skeleton (JStr s) = JStr []"
| "skeleton (JArr xs) = JArr (map skeleton xs)"
| "skeleton (JObj es) = JObj (map (\<lambda>(k, v). (k, skeleton v)) es)"
| "skeleton j = j"

lemma interpolate_skeleton: "skeleton (interpolate j vars) = skeleton j"
  by (induction j vars rule: interpolate.induct) (auto simp: comp_def)

definition brace :: char where
  "brace = CHR ''{''"

lemma placeholder_first: "c \<noteq> brace \<Longrightarrow> placeholder (c # s) = None"
  by (cases s) (simp_all add: placeholder_def brace_def Let_def)

lemma fill_plain: "brace \<notin> set lit \<Longrightarrow> fill vars (lit @ s) = lit @ fill vars s"
  by (induction lit) (auto simp: placeholder_first)

lemma fill_name:
  assumes "name \<noteq> []" "list_all name_char name"
  shows "fill vars (''{{'' @ name @ ''}}'' @ s) =
    (case map_of vars name of None \<Rightarrow> ''{{'' @ name @ ''}}'' | Some v \<Rightarrow> v) @ fill vars s"
proof -
  have stop: "\<not> name_char CHR ''}''" by code_simp
  have "takeWhile name_char (name @ ''}}'' @ s) = name" "dropWhile name_char (name @ ''}}'' @ s) = ''}}'' @ s"
    using assms(2) stop by (simp_all add: takeWhile_append dropWhile_append list_all_iff)
  then have "placeholder (''{{'' @ name @ ''}}'' @ s) = Some (name, s)"
    using assms(1) by (simp add: placeholder_def Let_def)
  then show ?thesis by (simp add: numeral_eq_Suc split: option.split)
qed

text \<open>
  C30: What a monitor is called cannot rewrite a webhook.  A body made from a template has the template's
  structure and keys, whatever the names, addresses and error texts of the event are; and in every text of
  it a name in braces is replaced by its value as it is, an unknown name stays as written, and nothing that
  was put in is read as a template again.
\<close>

theorem template_keeps_shape:
  assumes "given (cfg_bodyTemplate g) = Some text" "parse text = Some template"
    "brace \<notin> set lit" "name \<noteq> []" "list_all name_char name"
  shows "skeleton (formatBody parse g p) = skeleton template \<and>
    fill (templateVars p) (lit @ ''{{'' @ name @ ''}}'' @ s) =
      lit @ (case map_of (templateVars p) name of None \<Rightarrow> ''{{'' @ name @ ''}}'' | Some v \<Rightarrow> v) @ fill (templateVars p) s"
proof
  show "skeleton (formatBody parse g p) = skeleton template"
    using assms(1,2) by (simp add: formatBody_def interpolate_skeleton)
  show "fill (templateVars p) (lit @ ''{{'' @ name @ ''}}'' @ s) =
      lit @ (case map_of (templateVars p) name of None \<Rightarrow> ''{{'' @ name @ ''}}'' | Some v \<Rightarrow> v) @ fill (templateVars p) s"
    unfolding fill_plain [OF assms(3)] fill_name [OF assms(4,5)] ..
qed

section \<open>What is sent again\<close>

text \<open>
  A request that fails is worth sending again unless the answer or the address says it never will be taken;
  a target the dial refused is not.
\<close>

lemma sent_again_iff:
  "nr_transient (postJson fetch url body label meth headers) \<longleftrightarrow>
     (case fetch \<lparr>po_url = url, po_method = coalesce (given meth) ''POST'',
         po_headers = [''Content-Type'' \<mapsto> ''application/json''] ++ map_of (rev headers), po_body = body\<rparr> of
       Response status text \<Rightarrow> isTransientStatus status
     | FetchError msg (Some (BlockedTargetError m)) \<Rightarrow> False
     | _ \<Rightarrow> True)"
  by (simp add: postJson_def delivery_failure_def isTransientStatus_def split: fetched.split option.split js_error.split)

section \<open>A name with braces\<close>

definition example_hook_config :: channel_config where
  "example_hook_config = \<lparr>cfg_email = None, cfg_webhookUrl = None, cfg_channel = None, cfg_discordWebhookUrl = None,
     cfg_url = Some ''https://a.b'', cfg_method = None, cfg_headers = None, cfg_bodyTemplate = Some ''template''\<rparr>"

definition example_named :: notification_payload where
  "example_named = example_payload\<lparr>np_monitor := Some \<lparr>nm_id = ''m'', nm_name = ''{{type}}'', nm_type = HttpMonitor,
     nm_url = None, nm_hostname = None, nm_port = None\<rparr>\<rparr>"

definition example_template :: json where
  "example_template = JObj [(''text'', JStr ''On {{monitor.name}}: {{other}}''), (''n'', JArr [JNum 1])]"

lemma template_keeps_shape_witness:
  "skeleton (formatBody (\<lambda>_. Some example_template) example_hook_config example_named) = skeleton example_template \<and>
   formatBody (\<lambda>_. Some example_template) example_hook_config example_named =
     JObj [(''text'', JStr ''On {{type}}: {{other}}''), (''n'', JArr [JNum 1])]"
proof -
  have "given (cfg_bodyTemplate example_hook_config) = Some ''template''" "brace \<notin> set ''On ''"
    "''monitor.name'' \<noteq> []" "list_all name_char ''monitor.name''"
    by code_simp+
  from template_keeps_shape [OF this(1) refl this(2-4)]
  have "skeleton (formatBody (\<lambda>_. Some example_template) example_hook_config example_named) = skeleton example_template" ..
  then show ?thesis by (rule conjI) code_simp
qed

end
