(* ===== verification/Workers.thy ===== *)
theory Workers
  imports Jobs Probe Outages
begin

text \<open>
  The monitor workers as processes: the slots (\<open>worker/monitor/pool.ts\<close>), the poll loop
  (\<open>worker/monitor/index.ts\<close>) and several of them over one database.

  A pass of the loop is its two halves, the maintenance at most once a minute and the claim.  A fleet
  is a number of workers with the checks they run; a step is a claim, the end of a check, maintenance, a
  stop, an edit by someone else, or time that passes.  What the network answers a check is a parameter.
\<close>

section \<open>One worker\<close>

text \<open>The slots that are taken hold a monitor as it was claimed, and since when.\<close>

type_synonym slot = "monitor_row \<times> time"

(* src/src/worker/monitor/pool.ts:1-12 free: of the SlotPool *)
definition free_slots :: "env \<Rightarrow> slot list \<Rightarrow> int" where
  "free_slots env slots = WORKER_POLL_BATCH_SIZE env - int (length slots)"

(* src/src/worker/monitor/pool.ts:14-18 start *)
definition start_checks :: "time \<Rightarrow> monitor_row list \<Rightarrow> slot list \<Rightarrow> slot list" where
  "start_checks now ms slots = slots @ map (\<lambda>m. (m, now)) ms"

(* src/src/worker/monitor/index.ts:16-17 RESULT_SWEEP_INTERVAL_MS *)
definition RESULT_SWEEP_INTERVAL_MS :: int where
  "RESULT_SWEEP_INTERVAL_MS = 15000"

(* src/src/worker/monitor/index.ts:57-58 MAINTENANCE_INTERVAL_MS *)
definition MAINTENANCE_INTERVAL_MS :: int where
  "MAINTENANCE_INTERVAL_MS = 60000"

record worker =
  wk_running :: bool
  wk_backoffMs :: int
  wk_lastMaintenanceAt :: time
  wk_jobsSeeded :: bool
  wk_slots :: "slot list"

(* src/src/worker/monitor/index.ts:63-68 pollLoop: state *)
definition new_worker :: "env \<Rightarrow> worker" where
  "new_worker env = \<lparr>wk_running = True, wk_backoffMs = WORKER_BACKOFF_INITIAL_MS env, wk_lastMaintenanceAt = 0,
     wk_jobsSeeded = False, wk_slots = []\<rparr>"

text \<open>The maintenance half: what it throws ends the pass, which then sleeps for the longest backoff.\<close>

(* src/src/worker/monitor/index.ts:73-82 pollLoop: maintenance *)
definition maintenance_pass :: "ctx \<Rightarrow> cron \<Rightarrow> job_world \<Rightarrow> worker \<Rightarrow> db \<Rightarrow> string option \<times> worker \<times> db" where
  "maintenance_pass cx nxt jw w d = (
     if cx_now cx - wk_lastMaintenanceAt w < MAINTENANCE_INTERVAL_MS then (None, w, d)
     else let w1 = w\<lparr>wk_lastMaintenanceAt := cx_now cx\<rparr>;
              (seeding, d1) = (if wk_jobsSeeded w1 then (None, d) else initializeMaintenanceJobs cx nxt d) in
       case seeding of
         Some msg \<Rightarrow> (Some msg, w1, d1)
       | None \<Rightarrow> let w2 = w1\<lparr>wk_jobsSeeded := True\<rparr>; (err, ran, d2) = runDueMaintenanceJobs cx nxt jw d1 in
           (case err of
              Some msg \<Rightarrow> (Some msg, w2, d2)
            | None \<Rightarrow> (None, w2, releaseOverlongSchedules cx d2)))"

text \<open>The claiming half, with a slot free: how long the loop sleeps afterwards if there was nothing to claim.\<close>

(* src/src/worker/monitor/index.ts:84-109 pollLoop: claim *)
definition claim_pass :: "ctx \<Rightarrow> bool \<Rightarrow> id set \<Rightarrow> worker \<Rightarrow> db \<Rightarrow> int option \<times> worker \<times> db" where
  "claim_pass cx tracks locked w d = (
     if \<not> wk_running w then (None, w, d)
     else let (ms, d1) = claimDueMonitors cx tracks locked (nat (free_slots (cx_env cx) (wk_slots w))) d in
       if ms \<noteq> [] then (None, w\<lparr>wk_backoffMs := WORKER_BACKOFF_INITIAL_MS (cx_env cx),
           wk_slots := start_checks (cx_now cx) ms (wk_slots w)\<rparr>, d1)
       else (Some (wk_backoffMs w), w\<lparr>wk_backoffMs :=
           min (wk_backoffMs w * WORKER_BACKOFF_MULTIPLIER) (WORKER_BACKOFF_MAX_MS (cx_env cx))\<rparr>, d1))"

(* src/src/worker/monitor/index.ts:160-165 shutdown *)
definition shutdown :: "worker \<Rightarrow> worker" where
  "shutdown w = w\<lparr>wk_running := False\<rparr>"

text \<open>A check that ends frees its slot; one that could not be recorded leaves the database as it is.\<close>

(* src/src/worker/monitor/index.ts:22-36 processMonitor *)
definition processMonitor :: "ctx \<Rightarrow> bool \<Rightarrow> 'u network \<Rightarrow> bool \<Rightarrow> slot \<Rightarrow> db \<Rightarrow> db" where
  "processMonitor cx tracks nw stored sl d =
     (if stored then runCheck (cx\<lparr>cx_now := snd sl\<rparr>) cx tracks nw (fst sl) d else d)"

section \<open>A fleet\<close>

text \<open>When a claim's lease ends, and the monitors whose checks run.\<close>

definition lease_end :: "ctx \<Rightarrow> slot \<Rightarrow> time" where
  "lease_end cx sl = snd sl + LEASE_SECONDS cx (fst sl) * 1000"

record fleet =
  fl_now :: time
  fl_db :: db
  fl_workers :: "worker list"

definition fleet_slots :: "fleet \<Rightarrow> slot list" where
  "fleet_slots s = concat (map wk_slots (fl_workers s))"

definition at_time :: "ctx \<Rightarrow> fleet \<Rightarrow> ctx" where
  "at_time cx s = cx\<lparr>cx_now := fl_now s\<rparr>"

text \<open>The row of a running check: due when it was claimed, and held until its lease ends.\<close>

definition leased :: "ctx \<Rightarrow> slot \<Rightarrow> monitor_row \<Rightarrow> bool" where
  "leased cx sl r \<longleftrightarrow> on_some (\<lambda>n. n \<le> snd sl) (m_nextCheckAt r) \<and> m_checkBackoffUntil r = Some (lease_end cx sl) \<and>
     LEASE_SECONDS cx r = LEASE_SECONDS cx (fst sl)"

text \<open>
  What someone else may do while checks run: anything that leaves the leases of the running checks alone,
  ids unique, and timeouts and retries within the table's constraints, by which a lease is a positive time.
\<close>

definition leases_kept :: "ctx \<Rightarrow> slot list \<Rightarrow> db \<Rightarrow> bool" where
  "leases_kept cx slots d \<longleftrightarrow> unique_monitors d \<and> list_all (\<lambda>m. 0 < LEASE_SECONDS cx m) (monitors d) \<and>
     list_all (\<lambda>sl. list_all (\<lambda>r. m_id r = m_id (fst sl) \<longrightarrow> leased cx sl r) (monitors d)) slots"

text \<open>
  Time passes no further than the leases of the running checks.  A check takes less than its lease:
  \<open>Probe.check_within_lease\<close>.
\<close>

inductive fleet_step :: "ctx \<Rightarrow> bool \<Rightarrow> cron \<Rightarrow> job_world \<Rightarrow> (slot \<Rightarrow> 'u network) \<Rightarrow> fleet \<Rightarrow> fleet \<Rightarrow> bool"
  for cx :: ctx and tracks :: bool and nxt :: cron and jw :: job_world and nw :: "slot \<Rightarrow> 'u network" where
  Claims: "i < length (fl_workers s) \<Longrightarrow> 0 < free_slots (cx_env cx) (wk_slots (fl_workers s ! i)) \<Longrightarrow>
     claim_pass (at_time cx s) tracks locked (fl_workers s ! i) (fl_db s) = (pause, w', d') \<Longrightarrow>
     fleet_step cx tracks nxt jw nw s (s\<lparr>fl_db := d', fl_workers := (fl_workers s)[i := w']\<rparr>)"
| Ends: "i < length (fl_workers s) \<Longrightarrow> fl_workers s ! i = w \<Longrightarrow> wk_slots w = before @ sl # after \<Longrightarrow>
     fleet_step cx tracks nxt jw nw s (s\<lparr>fl_db := processMonitor (at_time cx s) tracks (nw sl) stored sl (fl_db s),
       fl_workers := (fl_workers s)[i := w\<lparr>wk_slots := before @ after\<rparr>]\<rparr>)"
| Maintains: "i < length (fl_workers s) \<Longrightarrow>
     maintenance_pass (at_time cx s) nxt jw (fl_workers s ! i) (fl_db s) = (err, w', d') \<Longrightarrow>
     leases_kept cx (fleet_slots s) d' \<Longrightarrow>
     fleet_step cx tracks nxt jw nw s (s\<lparr>fl_db := d', fl_workers := (fl_workers s)[i := w']\<rparr>)"
| Stops: "i < length (fl_workers s) \<Longrightarrow>
     fleet_step cx tracks nxt jw nw s (s\<lparr>fl_workers := (fl_workers s)[i := shutdown (fl_workers s ! i)]\<rparr>)"
| Edits: "leases_kept cx (fleet_slots s) d' \<Longrightarrow> fleet_step cx tracks nxt jw nw s (s\<lparr>fl_db := d'\<rparr>)"
| Waits: "fl_now s \<le> t \<Longrightarrow> list_all (\<lambda>sl. t < lease_end cx sl) (fleet_slots s) \<Longrightarrow>
     fleet_step cx tracks nxt jw nw s (s\<lparr>fl_now := t\<rparr>)"

inductive_cases fleet_step_cases: "fleet_step cx tracks nxt jw nw s s'"

inductive fleet_reaches :: "ctx \<Rightarrow> bool \<Rightarrow> cron \<Rightarrow> job_world \<Rightarrow> (slot \<Rightarrow> 'u network) \<Rightarrow> fleet \<Rightarrow> fleet \<Rightarrow> bool"
  for cx :: ctx and tracks :: bool and nxt :: cron and jw :: job_world and nw :: "slot \<Rightarrow> 'u network" where
  Starts: "fleet_reaches cx tracks nxt jw nw s s"
| Goes_on: "fleet_reaches cx tracks nxt jw nw s s1 \<Longrightarrow> fleet_step cx tracks nxt jw nw s1 s2 \<Longrightarrow>
     fleet_reaches cx tracks nxt jw nw s s2"

section \<open>What keeps the leases\<close>

lemma at_time_simps [simp]: "cx_now (at_time cx s) = fl_now s" "cx_env (at_time cx s) = cx_env cx"
  "LEASE_SECONDS (at_time cx s) m = LEASE_SECONDS cx m" "lease_end (at_time cx s) sl = lease_end cx sl"
  by (simp_all add: at_time_def lease_end_def LEASE_SECONDS_def)

lemma leased_not_due: "leased cx sl r \<Longrightarrow> t < lease_end cx sl \<Longrightarrow> \<not> due_row t r"
  by (simp add: leased_def due_row_def)

lemma lease_row_simps [simp]: "m_id (lease_row cx m) = m_id m" "LEASE_SECONDS cx' (lease_row cx m) = LEASE_SECONDS cx' m"
  "m_nextCheckAt (lease_row cx m) = m_nextCheckAt m"
  "m_checkBackoffUntil (lease_row cx m) = Some (cx_now cx + LEASE_SECONDS cx m * 1000)"
  by (simp_all add: lease_row_def LEASE_SECONDS_def)

text \<open>A rewrite of rows that keeps their ids and their timeouts, and the rows of the running checks as they are.\<close>

lemma leases_kept_update:
  assumes "leases_kept cx slots d" "monitors d' = update_where P f (monitors d)"
    and "\<And>m. m_id (f m) = m_id m" "\<And>m. LEASE_SECONDS cx (f m) = LEASE_SECONDS cx m"
    and "\<And>m sl. m \<in> set (monitors d) \<Longrightarrow> P m \<Longrightarrow> sl \<in> set slots' \<Longrightarrow> m_id m \<noteq> m_id (fst sl)"
    and "set slots' \<subseteq> set slots"
  shows "leases_kept cx slots' d'"
proof -
  have "map m_id (monitors d') = map m_id (monitors d)" using assms(3) by (simp add: assms(2) update_where_def)
  moreover have "list_all (\<lambda>m. 0 < LEASE_SECONDS cx m) (monitors d')"
    using assms(1,4) by (auto simp: leases_kept_def list_all_iff assms(2) in_update_where_iff split: if_splits)
  moreover have "leased cx sl r" if sl: "sl \<in> set slots'" and r: "r \<in> set (monitors d')" "m_id r = m_id (fst sl)" for sl r
  proof -
    from r(1) obtain m where m: "m \<in> set (monitors d)" "r = (if P m then f m else m)"
      by (auto simp: assms(2) in_update_where_iff)
    then have "m_id m = m_id (fst sl)" using r(2) assms(3) by (simp split: if_splits)
    with assms(5) [OF m(1) _ sl] m have "r = m" by (cases "P m") simp_all
    with assms(1,6) sl r m show ?thesis by (auto simp: leases_kept_def list_all_iff)
  qed
  ultimately show ?thesis using assms(1) by (simp add: leases_kept_def unique_monitors_def list_all_iff)
qed

lemma leases_kept_fewer: "leases_kept cx slots d \<Longrightarrow> set slots' \<subseteq> set slots \<Longrightarrow> leases_kept cx slots' d"
  by (auto simp: leases_kept_def list_all_iff)

text \<open>The end of a check writes the row of its monitor and no other.\<close>

lemma monitors_frame [simp]:
  "monitors (draw d) = monitors d" "monitors (postUpdate cx i st msg d) = monitors d"
  "monitors (openIncident cx m ti msg d) = monitors d" "monitors (resolveAutoIncident cx m msg d) = monitors d"
  "monitors (enqueue cx m ty pl d) = monitors d" "monitors (enqueueFlapping cx m d) = monitors d"
  "monitors (warnExpiry cx m row d) = monitors d" "monitors (recordStatus cx m row cur d) = monitors d"
  by (simp_all add: draw_def postUpdate_def openIncident_def resolveAutoIncident_def enqueue_def enqueueFlapping_def
      warnExpiry_def recordStatus_def Let_def split: option.split)

lemma interpret_monitors: "monitors (interpret_result cx m row d) = monitors d"
  by (simp add: interpret_result_def sendAlerts_def startFlapping_def alertDown_def alertUp_def alertDegraded_def Let_def
      split: option.split)

lemma processed_monitors:
  assumes "processResults cx mid d = Some (n, d')"
  shows "monitors d' = monitors d"
  by (rule processResults_invariant [where I = "\<lambda>e. monitors e = monitors d", OF assms]) (simp_all add: interpret_monitors)

lemma executed_monitors: "monitors (fst (executeCheck cx0 cx nw m d)) = monitors d"
  by (auto simp: executeCheck_def recordPushCheck_def insertResult_def Let_def dest: processed_monitors split: option.split)

definition check_end_row :: "ctx \<Rightarrow> bool \<Rightarrow> bool \<Rightarrow> monitor_row \<Rightarrow> monitor_row \<Rightarrow> monitor_row" where
  "check_end_row cx tracks ok m = (if ok then success_row cx m else failure_row cx tracks m ''processing failed'')"

lemma check_end_row_simps [simp]: "m_id (check_end_row cx tracks ok m r) = m_id r"
  "LEASE_SECONDS cx' (check_end_row cx tracks ok m r) = LEASE_SECONDS cx' r"
  by (simp_all add: check_end_row_def success_row_def failure_row_def LEASE_SECONDS_def Let_def)

lemma processMonitor_monitors:
  "\<exists>ok. monitors (processMonitor cx tracks nw stored sl d) =
    update_where (\<lambda>r. stored \<and> m_id r = m_id (fst sl)) (check_end_row cx tracks ok (fst sl)) (monitors d)"
proof (cases stored)
  case True
  obtain d1 ok where e: "executeCheck (cx\<lparr>cx_now := snd sl\<rparr>) cx nw (fst sl) d = (d1, ok)" by fastforce
  with executed_monitors [of "cx\<lparr>cx_now := snd sl\<rparr>" cx nw "fst sl" d] have "monitors d1 = monitors d" by simp
  with e True show ?thesis
    by (intro exI [of _ ok]) (simp add: processMonitor_def runCheck_def recordCheckSuccess_def recordCheckFailure_def
        check_end_row_def enqueueCheckState_def Let_def)
qed (simp add: processMonitor_def update_where_none)

text \<open>The release of overlong schedules reaches no running check.\<close>

lemma release_keeps_leases:
  assumes "leases_kept cx slots d" "0 \<le> CHECK_MAX_BACKOFF_MS (cx_env cx)" "list_all (\<lambda>sl. snd sl \<le> t) slots"
  shows "leases_kept cx slots (releaseOverlongSchedules (cx\<lparr>cx_now := t\<rparr>) d)"
proof (rule leases_kept_update [OF assms(1), of _ _ _ slots])
  show "monitors (releaseOverlongSchedules (cx\<lparr>cx_now := t\<rparr>) d) = update_where
     (\<lambda>m. m_active m \<and> on_some (\<lambda>n. n > t + (max (m_intervalSeconds m) (seconds (CHECK_MAX_BACKOFF_MS (cx_env cx))) +
        LEASE_SECONDS cx m) * 1000) (greatest (m_nextCheckAt m) (m_checkBackoffUntil m)))
     (\<lambda>m. m\<lparr>m_nextCheckAt := Some t, m_checkBackoffUntil := None\<rparr>) (monitors d)"
    by (simp add: releaseOverlongSchedules_def)
  fix m sl assume m: "m \<in> set (monitors d)" "m_active m \<and> on_some (\<lambda>n. n > t +
      (max (m_intervalSeconds m) (seconds (CHECK_MAX_BACKOFF_MS (cx_env cx))) + LEASE_SECONDS cx m) * 1000)
      (greatest (m_nextCheckAt m) (m_checkBackoffUntil m))" and sl: "sl \<in> set slots"
  show "m_id m \<noteq> m_id (fst sl)"
  proof
    assume "m_id m = m_id (fst sl)"
    with assms(1) m(1) sl have l: "leased cx sl m" "0 < LEASE_SECONDS cx m" by (auto simp: leases_kept_def list_all_iff)
    have "0 \<le> seconds (CHECK_MAX_BACKOFF_MS (cx_env cx))" using assms(2) by (simp add: seconds_def ceil_div_def)
    moreover have "snd sl \<le> t" using assms(3) sl by (simp add: list_all_iff)
    moreover obtain n where n: "m_nextCheckAt m = Some n" "n \<le> snd sl" using l(1) by (auto simp: leased_def on_some_iff)
    moreover have b: "m_checkBackoffUntil m = Some (snd sl + LEASE_SECONDS cx m * 1000)" using l(1) by (simp add: leased_def lease_end_def)
    moreover have "max n (snd sl + LEASE_SECONDS cx m * 1000) > t + (max (m_intervalSeconds m)
        (seconds (CHECK_MAX_BACKOFF_MS (cx_env cx))) + LEASE_SECONDS cx m) * 1000"
      using m(2) by (simp add: n(1) b)
    ultimately show False using l(2) by (simp add: max_def split: if_splits)
  qed
qed (simp_all add: LEASE_SECONDS_def)

section \<open>A claim\<close>

text \<open>
  A claim takes as many monitors as are asked for at most, none twice and none whose check runs, and its
  leases join those that are held.
\<close>

lemma claim_keeps_leases:
  assumes claim: "claimDueMonitors (cx\<lparr>cx_now := t\<rparr>) tracks locked n d = (ms, d')"
    and kept: "leases_kept cx slots d" and held: "list_all (\<lambda>sl. t < lease_end cx sl) slots"
  shows "length ms \<le> n" "distinct (map m_id ms)" "m_id ` set ms \<inter> (m_id \<circ> fst) ` set slots = {}"
    "list_all (\<lambda>m. t < lease_end cx (m, t)) ms" "leases_kept cx (slots @ map (\<lambda>m. (m, t)) ms) d'"
proof -
  let ?cx = "cx\<lparr>cx_now := t\<rparr>"
  define due where "due = due_monitors t locked n d"
  let ?rows = "update_where (\<lambda>m. m_id m \<in> m_id ` set due) (lease_row ?cx) (monitors d)"
  have d': "monitors d' = ?rows" and ids: "m_id ` set ms = m_id ` set due"
    using claim_rows(1,2) [OF claim] by (simp_all add: due_def)
  have keys: "distinct (map m_id (monitors d))" using kept by (simp add: leases_kept_def unique_monitors_def)
  have due: "m \<in> set (monitors d)" "due_row t m" if "m \<in> set due" for m
    using due_monitors_due that unfolding due_def by blast+
  let ?strip = "\<lambda>m. if tracks then m else m\<lparr>m_deadLetteredAt := None\<rparr>"
  have ms: "ms = map ?strip (filter (\<lambda>m. m_id m \<in> m_id ` set due) ?rows)"
    using claim d' by (auto simp: claimDueMonitors_def due_def [symmetric] Let_def split: if_splits)
  have strip: "m_id (?strip m) = m_id m" "LEASE_SECONDS cx (?strip m) = LEASE_SECONDS cx m" for m
    by (simp_all add: LEASE_SECONDS_def)
  have row_ids: "map m_id ?rows = map m_id (monitors d)" by (simp add: update_where_def)
  have "map m_id ms = filter (\<lambda>k. k \<in> m_id ` set due) (map m_id (monitors d))"
    unfolding ms row_ids [symmetric] filter_map by (simp add: strip comp_def)
  then show dist: "distinct (map m_id ms)" using keys by simp
  have "length ms = card (m_id ` set due)" using distinct_card [OF dist] ids by simp
  also have "\<dots> \<le> length due" by (rule order.trans [OF card_image_le [OF List.finite_set] card_length])
  finally show "length ms \<le> n" by (simp add: due_def due_monitors_def)
  show apart: "m_id ` set ms \<inter> (m_id \<circ> fst) ` set slots = {}"
  proof (rule equals0I)
    fix k assume "k \<in> m_id ` set ms \<inter> (m_id \<circ> fst) ` set slots"
    then obtain m sl where m: "m \<in> set due" "m_id m = k" and sl: "sl \<in> set slots" "m_id (fst sl) = k"
      unfolding ids by (auto simp: comp_def)
    have "leased cx sl m" using kept due(1) [OF m(1)] m(2) sl by (simp add: leases_kept_def list_all_iff)
    with leased_not_due [OF this] held sl(1) due(2) [OF m(1)] show False by (auto simp: list_all_iff)
  qed
  have claimed: "\<exists>r. r \<in> set due \<and> m_id r = m_id m \<and> LEASE_SECONDS cx r = LEASE_SECONDS cx m" if m: "m \<in> set ms" for m
  proof -
    from m have "m \<in> ?strip ` {q \<in> set ?rows. m_id q \<in> m_id ` set due}" by (simp only: ms set_map set_filter)
    then obtain q where q: "q \<in> set ?rows" "m_id q \<in> m_id ` set due" "m = ?strip q"
      by (rule imageE) (drule CollectD, erule conjE, rule that, assumption+)
    then obtain r where r: "r \<in> set (monitors d)" "m_id r \<in> m_id ` set due" "q = lease_row ?cx r"
      by (auto simp: in_update_where_iff split: if_splits)
    from r(2) obtain p where p: "p \<in> set due" "m_id p = m_id r" by auto
    with keys r(1) due(1) have "p = r" by (auto simp: distinct_map dest: inj_onD)
    with p q r strip show ?thesis by (intro exI [of _ r]) simp
  qed
  have positive: "0 < LEASE_SECONDS cx m" if "m \<in> set (monitors d)" for m using kept that by (simp add: leases_kept_def list_all_iff)
  show "list_all (\<lambda>m. t < lease_end cx (m, t)) ms"
    unfolding list_all_iff lease_end_def using claimed positive due(1) by (metis fst_conv snd_conv less_add_same_cancel1 mult_pos_pos zero_less_numeral)
  have old: "leases_kept cx slots d'"
    by (rule leases_kept_update [OF kept d']) (use apart ids in \<open>auto simp: comp_def\<close>)
  have "leased cx (m, t) r" if m: "m \<in> set ms" and r: "r \<in> set (monitors d')" "m_id r = m_id m" for m r
  proof -
    from claimed [OF m] obtain p where p: "p \<in> set due" "m_id p = m_id m" "LEASE_SECONDS cx p = LEASE_SECONDS cx m" by blast
    from r(1) obtain q where q: "q \<in> set (monitors d)" "r = (if m_id q \<in> m_id ` set due then lease_row ?cx q else q)"
      by (auto simp: d' in_update_where_iff)
    with r(2) have "m_id q = m_id p" by (simp add: p(2) split: if_splits)
    with keys q(1) due(1) p(1) have "q = p" by (auto simp: distinct_map dest: inj_onD)
    moreover have "m_id p \<in> m_id ` set due" using p(1) by (rule imageI)
    ultimately have "r = lease_row ?cx p" using q(2) by simp
    with p due(2) [OF p(1)] show ?thesis by (simp add: leased_def lease_end_def due_row_def)
  qed
  with old show "leases_kept cx (slots @ map (\<lambda>m. (m, t)) ms) d'" by (auto simp: leases_kept_def list_all_iff)
qed

section \<open>No monitor in two slots\<close>

definition fleet_ok :: "ctx \<Rightarrow> fleet \<Rightarrow> bool" where
  "fleet_ok cx s \<longleftrightarrow> leases_kept cx (fleet_slots s) (fl_db s) \<and>
     distinct (map (m_id \<circ> fst) (fleet_slots s)) \<and>
     list_all (\<lambda>sl. snd sl \<le> fl_now s \<and> fl_now s < lease_end cx sl) (fleet_slots s) \<and>
     list_all (\<lambda>w. int (length (wk_slots w)) \<le> max 0 (WORKER_POLL_BATCH_SIZE (cx_env cx))) (fl_workers s)"

lemma split_at_worker:
  assumes "i < length ws"
  obtains xs ys where "ws = xs @ ws ! i # ys" "\<And>w. ws[i := w] = xs @ w # ys"
  using id_take_nth_drop [OF assms] upd_conv_take_nth_drop [OF assms] by blast

lemma distinct_replaced:
  assumes "distinct (map f (a @ (b @ gone @ c) @ e))" "distinct (map f new)" "f ` set new \<inter> f ` set (a @ (b @ gone @ c) @ e) = {}"
  shows "distinct (map f (a @ (b @ new @ c) @ e))"
  using assms by (simp add: image_Un Int_Un_distrib Int_Un_distrib2 Int_commute)

text \<open>Whether a fleet is in order depends on the slots as a whole and the number in each worker.\<close>

lemma fleet_ok_replace:
  assumes ok: "fleet_ok cx s" and i: "i < length (fl_workers s)" and w: "wk_slots w' = before @ new @ after"
    and old: "wk_slots (fl_workers s ! i) = before @ gone @ after"
    and size: "int (length (wk_slots w')) \<le> max 0 (WORKER_POLL_BATCH_SIZE (cx_env cx))"
    and fresh: "distinct (map (m_id \<circ> fst) new)" "(m_id \<circ> fst) ` set new \<inter> (m_id \<circ> fst) ` set (fleet_slots s) = {}"
    and running: "list_all (\<lambda>sl. snd sl \<le> fl_now s \<and> fl_now s < lease_end cx sl) new"
    and kept: "leases_kept cx (fleet_slots (s\<lparr>fl_db := d', fl_workers := (fl_workers s)[i := w']\<rparr>)) d'"
  shows "fleet_ok cx (s\<lparr>fl_db := d', fl_workers := (fl_workers s)[i := w']\<rparr>)"
proof -
  obtain xs ys where ws: "fl_workers s = xs @ fl_workers s ! i # ys" "(fl_workers s)[i := w'] = xs @ w' # ys"
    using split_at_worker [OF i] by metis
  let ?a = "concat (map wk_slots xs)" and ?b = "concat (map wk_slots ys)"
  have slots: "fleet_slots s = ?a @ (before @ gone @ after) @ ?b"
    "fleet_slots (s\<lparr>fl_db := d', fl_workers := (fl_workers s)[i := w']\<rparr>) = ?a @ (before @ new @ after) @ ?b"
    unfolding fleet_slots_def by (subst ws(1), simp add: old) (simp add: ws(2) w)
  have "distinct (map (m_id \<circ> fst) (fleet_slots (s\<lparr>fl_db := d', fl_workers := (fl_workers s)[i := w']\<rparr>)))"
    using distinct_replaced [OF _ fresh(1) fresh(2) [unfolded slots(1)]] ok unfolding fleet_ok_def slots by blast
  moreover have "list_all (\<lambda>sl. snd sl \<le> fl_now s \<and> fl_now s < lease_end cx sl)
      (fleet_slots (s\<lparr>fl_db := d', fl_workers := (fl_workers s)[i := w']\<rparr>))"
    using ok running unfolding fleet_ok_def slots by simp
  moreover have "list_all (\<lambda>w. int (length (wk_slots w)) \<le> max 0 (WORKER_POLL_BATCH_SIZE (cx_env cx))) ((fl_workers s)[i := w'])"
    using ok size set_update_subset_insert [of "fl_workers s" i w'] unfolding fleet_ok_def list_all_iff by blast
  ultimately show ?thesis using kept by (simp add: fleet_ok_def)
qed

lemma fleet_ok_same_slots:
  assumes "fleet_ok cx s" "i < length (fl_workers s)" "wk_slots w' = wk_slots (fl_workers s ! i)" "leases_kept cx (fleet_slots s) d'"
  shows "fleet_ok cx (s\<lparr>fl_db := d', fl_workers := (fl_workers s)[i := w']\<rparr>)"
proof (rule fleet_ok_replace [OF assms(1,2), of _ "wk_slots w'" "[]" "[]" "[]"])
  have "map wk_slots ((fl_workers s)[i := w']) = map wk_slots (fl_workers s)"
    by (simp add: map_update assms(3) list_update_same_conv assms(2))
  then show "leases_kept cx (fleet_slots (s\<lparr>fl_db := d', fl_workers := (fl_workers s)[i := w']\<rparr>)) d'"
    using assms(4) by (simp add: fleet_slots_def)
  show "int (length (wk_slots w')) \<le> max 0 (WORKER_POLL_BATCH_SIZE (cx_env cx))"
    using assms(1-3) by (simp add: fleet_ok_def list_all_length)
qed (simp_all add: assms(3))

lemma fleet_slots_worker: "i < length (fl_workers s) \<Longrightarrow> set (wk_slots (fl_workers s ! i)) \<subseteq> set (fleet_slots s)"
  unfolding fleet_slots_def set_concat set_map using nth_mem [of i "fl_workers s"] by blast

lemma claim_pass_ok:
  assumes ok: "fleet_ok cx s" and i: "i < length (fl_workers s)" and free: "0 < free_slots (cx_env cx) (wk_slots (fl_workers s ! i))"
    and pass: "claim_pass (at_time cx s) tracks locked (fl_workers s ! i) (fl_db s) = (pause, w', d')"
  shows "fleet_ok cx (s\<lparr>fl_db := d', fl_workers := (fl_workers s)[i := w']\<rparr>)"
proof -
  let ?w = "fl_workers s ! i" and ?n = "nat (free_slots (cx_env cx) (wk_slots (fl_workers s ! i)))"
  obtain ms d1 where c: "claimDueMonitors (cx\<lparr>cx_now := fl_now s\<rparr>) tracks locked ?n (fl_db s) = (ms, d1)" by fastforce
  have held: "leases_kept cx (fleet_slots s) (fl_db s)" "list_all (\<lambda>sl. fl_now s < lease_end cx sl) (fleet_slots s)"
    using ok by (auto simp: fleet_ok_def list_all_iff)
  note claim = claim_keeps_leases [OF c held]
  have same: "leases_kept cx (fleet_slots s) d1" by (rule leases_kept_fewer [OF claim(5)]) simp
  consider "wk_slots w' = wk_slots ?w" "d' = fl_db s \<or> d' = d1"
    | "wk_slots w' = wk_slots ?w @ map (\<lambda>m. (m, fl_now s)) ms" "d' = d1"
    using pass c by (auto simp: claim_pass_def start_checks_def at_time_def split: if_splits)
  then show ?thesis
  proof cases
    case 1
    then show ?thesis using held(1) same by (intro fleet_ok_same_slots [OF ok i]) auto
  next
    case 2
    let ?new = "map (\<lambda>m. (m, fl_now s)) ms"
    show ?thesis
    proof (rule fleet_ok_replace [OF ok i, of _ "wk_slots ?w" ?new "[]" "[]"])
      show "int (length (wk_slots w')) \<le> max 0 (WORKER_POLL_BATCH_SIZE (cx_env cx))"
        using claim(1) free by (simp add: 2(1) free_slots_def)
      have "fleet_slots (s\<lparr>fl_db := d', fl_workers := (fl_workers s)[i := w']\<rparr>) =
          concat (map wk_slots ((fl_workers s)[i := w']))" by (simp add: fleet_slots_def)
      moreover have "set (concat (map wk_slots ((fl_workers s)[i := w']))) \<subseteq> set (fleet_slots s) \<union> set (wk_slots w')"
        using set_update_subset_insert [of "fl_workers s" i w'] by (auto simp: fleet_slots_def)
      ultimately have "set (fleet_slots (s\<lparr>fl_db := d', fl_workers := (fl_workers s)[i := w']\<rparr>)) \<subseteq> set (fleet_slots s @ ?new)"
        using fleet_slots_worker [OF i] 2(1) by auto
      with claim(5) show "leases_kept cx (fleet_slots (s\<lparr>fl_db := d', fl_workers := (fl_workers s)[i := w']\<rparr>)) d'"
        unfolding 2(2) by (rule leases_kept_fewer)
    qed (use 2(1) claim(2-4) in \<open>simp_all add: comp_def list_all_iff image_image\<close>)
  qed
qed

lemma fleet_step_ok: "fleet_step cx tracks nxt jw nw s s' \<Longrightarrow> fleet_ok cx s \<Longrightarrow> fleet_ok cx s'"
proof (induction rule: fleet_step.induct)
  case (Claims i s locked pause w' d')
  then show ?case using claim_pass_ok by blast
next
  case (Ends i s w before sl after stored)
  let ?d = "processMonitor (at_time cx s) tracks (nw sl) stored sl (fl_db s)"
  let ?w = "w\<lparr>wk_slots := before @ after\<rparr>"
  let ?s = "s\<lparr>fl_db := ?d, fl_workers := (fl_workers s)[i := ?w]\<rparr>"
  obtain xs ys where ws: "fl_workers s = xs @ w # ys" "(fl_workers s)[i := ?w] = xs @ ?w # ys"
    using split_at_worker [OF Ends(1)] Ends(2) by metis
  let ?a = "concat (map wk_slots xs)" and ?b = "concat (map wk_slots ys)"
  have slots: "fleet_slots s = ?a @ (before @ sl # after) @ ?b" "fleet_slots ?s = ?a @ (before @ after) @ ?b"
    by (simp add: fleet_slots_def ws(1) Ends(3), simp add: fleet_slots_def ws(2))
  have apart: "m_id (fst sl) \<notin> (m_id \<circ> fst) ` set (fleet_slots ?s)"
    using Ends(4) unfolding fleet_ok_def slots by (auto simp: comp_def)
  show ?case
  proof (rule fleet_ok_replace [OF Ends(4,1), of _ before "[]" after "[sl]"])
    obtain ok where d: "monitors ?d = update_where (\<lambda>r. stored \<and> m_id r = m_id (fst sl))
        (check_end_row (at_time cx s) tracks ok (fst sl)) (monitors (fl_db s))"
      using processMonitor_monitors by blast
    show "leases_kept cx (fleet_slots ?s) ?d"
    proof (rule leases_kept_update [OF _ d])
      show "leases_kept cx (fleet_slots s) (fl_db s)" using Ends(4) by (simp add: fleet_ok_def)
      show "set (fleet_slots ?s) \<subseteq> set (fleet_slots s)" unfolding slots by auto
    qed (use apart in \<open>auto simp: image_iff\<close>)
    have "int (length (wk_slots w)) \<le> max 0 (WORKER_POLL_BATCH_SIZE (cx_env cx))"
      using Ends(4) ws(1) by (simp add: fleet_ok_def)
    then show "int (length (wk_slots ?w)) \<le> max 0 (WORKER_POLL_BATCH_SIZE (cx_env cx))" using Ends(3) by simp
  qed (use Ends in simp_all)
next
  case (Maintains i s err w' d')
  have "wk_slots w' = wk_slots (fl_workers s ! i)"
    using Maintains(2) by (auto simp: maintenance_pass_def Let_def split: if_splits prod.splits option.splits)
  with Maintains show ?case by (intro fleet_ok_same_slots)
next
  case (Stops i s)
  then have "fleet_ok cx (s\<lparr>fl_db := fl_db s, fl_workers := (fl_workers s)[i := shutdown (fl_workers s ! i)]\<rparr>)"
    by (intro fleet_ok_same_slots) (simp_all add: shutdown_def fleet_ok_def)
  then show ?case by simp
next
  case (Edits s d')
  then show ?case by (simp add: fleet_ok_def fleet_slots_def)
next
  case (Waits s t)
  then have "snd sl \<le> t \<and> t < lease_end cx sl" if "sl \<in> set (fleet_slots s)" for sl
    using that unfolding fleet_ok_def list_all_iff by (meson order.trans)
  with Waits(3) show ?case by (simp add: fleet_ok_def fleet_slots_def list_all_iff)
qed


section \<open>Two workers\<close>

definition example_fleet :: fleet where
  "example_fleet = \<lparr>fl_now = 5000, fl_db = example_queue_db, fl_workers = replicate 2 (new_worker (\<lambda>_. None))\<rparr>"

definition example_cron :: cron where
  "example_cron c t = Inr (t + 60000)"

definition example_then :: ctx where
  "example_then = (example_ctx 0)\<lparr>cx_now := 5000\<rparr>"

text \<open>After the first claims both monitors, the second finds none.\<close>

definition example_claimed :: fleet where
  "example_claimed = example_fleet\<lparr>
     fl_db := snd (snd (claim_pass example_then True {} (new_worker (\<lambda>_. None)) example_queue_db)),
     fl_workers := [fst (snd (claim_pass example_then True {} (new_worker (\<lambda>_. None)) example_queue_db)),
       new_worker (\<lambda>_. None)]\<rparr>"

lemma example_claim_step:
  "fleet_reaches (example_ctx 0) True example_cron jw nw example_fleet example_claimed"
proof -
  let ?w = "new_worker (\<lambda>_. None)"
  have at: "at_time (example_ctx 0) example_fleet = example_then"
    by (simp add: at_time_def example_fleet_def example_then_def)
  have "fleet_step (example_ctx 0) True example_cron jw nw example_fleet
      (example_fleet\<lparr>fl_db := snd (snd (claim_pass example_then True {} ?w example_queue_db)),
        fl_workers := (fl_workers example_fleet)[0 := fst (snd (claim_pass example_then True {} ?w example_queue_db))]\<rparr>)"
    by (rule Claims [where locked = "{}" and pause = "fst (claim_pass example_then True {} ?w example_queue_db)"])
      (simp_all add: at, simp_all add: example_fleet_def example_then_def new_worker_def free_slots_def WORKER_POLL_BATCH_SIZE_def envInt_unset)
  then have "fleet_step (example_ctx 0) True example_cron jw nw example_fleet example_claimed"
    by (simp add: example_claimed_def example_fleet_def numeral_2_eq_2)
  with Starts show ?thesis by (rule Goes_on)
qed


end
