(* ===== verification/Spec2Isabelle.thy ===== *)
theory Spec2Isabelle
  imports AutoIncidents Plans Scheduler Probe Mail NotifierRuns Incidents Blocks PublicPages
    AuditLog Jobs OpsAlerts PrivateAddress Api
    Admin Gates Channels Invitations AuthHooks ResponseHistory
    Dial Messages Workers
begin

text \<open>
  Uppity: a model of the server and the workers of an uptime monitor, for the TypeScript under
  \<open>src/src\<close>.  Paths below are relative to that directory.

  \<^bold>\<open>How the program works.\<close>  Monitor workers (\<open>worker/monitor\<close>) claim due monitors from the database,
  check each over HTTP or TCP, and insert a result; a push monitor's result comes from its endpoint
  instead.  The result processor interprets the waiting results of a monitor in the order they were
  checked: it writes the status row, opens and closes incidents, and queues notification events.  The
  notifier (\<open>worker/notifier\<close>) claims events and dispatches them to channels and to the subscribers of
  status pages.  The web server (\<open>lib/server/services\<close>) lets members manage monitors, channels,
  incidents, windows, status pages, domains and billing, shows public pages, and serves an API; staff
  administer the instance.  Maintenance jobs aggregate, clean up, meter and enforce what a plan allows.
  All parts meet in one database, so most of what makes them right is what a row may become while
  others work on it.

  \<^bold>\<open>How it is modelled.\<close>  A table is the list of its rows in physical order, the database a record of
  tables (\<open>Schema\<close>); a query is a filter, a stable sort and a limit; a transaction is one step.  An
  operation is a function from a context, its input and the database to an answer and the database
  after it, with every early return, refusal and exception a value.  The context carries the clock, the
  source of ids and the environment.  Concurrency is the interleaving of such steps: step relations
  where several processes share rows, and sequences of operations elsewhere.  Integers are the
  unbounded ones, as the numbers of the source stay far below the precision of a double; addresses are
  words.  Timestamps count milliseconds.  Code that is not the repository's (resolvers, sockets, mail
  servers, the authentication, billing and cron libraries) is a parameter: what it answers when asked.

  \<^bold>\<open>Foundations.\<close>  \<open>Prelude\<close> has the table operations, the collections \<open>table_simps\<close> and \<open>frame_simps\<close>, and
  two contracts as locales: \<open>lifecycle\<close>, a status column whose final values stay (interpreted for
  maintenance windows), and \<open>keyed_update\<close>, an update that keeps a table's key (for the status row, the
  result of a check, and automatic incidents).  \<open>Leases\<close> has the locale \<open>lease_queue\<close>, a queue several
  workers claim from, interpreted for the monitors in \<open>Scheduler\<close> and the events in \<open>Notifier\<close>;
  \<open>Pagination\<close> has \<open>keyset\<close>, a list read by cursors, interpreted for the four lists of the API in \<open>Api\<close>.
  \<open>Config\<close> (\<open>lib/utils.ts\<close>, \<open>lib/constants\<close>) reads the settings, \<open>Schema\<close> (\<open>lib/server/db/schema.ts\<close>)
  declares the tables, \<open>Formats\<close> (\<open>lib/format.ts\<close>) the dates and texts, \<open>Plans\<close> the plans.

  \<^bold>\<open>Checks.\<close>  \<open>PrivateAddress\<close> and \<open>Dial\<close> (\<open>private-address.ts\<close>, \<open>tcp.ts\<close>): a connection is tried at public
  addresses only and handed out only to a trusted peer.  \<open>Http\<close> (\<open>worker/monitor/http.ts\<close>): requests,
  redirects and the verdict; credentials stay with the origin they were meant for.  \<open>Probe\<close>
  (\<open>check.ts\<close>, the push endpoint): retries, heartbeats and the whole check, which outlasts no lease.
  \<open>Scheduler\<close> (\<open>schedule.ts\<close>): claims with leases, backoff and dead letters.  \<open>Workers\<close> (\<open>index.ts\<close>,
  \<open>pool.ts\<close>): several poll loops over one database; no monitor is in two slots.

  \<^bold>\<open>Results.\<close>  \<open>Processor\<close> (\<open>worker/monitor/processor.ts\<close>) interprets results.  \<open>Outages\<close> proves what its
  alerts promise: every alerted outage is followed by its recovery, no recovery comes unasked, and
  when a flapping monitor is held and released.  \<open>Results\<close> proves that the status row refines a small
  status machine, \<open>AutoIncidents\<close> that a monitor has at most one automatic incident.

  \<^bold>\<open>Notifications.\<close>  \<open>Dispatch\<close> and \<open>Delivery\<close> (\<open>notifications/service.ts\<close>): which channels a message goes
  to, retries owed to some of them, and that no channel takes a message twice.  \<open>Messages\<close>
  (\<open>message.ts\<close>, \<open>slack.ts\<close>, \<open>discord.ts\<close>, \<open>webhook.ts\<close>, \<open>http.ts\<close>): what is sent and what an answer means.
  \<open>Notifier\<close> and \<open>NotifierRuns\<close> (\<open>worker/notifier/processor.ts\<close>): claims, sends and guarded writes
  interleaved; outcomes are final, retries run out, and no event is stranded.  \<open>Mail\<close>,
  \<open>EmailChannels\<close>, \<open>Subscribers\<close> and \<open>Invitations\<close>: who may be sent email at all, with caps, consent and
  opt-outs.  \<open>OpsAlerts\<close>: alerts for the operator with their cooldown, and the watchdog.

  \<^bold>\<open>Members' operations.\<close>  \<open>Monitors\<close>, \<open>Capacity\<close>, \<open>Subscriptions\<close>, \<open>Blocks\<close> and \<open>Usage\<close>: what a plan pays
  for is a ceiling no operation passes, paid blocks are well formed and billed in full, and nothing is
  paused unwarned.  \<open>MaintenanceWindows\<close>, \<open>Incidents\<close>, \<open>Channels\<close>, \<open>StatusPages\<close>, \<open>DomainNames\<close>, \<open>Domains\<close>: every
  operation of the services of those names.  \<open>PublicPages\<close> and \<open>ResponseHistory\<close>: what a page and a
  history show of the checks.  \<open>Gates\<close>: the limiter, roles and what a host name may show.  \<open>AuthHooks\<close>:
  the hooks and webhooks registered with the libraries.  \<open>Api\<close>: keys, lists and records.  \<open>Admin\<close> and
  \<open>AuditLog\<close>: staff operations, each recorded, and the export.  \<open>Jobs\<close> and \<open>Stats\<close>: the maintenance jobs.

  \<^bold>\<open>Lemmas.\<close>  Each theory first says what its operations leave alone (the frame lemmas, in
  \<open>frame_simps\<close>), then what they do on each branch, then that they keep the invariant of their tables;
  a property is a few steps over these.  Properties carry the ids C1 to C40; a witness after a
  property applies it to a concrete database.

  \<^bold>\<open>Bounds and fuel.\<close>  Recursion is structural or has a measure; redirects are followed at most
  twenty times, as in the source.  Fuel occurs once: a client that follows the cursors of a list, for
  which more pages than rows are enough, and the property says the list is returned.  The retries of an
  event end after seven attempts, and a sweep reclaims a row after thirty minutes.

  \<^bold>\<open>Assumptions.\<close>  Ids drawn are fresh and the clock does not run backwards where a property says so.
  Databases keep their unique columns and foreign keys.  A worker's check ends before its lease
  (\<open>Workers\<close>), which the times in \<open>Probe\<close> make so.  Members who reschedule a monitor while it is checked
  can start a second check of it; both results are interpreted, in the order they were checked.

  \<^bold>\<open>Not modelled.\<close>  Pages and components, which are markup and the state of a browser; route handlers
  and remote functions, which read a session, parse a form and call one operation; the OpenAPI document;
  validation schemas of forms; translated texts and the texts of emails; the configuration of the
  authentication and billing libraries; the connection pool; logs and telemetry; timers and signals of
  the notifier's process.  Indexes and query plans have no meaning here.  Texts are lists of characters
  of eight bits, so signs beyond them are parameters.
\<close>

end
